(* ===== verification/Prelude.thy ===== *)
theory Prelude
  imports Main "HOL-Library.Monad_Syntax"
begin

section \<open>Prelude: machine integers, panics, loops and list surgery\<close>

text \<open>
  Shared vocabulary of the development.
  \<^item> Integer types of the source are type synonyms of \<open>nat\<close>; every operation that can leave the
    range of its width is one of the functions below, with the wrap-around (plain \<open>+\<close> and \<open>-\<close> of a
    release build, \<open>as\<close> casts) or the saturation written out. \<open>usize\<close> values count elements of
    in-memory collections and stay far from \<open>2 ^ 64\<close>; they are plain \<open>nat\<close>.
  \<^item> A Rust panic (index out of bounds, slice off a character boundary) is the value \<open>None\<close> of the
    option monad; \<open>ok P m\<close> is total correctness: \<open>m\<close> does not panic and its result satisfies \<open>P\<close>.
  \<^item> \<open>for\<close> loops are \<open>for_m\<close> over the list of the values the loop variable takes.
\<close>

named_theorems u16_simps \<open>the 16-bit operations where their result is in range\<close>
named_theorems list_surgery \<open>inserting, removing and updating list positions\<close>

type_synonym u8 = nat
type_synonym u16 = nat
type_synonym u32 = nat
type_synonym usize = nat
type_synonym rchar = nat \<comment> \<open>a Rust \<open>char\<close>: its Unicode scalar value\<close>

subsection \<open>Fixed-width arithmetic\<close>

definition u16_max :: nat where
  "u16_max = 65535"

definition as_u8 :: "nat \<Rightarrow> u8" where
  "as_u8 n = n mod 256"

definition as_u16 :: "nat \<Rightarrow> u16" where
  "as_u16 n = n mod 65536"

definition u16_add :: "u16 \<Rightarrow> u16 \<Rightarrow> u16" where
  "u16_add a b = (a + b) mod 65536"

definition u16_sub :: "u16 \<Rightarrow> u16 \<Rightarrow> u16" where
  "u16_sub a b = (a + 65536 - b) mod 65536"

definition u16_sat_add :: "u16 \<Rightarrow> u16 \<Rightarrow> u16" where
  "u16_sat_add a b = min (a + b) u16_max"

definition u16_sat_sub :: "u16 \<Rightarrow> u16 \<Rightarrow> u16" where
  "u16_sat_sub a b = (if b \<le> a then a - b else 0)"

lemma as_u8_id [simp]: "n < 256 \<Longrightarrow> as_u8 n = n"
  by (simp add: as_u8_def)

lemma as_u8_lt [simp]: "as_u8 n < 256"
  by (simp add: as_u8_def)

lemma as_u16_id [simp]: "n < 65536 \<Longrightarrow> as_u16 n = n"
  by (simp add: as_u16_def)

lemma as_u16_lt [simp]: "as_u16 n < 65536"
  by (simp add: as_u16_def)

lemma u16_add_id [u16_simps]: "a + b < 65536 \<Longrightarrow> u16_add a b = a + b"
  by (simp add: u16_add_def)

lemma u16_add_lt [simp]: "u16_add a b < 65536"
  by (simp add: u16_add_def)

lemma u16_sub_id [u16_simps]:
  assumes "b \<le> a" "a < 65536"
  shows "u16_sub a b = a - b"
proof -
  from assms(1) have "a + 65536 - b = (a - b) + 65536" by (rule Nat.diff_add_assoc2 [of b a 65536])
  moreover have "((a - b) + 65536) mod 65536 = (a - b) mod 65536" by (rule mod_add_self2)
  moreover have "(a - b) mod 65536 = a - b" using assms(2) by (intro mod_less) linarith
  ultimately show ?thesis unfolding u16_sub_def by (simp only:)
qed

lemma u16_sat_sub_eq [u16_simps]: "u16_sat_sub a b = a - b"
  by (simp add: u16_sat_sub_def)

lemma u16_sat_sub_le [simp]: "u16_sat_sub a b \<le> a"
  by (simp add: u16_sat_sub_def)

lemma u16_sat_add_le [simp]: "u16_sat_add a b < 65536"
  by (simp add: u16_sat_add_def u16_max_def)

subsection \<open>Bytes of a literal\<close>

definition bytes :: "string \<Rightarrow> u8 list" where
  "bytes s = map of_char s"

lemma bytes_Nil [simp]: "bytes [] = []"
  and bytes_Cons [simp]: "bytes (c # s) = of_char c # bytes s"
  by (simp_all add: bytes_def)

lemma length_bytes [simp]: "length (bytes s) = length s"
  by (simp add: bytes_def)

definition ESC :: u8 where
  "ESC = 27"

subsection \<open>Panics: total correctness in the option monad\<close>

definition ok :: "('a \<Rightarrow> bool) \<Rightarrow> 'a option \<Rightarrow> bool" where
  "ok P m = (case m of None \<Rightarrow> False | Some x \<Rightarrow> P x)"

lemma ok_Some [simp]: "ok P (Some x) = P x"
  by (simp add: ok_def)

lemma ok_None [simp]: "\<not> ok P None"
  by (simp add: ok_def)

lemma ok_bind [simp]: "ok P (Option.bind m f) = ok (\<lambda>x. ok P (f x)) m"
  by (simp add: ok_def split: option.splits Option.bind_splits)

lemma ok_mono: "ok P m \<Longrightarrow> (\<And>x. P x \<Longrightarrow> Q x) \<Longrightarrow> ok Q m"
  by (auto simp: ok_def split: option.splits)

lemma ok_Some_D: "ok P m \<Longrightarrow> m = Some x \<Longrightarrow> P x"
  by (simp add: ok_def)

lemma ok_ex: "ok P m \<longleftrightarrow> (\<exists>x. m = Some x \<and> P x)"
  by (auto simp: ok_def split: option.splits)

lemma ok_conj: "ok P m \<Longrightarrow> ok Q m \<Longrightarrow> ok (\<lambda>x. P x \<and> Q x) m"
  by (auto simp: ok_def split: option.splits)

lemma ok_if: "(b \<Longrightarrow> ok P m) \<Longrightarrow> (\<not> b \<Longrightarrow> ok P m') \<Longrightarrow> ok P (if b then m else m')"
  by simp

subsection \<open>Loops\<close>

fun for_m :: "'a list \<Rightarrow> ('a \<Rightarrow> 's \<Rightarrow> 's option) \<Rightarrow> 's \<Rightarrow> 's option" where
  "for_m [] f s = Some s"
| "for_m (x # xs) f s = do { s' \<leftarrow> f x s; for_m xs f s' }"

fun repeat_m :: "nat \<Rightarrow> ('s \<Rightarrow> 's option) \<Rightarrow> 's \<Rightarrow> 's option" where
  "repeat_m 0 f s = Some s"
| "repeat_m (Suc n) f s = do { s' \<leftarrow> f s; repeat_m n f s' }"

lemma for_m_append [simp]: "for_m (xs @ ys) f s = do { s' \<leftarrow> for_m xs f s; for_m ys f s' }"
proof (induction xs arbitrary: s)
  case (Cons x xs)
  then show ?case by (cases "f x s") auto
qed simp

lemma for_m_ok:
  "P s \<Longrightarrow> (\<And>x s. x \<in> set xs \<Longrightarrow> P s \<Longrightarrow> ok P (f x s)) \<Longrightarrow> ok P (for_m xs f s)"
proof (induction xs arbitrary: s)
  case (Cons x xs)
  from Cons.prems have "ok P (f x s)" by simp
  then show ?case
    by simp (rule ok_mono, assumption, rule Cons.IH, auto intro: Cons.prems)
qed simp

lemma repeat_m_ok:
  "P s \<Longrightarrow> (\<And>s. P s \<Longrightarrow> ok P (f s)) \<Longrightarrow> ok P (repeat_m n f s)"
proof (induction n arbitrary: s)
  case (Suc n)
  from Suc.prems have "ok P (f s)" by simp
  then show ?case
    by simp (rule ok_mono, assumption, rule Suc.IH, auto intro: Suc.prems)
qed simp

subsection \<open>List surgery: \<open>Vec::insert\<close>, \<open>Vec::remove\<close>, \<open>Vec::resize\<close>\<close>

definition insert_at :: "usize \<Rightarrow> 'a \<Rightarrow> 'a list \<Rightarrow> 'a list" where
  "insert_at i x xs = take i xs @ x # drop i xs"

definition remove_at :: "usize \<Rightarrow> 'a list \<Rightarrow> 'a list" where
  "remove_at i xs = take i xs @ drop (Suc i) xs"

definition resize_list :: "usize \<Rightarrow> 'a \<Rightarrow> 'a list \<Rightarrow> 'a list" where
  "resize_list n x xs = (if n \<le> length xs then take n xs else xs @ replicate (n - length xs) x)"

lemma length_insert_at [simp]: "length (insert_at i x xs) = Suc (length xs)"
  by (cases "i \<le> length xs") (simp_all add: insert_at_def)

lemma length_remove_at [simp]: "i < length xs \<Longrightarrow> length (remove_at i xs) = length xs - 1"
  by (simp add: remove_at_def)

lemma length_resize_list [simp]: "length (resize_list n x xs) = n"
  by (simp add: resize_list_def)

lemma set_insert_at [simp]: "set (insert_at i x xs) = insert x (set xs)"
  unfolding insert_at_def by (metis Un_insert_right append_take_drop_id list.simps(15) set_append)

lemma set_remove_at: "set (remove_at i xs) \<subseteq> set xs"
  by (auto simp: remove_at_def dest: in_set_takeD in_set_dropD)

lemma set_resize_list: "set (resize_list n x xs) \<subseteq> insert x (set xs)"
  by (auto simp: resize_list_def dest: in_set_takeD)

lemma nth_insert_at [list_surgery]:
  "i \<le> length xs \<Longrightarrow> k \<le> length xs \<Longrightarrow>
   insert_at i x xs ! k = (if k < i then xs ! k else if k = i then x else xs ! (k - 1))"
  by (auto simp: insert_at_def nth_append min_def nth_Cons' Suc_diff_le)

lemma nth_remove_at [list_surgery]:
  "i < length xs \<Longrightarrow> k < length xs - 1 \<Longrightarrow>
   remove_at i xs ! k = (if k < i then xs ! k else xs ! Suc k)"
  by (auto simp: remove_at_def nth_append min_def)

lemma nth_resize_list [list_surgery]:
  "k < n \<Longrightarrow> resize_list n x xs ! k = (if k < length xs then xs ! k else x)"
  by (auto simp: resize_list_def nth_append)

lemma drop_insert_at [list_surgery]:
  "k \<le> i \<Longrightarrow> i \<le> length xs \<Longrightarrow> drop k (insert_at i x xs) = insert_at (i - k) x (drop k xs)"
  by (simp add: insert_at_def drop_take)

lemma take_insert_at [list_surgery]:
  "k \<le> i \<Longrightarrow> i \<le> length xs \<Longrightarrow> take k (insert_at i x xs) = take k xs"
  by (simp add: insert_at_def min_def)

lemma drop_remove_at [list_surgery]:
  "k \<le> i \<Longrightarrow> i < length xs \<Longrightarrow> drop k (remove_at i xs) = remove_at (i - k) (drop k xs)"
  by (simp add: remove_at_def drop_take Suc_diff_le)

lemma take_remove_at [list_surgery]:
  "k \<le> i \<Longrightarrow> i < length xs \<Longrightarrow> take k (remove_at i xs) = take k xs"
  by (simp add: remove_at_def min_def)

lemma drop_list_update_ge [list_surgery]:
  "k \<le> i \<Longrightarrow> drop k (xs[i := x]) = (drop k xs)[i - k := x]"
  by (simp add: drop_update_swap)

subsection \<open>Errors\<close>

text \<open>\<open>?\<close> on a \<open>Result\<close>: an error ends the function.\<close>

definition and_then :: "'e + 'a \<Rightarrow> ('a \<Rightarrow> 'e + 'b) \<Rightarrow> 'e + 'b" where
  "and_then m f = (case m of Inl e \<Rightarrow> Inl e | Inr x \<Rightarrow> f x)"

lemma and_then_simps [simp]: "and_then (Inl e) f = Inl e" "and_then (Inr x) f = f x"
  by (simp_all add: and_then_def)

lemma and_then_Inr: "and_then m f = Inr y \<longleftrightarrow> (\<exists>x. m = Inr x \<and> f x = Inr y)"
  by (cases m) simp_all

text \<open>
  A computation that changes a state and may fail: the error or the result, and the state after it, also
  when it fails. \<open>act_bind\<close> is \<open>?\<close> and the rest of the function, \<open>act_try\<close> a \<open>match\<close> on the result.
\<close>

type_synonym ('s, 'e, 'a) action = "'s \<Rightarrow> ('e + 'a) \<times> 's"

definition act_return :: "'a \<Rightarrow> ('s, 'e, 'a) action" where
  "act_return x = (\<lambda>s. (Inr x, s))"

definition act_fail :: "'e \<Rightarrow> ('s, 'e, 'a) action" where
  "act_fail e = (\<lambda>s. (Inl e, s))"

definition act_bind :: "('s, 'e, 'a) action \<Rightarrow> ('a \<Rightarrow> ('s, 'e, 'b) action) \<Rightarrow> ('s, 'e, 'b) action" where
  "act_bind m f = (\<lambda>s. case m s of (Inl e, s') \<Rightarrow> (Inl e, s') | (Inr x, s') \<Rightarrow> f x s')"

definition act_try :: "('s, 'e, 'a) action \<Rightarrow> ('s, 'd, 'e + 'a) action" where
  "act_try m = (\<lambda>s. let (r, s') = m s in (Inr r, s'))"

lemma act_simps [simp]:
  "act_return x s = (Inr x, s)"
  "act_fail e s = (Inl e, s)"
  "act_bind m f s = (case m s of (Inl e, s') \<Rightarrow> (Inl e, s') | (Inr x, s') \<Rightarrow> f x s')"
  "act_try m s = (Inr (fst (m s)), snd (m s))"
  by (simp_all add: act_return_def act_fail_def act_bind_def act_try_def Let_def split: prod.splits)

lemma act_bind_Inr:
  assumes "act_bind m f s = (Inr y, s')"
  obtains x t where "m s = (Inr x, t)" "f x t = (Inr y, s')"
  using assms by (auto split: prod.splits sum.splits)

end
