(* ===== verification/Cell.thy ===== *)
theory Cell
  imports Prelude
begin

section \<open>Cells and rows (\<open>screen/cell.rs\<close>)\<close>

text \<open>
  A row is a vector of cells and a sparse association list from columns to combining marks. A
  double-width character occupies a cell of width 2 followed by a continuation cell of width 0;
  \<open>wide_ok\<close> says that a row has no orphaned half.
\<close>

record cell =
  ce_c :: rchar
  ce_style :: u16
  ce_width :: u8

definition cell_new :: "rchar \<Rightarrow> u16 \<Rightarrow> u8 \<Rightarrow> cell" where
  "cell_new c sid w = \<lparr>ce_c = c, ce_style = sid, ce_width = w\<rparr>"

definition default_cell :: cell where
  "default_cell = \<lparr>ce_c = 32, ce_style = 0, ce_width = 1\<rparr>"

record row =
  row_cells :: "cell list"
  row_combining :: "(u16 \<times> rchar list) list"

definition row_new :: "usize \<Rightarrow> row" where
  "row_new cols = \<lparr>row_cells = replicate cols default_cell, row_combining = []\<rparr>"

definition from_cells :: "cell list \<Rightarrow> row" where
  "from_cells cs = \<lparr>row_cells = cs, row_combining = []\<rparr>"

fun marks_at :: "(u16 \<times> rchar list) list \<Rightarrow> u16 \<Rightarrow> rchar list" where
  "marks_at [] col = []"
| "marks_at ((c, ms) # rest) col = (if c = col then ms else marks_at rest col)"

definition combining :: "row \<Rightarrow> u16 \<Rightarrow> rchar list" where
  "combining r col = marks_at (row_combining r) col"

fun push_mark :: "(u16 \<times> rchar list) list \<Rightarrow> u16 \<Rightarrow> rchar \<Rightarrow> (u16 \<times> rchar list) list" where
  "push_mark [] col m = [(col, [m])]"
| "push_mark ((c, ms) # rest) col m =
     (if c = col then (c, ms @ [m]) # rest else (c, ms) # push_mark rest col m)"

definition push_combining :: "u16 \<Rightarrow> rchar \<Rightarrow> row \<Rightarrow> row" where
  "push_combining col m r = r\<lparr>row_combining := push_mark (row_combining r) col m\<rparr>"

definition combining_len :: "row \<Rightarrow> u16 \<Rightarrow> usize" where
  "combining_len r col = length (marks_at (row_combining r) col)"

definition clear_combining :: "u16 \<Rightarrow> row \<Rightarrow> row" where
  "clear_combining col r = r\<lparr>row_combining := filter (\<lambda>(c, _). c \<noteq> col) (row_combining r)\<rparr>"

definition clear_all_combining :: "row \<Rightarrow> row" where
  "clear_all_combining r = r\<lparr>row_combining := []\<rparr>"

definition clear_combining_range :: "u16 \<Rightarrow> u16 \<Rightarrow> row \<Rightarrow> row" where
  "clear_combining_range from to r =
     r\<lparr>row_combining := filter (\<lambda>(c, _). c < from \<or> c \<ge> to) (row_combining r)\<rparr>"

definition row_len :: "row \<Rightarrow> usize" where
  "row_len r = length (row_cells r)"

definition row_resize :: "usize \<Rightarrow> cell \<Rightarrow> row \<Rightarrow> row" where
  "row_resize new_len value r =
     (let r = (if new_len < length (row_cells r)
               then r\<lparr>row_combining := filter (\<lambda>(c, _). c < as_u16 new_len) (row_combining r)\<rparr>
               else r)
      in r\<lparr>row_cells := resize_list new_len value (row_cells r)\<rparr>)"

text \<open>\<open>Vec::remove\<close> and \<open>Vec::insert\<close> panic out of range.\<close>

definition row_remove :: "usize \<Rightarrow> row \<Rightarrow> row option" where
  "row_remove index r =
     (let col = as_u16 index;
          marks = map (\<lambda>(c, ms). (if c > col then c - 1 else c, ms))
                    (filter (\<lambda>(c, _). c \<noteq> col) (row_combining r))
      in if index < length (row_cells r)
         then Some \<lparr>row_cells = remove_at index (row_cells r), row_combining = marks\<rparr> else None)"

definition row_insert :: "usize \<Rightarrow> cell \<Rightarrow> row \<Rightarrow> row option" where
  "row_insert index ce r =
     (let col = as_u16 index;
          marks = map (\<lambda>(c, ms). (if c \<ge> col then u16_sat_add c 1 else c, ms)) (row_combining r)
      in if index \<le> length (row_cells r)
         then Some \<lparr>row_cells = insert_at index ce (row_cells r), row_combining = marks\<rparr> else None)"

definition row_push :: "cell \<Rightarrow> row \<Rightarrow> row" where
  "row_push ce r = r\<lparr>row_cells := row_cells r @ [ce]\<rparr>"

definition row_pop :: "row \<Rightarrow> row" where
  "row_pop r =
     (if row_cells r = [] then r
      else let cs = butlast (row_cells r) in
        \<lparr>row_cells = cs, row_combining = filter (\<lambda>(c, _). c \<noteq> as_u16 (length cs)) (row_combining r)\<rparr>)"

definition fix_wide_char_orphan_at_boundary :: "usize \<Rightarrow> row \<Rightarrow> row" where
  "fix_wide_char_orphan_at_boundary new_cols r =
     (if new_cols = 0 \<or> length (row_cells r) \<le> new_cols then r
      else let l = new_cols - 1 in
        if ce_width (row_cells r ! l) = 2 then r\<lparr>row_cells := (row_cells r)[l := default_cell]\<rparr>
        else if l > 0 \<and> ce_width (row_cells r ! l) = 0
        then r\<lparr>row_cells := ((row_cells r)[l := default_cell])[l - 1 := default_cell]\<rparr>
        else r)"

text \<open>\<open>row[x] = cell\<close> and \<open>row[x]\<close> through \<open>DerefMut\<close>: indexing out of range panics.\<close>

definition row_set :: "usize \<Rightarrow> cell \<Rightarrow> row \<Rightarrow> row option" where
  "row_set x ce r =
     (if x < length (row_cells r) then Some (r\<lparr>row_cells := (row_cells r)[x := ce]\<rparr>) else None)"

definition row_at :: "row \<Rightarrow> usize \<Rightarrow> cell option" where
  "row_at r x = (if x < length (row_cells r) then Some (row_cells r ! x) else None)"

subsection \<open>Lengths\<close>

lemma row_cells_simps [simp]:
  "row_cells (push_combining col m r) = row_cells r"
  "row_cells (clear_combining col r) = row_cells r"
  "row_cells (clear_all_combining r) = row_cells r"
  "row_cells (clear_combining_range a b r) = row_cells r"
  "row_cells (row_resize n v r) = resize_list n v (row_cells r)"
  "row_cells (from_cells cs) = cs"
  "row_cells (row_push ce r) = row_cells r @ [ce]"
  "row_cells (row_pop r) = butlast (row_cells r)"
  "row_cells (row_new n) = replicate n default_cell"
  by (simp_all add: push_combining_def clear_combining_def clear_all_combining_def row_new_def
      clear_combining_range_def row_resize_def from_cells_def row_push_def row_pop_def Let_def)

lemma fix_wide_len [simp]:
  "length (row_cells (fix_wide_char_orphan_at_boundary n r)) = length (row_cells r)"
  by (simp add: fix_wide_char_orphan_at_boundary_def Let_def)

subsection \<open>Combining marks\<close>

lemma marks_push: "marks_at (push_mark xs col m) k = (if k = col then marks_at xs k @ [m] else marks_at xs k)"
  by (induction xs col m rule: push_mark.induct) auto

lemma marks_filter: "marks_at (filter (\<lambda>(c, _). P c) xs) k = (if P k then marks_at xs k else [])"
  by (induction xs) auto

lemma marks_absent: "k \<notin> fst ` set xs \<Longrightarrow> marks_at xs k = []"
  by (induction xs) auto

lemma marks_map_inj:
  assumes "\<And>c. c \<in> fst ` set xs \<Longrightarrow> f c = f k \<Longrightarrow> c = k"
  shows "marks_at (map (\<lambda>(c, ms). (f c, ms)) xs) (f k) = marks_at xs k"
  using assms by (induction xs) auto

text \<open>Every stored column fits in 16 bits and each has at most \<open>MAX_COMBINING\<close> marks.\<close>

definition MAX_COMBINING :: nat where
  "MAX_COMBINING = 16"

end
