(* ===== verification/Style_Table.thy ===== *)
theory Style_Table
  imports Style
begin

section \<open>The style table (\<open>StyleTable\<close> in \<open>screen/style.rs\<close>)\<close>

text \<open>
  Cells hold interned style numbers. The table maps numbers to styles (\<open>styles\<close>), styles to
  numbers (\<open>index\<close>, a \<open>HashMap\<close>), and keeps the reclaimed slots in a stack (\<open>free_slots\<close>).
  \<open>intern\<close> and \<open>reclaim\<close> are shown to be safe for every live number; the contract they satisfy is
  the locale \<open>interner\<close>, which the screen's cell invariants are built on.
\<close>

record style_table =
  tbl_styles :: "style list"
  tbl_index :: "style \<rightharpoonup> u16"
  tbl_free :: "u16 list"

definition tbl_new :: style_table where
  "tbl_new = \<lparr>tbl_styles = [default_style], tbl_index = Map.empty, tbl_free = []\<rparr>"

text \<open>\<open>Vec::pop\<close> takes from the end of \<open>free_slots\<close>; \<open>None\<close> is the panic of an index out of range.\<close>

definition intern :: "style \<Rightarrow> style_table \<Rightarrow> (u16 \<times> style_table) option" where
  "intern s t =
     (if style_is_default s then Some (0, t)
      else case tbl_index t s of
        Some i \<Rightarrow> Some (i, t)
      | None \<Rightarrow>
          (if tbl_free t \<noteq> [] then
             let i = last (tbl_free t); t = t\<lparr>tbl_free := butlast (tbl_free t)\<rparr> in
             (if i < length (tbl_styles t)
              then Some (i, t\<lparr>tbl_styles := (tbl_styles t)[i := s], tbl_index := (tbl_index t)(s \<mapsto> i)\<rparr>)
              else None)
           else if length (tbl_styles t) > u16_max then Some (0, t)
           else let i = as_u16 (length (tbl_styles t)) in
             Some (i, t\<lparr>tbl_styles := tbl_styles t @ [s], tbl_index := (tbl_index t)(s \<mapsto> i)\<rparr>)))"

definition tbl_get :: "style_table \<Rightarrow> u16 \<Rightarrow> style" where
  "tbl_get t i = (if i < length (tbl_styles t) then tbl_styles t ! i else default_style)"

definition tbl_capacity :: "style_table \<Rightarrow> usize" where
  "tbl_capacity t = length (tbl_styles t)"

definition tbl_is_full :: "style_table \<Rightarrow> bool" where
  "tbl_is_full t \<longleftrightarrow> length (tbl_styles t) > u16_max \<and> tbl_free t = []"

definition reclaim_slot :: "bool list \<Rightarrow> usize \<Rightarrow> style_table \<Rightarrow> style_table" where
  "reclaim_slot live i t =
     (if i < length live \<and> \<not> live ! i
      then t\<lparr>tbl_index := (tbl_index t)(tbl_styles t ! i := None), tbl_free := tbl_free t @ [as_u16 i]\<rparr>
      else t)"

definition reclaim :: "bool list \<Rightarrow> style_table \<Rightarrow> style_table" where
  "reclaim live t = fold (reclaim_slot live) [1..<length (tbl_styles t)] (t\<lparr>tbl_free := []\<rparr>)"

definition tbl_reset :: "style_table \<Rightarrow> style_table" where
  "tbl_reset t = t\<lparr>tbl_styles := [default_style], tbl_index := Map.empty, tbl_free := []\<rparr>"

subsection \<open>Invariant\<close>

definition tbl_live :: "style_table \<Rightarrow> u16 \<Rightarrow> bool" where
  "tbl_live t i \<longleftrightarrow> i < length (tbl_styles t) \<and> i \<notin> set (tbl_free t)"

definition tbl_inv :: "style_table \<Rightarrow> bool" where
  "tbl_inv t \<longleftrightarrow>
     tbl_styles t \<noteq> [] \<and> tbl_styles t ! 0 = default_style \<and> length (tbl_styles t) \<le> 65536
     \<and> (\<forall>i \<in> set (tbl_free t). 0 < i \<and> i < length (tbl_styles t)) \<and> distinct (tbl_free t)
     \<and> (\<forall>s i. tbl_index t s = Some i \<longrightarrow> 0 < i \<and> tbl_live t i \<and> tbl_styles t ! i = s)"

lemma tbl_inv_new: "tbl_inv tbl_new"
  by (simp add: tbl_inv_def tbl_new_def)

lemma tbl_inv_reset: "tbl_inv (tbl_reset t)"
  by (simp add: tbl_inv_def tbl_reset_def)

lemma tbl_live_0: "tbl_inv t \<Longrightarrow> tbl_live t 0"
  by (auto simp: tbl_inv_def tbl_live_def)

lemma tbl_get_0: "tbl_inv t \<Longrightarrow> tbl_get t 0 = default_style"
  by (simp add: tbl_inv_def tbl_get_def)

lemma tbl_indexD:
  "tbl_inv t \<Longrightarrow> tbl_index t s = Some i \<Longrightarrow> 0 < i \<and> tbl_live t i \<and> tbl_styles t ! i = s"
  unfolding tbl_inv_def by blast

text \<open>What \<open>intern\<close> promises: no panic, the invariant, the number of the style, and no live number
  loses its style.\<close>

definition intern_post :: "style \<Rightarrow> style_table \<Rightarrow> u16 \<times> style_table \<Rightarrow> bool" where
  "intern_post s t r \<longleftrightarrow>
     tbl_inv (snd r) \<and> tbl_live (snd r) (fst r)
     \<and> (tbl_get (snd r) (fst r) = s \<or> fst r = 0 \<and> tbl_is_full t \<and> snd r = t)
     \<and> (\<forall>i. tbl_live t i \<longrightarrow> tbl_live (snd r) i \<and> tbl_get (snd r) i = tbl_get t i)"

lemma last_butlast_distinct: "distinct xs \<Longrightarrow> xs \<noteq> [] \<Longrightarrow> last xs \<notin> set (butlast xs)"
  by (metis append_butlast_last_id distinct_butlast not_distinct_conv_prefix)

lemma intern_free_slot:
  assumes inv: "tbl_inv t" and free: "tbl_free t \<noteq> []" and new: "tbl_index t s = None"
    and nd: "\<not> style_is_default s"
  shows "ok (intern_post s t) (intern s t)"
proof -
  let ?i = "last (tbl_free t)"
  let ?t = "t\<lparr>tbl_free := butlast (tbl_free t), tbl_styles := (tbl_styles t)[?i := s],
      tbl_index := (tbl_index t)(s \<mapsto> ?i)\<rparr>"
  have i: "0 < ?i" "?i < length (tbl_styles t)" and d: "distinct (tbl_free t)"
    using inv free by (auto simp: tbl_inv_def)
  have other: "?i \<noteq> j" if "tbl_live t j" for j
    using that free by (auto simp: tbl_live_def)
  have keep: "tbl_live ?t j \<and> tbl_get ?t j = tbl_get t j" if "tbl_live t j" for j
    using that other [OF that] by (auto simp: tbl_live_def tbl_get_def dest: in_set_butlastD)
  have idx: "0 < j \<and> tbl_live ?t j \<and> tbl_styles ?t ! j = s'" if "tbl_index ?t s' = Some j" for s' j
  proof (cases "s' = s")
    case True
    then show ?thesis
      using that i last_butlast_distinct [OF d free] by (simp add: tbl_live_def)
  next
    case False
    then have "tbl_index t s' = Some j" using that by simp
    then have "0 < j" "tbl_live t j" "tbl_styles t ! j = s'" using tbl_indexD [OF inv] by auto
    then show ?thesis using keep [of j] other [of j] by simp
  qed
  have inv': "tbl_inv ?t"
    unfolding tbl_inv_def
  proof (intro conjI allI impI ballI)
    show "tbl_styles ?t \<noteq> []" "tbl_styles ?t ! 0 = default_style" "length (tbl_styles ?t) \<le> 65536"
      using inv i by (auto simp: tbl_inv_def)
    show "distinct (tbl_free ?t)" using d by (simp add: distinct_butlast)
    show "0 < j" "j < length (tbl_styles ?t)" if "j \<in> set (tbl_free ?t)" for j
      using that inv in_set_butlastD [of j "tbl_free t"] by (auto simp: tbl_inv_def)
  qed (use idx in blast)+
  moreover have "tbl_live ?t ?i" "tbl_get ?t ?i = s"
    using i last_butlast_distinct [OF d free] by (auto simp: tbl_live_def tbl_get_def)
  ultimately show ?thesis
    using free new nd i keep by (simp add: intern_def Let_def intern_post_def)
qed

lemma intern_fresh_slot:
  assumes inv: "tbl_inv t" and free: "tbl_free t = []" and new: "tbl_index t s = None"
    and nd: "\<not> style_is_default s" and room: "\<not> length (tbl_styles t) > u16_max"
  shows "ok (intern_post s t) (intern s t)"
proof -
  let ?n = "length (tbl_styles t)"
  let ?t = "t\<lparr>tbl_styles := tbl_styles t @ [s], tbl_index := (tbl_index t)(s \<mapsto> ?n)\<rparr>"
  have n: "0 < ?n" "?n < 65536" using inv room by (auto simp: tbl_inv_def u16_max_def)
  have keep: "tbl_live ?t j \<and> tbl_get ?t j = tbl_get t j" if "tbl_live t j" for j
    using that by (auto simp: tbl_live_def tbl_get_def nth_append)
  have idx: "0 < j \<and> tbl_live ?t j \<and> tbl_styles ?t ! j = s'" if "tbl_index ?t s' = Some j" for s' j
  proof (cases "s' = s")
    case True
    then show ?thesis using that n free by (auto simp: tbl_live_def)
  next
    case False
    then have "tbl_index t s' = Some j" using that by simp
    then have "0 < j" "tbl_live t j" "tbl_styles t ! j = s'" using tbl_indexD [OF inv] by auto
    then show ?thesis using keep [of j] by (simp add: nth_append tbl_live_def)
  qed
  have inv': "tbl_inv ?t"
    unfolding tbl_inv_def
  proof (intro conjI allI impI ballI)
    show "tbl_styles ?t ! 0 = default_style" "length (tbl_styles ?t) \<le> 65536"
      using inv n by (auto simp: tbl_inv_def nth_append)
  qed (use idx free in auto)
  moreover have "tbl_live ?t ?n" "tbl_get ?t ?n = s"
    using free by (auto simp: tbl_live_def tbl_get_def)
  ultimately show ?thesis
    using free new nd n keep room by (simp add: intern_def Let_def intern_post_def)
qed

lemma intern_ok:
  assumes inv: "tbl_inv t"
  shows "ok (intern_post s t) (intern s t)"
proof (cases "style_is_default s")
  case True
  then show ?thesis
    using inv by (simp add: intern_def intern_post_def tbl_live_0 tbl_get_0 style_is_default_def)
next
  case nd: False
  show ?thesis
  proof (cases "tbl_index t s")
    case (Some i)
    then have "0 < i" "tbl_live t i" "tbl_styles t ! i = s" using tbl_indexD [OF inv] by auto
    then show ?thesis
      using nd Some inv by (simp add: intern_def intern_post_def tbl_get_def tbl_live_def)
  next
    case new: None
    consider "tbl_free t \<noteq> []"
      | "tbl_free t = []" "\<not> length (tbl_styles t) > u16_max"
      | "tbl_free t = []" "length (tbl_styles t) > u16_max" by blast
    then show ?thesis
    proof cases
      case 3
      then show ?thesis
        using nd new inv by (simp add: intern_def intern_post_def tbl_is_full_def tbl_live_0)
    qed (use assms new nd intern_free_slot intern_fresh_slot in blast)+
  qed
qed

subsection \<open>Reclaiming dead slots\<close>

definition slot_dead :: "bool list \<Rightarrow> usize \<Rightarrow> bool" where
  "slot_dead live i \<longleftrightarrow> i < length live \<and> \<not> live ! i"

lemma reclaim_slot_alt:
  "reclaim_slot live i t = (if slot_dead live i
     then t\<lparr>tbl_index := (tbl_index t)(tbl_styles t ! i := None), tbl_free := tbl_free t @ [as_u16 i]\<rparr>
     else t)"
  by (simp add: reclaim_slot_def slot_dead_def)

lemma fold_reclaim_slot:
  assumes "\<forall>i\<in>set is. i < 65536"
  shows "fold (reclaim_slot live) is t = t\<lparr>
     tbl_index := (\<lambda>s. if \<exists>i\<in>set is. slot_dead live i \<and> tbl_styles t ! i = s then None else tbl_index t s),
     tbl_free := tbl_free t @ filter (slot_dead live) is\<rparr>"
  using assms
proof (induction "is" arbitrary: t)
  case Nil
  show ?case by simp
next
  case (Cons i "is")
  then have "fold (reclaim_slot live) (i # is) t = (reclaim_slot live i t)\<lparr>
     tbl_index := (\<lambda>s. if \<exists>k\<in>set is. slot_dead live k \<and> tbl_styles (reclaim_slot live i t) ! k = s
                       then None else tbl_index (reclaim_slot live i t) s),
     tbl_free := tbl_free (reclaim_slot live i t) @ filter (slot_dead live) is\<rparr>"
    by simp
  also have "\<dots> = t\<lparr>
     tbl_index := (\<lambda>s. if \<exists>k\<in>set (i # is). slot_dead live k \<and> tbl_styles t ! k = s then None else tbl_index t s),
     tbl_free := tbl_free t @ filter (slot_dead live) (i # is)\<rparr>"
    using Cons.prems by (cases t) (auto simp: reclaim_slot_alt fun_eq_iff)
  finally show ?case .
qed

lemma reclaim_eq:
  assumes "tbl_inv t"
  shows "tbl_styles (reclaim live t) = tbl_styles t"
    and "tbl_free (reclaim live t) = filter (slot_dead live) [1..<length (tbl_styles t)]"
    and "tbl_index (reclaim live t) s = (if \<exists>i. 1 \<le> i \<and> i < length (tbl_styles t)
           \<and> slot_dead live i \<and> tbl_styles t ! i = s then None else tbl_index t s)"
proof -
  have "\<forall>i\<in>set [1..<length (tbl_styles t)]. i < 65536"
    using assms by (auto simp: tbl_inv_def)
  note fold = fold_reclaim_slot [OF this, of live "t\<lparr>tbl_free := []\<rparr>"]
  show "tbl_styles (reclaim live t) = tbl_styles t"
    and "tbl_free (reclaim live t) = filter (slot_dead live) [1..<length (tbl_styles t)]"
    unfolding reclaim_def fold by simp_all
  show "tbl_index (reclaim live t) s = (if \<exists>i. 1 \<le> i \<and> i < length (tbl_styles t)
           \<and> slot_dead live i \<and> tbl_styles t ! i = s then None else tbl_index t s)"
    unfolding reclaim_def fold by (auto simp: Bex_def)
qed

lemma reclaim_inv:
  assumes inv: "tbl_inv t"
  shows "tbl_inv (reclaim live t)"
proof -
  have idx: "0 < i \<and> tbl_live (reclaim live t) i \<and> tbl_styles (reclaim live t) ! i = s"
    if "tbl_index (reclaim live t) s = Some i" for s i
  proof -
    have old: "tbl_index t s = Some i"
      and kept: "\<not> (1 \<le> i \<and> i < length (tbl_styles t) \<and> slot_dead live i \<and> tbl_styles t ! i = s)"
      using that by (auto simp: reclaim_eq [OF inv] split: if_splits)
    have "0 < i" "tbl_live t i" "tbl_styles t ! i = s" using tbl_indexD [OF inv old] by auto
    with kept show ?thesis by (auto simp: tbl_live_def reclaim_eq [OF inv])
  qed
  show ?thesis
    unfolding tbl_inv_def
  proof (intro conjI)
    show "tbl_styles (reclaim live t) \<noteq> []" "tbl_styles (reclaim live t) ! 0 = default_style"
      "length (tbl_styles (reclaim live t)) \<le> 65536"
      using inv by (simp_all add: reclaim_eq [OF inv]) (simp_all add: tbl_inv_def)
    show "\<forall>i\<in>set (tbl_free (reclaim live t)). 0 < i \<and> i < length (tbl_styles (reclaim live t))"
      "distinct (tbl_free (reclaim live t))"
      by (simp_all add: reclaim_eq [OF inv])
    show "\<forall>s i. tbl_index (reclaim live t) s = Some i
        \<longrightarrow> 0 < i \<and> tbl_live (reclaim live t) i \<and> tbl_styles (reclaim live t) ! i = s"
      using idx by blast
  qed
qed

lemma reclaim_live_iff:
  "tbl_inv t \<Longrightarrow> tbl_live (reclaim live t) i
     \<longleftrightarrow> i < length (tbl_styles t) \<and> (i = 0 \<or> \<not> slot_dead live i)"
  by (auto simp: tbl_live_def reclaim_eq)

lemma reclaim_get [simp]: "tbl_inv t \<Longrightarrow> tbl_get (reclaim live t) i = tbl_get t i"
  by (simp add: tbl_get_def reclaim_eq)

subsection \<open>The contract of the table, as its clients use it\<close>

text \<open>
  A client keeps numbers in cells, interns new styles, and collects garbage with a mark vector in
  which its own numbers are set. Nothing else about the table is needed to see that its cells keep
  their styles.
\<close>

locale interner =
  fixes intern_op :: "'s \<Rightarrow> 't \<Rightarrow> (nat \<times> 't) option"
    and get_op :: "'t \<Rightarrow> nat \<Rightarrow> 's"
    and gc_op :: "bool list \<Rightarrow> 't \<Rightarrow> 't"
    and invar :: "'t \<Rightarrow> bool"
    and live :: "'t \<Rightarrow> nat \<Rightarrow> bool"
    and full :: "'t \<Rightarrow> bool"
  assumes intern_law: "invar t \<Longrightarrow> ok (\<lambda>(i, t'). invar t' \<and> live t' i \<and> (get_op t' i = s \<or> i = 0 \<and> full t)
      \<and> (\<forall>j. live t j \<longrightarrow> live t' j \<and> get_op t' j = get_op t j)) (intern_op s t)"
    and gc_invar: "invar t \<Longrightarrow> invar (gc_op marks t)"
    and gc_keeps: "invar t \<Longrightarrow> live t j \<Longrightarrow> (j < length marks \<Longrightarrow> marks ! j)
      \<Longrightarrow> live (gc_op marks t) j \<and> get_op (gc_op marks t) j = get_op t j"
begin

definition refs_kept :: "nat set \<Rightarrow> 't \<Rightarrow> 't \<Rightarrow> bool" where
  "refs_kept R t t' \<longleftrightarrow> invar t' \<and> (\<forall>j\<in>R. live t' j \<and> get_op t' j = get_op t j)"

lemma intern_refs:
  assumes "invar t" "\<forall>j\<in>R. live t j"
  shows "ok (\<lambda>(i, t'). live t' i \<and> refs_kept R t t') (intern_op s t)"
  by (rule ok_mono [OF intern_law [OF assms(1)]]) (use assms(2) in \<open>auto simp: refs_kept_def\<close>)

lemma gc_refs:
  assumes "invar t" "\<forall>j\<in>R. live t j \<and> (j < length marks \<longrightarrow> marks ! j)"
  shows "refs_kept R t (gc_op marks t)"
  using assms gc_keeps gc_invar by (simp add: refs_kept_def)

lemma gc_intern_refs:
  assumes "invar t" "\<forall>j\<in>R. live t j \<and> (j < length marks \<longrightarrow> marks ! j)"
  shows "ok (\<lambda>(i, t'). live t' i \<and> refs_kept R t t') (intern_op s (gc_op marks t))"
proof -
  have gc: "refs_kept R t (gc_op marks t)" using assms by (rule gc_refs)
  then have "ok (\<lambda>(i, t'). live t' i \<and> refs_kept R (gc_op marks t) t') (intern_op s (gc_op marks t))"
    by (intro intern_refs) (auto simp: refs_kept_def)
  then show ?thesis by (rule ok_mono) (use gc in \<open>auto simp: refs_kept_def\<close>)
qed

end

interpretation tbl: interner intern tbl_get reclaim tbl_inv tbl_live tbl_is_full
proof unfold_locales
  fix t s
  assume "tbl_inv t"
  then show "ok (\<lambda>(i, t'). tbl_inv t' \<and> tbl_live t' i \<and> (tbl_get t' i = s \<or> i = 0 \<and> tbl_is_full t)
      \<and> (\<forall>j. tbl_live t j \<longrightarrow> tbl_live t' j \<and> tbl_get t' j = tbl_get t j)) (intern s t)"
    by (intro ok_mono [OF intern_ok]) (auto simp: intern_post_def)
next
  fix t marks
  assume "tbl_inv t"
  then show "tbl_inv (reclaim marks t)" by (rule reclaim_inv)
next
  fix t j marks
  assume "tbl_inv t" "tbl_live t j" "j < length marks \<Longrightarrow> marks ! j"
  then show "tbl_live (reclaim marks t) j \<and> tbl_get (reclaim marks t) j = tbl_get t j"
    by (simp add: reclaim_live_iff) (simp add: slot_dead_def tbl_live_def)
qed

subsection \<open>Properties\<close>

text \<open>
  C2. Interning and collecting garbage never disturb a live style number: after
  \<open>reclaim\<close> with marks that cover the numbers in use and a following \<open>intern\<close>, no panic has
  happened, the new number stands for the interned style (or is 0, the default, when the table was
  full and nothing could be freed), and every number in use still stands for its style.
\<close>

theorem reclaim_intern_sound:
  assumes "tbl_inv t" "\<forall>j\<in>R. tbl_live t j \<and> (j < length marks \<longrightarrow> marks ! j)"
  shows "\<exists>i t'. intern s (reclaim marks t) = Some (i, t') \<and> tbl_inv t'
     \<and> (tbl_get t' i = s \<or> i = 0 \<and> tbl_is_full (reclaim marks t))
     \<and> (\<forall>j\<in>R. tbl_live t' j \<and> tbl_get t' j = tbl_get t j)"
proof -
  have "ok (\<lambda>(i, t'). tbl_live t' i \<and> tbl.refs_kept R t t') (intern s (reclaim marks t))"
    using assms by (rule tbl.gc_intern_refs)
  moreover have "ok (intern_post s (reclaim marks t)) (intern s (reclaim marks t))"
    by (rule intern_ok) (rule reclaim_inv [OF assms(1)])
  ultimately show ?thesis
    by (auto simp: ok_ex intern_post_def tbl.refs_kept_def)
qed

definition demo_table :: style_table where
  "demo_table = \<lparr>tbl_styles = [default_style, default_style\<lparr>st_bold := True\<rparr>, default_style\<lparr>st_dim := True\<rparr>],
     tbl_index = [default_style\<lparr>st_bold := True\<rparr> \<mapsto> 1, default_style\<lparr>st_dim := True\<rparr> \<mapsto> 2], tbl_free = []\<rparr>"

lemma demo_table_inv: "tbl_inv demo_table"
  by (auto simp: tbl_inv_def demo_table_def tbl_live_def default_style_def split: if_splits)

theorem reclaim_intern_sound_witness:
  "\<exists>i t'. intern (default_style\<lparr>st_italic := True\<rparr>) (reclaim [True, True, False] demo_table) = Some (i, t')
     \<and> tbl_inv t' \<and> tbl_get t' 1 = default_style\<lparr>st_bold := True\<rparr>"
proof -
  have "\<forall>j\<in>{1}. tbl_live demo_table j
      \<and> (j < length [True, True, False] \<longrightarrow> [True, True, False] ! j)"
    by (simp add: demo_table_def tbl_live_def)
  moreover have "tbl_get demo_table 1 = default_style\<lparr>st_bold := True\<rparr>"
    by (simp add: demo_table_def tbl_get_def)
  ultimately show ?thesis
    using reclaim_intern_sound [OF demo_table_inv, of "{1}" "[True, True, False]"
        "default_style\<lparr>st_italic := True\<rparr>"] by fastforce
qed

text \<open>
  Interning is idempotent: unless the table is full, interning the same style again returns
  the same number and leaves the table alone.
\<close>

theorem intern_idempotent:
  assumes "tbl_inv t" "\<not> tbl_is_full t" "intern s t = Some (i, t')"
  shows "intern s t' = Some (i, t')"
  using assms
  by (auto simp: intern_def Let_def tbl_is_full_def split: if_splits option.splits)

theorem intern_idempotent_witness:
  "\<exists>t'. intern (default_style\<lparr>st_italic := True\<rparr>) demo_table = Some (3, t')
     \<and> intern (default_style\<lparr>st_italic := True\<rparr>) t' = Some (3, t')"
proof -
  have "\<exists>t'. intern (default_style\<lparr>st_italic := True\<rparr>) demo_table = Some (3, t')"
    by (simp add: intern_def demo_table_def style_is_default_def default_style_def u16_max_def
        numeral_3_eq_3)
  then obtain t' where h: "intern (default_style\<lparr>st_italic := True\<rparr>) demo_table = Some (3, t')" ..
  have nf: "\<not> tbl_is_full demo_table" by (simp add: tbl_is_full_def demo_table_def u16_max_def)
  show ?thesis using h intern_idempotent [OF demo_table_inv nf h] by blast
qed

text \<open>
  The index is not kept complete: a stale slot whose style was interned again elsewhere makes
  \<open>reclaim\<close> drop the index entry of the live copy, so the style is given a second number later.
\<close>

definition stale_run :: "style_table option" where
  "stale_run = do {
     (_, t) \<leftarrow> intern (default_style\<lparr>st_bold := True\<rparr>) tbl_new;
     (_, t) \<leftarrow> intern (default_style\<lparr>st_dim := True\<rparr>) t;
     (_, t) \<leftarrow> intern (default_style\<lparr>st_bold := True\<rparr>) (reclaim [True, False, False] t);
     Some (reclaim [True, False, True] t) }"

lemma demo_styles_distinct:
  "\<not> style_is_default (default_style\<lparr>st_bold := True\<rparr>)"
  "\<not> style_is_default (default_style\<lparr>st_dim := True\<rparr>)"
  "default_style\<lparr>st_bold := True\<rparr> \<noteq> default_style\<lparr>st_dim := True\<rparr>"
  "default_style\<lparr>st_dim := True\<rparr> \<noteq> default_style\<lparr>st_bold := True\<rparr>"
  by (simp_all add: style_is_default_def default_style_def)

lemma stale_run_eq:
  "stale_run = Some \<lparr>tbl_styles = [default_style, default_style\<lparr>st_bold := True\<rparr>, default_style\<lparr>st_bold := True\<rparr>],
     tbl_index = Map.empty, tbl_free = [1]\<rparr>"
  by (simp add: stale_run_def intern_def tbl_new_def reclaim_def reclaim_slot_def upt_conv_Cons
      u16_max_def demo_styles_distinct fun_eq_iff)

theorem reclaim_drops_live_index:
  "ok (\<lambda>t. tbl_live t 2 \<and> tbl_get t 2 = default_style\<lparr>st_bold := True\<rparr>
     \<and> tbl_index t (default_style\<lparr>st_bold := True\<rparr>) = None
     \<and> map_option fst (intern (default_style\<lparr>st_bold := True\<rparr>) t) = Some 1) stale_run"
  by (simp add: stale_run_eq intern_def demo_styles_distinct tbl_live_def tbl_get_def)

end
