(* ===== verification/Grid.thy ===== *)
theory Grid
  imports Cell Style_Table
begin

section \<open>The terminal grid (\<open>screen/grid.rs\<close>): data and operations\<close>

text \<open>
  Mode flags, the \<open>Grid\<close> record (one deque holding \<open>[scrollback | visible]\<close> rows, split at
  \<open>scrollback_len\<close>) and every mutating operation, in the order of the source. An operation that can
  index out of range has an \<open>option\<close> result, \<open>None\<close> being the panic. The invariant and the
  properties are in the theory \<open>Grid_Inv\<close>.
\<close>

subsection \<open>Modes\<close>

datatype charset = Ascii | LineDrawing

datatype active_charset = G0 | G1

datatype cursor_shape = DefaultShape | BlinkBlock | SteadyBlock | BlinkUnderline | SteadyUnderline
  | BlinkBar | SteadyBar

definition shape_from_param :: "u8 \<Rightarrow> cursor_shape" where
  "shape_from_param n =
     (if n = 1 then BlinkBlock else if n = 2 then SteadyBlock else if n = 3 then BlinkUnderline
      else if n = 4 then SteadyUnderline else if n = 5 then BlinkBar else if n = 6 then SteadyBar
      else DefaultShape)"

fun shape_to_param :: "cursor_shape \<Rightarrow> u8" where
  "shape_to_param DefaultShape = 0"
| "shape_to_param BlinkBlock = 1"
| "shape_to_param SteadyBlock = 2"
| "shape_to_param BlinkUnderline = 3"
| "shape_to_param SteadyUnderline = 4"
| "shape_to_param BlinkBar = 5"
| "shape_to_param SteadyBar = 6"

record mouse_modes =
  mm_click :: bool
  mm_button :: bool
  mm_any :: bool

definition mouse_set :: "u16 \<Rightarrow> bool \<Rightarrow> mouse_modes \<Rightarrow> mouse_modes" where
  "mouse_set param enable m =
     (if param = 1000 then m\<lparr>mm_click := enable\<rparr>
      else if param = 1002 then m\<lparr>mm_button := enable\<rparr>
      else if param = 1003 then m\<lparr>mm_any := enable\<rparr>
      else m)"

datatype mouse_encoding = EncX10 | EncUtf8 | EncSgr

definition encoding_from_param :: "u16 \<Rightarrow> mouse_encoding option" where
  "encoding_from_param p = (if p = 1005 then Some EncUtf8 else if p = 1006 then Some EncSgr else None)"

record terminal_modes =
  md_cursor_key :: bool
  md_bracketed_paste :: bool
  md_origin :: bool
  md_autowrap :: bool
  md_focus :: bool
  md_mouse :: mouse_modes
  md_encoding :: mouse_encoding
  md_keypad :: bool
  md_shape :: cursor_shape
  md_g0 :: charset
  md_g1 :: charset
  md_active :: active_charset

definition default_modes :: terminal_modes where
  "default_modes = \<lparr>md_cursor_key = False, md_bracketed_paste = False, md_origin = False,
     md_autowrap = True, md_focus = False,
     md_mouse = \<lparr>mm_click = False, mm_button = False, mm_any = False\<rparr>, md_encoding = EncX10,
     md_keypad = False, md_shape = DefaultShape, md_g0 = Ascii, md_g1 = Ascii, md_active = G0\<rparr>"

subsection \<open>The grid\<close>

record grid =
  g_cols :: u16
  g_rows :: u16
  g_cells :: "row list"
  g_cx :: u16
  g_cy :: u16
  g_wrap :: bool
  g_top :: u16
  g_bottom :: u16
  g_cursor_visible :: bool
  g_modes :: terminal_modes
  g_tabs :: "bool list"
  g_sb_len :: usize
  g_sb_limit :: usize
  g_pending :: usize
  g_table :: style_table

record saved_grid =
  sg_visible :: "row list"
  sg_limit :: usize

definition sanitize_dimensions :: "u16 \<Rightarrow> u16 \<Rightarrow> u16 \<times> u16" where
  "sanitize_dimensions cols rows = (max cols 1, max rows 1)"

definition default_tab_stops :: "u16 \<Rightarrow> bool list" where
  "default_tab_stops cols = map (\<lambda>c. c > 0 \<and> c mod 8 = 0) [0..<cols]"

definition grid_new :: "u16 \<Rightarrow> u16 \<Rightarrow> usize \<Rightarrow> grid" where
  "grid_new cols rows limit =
     (let (cols, rows) = sanitize_dimensions cols rows in
      \<lparr>g_cols = cols, g_rows = rows, g_cells = replicate rows (row_new cols), g_cx = 0, g_cy = 0,
       g_wrap = False, g_top = 0, g_bottom = u16_sub rows 1, g_cursor_visible = True,
       g_modes = default_modes, g_tabs = default_tab_stops cols, g_sb_len = 0, g_sb_limit = limit,
       g_pending = 0, g_table = tbl_new\<rparr>)"

subsection \<open>Accessors with behaviour\<close>

definition set_scroll_region :: "u16 \<Rightarrow> u16 \<Rightarrow> grid \<Rightarrow> grid" where
  "set_scroll_region tp btm g = g\<lparr>g_top := tp, g_bottom := btm\<rparr>"

definition set_tab_stop :: "u16 \<Rightarrow> grid \<Rightarrow> grid" where
  "set_tab_stop col g =
     (if col < length (g_tabs g) then g\<lparr>g_tabs := (g_tabs g)[col := True]\<rparr> else g)"

definition clear_tab_stop :: "u16 \<Rightarrow> grid \<Rightarrow> grid" where
  "clear_tab_stop col g =
     (if col < length (g_tabs g) then g\<lparr>g_tabs := (g_tabs g)[col := False]\<rparr> else g)"

definition clear_all_tab_stops :: "grid \<Rightarrow> grid" where
  "clear_all_tab_stops g = g\<lparr>g_tabs := map (\<lambda>_. False) (g_tabs g)\<rparr>"

definition reset_tab_stops :: "grid \<Rightarrow> grid" where
  "reset_tab_stops g = g\<lparr>g_tabs := default_tab_stops (g_cols g)\<rparr>"

definition scrollback_rows :: "grid \<Rightarrow> row list" where
  "scrollback_rows g = take (g_sb_len g) (g_cells g)"

text \<open>\<open>VecDeque::drain(n..)\<close> panics when \<open>n\<close> is past the end.\<close>

definition drain_visible :: "grid \<Rightarrow> (row list \<times> grid) option" where
  "drain_visible g =
     (if g_sb_len g \<le> length (g_cells g)
      then Some (drop (g_sb_len g) (g_cells g), g\<lparr>g_cells := take (g_sb_len g) (g_cells g)\<rparr>)
      else None)"

definition replace_visible :: "row list \<Rightarrow> grid \<Rightarrow> grid" where
  "replace_visible rows g = g\<lparr>g_cells := take (g_sb_len g) (g_cells g) @ rows\<rparr>"

definition fill_visible_blank :: "grid \<Rightarrow> grid" where
  "fill_visible_blank g = g\<lparr>g_cells := g_cells g @ replicate (g_rows g) (row_new (g_cols g))\<rparr>"

definition visible_row_count :: "grid \<Rightarrow> usize" where
  "visible_row_count g = length (g_cells g) - g_sb_len g"

text \<open>Two \<open>while\<close> loops, one popping and one pushing, until the count is \<open>rows\<close>.\<close>

definition adjust_visible_to_fit :: "grid \<Rightarrow> grid" where
  "adjust_visible_to_fit g =
     (let n = visible_row_count g; r = g_rows g;
          cells = (if n > r then take (length (g_cells g) - (n - r)) (g_cells g) else g_cells g);
          n' = length cells - g_sb_len g;
          cells = (if n' < r then cells @ replicate (r - n') (row_new (g_cols g)) else cells)
      in g\<lparr>g_cells := cells\<rparr>)"

definition restore_scrollback :: "usize \<Rightarrow> grid \<Rightarrow> grid" where
  "restore_scrollback count g =
     (let n = g_sb_len g - count in g\<lparr>g_sb_len := n, g_pending := min (g_pending g) n\<rparr>)"

subsection \<open>Rows\<close>

definition visible_row :: "usize \<Rightarrow> grid \<Rightarrow> row option" where
  "visible_row y g =
     (if g_sb_len g + y < length (g_cells g) then Some (g_cells g ! (g_sb_len g + y)) else None)"

text \<open>A use of \<open>visible_row_mut(y)\<close>: the access \<open>f\<close> made through the reference, written back.\<close>

definition visible_row_mut :: "usize \<Rightarrow> (row \<Rightarrow> row option) \<Rightarrow> grid \<Rightarrow> grid option" where
  "visible_row_mut y f g =
     do { r \<leftarrow> visible_row y g;
          r' \<leftarrow> f r;
          Some (g\<lparr>g_cells := (g_cells g)[g_sb_len g + y := r']\<rparr>) }"

definition visible_rows :: "grid \<Rightarrow> row list" where
  "visible_rows g = take (g_rows g) (drop (g_sb_len g) (g_cells g))"

text \<open>\<open>VecDeque::remove\<close> does nothing out of range; \<open>VecDeque::insert\<close> panics.\<close>

definition deque_remove :: "usize \<Rightarrow> 'a list \<Rightarrow> 'a list" where
  "deque_remove i xs = (if i < length xs then remove_at i xs else xs)"

definition deque_insert :: "usize \<Rightarrow> 'a \<Rightarrow> 'a list \<Rightarrow> 'a list option" where
  "deque_insert i x xs = (if i \<le> length xs then Some (insert_at i x xs) else None)"

definition remove_visible_row :: "usize \<Rightarrow> grid \<Rightarrow> grid" where
  "remove_visible_row y g = g\<lparr>g_cells := deque_remove (g_sb_len g + y) (g_cells g)\<rparr>"

definition insert_visible_row :: "usize \<Rightarrow> row \<Rightarrow> grid \<Rightarrow> grid option" where
  "insert_visible_row y r g =
     do { cells \<leftarrow> deque_insert (g_sb_len g + y) r (g_cells g); Some (g\<lparr>g_cells := cells\<rparr>) }"

definition new_blank_row :: "cell \<Rightarrow> grid \<Rightarrow> row" where
  "new_blank_row fill g = from_cells (replicate (g_cols g) fill)"

fun first_stop :: "bool list \<Rightarrow> usize list \<Rightarrow> usize option" where
  "first_stop tabs [] = None"
| "first_stop tabs (c # cs) = (if tabs ! c then Some c else first_stop tabs cs)"

definition next_tab_stop :: "u16 \<Rightarrow> grid \<Rightarrow> u16" where
  "next_tab_stop col g =
     (case first_stop (g_tabs g) [col + 1..<length (g_tabs g)] of
        Some c \<Rightarrow> as_u16 c
      | None \<Rightarrow> u16_sub (g_cols g) 1)"

subsection \<open>Scrolling\<close>

definition scroll_up :: "bool \<Rightarrow> cell \<Rightarrow> grid \<Rightarrow> grid option" where
  "scroll_up in_alt fill g =
     (let tp = g_top g; btm = g_bottom g; visible_len = length (g_cells g) - g_sb_len g;
          blank = from_cells (replicate (g_cols g) fill) in
      if \<not> in_alt \<and> tp = 0 \<and> g_sb_limit g > 0 then
        (let g = g\<lparr>g_sb_len := g_sb_len g + 1\<rparr>;
             g = (if g_sb_len g > g_sb_limit g
                  then g\<lparr>g_cells := tl (g_cells g), g_sb_len := g_sb_len g - 1,
                         g_pending := (if g_pending g > 0 then g_pending g - 1 else g_pending g)\<rparr>
                  else g) in
         if btm \<ge> visible_len - 1
         then Some (g\<lparr>g_cells := g_cells g @ [blank]\<rparr>)
         else do { cells \<leftarrow> deque_insert (g_sb_len g + btm) blank (g_cells g);
                   Some (g\<lparr>g_cells := cells\<rparr>) })
      else if tp \<le> btm \<and> btm < visible_len then
        (if tp = 0 \<and> btm = visible_len - 1
         then Some (g\<lparr>g_cells := deque_remove (g_sb_len g) (g_cells g) @ [blank]\<rparr>)
         else do { cells \<leftarrow> deque_insert (g_sb_len g + btm) blank
                              (deque_remove (g_sb_len g + tp) (g_cells g));
                   Some (g\<lparr>g_cells := cells\<rparr>) })
      else Some g)"

definition scroll_down :: "cell \<Rightarrow> grid \<Rightarrow> grid option" where
  "scroll_down fill g =
     (let tp = g_top g; btm = g_bottom g; visible_len = length (g_cells g) - g_sb_len g in
      if tp \<le> btm \<and> btm < visible_len then
        do { cells \<leftarrow> deque_insert (g_sb_len g + tp) (from_cells (replicate (g_cols g) fill))
                         (deque_remove (g_sb_len g + btm) (g_cells g));
             Some (g\<lparr>g_cells := cells\<rparr>) }
      else Some g)"

definition clear_scrollback :: "grid \<Rightarrow> grid option" where
  "clear_scrollback g =
     (if g_sb_len g \<le> length (g_cells g)
      then Some (g\<lparr>g_cells := drop (g_sb_len g) (g_cells g), g_sb_len := 0, g_pending := 0\<rparr>)
      else None)"

definition reset_scroll_region :: "grid \<Rightarrow> grid" where
  "reset_scroll_region g = g\<lparr>g_top := 0, g_bottom := u16_sub (g_rows g) 1\<rparr>"

definition pending_scrollback_count :: "grid \<Rightarrow> usize" where
  "pending_scrollback_count g = g_sb_len g - g_pending g"

subsection \<open>Resizing\<close>

definition resize_row :: "usize \<Rightarrow> row \<Rightarrow> row" where
  "resize_row cols r = row_resize cols default_cell (fix_wide_char_orphan_at_boundary cols r)"

definition grid_resize :: "u16 \<Rightarrow> u16 \<Rightarrow> grid \<Rightarrow> grid" where
  "grid_resize cols rows g =
     (let (cols, rows) = sanitize_dimensions cols rows;
          visible_len = length (g_cells g) - g_sb_len g;
          cells = (if visible_len > rows then take (length (g_cells g) - (visible_len - rows)) (g_cells g)
                   else if visible_len < rows
                   then g_cells g @ replicate (rows - visible_len) (row_new cols)
                   else g_cells g);
          cells = take (g_sb_len g) cells @ map (resize_row cols) (drop (g_sb_len g) cells)
      in g\<lparr>g_cols := cols, g_rows := rows, g_cells := cells,
            g_cx := (if g_cx g \<ge> cols then u16_sub cols 1 else g_cx g),
            g_cy := (if g_cy g \<ge> rows then u16_sub rows 1 else g_cy g),
            g_wrap := False, g_top := 0, g_bottom := u16_sub rows 1,
            g_tabs := default_tab_stops cols\<rparr>)"

subsection \<open>Writing and erasing cells\<close>

definition fixup_wide_char_at :: "usize \<Rightarrow> usize \<Rightarrow> grid \<Rightarrow> grid option" where
  "fixup_wide_char_at x y g =
     (if y \<ge> g_rows g \<or> x \<ge> g_cols g then Some g
      else do {
        r \<leftarrow> visible_row y g;
        ce \<leftarrow> row_at r x;
        if ce_width ce = 2 then do {
          g \<leftarrow> (if x + 1 < g_cols g then visible_row_mut y (row_set (x + 1) default_cell) g else Some g);
          visible_row_mut y (row_set x default_cell) g }
        else if ce_width ce = 0 \<and> x > 0 then do {
          g \<leftarrow> visible_row_mut y (row_set (x - 1) default_cell) g;
          visible_row_mut y (row_set x default_cell) g }
        else Some g })"

definition set_cell :: "usize \<Rightarrow> usize \<Rightarrow> cell \<Rightarrow> grid \<Rightarrow> grid option" where
  "set_cell x y ce g =
     (if y \<ge> g_rows g \<or> x \<ge> g_cols g then Some g
      else do {
        g \<leftarrow> fixup_wide_char_at x y g;
        g \<leftarrow> visible_row_mut y (\<lambda>r. map_option (clear_combining (as_u16 x)) (row_set x ce r)) g;
        if ce_width ce = 2 \<and> x + 1 < g_cols g then do {
          g \<leftarrow> fixup_wide_char_at (x + 1) y g;
          visible_row_mut y (\<lambda>r. map_option (clear_combining (as_u16 (x + 1)))
            (row_set (x + 1) (cell_new 0 (ce_style ce) 0) r)) g }
        else Some g })"

definition erase_cells :: "usize \<Rightarrow> usize \<Rightarrow> usize \<Rightarrow> cell \<Rightarrow> grid \<Rightarrow> grid option" where
  "erase_cells y from to blank g =
     (if y \<ge> g_rows g then Some g
      else let cols = g_cols g; from = min from cols; to = min to cols in
        if from \<ge> to then Some g
        else do {
          g \<leftarrow> fixup_wide_char_at from y g;
          g \<leftarrow> (if to < cols then fixup_wide_char_at to y g else Some g);
          visible_row_mut y (\<lambda>r. map_option (clear_combining_range (as_u16 from) (as_u16 to))
            (for_m [from..<to] (\<lambda>i. row_set i blank) r)) g })"

definition erase_rows :: "usize \<Rightarrow> usize \<Rightarrow> cell \<Rightarrow> grid \<Rightarrow> grid option" where
  "erase_rows from_y to_y blank g =
     (let from_y = min from_y (g_rows g); to_y = min to_y (g_rows g) in
      for_m [from_y..<to_y] (\<lambda>y. visible_row_mut y
        (\<lambda>r. Some (clear_all_combining (r\<lparr>row_cells := map (\<lambda>_. blank) (row_cells r)\<rparr>)))) g)"

text \<open>The debug-build check that the source calls after its mutations.\<close>

definition check_invariants :: "grid \<Rightarrow> bool" where
  "check_invariants g \<longleftrightarrow>
     g_pending g \<le> g_sb_len g \<and> length (g_cells g) = g_sb_len g + g_rows g"

subsection \<open>Collecting dead styles (\<open>compact_styles\<close> in \<open>screen/mod.rs\<close>)\<close>

definition mark_rows :: "row list \<Rightarrow> bool list \<Rightarrow> bool list" where
  "mark_rows rs live =
     fold (\<lambda>r live. fold (\<lambda>ce live. if ce_style ce < length live then live[ce_style ce := True] else live)
            (row_cells r) live) rs live"

definition compact_styles :: "saved_grid option \<Rightarrow> grid \<Rightarrow> grid" where
  "compact_styles saved g =
     (let cap = tbl_capacity (g_table g) in
      if cap \<le> 1 then g
      else let live = (replicate cap False)[0 := True];
               live = mark_rows (scrollback_rows g @ visible_rows g) live;
               live = (case saved of None \<Rightarrow> live | Some sg \<Rightarrow> mark_rows (sg_visible sg) live)
           in g\<lparr>g_table := reclaim live (g_table g)\<rparr>)"

end
