(* ===== verification/Grid_Inv.thy ===== *)
theory Grid_Inv
  imports Grid
begin

section \<open>The grid invariant and how every operation keeps it\<close>

text \<open>
  \<open>grid_inv\<close> collects what the source keeps true of a \<open>Grid\<close> between operations: sane dimensions,
  the unified buffer split exactly at \<open>scrollback_len\<close>, visible rows as wide as the grid, cursor and
  scroll region inside it, a tab stop per column, and every cell's style number live in the style
  table. Under it no operation panics (each lemma is a total-correctness statement \<open>ok\<close>).
\<close>

named_theorems grid_ok \<open>total correctness of the grid's operations\<close>

definition cell_live :: "style_table \<Rightarrow> cell \<Rightarrow> bool" where
  "cell_live t ce \<longleftrightarrow> tbl_live t (ce_style ce)"

definition row_live :: "style_table \<Rightarrow> row \<Rightarrow> bool" where
  "row_live t r \<longleftrightarrow> (\<forall>ce\<in>set (row_cells r). cell_live t ce)"

definition rows_live :: "style_table \<Rightarrow> row list \<Rightarrow> bool" where
  "rows_live t rs \<longleftrightarrow> (\<forall>r\<in>set rs. row_live t r)"

definition row_fits :: "grid \<Rightarrow> row \<Rightarrow> bool" where
  "row_fits g r \<longleftrightarrow> length (row_cells r) = g_cols g \<and> row_live (g_table g) r"

text \<open>The buffer alone: what the source's \<open>check_invariants\<close> asserts, and the rows.\<close>

definition grid_shape :: "grid \<Rightarrow> bool" where
  "grid_shape g \<longleftrightarrow>
     1 \<le> g_cols g \<and> g_cols g \<le> u16_max \<and> 1 \<le> g_rows g \<and> g_rows g \<le> u16_max
     \<and> check_invariants g
     \<and> (\<forall>r\<in>set (drop (g_sb_len g) (g_cells g)). length (row_cells r) = g_cols g)"

definition grid_pos :: "grid \<Rightarrow> bool" where
  "grid_pos g \<longleftrightarrow>
     g_cx g < g_cols g \<and> g_cy g < g_rows g
     \<and> g_top g \<le> g_bottom g \<and> g_bottom g < g_rows g \<and> length (g_tabs g) = g_cols g"

definition grid_styles :: "grid \<Rightarrow> bool" where
  "grid_styles g \<longleftrightarrow> tbl_inv (g_table g) \<and> rows_live (g_table g) (g_cells g)"

definition grid_inv :: "grid \<Rightarrow> bool" where
  "grid_inv g \<longleftrightarrow> grid_shape g \<and> grid_pos g \<and> grid_styles g"

lemmas grid_inv_defs = grid_inv_def grid_shape_def grid_pos_def grid_styles_def
  check_invariants_def u16_max_def

lemma grid_invD:
  assumes "grid_inv g"
  shows "0 < g_cols g" "g_cols g < 65536" "0 < g_rows g" "g_rows g < 65536"
    "g_pending g \<le> g_sb_len g" "length (g_cells g) = g_sb_len g + g_rows g"
    "g_cx g < g_cols g" "g_cy g < g_rows g" "g_top g \<le> g_bottom g" "g_bottom g < g_rows g"
    "length (g_tabs g) = g_cols g" "tbl_inv (g_table g)" "rows_live (g_table g) (g_cells g)"
  using assms by (auto simp: grid_inv_defs)

lemma grid_inv_u16 [simp]:
  assumes "grid_inv g"
  shows "u16_sub (g_cols g) 1 = g_cols g - 1" "u16_sub (g_rows g) 1 = g_rows g - 1"
  using grid_invD(1-4) [OF assms] by (simp_all add: u16_simps)

lemmas grid_inv_u16_Suc [simp] = grid_inv_u16 [unfolded One_nat_def]

lemma grid_inv_check: "grid_inv g \<Longrightarrow> check_invariants g"
  by (simp add: grid_inv_def grid_shape_def)

lemma row_live_simps [simp]:
  "row_live t (row_new n)" if "tbl_inv t" for t
  using that by (simp add: row_live_def cell_live_def default_cell_def tbl_live_0)

lemma cell_live_default [simp]: "tbl_inv t \<Longrightarrow> cell_live t default_cell"
  by (simp add: cell_live_def default_cell_def tbl_live_0)

lemma rows_live_simps [simp]:
  "rows_live t []" "rows_live t (r # rs) \<longleftrightarrow> row_live t r \<and> rows_live t rs"
  "rows_live t (rs @ qs) \<longleftrightarrow> rows_live t rs \<and> rows_live t qs"
  by (auto simp: rows_live_def)

lemma rows_live_subset: "rows_live t rs \<Longrightarrow> set qs \<subseteq> set rs \<Longrightarrow> rows_live t qs"
  by (auto simp: rows_live_def)

lemma row_live_from_cells [simp]: "cell_live t ce \<Longrightarrow> row_live t (from_cells (replicate n ce))"
  by (simp add: row_live_def)

lemma grid_inv_visible:
  assumes "grid_inv g" "y < g_rows g"
  shows "visible_row y g = Some (g_cells g ! (g_sb_len g + y))"
    "row_fits g (g_cells g ! (g_sb_len g + y))"
proof -
  have len: "g_sb_len g + y < length (g_cells g)" using grid_invD(6) [OF assms(1)] assms(2) by simp
  then show "visible_row y g = Some (g_cells g ! (g_sb_len g + y))" by (simp add: visible_row_def)
  have "g_cells g ! (g_sb_len g + y) = drop (g_sb_len g) (g_cells g) ! y" using len by simp
  moreover have "drop (g_sb_len g) (g_cells g) ! y \<in> set (drop (g_sb_len g) (g_cells g))"
    using len by (intro nth_mem) simp
  moreover have "g_cells g ! (g_sb_len g + y) \<in> set (g_cells g)" using len by (rule nth_mem)
  ultimately show "row_fits g (g_cells g ! (g_sb_len g + y))"
    using assms(1) by (auto simp: row_fits_def grid_inv_defs rows_live_def)
qed

subsection \<open>Steps that only change cells\<close>

text \<open>
  \<open>content_step g g'\<close>: the invariant holds in \<open>g'\<close>, which differs from \<open>g\<close> in its cells only,
  and not in its scrollback.
\<close>

definition content_step :: "grid \<Rightarrow> grid \<Rightarrow> bool" where
  "content_step g g' \<longleftrightarrow> grid_inv g' \<and> (\<exists>cs. g' = g\<lparr>g_cells := cs\<rparr>)
     \<and> take (g_sb_len g) (g_cells g') = take (g_sb_len g) (g_cells g)"

lemma content_stepD:
  assumes "content_step g g'"
  shows "grid_inv g'" "g_cols g' = g_cols g" "g_rows g' = g_rows g" "g_table g' = g_table g"
    "g_sb_len g' = g_sb_len g" "g_modes g' = g_modes g" "g_cx g' = g_cx g" "g_cy g' = g_cy g"
    "g_top g' = g_top g" "g_bottom g' = g_bottom g" "g_wrap g' = g_wrap g" "g_tabs g' = g_tabs g"
    "g_pending g' = g_pending g" "g_sb_limit g' = g_sb_limit g"
    "g_cursor_visible g' = g_cursor_visible g"
  using assms by (auto simp: content_step_def)

lemma content_step_refl [simp]: "grid_inv g \<Longrightarrow> content_step g g"
  unfolding content_step_def by (auto intro: exI [of _ "g_cells g"])

lemma content_step_trans: "content_step g g' \<Longrightarrow> content_step g' g'' \<Longrightarrow> content_step g g''"
  unfolding content_step_def by auto

lemma row_fits_cong: "content_step g g' \<Longrightarrow> row_fits g' = row_fits g"
  using content_stepD by (auto simp: row_fits_def fun_eq_iff)

lemma ok_content_trans:
  assumes "ok (content_step g) m" "\<And>g'. content_step g g' \<Longrightarrow> ok (content_step g') (f g')"
  shows "ok (content_step g) (Option.bind m f)"
proof -
  from assms(1) obtain g' where m: "m = Some g'" and s: "content_step g g'" by (auto simp: ok_ex)
  have "ok (content_step g) (f g')"
    by (rule ok_mono [OF assms(2) [OF s]]) (rule content_step_trans [OF s])
  then show ?thesis by (simp add: m)
qed

lemma ok_content_for:
  assumes "grid_inv g" "\<And>x g'. x \<in> set xs \<Longrightarrow> content_step g g' \<Longrightarrow> ok (content_step g') (f x g')"
  shows "ok (content_step g) (for_m xs f g)"
proof (rule for_m_ok)
  fix x g'
  assume "x \<in> set xs" and s: "content_step g g'"
  then have "ok (content_step g') (f x g')" by (rule assms(2))
  then show "ok (content_step g) (f x g')" by (rule ok_mono) (rule content_step_trans [OF s])
qed (use assms(1) in simp)

lemma content_step_update:
  assumes inv: "grid_inv g" and y: "y < g_rows g" and r: "row_fits g r"
  shows "content_step g (g\<lparr>g_cells := (g_cells g)[g_sb_len g + y := r]\<rparr>)"
proof -
  let ?cs = "(g_cells g)[g_sb_len g + y := r]"
  have "drop (g_sb_len g) ?cs = (drop (g_sb_len g) (g_cells g))[y := r]"
    by (simp add: list_surgery)
  then have "\<forall>q\<in>set (drop (g_sb_len g) ?cs). length (row_cells q) = g_cols g"
    using inv r set_update_subset_insert [of "drop (g_sb_len g) (g_cells g)" y r]
    by (auto simp: grid_inv_defs row_fits_def)
  moreover have "rows_live (g_table g) ?cs"
    using inv r set_update_subset_insert [of "g_cells g" "g_sb_len g + y" r]
    by (auto simp: grid_inv_defs row_fits_def rows_live_def)
  ultimately show ?thesis
    using inv by (auto simp: content_step_def grid_inv_defs)
qed

lemma visible_row_mut_ok [grid_ok]:
  assumes "grid_inv g" "y < g_rows g" "\<And>r. row_fits g r \<Longrightarrow> ok (row_fits g) (f r)"
  shows "ok (content_step g) (visible_row_mut y f g)"
proof -
  let ?r = "g_cells g ! (g_sb_len g + y)"
  have "row_fits g ?r" using assms(1,2) by (rule grid_inv_visible(2))
  then have "ok (row_fits g) (f ?r)" by (rule assms(3))
  then show ?thesis
    using assms(1,2)
    by (auto simp: visible_row_mut_def grid_inv_visible(1) ok_ex intro: content_step_update)
qed

text \<open>Row accesses that keep a row fitting.\<close>

lemma row_set_fits [grid_ok]:
  assumes "row_fits g r" "x < g_cols g" "cell_live (g_table g) ce"
  shows "ok (row_fits g) (row_set x ce r)"
  using assms set_update_subset_insert [of "row_cells r" x ce]
  by (auto simp: row_fits_def row_set_def row_live_def)

lemma row_fits_marks [simp]:
  "row_fits g (clear_combining c r) = row_fits g r"
  "row_fits g (clear_all_combining r) = row_fits g r"
  "row_fits g (clear_combining_range a b r) = row_fits g r"
  "row_fits g (push_combining c m r) = row_fits g r"
  by (simp_all add: row_fits_def row_live_def)

lemma ok_map_option [simp]: "ok P (map_option f m) = ok (\<lambda>x. P (f x)) m"
  by (simp add: ok_def split: option.splits)

subsection \<open>Writing and erasing\<close>

lemma set_default_ok [grid_ok]:
  assumes "grid_inv g" "y < g_rows g" "x < g_cols g"
  shows "ok (content_step g) (visible_row_mut y (row_set x default_cell) g)"
  using assms by (intro visible_row_mut_ok row_set_fits) (auto dest: grid_invD(12))

lemma fixup_wide_char_at_ok [grid_ok]:
  assumes inv: "grid_inv g"
  shows "ok (content_step g) (fixup_wide_char_at x y g)"
proof (cases "y \<ge> g_rows g \<or> x \<ge> g_cols g")
  case True
  then show ?thesis using inv by (simp add: fixup_wide_char_at_def)
next
  case False
  then have y: "y < g_rows g" and x: "x < g_cols g" by auto
  let ?r = "g_cells g ! (g_sb_len g + y)"
  have at: "row_at ?r x = Some (row_cells ?r ! x)"
    using grid_inv_visible(2) [OF inv y] x by (simp add: row_at_def row_fits_def)
  have both: "ok (content_step g) (do { g \<leftarrow> visible_row_mut y (row_set x' default_cell) g;
      visible_row_mut y (row_set x default_cell) g })" if "x' < g_cols g" for x'
    using that by (intro ok_content_trans set_default_ok) (use inv y x in \<open>auto dest: content_stepD\<close>)
  have one: "ok (content_step g) (visible_row_mut y (row_set x default_cell) g)"
    using inv y x by (rule set_default_ok)
  show ?thesis
    using both [of "x + 1"] both [of "x - 1"] one inv False
    by (auto simp: fixup_wide_char_at_def grid_inv_visible(1) [OF inv y] at simp del: ok_bind
        intro!: set_default_ok)
qed

lemma write_cell_ok:
  assumes "grid_inv g" "y < g_rows g" "x < g_cols g" "cell_live (g_table g) ce"
  shows "ok (content_step g) (visible_row_mut y (\<lambda>r. map_option (clear_combining c) (row_set x ce r)) g)"
  using assms by (intro visible_row_mut_ok) (auto intro: row_set_fits)

lemma set_cell_ok [grid_ok]:
  assumes inv: "grid_inv g" and live: "cell_live (g_table g) ce"
  shows "ok (content_step g) (set_cell x y ce g)"
proof (cases "y \<ge> g_rows g \<or> x \<ge> g_cols g")
  case True
  then show ?thesis using inv by (simp add: set_cell_def)
next
  case False
  have live': "cell_live (g_table g) (cell_new 0 (ce_style ce) 0)"
    using live by (simp add: cell_live_def cell_new_def)
  have tail: "ok (content_step g') (if ce_width ce = 2 \<and> x + 1 < g_cols g' then do {
          g \<leftarrow> fixup_wide_char_at (x + 1) y g';
          visible_row_mut y (\<lambda>r. map_option (clear_combining (as_u16 (x + 1)))
            (row_set (x + 1) (cell_new 0 (ce_style ce) 0) r)) g } else Some g')"
    if "content_step g g'" for g'
    by (rule ok_if, rule ok_content_trans, rule fixup_wide_char_at_ok)
      (use that False live' in \<open>auto dest: content_stepD intro!: write_cell_ok simp: content_stepD\<close>)
  have "ok (content_step g) (do {
        g \<leftarrow> fixup_wide_char_at x y g;
        g \<leftarrow> visible_row_mut y (\<lambda>r. map_option (clear_combining (as_u16 x)) (row_set x ce r)) g;
        (if ce_width ce = 2 \<and> x + 1 < g_cols g then do {
          g \<leftarrow> fixup_wide_char_at (x + 1) y g;
          visible_row_mut y (\<lambda>r. map_option (clear_combining (as_u16 (x + 1)))
            (row_set (x + 1) (cell_new 0 (ce_style ce) 0) r)) g } else Some g) })"
  proof (rule ok_content_trans)
    show "ok (content_step g) (fixup_wide_char_at x y g)" using inv by (rule fixup_wide_char_at_ok)
  next
    fix g1
    assume s1: "content_step g g1"
    show "ok (content_step g1) (do {
        g \<leftarrow> visible_row_mut y (\<lambda>r. map_option (clear_combining (as_u16 x)) (row_set x ce r)) g1;
        (if ce_width ce = 2 \<and> x + 1 < g_cols g then do {
          g \<leftarrow> fixup_wide_char_at (x + 1) y g;
          visible_row_mut y (\<lambda>r. map_option (clear_combining (as_u16 (x + 1)))
            (row_set (x + 1) (cell_new 0 (ce_style ce) 0) r)) g } else Some g) })"
    proof (rule ok_content_trans)
      show "ok (content_step g1)
        (visible_row_mut y (\<lambda>r. map_option (clear_combining (as_u16 x)) (row_set x ce r)) g1)"
        using s1 False live by (intro write_cell_ok) (auto simp: content_stepD)
    qed (use s1 in \<open>blast intro: tail content_step_trans\<close>)
  qed
  then show ?thesis using False by (simp add: set_cell_def)
qed

lemma fill_row_ok:
  "row_fits g r \<Longrightarrow> cell_live (g_table g) blank \<Longrightarrow> to \<le> g_cols g \<Longrightarrow>
   ok (row_fits g) (for_m [from..<to] (\<lambda>i. row_set i blank) r)"
  by (rule for_m_ok) (auto intro: row_set_fits)

lemma erase_cells_ok [grid_ok]:
  assumes inv: "grid_inv g" and live: "cell_live (g_table g) blank"
  shows "ok (content_step g) (erase_cells y from to blank g)"
proof (cases "y \<ge> g_rows g \<or> min from (g_cols g) \<ge> min to (g_cols g)")
  case True
  then show ?thesis using inv by (auto simp: erase_cells_def Let_def)
next
  case False
  let ?from = "min from (g_cols g)" and ?to = "min to (g_cols g)"
  have fill: "ok (content_step g') (visible_row_mut y
      (\<lambda>r. map_option (clear_combining_range (as_u16 ?from) (as_u16 ?to))
        (for_m [?from..<?to] (\<lambda>i. row_set i blank) r)) g')" if "content_step g g'" for g'
    using that False live
    by (intro visible_row_mut_ok) (auto simp: content_stepD intro!: fill_row_ok)
  have "ok (content_step g) (do {
      g' \<leftarrow> fixup_wide_char_at ?from y g;
      g' \<leftarrow> (if ?to < g_cols g then fixup_wide_char_at ?to y g' else Some g');
      visible_row_mut y (\<lambda>r. map_option (clear_combining_range (as_u16 ?from) (as_u16 ?to))
        (for_m [?from..<?to] (\<lambda>i. row_set i blank) r)) g' })"
  proof (rule ok_content_trans)
    show "ok (content_step g) (fixup_wide_char_at ?from y g)" using inv by (rule fixup_wide_char_at_ok)
  next
    fix g1
    assume s1: "content_step g g1"
    show "ok (content_step g1) (do {
      g' \<leftarrow> (if ?to < g_cols g then fixup_wide_char_at ?to y g1 else Some g1);
      visible_row_mut y (\<lambda>r. map_option (clear_combining_range (as_u16 ?from) (as_u16 ?to))
        (for_m [?from..<?to] (\<lambda>i. row_set i blank) r)) g' })"
    proof (rule ok_content_trans)
      show "ok (content_step g1) (if ?to < g_cols g then fixup_wide_char_at ?to y g1 else Some g1)"
        using s1 fixup_wide_char_at_ok by (simp add: content_stepD)
    qed (use s1 in \<open>blast intro: fill content_step_trans\<close>)
  qed
  then show ?thesis using False by (simp add: erase_cells_def Let_def)
qed

lemma erase_rows_ok [grid_ok]:
  assumes inv: "grid_inv g" and live: "cell_live (g_table g) blank"
  shows "ok (content_step g) (erase_rows from_y to_y blank g)"
  unfolding erase_rows_def Let_def
proof (rule ok_content_for [OF inv])
  fix y g'
  assume y: "y \<in> set [min from_y (g_rows g)..<min to_y (g_rows g)]" and s: "content_step g g'"
  show "ok (content_step g') (visible_row_mut y
      (\<lambda>r. Some (clear_all_combining (r\<lparr>row_cells := map (\<lambda>_. blank) (row_cells r)\<rparr>))) g')"
    using y s live
    by (intro visible_row_mut_ok) (auto simp: content_stepD row_fits_def row_live_def)
qed

subsection \<open>Scrolling\<close>

text \<open>
  Scrolling changes the cells and, on the main screen, the scrollback boundary. \<open>scroll_step\<close>
  keeps everything else.
\<close>

definition scroll_step :: "grid \<Rightarrow> grid \<Rightarrow> bool" where
  "scroll_step g g' \<longleftrightarrow> grid_inv g' \<and>
     g' = g\<lparr>g_cells := g_cells g', g_sb_len := g_sb_len g', g_pending := g_pending g'\<rparr>"

lemma scroll_stepD:
  assumes "scroll_step g g'"
  shows "grid_inv g'" "g_cols g' = g_cols g" "g_rows g' = g_rows g" "g_table g' = g_table g"
    "g_modes g' = g_modes g" "g_cx g' = g_cx g" "g_cy g' = g_cy g" "g_top g' = g_top g"
    "g_bottom g' = g_bottom g" "g_wrap g' = g_wrap g" "g_tabs g' = g_tabs g"
    "g_sb_limit g' = g_sb_limit g" "g_cursor_visible g' = g_cursor_visible g"
  using assms unfolding scroll_step_def by (cases g; cases g'; simp)+

lemma content_scroll_step: "content_step g g' \<Longrightarrow> scroll_step g g'"
  by (cases g) (auto simp: content_step_def scroll_step_def)

lemma scroll_step_trans: "scroll_step g g' \<Longrightarrow> scroll_step g' g'' \<Longrightarrow> scroll_step g g''"
  unfolding scroll_step_def by (cases g; cases g'; cases g'') simp

text \<open>Replacing the buffer by another of the right shape keeps the invariant.\<close>

lemma grid_inv_buffer:
  assumes "grid_inv g" "length cs = n + g_rows g" "p \<le> n" "rows_live (g_table g) cs"
    "\<forall>r\<in>set (drop n cs). length (row_cells r) = g_cols g"
  shows "grid_inv (g\<lparr>g_cells := cs, g_sb_len := n, g_pending := p\<rparr>)"
  using assms by (auto simp: grid_inv_defs)

text \<open>The visible part after a scroll of the region \<open>[tp, btm]\<close>.\<close>

definition scroll_region_up :: "usize \<Rightarrow> usize \<Rightarrow> 'a \<Rightarrow> 'a list \<Rightarrow> 'a list" where
  "scroll_region_up tp btm b v = insert_at btm b (remove_at tp v)"

definition scroll_region_down :: "usize \<Rightarrow> usize \<Rightarrow> 'a \<Rightarrow> 'a list \<Rightarrow> 'a list" where
  "scroll_region_down tp btm b v = insert_at tp b (remove_at btm v)"

lemma length_scroll_region [simp]:
  "tp \<le> btm \<Longrightarrow> btm < length v \<Longrightarrow> length (scroll_region_up tp btm b v) = length v"
  "tp \<le> btm \<Longrightarrow> btm < length v \<Longrightarrow> length (scroll_region_down tp btm b v) = length v"
  by (simp_all add: scroll_region_up_def scroll_region_down_def)

lemma set_scroll_region_subset:
  "set (scroll_region_up tp btm b v) \<subseteq> insert b (set v)"
  "set (scroll_region_down tp btm b v) \<subseteq> insert b (set v)"
  using set_remove_at [of tp v] set_remove_at [of btm v]
  by (auto simp: scroll_region_up_def scroll_region_down_def)

lemma insert_at_end: "i = length xs \<Longrightarrow> insert_at i x xs = xs @ [x]"
  by (simp add: insert_at_def)

lemma insert_at_append [list_surgery]:
  "insert_at (length xs + i) x (xs @ ys) = xs @ insert_at i x ys"
  by (simp add: insert_at_def)

lemma remove_at_append [list_surgery]: "remove_at (length xs + i) (xs @ ys) = xs @ remove_at i ys"
  by (simp add: remove_at_def)

lemma remove_at_0 [simp]: "remove_at 0 (x # xs) = xs"
  by (simp add: remove_at_def)

text \<open>
  The abstract view of a grid is the pair of its scrollback and its visible rows. \<open>scroll_up\<close> on it:
  the scrollback receives the top row on the main screen (dropping its oldest row at the limit) and
  the region shifts by one with a blank row at its bottom.
\<close>

definition grid_visible :: "grid \<Rightarrow> row list" where
  "grid_visible g = drop (g_sb_len g) (g_cells g)"

definition captures :: "bool \<Rightarrow> grid \<Rightarrow> bool" where
  "captures in_alt g \<longleftrightarrow> \<not> in_alt \<and> g_top g = 0 \<and> g_sb_limit g > 0"

definition scrollback_after :: "bool \<Rightarrow> grid \<Rightarrow> row list" where
  "scrollback_after in_alt g =
     (if captures in_alt g
      then (let s = scrollback_rows g @ [grid_visible g ! 0]
            in if length s > g_sb_limit g then tl s else s)
      else scrollback_rows g)"

definition pending_after :: "bool \<Rightarrow> grid \<Rightarrow> usize" where
  "pending_after in_alt g =
     (if captures in_alt g \<and> g_sb_len g \<ge> g_sb_limit g then g_pending g - 1 else g_pending g)"

lemma grid_split:
  assumes "grid_inv g"
  shows "g_cells g = scrollback_rows g @ grid_visible g" "length (scrollback_rows g) = g_sb_len g"
    "length (grid_visible g) = g_rows g"
  using grid_invD(6) [OF assms] by (simp_all add: scrollback_rows_def grid_visible_def)

lemma scroll_up_eq:
  assumes inv: "grid_inv g"
  shows "scroll_up in_alt fill g = Some (g\<lparr>
     g_cells := scrollback_after in_alt g
        @ scroll_region_up (g_top g) (g_bottom g) (new_blank_row fill g) (grid_visible g),
     g_sb_len := length (scrollback_after in_alt g),
     g_pending := pending_after in_alt g\<rparr>)"
proof -
  define S where "S = scrollback_rows g"
  define V where "V = grid_visible g"
  have cells: "g_cells g = S @ V" and S: "g_sb_len g = length S" and V: "g_rows g = length V"
    unfolding S_def V_def using grid_split [OF inv] by auto
  have pos: "g_top g \<le> g_bottom g" "g_bottom g < length V" using grid_invD(9,10) [OF inv] V by auto
  have vlen: "length (g_cells g) - g_sb_len g = length V" by (simp add: cells S)
  let ?b = "from_cells (replicate (g_cols g) fill)"
  show ?thesis
  proof (cases "captures in_alt g")
    case True
    then have cap: "\<not> in_alt" "g_top g = 0" "g_sb_limit g > 0" by (auto simp: captures_def)
    obtain v V' where V': "V = v # V'" using pos(2) by (cases V) auto
    have upd: "scroll_region_up (g_top g) (g_bottom g) ?b V = insert_at (g_bottom g) ?b V'"
      by (simp add: scroll_region_up_def cap V')
    have S': "scrollback_after in_alt g = (if length S + 1 > g_sb_limit g then tl (S @ [v]) else S @ [v])"
      using True by (simp add: scrollback_after_def S_def [symmetric] V_def [symmetric] V' Let_def)
    have pend: "pending_after in_alt g = (if length S + 1 > g_sb_limit g then g_pending g - 1 else g_pending g)"
      using True by (auto simp: pending_after_def S)
    define T where "T = scrollback_after in_alt g"
    have T: "T = (if length S + 1 > g_sb_limit g then tl (S @ [v]) else S @ [v])"
      unfolding T_def by (rule S')
    have tlc: "tl (S @ v # V') = tl (S @ [v]) @ V'" by (cases S) simp_all
    have buf: "(if length S + 1 > g_sb_limit g then tl (g_cells g) else g_cells g) = T @ V'"
      by (simp add: T cells V' tlc)
    have lenT: "length T = (if length S + 1 > g_sb_limit g then length S else length S + 1)"
      by (simp add: T)
    have su: "scroll_up in_alt fill g =
        (let g' = g\<lparr>g_cells := T @ V', g_sb_len := length T, g_pending := pending_after in_alt g\<rparr> in
         if g_bottom g \<ge> length V - 1 then Some (g'\<lparr>g_cells := g_cells g' @ [?b]\<rparr>)
         else do { cells \<leftarrow> deque_insert (g_sb_len g' + g_bottom g) ?b (g_cells g');
                   Some (g'\<lparr>g_cells := cells\<rparr>) })"
      unfolding scroll_up_def vlen Let_def lenT buf [symmetric] pend if_bool_eq_conj
      using cap S by (cases g) simp
    show ?thesis
    proof (cases "g_bottom g \<ge> length V - 1")
      case True
      then have "insert_at (g_bottom g) ?b V' = V' @ [?b]"
        using pos(2) V' by (intro insert_at_end) simp
      with True show ?thesis
        unfolding su V_def [symmetric] T_def [symmetric] new_blank_row_def upd by (simp add: Let_def)
    next
      case False
      then have "deque_insert (length T + g_bottom g) ?b (T @ V') = Some (T @ insert_at (g_bottom g) ?b V')"
        using pos(2) V' by (simp add: deque_insert_def insert_at_append)
      with False show ?thesis
        unfolding su V_def [symmetric] T_def [symmetric] new_blank_row_def upd by (simp add: Let_def)
    qed
  next
    case False
    then have T: "scrollback_after in_alt g = S" and p: "pending_after in_alt g = g_pending g"
      by (simp_all add: scrollback_after_def pending_after_def S_def)
    have rem: "deque_remove (length S + g_top g) (S @ V) = S @ remove_at (g_top g) V"
      using pos by (simp add: deque_remove_def remove_at_append)
    have "0 < length V" using pos(2) by linarith
    then have fullrem: "remove_at 0 V @ [?b] = scroll_region_up 0 (length V - 1) ?b V"
      unfolding scroll_region_up_def by (subst insert_at_end) (simp_all only: length_remove_at)
    have gid: "g\<lparr>g_cells := X\<rparr> = g\<lparr>g_cells := X, g_sb_len := length S, g_pending := g_pending g\<rparr>" for X
      using S by (cases g) simp
    have br: "\<not> (\<not> in_alt \<and> g_top g = 0 \<and> g_sb_limit g > 0)" using False by (simp add: captures_def)
    have su: "scroll_up in_alt fill g =
        (if g_top g = 0 \<and> g_bottom g = length V - 1
         then Some (g\<lparr>g_cells := deque_remove (length S) (S @ V) @ [?b]\<rparr>)
         else do { cells \<leftarrow> deque_insert (length S + g_bottom g) ?b (deque_remove (length S + g_top g) (S @ V));
                   Some (g\<lparr>g_cells := cells\<rparr>) })"
      unfolding scroll_up_def Let_def vlen using br pos by (simp only: if_False S cells) simp
    have part: "deque_insert (length S + g_bottom g) ?b (S @ remove_at (g_top g) V)
        = Some (S @ scroll_region_up (g_top g) (g_bottom g) ?b V)"
      using pos by (simp add: deque_insert_def insert_at_append scroll_region_up_def)
    show ?thesis
    proof (cases "g_top g = 0 \<and> g_bottom g = length V - 1")
      case True
      then have "deque_remove (length S) (S @ V) @ [?b] = S @ scroll_region_up (g_top g) (g_bottom g) ?b V"
        using rem fullrem by simp
      then show ?thesis
        unfolding su V_def [symmetric] T p new_blank_row_def using True gid by simp
    next
      case False
      then show ?thesis
        unfolding su V_def [symmetric] T p new_blank_row_def rem part
        by (simp only: if_not_P if_False bind.bind_lunit gid [symmetric])
    qed
  qed
qed

lemma scroll_up_fits:
  assumes inv: "grid_inv g" and live: "cell_live (g_table g) fill"
  shows "scroll_step g (g\<lparr>
     g_cells := scrollback_after in_alt g
        @ scroll_region_up (g_top g) (g_bottom g) (new_blank_row fill g) (grid_visible g),
     g_sb_len := length (scrollback_after in_alt g),
     g_pending := pending_after in_alt g\<rparr>)" (is "scroll_step g ?g'")
proof -
  note split = grid_split [OF inv]
  let ?V' = "scroll_region_up (g_top g) (g_bottom g) (new_blank_row fill g) (grid_visible g)"
  have sub: "set (scrollback_after in_alt g) \<subseteq> set (g_cells g)"
  proof -
    have "grid_visible g ! 0 \<in> set (grid_visible g)"
      using split(3) grid_invD(3) [OF inv] by (intro nth_mem) simp
    moreover have "set (tl (scrollback_rows g @ [x])) \<subseteq> set (scrollback_rows g @ [x])" for x
      by (cases "scrollback_rows g") auto
    ultimately show ?thesis
      using split(1) by (auto simp: scrollback_after_def Let_def)
  qed
  have subV: "set ?V' \<subseteq> insert (new_blank_row fill g) (set (g_cells g))"
    using set_scroll_region_subset(1) split(1) by fastforce
  have blank: "row_live (g_table g) (new_blank_row fill g)"
    "length (row_cells (new_blank_row fill g)) = g_cols g"
    using live by (simp_all add: new_blank_row_def)
  have "grid_inv ?g'"
  proof (rule grid_inv_buffer [OF inv])
    show "length (scrollback_after in_alt g @ ?V') = length (scrollback_after in_alt g) + g_rows g"
      using grid_invD(9,10) [OF inv] split(3) by simp
    show "pending_after in_alt g \<le> length (scrollback_after in_alt g)"
      using grid_invD(5) [OF inv] split(2)
      by (auto simp: pending_after_def scrollback_after_def Let_def)
    show "rows_live (g_table g) (scrollback_after in_alt g @ ?V')"
      using sub subV blank(1) grid_invD(13) [OF inv] by (auto simp: rows_live_def)
    show "\<forall>r\<in>set (drop (length (scrollback_after in_alt g)) (scrollback_after in_alt g @ ?V')).
        length (row_cells r) = g_cols g"
      using set_scroll_region_subset(1) [of "g_top g" "g_bottom g" "new_blank_row fill g" "grid_visible g"]
        blank(2) inv by (auto simp: grid_inv_defs grid_visible_def)
  qed
  then show ?thesis by (simp add: scroll_step_def)
qed

lemma scroll_up_ok [grid_ok]:
  "grid_inv g \<Longrightarrow> cell_live (g_table g) fill \<Longrightarrow> ok (scroll_step g) (scroll_up in_alt fill g)"
  by (simp add: scroll_up_eq scroll_up_fits)

lemma scroll_down_eq:
  assumes inv: "grid_inv g"
  shows "scroll_down fill g = Some (g\<lparr>g_cells := scrollback_rows g
     @ scroll_region_down (g_top g) (g_bottom g) (new_blank_row fill g) (grid_visible g)\<rparr>)"
proof -
  define S where "S = scrollback_rows g"
  define V where "V = grid_visible g"
  have cells: "g_cells g = S @ V" and S: "g_sb_len g = length S" and V: "g_rows g = length V"
    unfolding S_def V_def using grid_split [OF inv] by auto
  have pos: "g_top g \<le> g_bottom g" "g_bottom g < length V" using grid_invD(9,10) [OF inv] V by auto
  have "deque_remove (length S + g_bottom g) (S @ V) = S @ remove_at (g_bottom g) V"
    using pos by (simp add: deque_remove_def remove_at_append)
  moreover have "g_top g \<le> length (remove_at (g_bottom g) V)" using pos by simp
  ultimately show ?thesis
    using pos unfolding S_def [symmetric] V_def [symmetric]
    by (simp add: scroll_down_def cells S deque_insert_def insert_at_append scroll_region_down_def
        new_blank_row_def Let_def)
qed

text \<open>Replacing the visible rows by others that fit.\<close>

lemma content_step_visible:
  assumes inv: "grid_inv g" and len: "length V' = g_rows g"
    and sub: "set V' \<subseteq> insert b (set (grid_visible g))" and b: "row_fits g b"
  shows "content_step g (g\<lparr>g_cells := scrollback_rows g @ V'\<rparr>)"
proof -
  note split = grid_split [OF inv]
  have fits: "row_fits g r" if "r \<in> set (grid_visible g)" for r
    using that inv in_set_dropD [of r "g_sb_len g" "g_cells g"]
    by (auto simp: row_fits_def grid_inv_defs grid_visible_def rows_live_def)
  have V': "row_fits g r" if "r \<in> set V'" for r using that sub fits b by auto
  have "rows_live (g_table g) (scrollback_rows g)"
    using grid_invD(13) [OF inv] split(1) rows_live_simps(3) by metis
  then have "grid_inv (g\<lparr>g_cells := scrollback_rows g @ V', g_sb_len := g_sb_len g, g_pending := g_pending g\<rparr>)"
    using inv len split(2) V' grid_invD(5) [OF inv]
    by (intro grid_inv_buffer) (auto simp: rows_live_def row_fits_def)
  then have "grid_inv (g\<lparr>g_cells := scrollback_rows g @ V'\<rparr>)" by (cases g) simp
  then show ?thesis
    using split(2) by (auto simp: content_step_def scrollback_rows_def)
qed

lemma blank_row_fits: "cell_live (g_table g) ce \<Longrightarrow> row_fits g (new_blank_row ce g)"
  by (simp add: row_fits_def new_blank_row_def)

lemma scroll_down_ok [grid_ok]:
  assumes "grid_inv g" "cell_live (g_table g) fill"
  shows "ok (content_step g) (scroll_down fill g)"
  using assms grid_invD(9,10) [OF assms(1)] grid_split(3) [OF assms(1)]
  by (auto simp: scroll_down_eq intro!: content_step_visible [OF _ _ set_scroll_region_subset(2)]
      blank_row_fits)

text \<open>\<open>remove_visible_row\<close> followed by \<open>insert_visible_row\<close>, as the line operations use them.\<close>

lemma move_row_eq:
  assumes inv: "grid_inv g" and i: "i < g_rows g" and j: "j < g_rows g"
  shows "insert_visible_row j r (remove_visible_row i g)
     = Some (g\<lparr>g_cells := scrollback_rows g @ insert_at j r (remove_at i (grid_visible g))\<rparr>)"
proof -
  define S where "S = scrollback_rows g"
  define V where "V = grid_visible g"
  have cells: "g_cells g = S @ V" and S: "g_sb_len g = length S" and V: "g_rows g = length V"
    unfolding S_def V_def using grid_split [OF inv] by auto
  have "j \<le> length (remove_at i V)" using i j V by simp
  then show ?thesis
    unfolding S_def [symmetric] V_def [symmetric]
    using i V by (simp add: insert_visible_row_def remove_visible_row_def cells S deque_remove_def
        remove_at_append deque_insert_def insert_at_append)
qed

lemma move_row_ok [grid_ok]:
  assumes "grid_inv g" "i < g_rows g" "j < g_rows g" "row_fits g r"
  shows "ok (content_step g) (insert_visible_row j r (remove_visible_row i g))"
  using assms grid_split(3) [OF assms(1)] set_remove_at [of i "grid_visible g"]
  by (auto simp: move_row_eq intro!: content_step_visible [of g _ r])

subsection \<open>Creating and resizing\<close>

lemma grid_new_inv:
  assumes "cols \<le> u16_max" "rows \<le> u16_max"
  shows "grid_inv (grid_new cols rows limit)"
proof -
  have "u16_sub (max rows 1) 1 = max rows 1 - 1"
    using assms by (intro u16_sub_id) (auto simp: u16_max_def)
  then show ?thesis
    using assms tbl_inv_new
    by (auto simp: grid_inv_defs grid_new_def sanitize_dimensions_def default_tab_stops_def rows_live_def)
qed

text \<open>What a grid has to satisfy for \<open>resize\<close> to repair the rest.\<close>

definition buffer_ok :: "grid \<Rightarrow> bool" where
  "buffer_ok g \<longleftrightarrow> g_sb_len g \<le> length (g_cells g) \<and> g_pending g \<le> g_sb_len g \<and> grid_styles g"

lemma grid_inv_buffer_ok: "grid_inv g \<Longrightarrow> buffer_ok g"
  by (auto simp: buffer_ok_def grid_inv_defs)

lemma set_row_cells_resize_row:
  "set (row_cells (resize_row n r)) \<subseteq> insert default_cell (set (row_cells r))"
proof -
  have "set (row_cells (fix_wide_char_orphan_at_boundary n r)) \<subseteq> insert default_cell (set (row_cells r))"
    using set_update_subset_insert [of "row_cells r" "n - 1" default_cell]
      set_update_subset_insert [of "(row_cells r)[n - 1 := default_cell]" "n - 1 - 1" default_cell]
    by (auto simp: fix_wide_char_orphan_at_boundary_def Let_def)
  then show ?thesis
    using set_resize_list [of n default_cell "row_cells (fix_wide_char_orphan_at_boundary n r)"]
    by (auto simp: resize_row_def)
qed

lemma resize_row_live: "tbl_inv t \<Longrightarrow> row_live t r \<Longrightarrow> row_live t (resize_row n r)"
  using set_row_cells_resize_row [of n r] by (auto simp: row_live_def)

lemma length_resize_row [simp]: "length (row_cells (resize_row n r)) = n"
  by (simp add: resize_row_def)

text \<open>The visible rows after a resize: trimmed or padded at the bottom, then each row resized.\<close>

definition resized_visible :: "u16 \<Rightarrow> u16 \<Rightarrow> row list \<Rightarrow> row list" where
  "resized_visible cols rows V = map (resize_row cols) (resize_list rows (row_new cols) V)"

lemma grid_resize_eq:
  assumes "g_sb_len g \<le> length (g_cells g)"
  shows "grid_resize cols rows g =
    (let cols = max cols 1; rows = max rows 1 in
     g\<lparr>g_cols := cols, g_rows := rows,
       g_cells := scrollback_rows g @ resized_visible cols rows (grid_visible g),
       g_cx := (if g_cx g \<ge> cols then u16_sub cols 1 else g_cx g),
       g_cy := (if g_cy g \<ge> rows then u16_sub rows 1 else g_cy g),
       g_wrap := False, g_top := 0, g_bottom := u16_sub rows 1, g_tabs := default_tab_stops cols\<rparr>)"
proof -
  define S where "S = scrollback_rows g"
  define V where "V = grid_visible g"
  have cells: "g_cells g = S @ V" and S: "g_sb_len g = length S"
    unfolding S_def V_def using assms by (simp_all add: scrollback_rows_def grid_visible_def)
  have buf: "take (length S) cs @ map f (drop (length S) cs) = S @ map f (resize_list r x V)"
    if "cs = (if length (S @ V) - length S > r then take (length (S @ V) - (length (S @ V) - length S - r)) (S @ V)
              else if length (S @ V) - length S < r
              then (S @ V) @ replicate (r - (length (S @ V) - length S)) x else S @ V)"
    for cs r x and f :: "row \<Rightarrow> row"
    using that by (auto simp: resize_list_def)
  show ?thesis
    unfolding grid_resize_def sanitize_dimensions_def Let_def prod.case resized_visible_def
      S_def [symmetric] V_def [symmetric] cells S buf [OF refl] ..
qed

lemma grid_resize_inv:
  assumes "buffer_ok g" "cols \<le> u16_max" "rows \<le> u16_max"
  shows "grid_inv (grid_resize cols rows g)"
proof -
  have subs: "u16_sub (max cols 1) 1 = max cols 1 - 1" "u16_sub (max rows 1) 1 = max rows 1 - 1"
    using assms by (auto intro!: u16_sub_id simp: u16_max_def)
  have len: "length (scrollback_rows g) = g_sb_len g"
    using assms by (simp add: scrollback_rows_def buffer_ok_def)
  have t: "tbl_inv (g_table g)" and live: "rows_live (g_table g) (g_cells g)"
    using assms by (auto simp: buffer_ok_def grid_styles_def)
  have S: "rows_live (g_table g) (scrollback_rows g)" and V: "rows_live (g_table g) (grid_visible g)"
    using live by (auto simp: scrollback_rows_def grid_visible_def rows_live_def
        dest: in_set_takeD in_set_dropD)
  have V': "rows_live (g_table g) (resized_visible c r (grid_visible g))" for c r
    using V t set_resize_list [of r "row_new c" "grid_visible g"]
    by (auto simp: resized_visible_def rows_live_def intro!: resize_row_live)
  show ?thesis
    using assms subs len t S V'
    by (auto simp: grid_resize_eq buffer_ok_def Let_def grid_inv_defs default_tab_stops_def
        resized_visible_def)
qed

lemma restore_scrollback_ok: "grid_inv g \<Longrightarrow> buffer_ok (restore_scrollback n g)"
  by (auto simp: buffer_ok_def restore_scrollback_def grid_inv_defs Let_def)

lemma next_tab_stop_lt:
  assumes "grid_inv g"
  shows "next_tab_stop col g < g_cols g"
proof -
  have fs: "first_stop tabs cs = Some c \<Longrightarrow> c \<in> set cs" for tabs cs c
    by (induction cs) (auto split: if_splits)
  show ?thesis
  proof (cases "first_stop (g_tabs g) [col + 1..<length (g_tabs g)]")
    case None
    then show ?thesis
      using grid_invD(1,2) [OF assms] by (simp add: next_tab_stop_def u16_simps)
  next
    case (Some c)
    then show ?thesis
      using grid_invD(2,11) [OF assms] fs [OF Some] by (simp add: next_tab_stop_def)
  qed
qed

subsection \<open>Garbage collection of styles\<close>

lemma mark_cells_length:
  "length (fold (\<lambda>ce live. if ce_style ce < length live then live[ce_style ce := True] else live) cs live)
     = length live"
  by (induction cs arbitrary: live) auto

lemma mark_rows_length [simp]: "length (mark_rows rs live) = length live"
  unfolding mark_rows_def by (induction rs arbitrary: live) (auto simp: mark_cells_length)

lemma mark_cells_mono:
  "live ! i \<Longrightarrow>
   fold (\<lambda>ce live. if ce_style ce < length live then live[ce_style ce := True] else live) cs live ! i"
proof (induction cs arbitrary: live)
  case (Cons ce cs)
  have "live[j := True] ! i" for j
    using Cons.prems by (cases "j < length live"; cases "i = j") (simp_all add: list_update_beyond)
  then show ?case using Cons by simp
qed simp

lemma mark_cells_marks:
  "ce \<in> set cs \<Longrightarrow> ce_style ce < length live \<Longrightarrow>
   fold (\<lambda>ce live. if ce_style ce < length live then live[ce_style ce := True] else live) cs live ! ce_style ce"
  by (induction cs arbitrary: live) (auto simp: mark_cells_mono)

lemma mark_rows_mono: "live ! i \<Longrightarrow> mark_rows rs live ! i"
  unfolding mark_rows_def by (induction rs arbitrary: live) (auto simp: mark_cells_mono)

lemma mark_rows_Cons:
  "mark_rows (q # rs) live = mark_rows rs
     (fold (\<lambda>ce live. if ce_style ce < length live then live[ce_style ce := True] else live)
       (row_cells q) live)"
  by (simp add: mark_rows_def)

lemma mark_rows_marks:
  "r \<in> set rs \<Longrightarrow> ce \<in> set (row_cells r) \<Longrightarrow> ce_style ce < length live \<Longrightarrow>
   mark_rows rs live ! ce_style ce"
proof (induction rs arbitrary: live)
  case (Cons q rs)
  show ?case
  proof (cases "r = q")
    case True
    then show ?thesis
      using Cons.prems by (auto simp: mark_rows_Cons intro!: mark_rows_mono mark_cells_marks)
  next
    case False
    then show ?thesis
      using Cons by (simp add: mark_rows_Cons mark_cells_length)
  qed
qed simp

text \<open>
  \<open>gc_step rs g g'\<close>: only the table differs, no number changes its style, and the numbers in the
  grid and in the further rows \<open>rs\<close> (the saved main screen) stay live.
\<close>

definition gc_step :: "row list \<Rightarrow> grid \<Rightarrow> grid \<Rightarrow> bool" where
  "gc_step rs g g' \<longleftrightarrow> (\<exists>t. g' = g\<lparr>g_table := t\<rparr> \<and> tbl_inv t \<and> rows_live t (g_cells g)
     \<and> rows_live t rs \<and> (\<forall>r\<in>set (g_cells g) \<union> set rs. \<forall>ce\<in>set (row_cells r).
          tbl_get t (ce_style ce) = tbl_get (g_table g) (ce_style ce)))"

definition saved_rows :: "saved_grid option \<Rightarrow> row list" where
  "saved_rows sg = (case sg of None \<Rightarrow> [] | Some s \<Rightarrow> sg_visible s)"

lemma compact_styles_ok:
  assumes inv: "grid_inv g" and saved: "rows_live (g_table g) (saved_rows sg)"
  shows "gc_step (saved_rows sg) g (compact_styles sg g)"
proof -
  note t = grid_invD(12,13) [OF inv]
  show ?thesis
  proof (cases "tbl_capacity (g_table g) \<le> 1")
    case True
    then show ?thesis
      using t saved by (auto simp: compact_styles_def gc_step_def intro!: exI [of _ "g_table g"])
  next
    case False
    define cap where "cap = tbl_capacity (g_table g)"
    define marks where "marks = mark_rows (saved_rows sg)
      (mark_rows (scrollback_rows g @ visible_rows g) ((replicate cap False)[0 := True]))"
    have rows: "scrollback_rows g @ visible_rows g = g_cells g"
      using grid_split [OF inv] by (simp add: visible_rows_def grid_visible_def)
    have eq: "compact_styles sg g = g\<lparr>g_table := reclaim marks (g_table g)\<rparr>"
      using False by (cases sg)
        (simp_all add: compact_styles_def marks_def cap_def saved_rows_def Let_def, simp_all add: mark_rows_def)
    have len: "length marks = length (tbl_styles (g_table g))"
      by (simp add: marks_def cap_def tbl_capacity_def)
    have marked: "marks ! ce_style ce"
      if "r \<in> set (g_cells g) \<union> set (saved_rows sg)" "ce \<in> set (row_cells r)"
        "ce_style ce < length (tbl_styles (g_table g))" for r ce
      using that mark_rows_marks mark_rows_mono
      by (auto simp: marks_def rows cap_def tbl_capacity_def)
    have live: "cell_live (g_table g) ce"
      if "r \<in> set (g_cells g) \<union> set (saved_rows sg)" "ce \<in> set (row_cells r)" for r ce
      using that t(2) saved by (auto simp: rows_live_def row_live_def)
    have "tbl.refs_kept {ce_style ce | ce r. r \<in> set (g_cells g) \<union> set (saved_rows sg) \<and> ce \<in> set (row_cells r)}
        (g_table g) (reclaim marks (g_table g))"
      using live marked by (intro tbl.gc_refs [OF t(1)]) (force simp: cell_live_def tbl_live_def len)
    then show ?thesis
      unfolding eq gc_step_def tbl.refs_kept_def
      by (intro exI [of _ "reclaim marks (g_table g)"])
        (fastforce simp: rows_live_def row_live_def cell_live_def)
  qed
qed

subsection \<open>Erasing every visible row\<close>

lemma for_rows_eq:
  assumes "g_sb_len g \<le> length (g_cells g)" "n \<le> length (grid_visible g)"
  shows "for_m [0..<n] (\<lambda>y. visible_row_mut y (\<lambda>r. Some (f r))) g
     = Some (g\<lparr>g_cells := scrollback_rows g @ map f (take n (grid_visible g)) @ drop n (grid_visible g)\<rparr>)"
  using assms(2)
proof (induction n)
  case 0
  then show ?case using assms(1) by (simp add: scrollback_rows_def grid_visible_def)
next
  case (Suc n)
  define S where "S = scrollback_rows g"
  define V where "V = grid_visible g"
  have S: "g_sb_len g = length S" using assms(1) by (simp add: S_def scrollback_rows_def)
  have n: "n < length V" using Suc.prems by (simp add: V_def)
  have step: "visible_row_mut n (\<lambda>r. Some (f r)) (g\<lparr>g_cells := S @ map f (take n V) @ drop n V\<rparr>)
      = Some (g\<lparr>g_cells := S @ map f (take (Suc n) V) @ drop (Suc n) V\<rparr>)"
    using n by (simp add: visible_row_mut_def visible_row_def S nth_append list_update_append
        take_Suc_conv_app_nth Cons_nth_drop_Suc [symmetric])
  show ?case
    using Suc step by (simp add: S_def V_def)
qed

lemma erase_all_rows_eq:
  assumes "grid_shape g"
  shows "erase_rows 0 (g_rows g) blank g = Some (g\<lparr>g_cells := scrollback_rows g
     @ map (\<lambda>r. clear_all_combining (r\<lparr>row_cells := map (\<lambda>_. blank) (row_cells r)\<rparr>)) (grid_visible g)\<rparr>)"
proof -
  have len: "g_sb_len g \<le> length (g_cells g)" "g_rows g = length (grid_visible g)"
    using assms by (auto simp: grid_shape_def check_invariants_def grid_visible_def)
  show ?thesis
    using for_rows_eq [OF len(1), of "g_rows g"] len(2) by (simp add: erase_rows_def)
qed

end
