(* ===== verification/Utf8.thy ===== *)
theory Utf8
  imports Prelude
begin

section \<open>UTF-8, as the source uses it from the standard library\<close>

text \<open>
  \<open>char::encode_utf8\<close>, \<open>str::from_utf8\<close> (well-formedness), \<open>str::is_char_boundary\<close> (slicing a string
  off a boundary panics) and \<open>str::parse::<u16>\<close>. A Rust \<open>String\<close> is the list of its bytes
  (\<open>rstring\<close>) in the terminal emulator, which works on bytes, and the list of its characters (\<open>rtext\<close>,
  with \<open>utf8\<close> for \<open>as_bytes\<close>) elsewhere. A literal of ASCII characters is the same list in both.
\<close>

type_synonym rstring = "u8 list"
type_synonym rtext = "rchar list"

definition is_scalar :: "rchar \<Rightarrow> bool" where
  "is_scalar c \<longleftrightarrow> c < 55296 \<or> 57344 \<le> c \<and> c < 1114112"

definition encode_utf8 :: "rchar \<Rightarrow> u8 list" where
  "encode_utf8 c =
     (if c < 128 then [c]
      else if c < 2048 then [192 + c div 64, 128 + c mod 64]
      else if c < 65536 then [224 + c div 4096, 128 + c div 64 mod 64, 128 + c mod 64]
      else [240 + c div 262144, 128 + c div 4096 mod 64, 128 + c div 64 mod 64, 128 + c mod 64])"

definition utf8 :: "rtext \<Rightarrow> u8 list" where
  "utf8 s = concat (map encode_utf8 s)"

definition is_cont :: "u8 \<Rightarrow> bool" where
  "is_cont b \<longleftrightarrow> 128 \<le> b \<and> b < 192"

fun utf8_valid :: "u8 list \<Rightarrow> bool" where
  "utf8_valid [] = True"
| "utf8_valid (b # bs) =
     (if b < 128 then utf8_valid bs
      else if 194 \<le> b \<and> b < 224 then
        (case bs of b1 # rest \<Rightarrow> is_cont b1 \<and> utf8_valid rest | _ \<Rightarrow> False)
      else if 224 \<le> b \<and> b < 240 then
        (case bs of b1 # b2 # rest \<Rightarrow> is_cont b1 \<and> is_cont b2
             \<and> (b = 224 \<longrightarrow> 160 \<le> b1) \<and> (b = 237 \<longrightarrow> b1 < 160) \<and> utf8_valid rest
         | _ \<Rightarrow> False)
      else if 240 \<le> b \<and> b < 245 then
        (case bs of b1 # b2 # b3 # rest \<Rightarrow> is_cont b1 \<and> is_cont b2 \<and> is_cont b3
             \<and> (b = 240 \<longrightarrow> 144 \<le> b1) \<and> (b = 244 \<longrightarrow> b1 < 144) \<and> utf8_valid rest
         | _ \<Rightarrow> False)
      else False)"

definition is_char_boundary :: "rstring \<Rightarrow> usize \<Rightarrow> bool" where
  "is_char_boundary s i \<longleftrightarrow> i = 0 \<or> i = length s \<or> i < length s \<and> \<not> is_cont (s ! i)"

text \<open>\<open>&s[..n]\<close>: \<open>None\<close> is the panic.\<close>

definition str_prefix :: "rstring \<Rightarrow> usize \<Rightarrow> rstring option" where
  "str_prefix s n = (if is_char_boundary s n then Some (take n s) else None)"

definition digits_value :: "u8 list \<Rightarrow> nat option" where
  "digits_value ds = (if ds \<noteq> [] \<and> list_all (\<lambda>d. 48 \<le> d \<and> d \<le> 57) ds
     then Some (fold (\<lambda>d n. n * 10 + (d - 48)) ds 0) else None)"

definition parse_u16 :: "rstring \<Rightarrow> u16 option" where
  "parse_u16 s =
     (let ds = (case s of c # rest \<Rightarrow> (if c = 43 then rest else s) | [] \<Rightarrow> s)
      in case digits_value ds of
           Some n \<Rightarrow> (if n \<le> u16_max then Some n else None)
         | None \<Rightarrow> None)"

text \<open>Encoding a scalar value gives well-formed bytes, whatever follows.\<close>

lemma utf8_valid_encode:
  assumes "is_scalar c"
  shows "utf8_valid (encode_utf8 c @ bs) = utf8_valid bs"
proof -
  have m: "n mod 64 < 64" for n :: nat by simp
  have cont: "is_cont (128 + n mod 64)" for n using m [of n] unfolding is_cont_def by linarith
  consider "c < 128" | "128 \<le> c" "c < 2048" | "2048 \<le> c" "c < 65536" | "65536 \<le> c" by linarith
  then show ?thesis
  proof cases
    case 1
    then show ?thesis by (simp add: encode_utf8_def)
  next
    case 2
    then have "2 \<le> c div 64" "c div 64 < 32" by auto
    then show ?thesis using 2 cont by (simp add: encode_utf8_def)
  next
    case 3
    define h where "h = c div 4096"
    define k where "k = c div 64 mod 64"
    have h: "h = c div 64 div 64" unfolding h_def by (simp add: div_mult2_eq [symmetric])
    have c: "c div 64 = h * 64 + k" unfolding h k_def by (rule div_mult_mod_eq [symmetric])
    have k: "k < 64" unfolding k_def by simp
    have lo: "c div 64 \<ge> 32" using 3(1) by auto
    have "h < 16" unfolding h_def using 3(2) by auto
    moreover have "h = 0 \<Longrightarrow> 32 \<le> k" using c lo by simp
    moreover have "h = 13 \<Longrightarrow> k < 32"
    proof -
      assume "h = 13"
      then have "c div 64 = 832 + k" using c by simp
      moreover have "c div 64 < 864 \<or> 896 \<le> c div 64" using assms 3 by (auto simp: is_scalar_def)
      ultimately show "k < 32" using k by linarith
    qed
    ultimately show ?thesis
      using 3 cont [of "c div 64"] cont [of c]
      by (simp add: encode_utf8_def h_def [symmetric] k_def [symmetric])
  next
    case 4
    define h where "h = c div 262144"
    define k where "k = c div 4096 mod 64"
    have h: "h = c div 4096 div 64" unfolding h_def by (simp add: div_mult2_eq [symmetric])
    have c: "c div 4096 = h * 64 + k" unfolding h k_def by (rule div_mult_mod_eq [symmetric])
    have k: "k < 64" unfolding k_def by simp
    have rng: "c div 4096 \<ge> 16" "c div 4096 < 272" using 4 assms by (auto simp: is_scalar_def)
    have "h < 5" unfolding h_def using 4 assms by (auto simp: is_scalar_def)
    moreover have "h = 0 \<Longrightarrow> 16 \<le> k" using c rng by simp
    moreover have "h = 4 \<Longrightarrow> k < 16" using c rng by simp
    ultimately show ?thesis
      using 4 cont [of "c div 4096"] cont [of "c div 64"] cont [of c]
      by (simp add: encode_utf8_def h_def [symmetric] k_def [symmetric])
  qed
qed

lemma utf8_valid_encode_all:
  "list_all is_scalar cs \<Longrightarrow> utf8_valid (concat (map encode_utf8 cs))"
  by (induction cs) (simp_all add: utf8_valid_encode)

lemma encode_utf8_nonempty [simp]: "encode_utf8 c \<noteq> []"
  by (simp add: encode_utf8_def)

subsection \<open>Decimal numerals\<close>

text \<open>\<open>{}\<close> of an unsigned number, and its inverse.\<close>

fun decimal :: "nat \<Rightarrow> rtext" where
  "decimal n = (if n < 10 then [48 + n] else decimal (n div 10) @ [48 + n mod 10])"

declare decimal.simps [simp del]

lemma decimal_digits: "\<forall>d\<in>set (decimal n). 48 \<le> d \<and> d \<le> 57"
proof (induction n rule: decimal.induct)
  case (1 n)
  have "n mod 10 < 10" by simp
  then show ?case using 1 by (subst decimal.simps) (auto simp del: mod_less_divisor)
qed

lemma decimal_nonempty [simp]: "decimal n \<noteq> []"
  by (subst decimal.simps) simp

lemma decimal_fold: "fold (\<lambda>d n. n * 10 + (d - 48)) (decimal n) 0 = n"
  by (induction n rule: decimal.induct) (subst decimal.simps, simp)

lemma digits_value_decimal [simp]: "digits_value (decimal n) = Some n"
  using decimal_digits [of n] by (simp add: digits_value_def list_all_iff decimal_fold)

lemma decimal_inj: "decimal m = decimal n \<longleftrightarrow> m = n"
  using digits_value_decimal by (metis option.inject)

end
