(* ===== verification/Sgr_Roundtrip.thy ===== *)
theory Sgr_Roundtrip
  imports Style
begin

section \<open>Writing a style and reading it back\<close>

text \<open>
  The reader side of a CSI sequence is the terminal's own parser (the \<open>vte\<close> crate here, any
  ECMA-48 terminal on the client's side). Its parameter grammar is written out below as a
  specification: groups separated by \<open>;\<close>, sub-parameters by \<open>:\<close>, decimal numbers. The theorem says
  that the parameters of the sequence the writer emits make \<open>apply_sgr\<close> produce the style it was
  written for, from any previous style.
\<close>

subsection \<open>The parameter grammar\<close>

fun csi_params_from :: "u8 list \<Rightarrow> nat \<Rightarrow> nat list \<Rightarrow> nat list list" where
  "csi_params_from [] n sub = [sub @ [n]]"
| "csi_params_from (b # bs) n sub =
     (if b = 59 then (sub @ [n]) # csi_params_from bs 0 []
      else if b = 58 then csi_params_from bs 0 (sub @ [n])
      else csi_params_from bs (n * 10 + (b - 48)) sub)"

definition csi_params :: "u8 list \<Rightarrow> nat list list" where
  "csi_params bs = csi_params_from bs 0 []"

text \<open>A parameter group written out, and a sequence of further groups.\<close>

fun fmt_group :: "nat list \<Rightarrow> u8 list" where
  "fmt_group [] = []"
| "fmt_group [x] = write_u8 [] x"
| "fmt_group (x # y # zs) = write_u8 [] x @ 58 # fmt_group (y # zs)"

definition fmt_more :: "nat list list \<Rightarrow> u8 list" where
  "fmt_more gs = concat (map (\<lambda>g. 59 # fmt_group g) gs)"

lemma fmt_more_Nil [simp]: "fmt_more [] = []"
  and fmt_more_Cons: "fmt_more (g # gs) = 59 # fmt_group g @ fmt_more gs"
  and fmt_more_append: "fmt_more (gs @ hs) = fmt_more gs @ fmt_more hs"
  by (simp_all add: fmt_more_def)

lemma write_u8_append: "write_u8 out n = out @ write_u8 [] n"
  by (simp add: write_u8_def)

lemma csi_params_from_digit:
  "d < 10 \<Longrightarrow> csi_params_from ((48 + d) # bs) n sub = csi_params_from bs (n * 10 + d) sub"
  by simp

lemma csi_params_from_write_u8:
  assumes "n < 256"
  shows "csi_params_from (write_u8 [] n @ rest) 0 sub = csi_params_from rest n sub"
proof -
  have small: "n mod 10 < 10" "n div 10 mod 10 < 10" "n div 100 < 3" using assms by auto
  have tens: "n div 10 div 10 * 10 + n div 10 mod 10 = n div 10" by (rule div_mult_mod_eq)
  have ones: "n div 10 * 10 + n mod 10 = n" by (rule div_mult_mod_eq)
  have hundred: "n div 100 = n div 10 div 10" by (simp add: div_mult2_eq [symmetric])
  have val3: "(n div 100 * 10 + n div 10 mod 10) * 10 + n mod 10 = n"
    by (simp only: hundred tens ones)
  have val2: "n div 10 mod 10 * 10 + n mod 10 = n" if "n < 100"
  proof -
    from that have "n div 10 mod 10 = n div 10" by simp
    then show ?thesis by (simp only: ones)
  qed
  consider (three) "n \<ge> 100" | (two) "10 \<le> n" "n < 100" | (one) "n < 10" by linarith
  then show ?thesis
  proof cases
    case three
    then have "write_u8 [] n = [48 + n div 100, 48 + n div 10 mod 10, 48 + n mod 10]"
      by (simp add: write_u8_def)
    moreover have "n div 100 < 10" using small(3) by simp
    ultimately have "csi_params_from (write_u8 [] n @ rest) 0 sub
        = csi_params_from rest ((n div 100 * 10 + n div 10 mod 10) * 10 + n mod 10) sub"
      using small(1,2)
      by (simp only: append_Cons append_Nil csi_params_from_digit mult_0 add_0)
    then show ?thesis by (simp only: val3)
  next
    case two
    then have "write_u8 [] n = [48 + n div 10 mod 10, 48 + n mod 10]"
      by (simp add: write_u8_def)
    then have "csi_params_from (write_u8 [] n @ rest) 0 sub
        = csi_params_from rest (n div 10 mod 10 * 10 + n mod 10) sub"
      using small(1,2)
      by (simp only: append_Cons append_Nil csi_params_from_digit mult_0 add_0)
    then show ?thesis using two by (simp only: val2)
  next
    case one
    then show ?thesis by (simp add: write_u8_def)
  qed
qed

lemma csi_params_from_group:
  assumes "g \<noteq> []" "\<forall>x\<in>set g. x < 256"
  shows "csi_params_from (fmt_group g @ rest) 0 sub = csi_params_from rest (last g) (sub @ butlast g)"
  using assms by (induction g arbitrary: sub rule: fmt_group.induct)
    (simp_all add: csi_params_from_write_u8)

definition group_ok :: "nat list \<Rightarrow> bool" where
  "group_ok g \<longleftrightarrow> g \<noteq> [] \<and> (\<forall>x\<in>set g. x < 256)"

lemma csi_params_groups:
  "group_ok g \<Longrightarrow> list_all group_ok gs \<Longrightarrow>
   csi_params_from (fmt_group g @ fmt_more gs) 0 [] = g # gs"
proof (induction gs arbitrary: g)
  case Nil
  then have "csi_params_from (fmt_group g @ []) 0 [] = csi_params_from [] (last g) ([] @ butlast g)"
    by (intro csi_params_from_group) (auto simp: group_ok_def)
  then show ?case using Nil by (simp add: group_ok_def)
next
  case (Cons h gs)
  then have "csi_params_from (fmt_group g @ fmt_more (h # gs)) 0 []
      = csi_params_from (fmt_more (h # gs)) (last g) ([] @ butlast g)"
    by (intro csi_params_from_group) (auto simp: group_ok_def)
  with Cons show ?case by (simp add: fmt_more_Cons group_ok_def)
qed

subsection \<open>The groups the writer emits\<close>

definition flag_group :: "bool \<Rightarrow> nat \<Rightarrow> nat list list" where
  "flag_group b n = (if b then [[n]] else [])"

definition underline_group :: "underline_style \<Rightarrow> nat list list" where
  "underline_group u = (case u of UNone \<Rightarrow> [] | USingle \<Rightarrow> [[4]] | other \<Rightarrow> [[4, sgr_param other]])"

definition extended_groups :: "nat \<Rightarrow> color \<Rightarrow> nat list list" where
  "extended_groups ext c =
     (case c of Indexed n \<Rightarrow> [[ext], [5], [n]] | Rgb r g b \<Rightarrow> [[ext], [2], [r], [g], [b]])"

definition color_groups :: "nat \<Rightarrow> nat \<Rightarrow> nat \<Rightarrow> color option \<Rightarrow> nat list list" where
  "color_groups base bright ext c =
     (case c of None \<Rightarrow> []
      | Some (Indexed n) \<Rightarrow> (if n < 8 then [[base + n]] else if n < 16 then [[bright + n - 8]]
                            else extended_groups ext (Indexed n))
      | Some (Rgb r g b) \<Rightarrow> extended_groups ext (Rgb r g b))"

definition sgr_groups :: "style \<Rightarrow> nat list list" where
  "sgr_groups s = flag_group (st_bold s) 1 @ flag_group (st_dim s) 2 @ flag_group (st_italic s) 3
     @ underline_group (st_underline s) @ flag_group (st_blink s) 5 @ flag_group (st_inverse s) 7
     @ flag_group (st_hidden s) 8 @ flag_group (st_strikethrough s) 9
     @ color_groups 30 90 38 (st_fg s) @ color_groups 40 100 48 (st_bg s)
     @ (case st_underline_color s of None \<Rightarrow> [] | Some c \<Rightarrow> extended_groups 58 c)"

text \<open>Once a separator is pending, each writer step appends groups.\<close>

named_theorems sgr_steps \<open>one step of the writer appends the groups of its attribute\<close>

lemma write_flag [sgr_steps]:
  "n < 10 \<Longrightarrow> (if b then put [48 + n] (sep (out, True)) else (out, True))
     = (out @ fmt_more (flag_group b n), True)"
  by (simp add: flag_group_def fmt_more_Cons put_def sep_def write_u8_def)

lemma write_underline [sgr_steps]:
  "(case u of UNone \<Rightarrow> (out, True)
    | USingle \<Rightarrow> put (bytes ''4'') (sep (out, True))
    | other \<Rightarrow> put [48 + sgr_param other] (put (bytes '':'') (put (bytes ''4'') (sep (out, True)))))
   = (out @ fmt_more (underline_group u), True)"
  by (cases u) (simp_all add: underline_group_def fmt_more_Cons put_def sep_def write_u8_def)

lemma write_color:
  assumes "ext = 38 \<or> ext = 48"
  shows "write_color_to c base bright (write_u8 [] ext) (out, True)
     = (out @ fmt_more (color_groups base bright ext c), True)"
  using assms
  by (auto simp: write_color_to_def color_groups_def extended_groups_def fmt_more_Cons put_def
      put_u8_def sep_def write_u8_append [of "_ @ _"] write_u8_append [of "_ # _"]
      split: option.splits color.splits)
     (simp_all add: write_u8_def)

lemmas write_fg [sgr_steps] = write_color [OF disjI1 [OF refl]]
lemmas write_bg [sgr_steps] = write_color [OF disjI2 [OF refl]]

lemma write_underline_color [sgr_steps]:
  "(case u of None \<Rightarrow> (out, True)
    | Some (Indexed c) \<Rightarrow> put_u8 c (put (bytes ''58;5;'') (sep (out, True)))
    | Some (Rgb r g bl) \<Rightarrow> put_u8 bl (put [59] (put_u8 g (put [59] (put_u8 r
        (put (bytes ''58;2;'') (sep (out, True))))))))
   = (out @ fmt_more (case u of None \<Rightarrow> [] | Some c \<Rightarrow> extended_groups 58 c), True)"
  by (auto simp: extended_groups_def fmt_more_Cons put_def put_u8_def sep_def
      write_u8_append [of "_ @ _"] split: option.splits color.splits)
     (simp_all add: write_u8_def)

lemma write_sgr_to_groups:
  "write_sgr_to s (out, True) = (out @ fmt_more (sgr_groups s), True)"
proof -
  have lits: "bytes ''1'' = [48 + 1]" "bytes ''2'' = [48 + 2]" "bytes ''3'' = [48 + 3]"
    "bytes ''5'' = [48 + 5]" "bytes ''7'' = [48 + 7]" "bytes ''8'' = [48 + 8]"
    "bytes ''9'' = [48 + 9]" "bytes ''38'' = write_u8 [] 38" "bytes ''48'' = write_u8 [] 48"
    by (simp_all add: write_u8_def)
  show ?thesis
    unfolding write_sgr_to_def Let_def lits
    by (simp only: sgr_steps) (simp add: sgr_groups_def fmt_more_append)
qed

subsection \<open>Interpreting a sequence of groups\<close>

definition sgr_run :: "u16 list list \<Rightarrow> style \<Rightarrow> style" where
  "sgr_run ps st = apply_sgr_loop ps 0 st"

lemma parse_extended_color_shift:
  "parse_extended_color (q # ps) (Suc i) = map_prod id Suc (parse_extended_color ps i)"
  by (simp add: parse_extended_color_def Let_def add.commute [of i])

lemma sgr_step_shift:
  "sgr_step (q # ps) (Suc i) st = map_prod id Suc (sgr_step ps i st)"
proof -
  have ext: "(case map_prod id Suc x of (Some c, i') \<Rightarrow> (f c, i') | (None, i') \<Rightarrow> (st, i'))
      = map_prod id Suc (case x of (Some c, i') \<Rightarrow> (f c, i') | (None, i') \<Rightarrow> (st, i'))"
    for x :: "color option \<times> nat" and f :: "color \<Rightarrow> style"
    by (cases x) (simp split: option.splits)
  show ?thesis
    unfolding sgr_step_def Let_def nth_Cons_Suc parse_extended_color_shift ext
    by (simp only: if_distrib [of "map_prod id Suc"] map_prod_simp id_apply)
qed

lemma apply_sgr_loop_shift: "apply_sgr_loop (q # ps) (Suc i) st = apply_sgr_loop ps i st"
proof (induction ps i st rule: apply_sgr_loop.induct)
  case (1 ps i st)
  show ?case
  proof (cases "i < length ps")
    case True
    then show ?thesis
      using "1.IH" [OF True refl]
      by (simp add: apply_sgr_loop.simps [of "q # ps" "Suc i"] apply_sgr_loop.simps [of ps i]
          sgr_step_shift Let_def)
  qed (simp add: apply_sgr_loop.simps [of "q # ps" "Suc i"] apply_sgr_loop.simps [of ps i])
qed

lemma apply_sgr_loop_drop: "apply_sgr_loop ps k st = sgr_run (drop k ps) st"
proof (induction k arbitrary: ps)
  case 0
  show ?case by (simp add: sgr_run_def)
next
  case (Suc k)
  show ?case
  proof (cases ps)
    case Nil
    then show ?thesis by (simp add: sgr_run_def apply_sgr_loop.simps)
  next
    case (Cons q qs)
    then show ?thesis using Suc.IH [of qs] by (simp add: apply_sgr_loop_shift)
  qed
qed

lemma sgr_run_Nil [simp]: "sgr_run [] st = st"
  by (simp add: sgr_run_def apply_sgr_loop.simps)

lemma sgr_run_Cons:
  "sgr_run (p # ps) st
     = (let r = sgr_step (p # ps) 0 st in sgr_run (drop (snd r) ps) (fst r))"
  by (subst sgr_run_def, subst apply_sgr_loop.simps) (simp add: apply_sgr_loop_drop Let_def)

text \<open>What each group of the writer does, whatever follows it.\<close>

lemmas sgr_eval = sgr_run_Cons sgr_step_def first_or0_def Let_def

lemma run_bold: "sgr_run (flag_group b 1 @ ps) st = sgr_run ps (st\<lparr>st_bold := b \<or> st_bold st\<rparr>)"
  and run_dim: "sgr_run (flag_group b 2 @ ps) st = sgr_run ps (st\<lparr>st_dim := b \<or> st_dim st\<rparr>)"
  and run_italic: "sgr_run (flag_group b 3 @ ps) st = sgr_run ps (st\<lparr>st_italic := b \<or> st_italic st\<rparr>)"
  and run_blink: "sgr_run (flag_group b 5 @ ps) st = sgr_run ps (st\<lparr>st_blink := b \<or> st_blink st\<rparr>)"
  and run_inverse: "sgr_run (flag_group b 7 @ ps) st = sgr_run ps (st\<lparr>st_inverse := b \<or> st_inverse st\<rparr>)"
  and run_hidden: "sgr_run (flag_group b 8 @ ps) st = sgr_run ps (st\<lparr>st_hidden := b \<or> st_hidden st\<rparr>)"
  and run_strike: "sgr_run (flag_group b 9 @ ps) st
      = sgr_run ps (st\<lparr>st_strikethrough := b \<or> st_strikethrough st\<rparr>)"
  by (cases b; simp add: flag_group_def sgr_eval)+

lemma style_keep [simp]:
  "st_underline st = u \<Longrightarrow> st\<lparr>st_underline := u\<rparr> = st"
  "st_fg st = c \<Longrightarrow> st\<lparr>st_fg := c\<rparr> = st"
  "st_bg st = c \<Longrightarrow> st\<lparr>st_bg := c\<rparr> = st"
  by (cases st; simp)+

lemma run_underline:
  "st_underline st = UNone \<Longrightarrow>
   sgr_run (underline_group u @ ps) st = sgr_run ps (st\<lparr>st_underline := u\<rparr>)"
  by (cases u) (simp_all add: underline_group_def sgr_eval underline_from_sgr_def)

lemma extended_shape:
  "color_ok c \<Longrightarrow>
   parse_extended_color (extended_groups ext c @ ps) 0
     = (Some c, length (extended_groups ext c) - 1)"
  by (cases c) (simp_all add: extended_groups_def parse_extended_color_def first_or0_def Let_def)

lemma extended_groups_Cons:
  "extended_groups ext c = [ext] # tl (extended_groups ext c)"
  by (simp add: extended_groups_def split: color.splits)

lemma run_extended:
  assumes "color_ok c"
  shows "sgr_run (extended_groups 38 c @ ps) st = sgr_run ps (st\<lparr>st_fg := Some c\<rparr>)"
    and "sgr_run (extended_groups 48 c @ ps) st = sgr_run ps (st\<lparr>st_bg := Some c\<rparr>)"
    and "sgr_run (extended_groups 58 c @ ps) st = sgr_run ps (st\<lparr>st_underline_color := Some c\<rparr>)"
  using assms extended_shape [OF assms, of 38 ps] extended_shape [OF assms, of 48 ps]
    extended_shape [OF assms, of 58 ps]
  by (cases c; simp add: extended_groups_def sgr_eval)+

lemma run_fg:
  "pred_option color_ok c \<Longrightarrow> st_fg st = None \<Longrightarrow>
   sgr_run (color_groups 30 90 38 c @ ps) st = sgr_run ps (st\<lparr>st_fg := c\<rparr>)"
  by (auto simp: color_groups_def run_extended sgr_eval split: option.splits color.splits)

lemma run_bg:
  "pred_option color_ok c \<Longrightarrow> st_bg st = None \<Longrightarrow>
   sgr_run (color_groups 40 100 48 c @ ps) st = sgr_run ps (st\<lparr>st_bg := c\<rparr>)"
  by (auto simp: color_groups_def run_extended sgr_eval split: option.splits color.splits)

lemma run_underline_color:
  "pred_option color_ok c \<Longrightarrow> st_underline_color st = None \<Longrightarrow>
   sgr_run (case c of None \<Rightarrow> [] | Some c \<Rightarrow> extended_groups 58 c) st
     = st\<lparr>st_underline_color := c\<rparr>"
  using run_extended(3) [where ps = "[]"] by (cases c) auto

lemma sgr_run_groups:
  assumes "style_ok s"
  shows "sgr_run ([0] # sgr_groups s) st = s"
proof -
  have "sgr_run ([0] # sgr_groups s) st = sgr_run (sgr_groups s) default_style"
    by (simp add: sgr_eval)
  also have "\<dots> = s"
    using assms unfolding sgr_groups_def style_ok_def
    by (cases s) (simp del: One_nat_def add: run_bold run_dim run_italic run_underline run_blink run_inverse run_hidden
        run_strike run_fg run_bg run_underline_color default_style_def)
  finally show ?thesis .
qed

lemma flag_group_ok: "n < 256 \<Longrightarrow> list_all group_ok (flag_group b n)"
  by (simp add: flag_group_def group_ok_def)

lemma underline_group_ok: "list_all group_ok (underline_group u)"
  by (cases u) (simp_all add: underline_group_def group_ok_def)

lemma extended_groups_ok: "color_ok c \<Longrightarrow> ext < 256 \<Longrightarrow> list_all group_ok (extended_groups ext c)"
  by (cases c) (simp_all add: extended_groups_def group_ok_def)

lemma color_groups_ok:
  assumes "pred_option color_ok c" "base < 200" "bright < 200" "ext < 256"
  shows "list_all group_ok (color_groups base bright ext c)"
proof (cases c)
  case (Some col)
  with assms show ?thesis
    by (cases col) (simp_all add: color_groups_def extended_groups_ok, auto simp: group_ok_def)
qed (simp add: color_groups_def)

lemma sgr_groups_ok: "style_ok s \<Longrightarrow> list_all group_ok (sgr_groups s)"
  by (cases "st_underline_color s")
    (simp_all add: sgr_groups_def style_ok_def flag_group_ok underline_group_ok extended_groups_ok
      color_groups_ok)

subsection \<open>The round trip\<close>

text \<open>The parameter bytes of a complete \<open>ESC [ \<dots> m\<close> sequence.\<close>

definition sgr_body :: "u8 list \<Rightarrow> u8 list" where
  "sgr_body bs = butlast (drop 2 bs)"

lemma to_sgr_with_reset_groups:
  "to_sgr_with_reset s = ESC # 91 # fmt_group [0] @ fmt_more (sgr_groups s) @ [109]"
proof (cases "style_is_default s")
  case True
  then have "sgr_groups s = []"
    by (simp add: style_is_default_def default_style_def sgr_groups_def flag_group_def
        underline_group_def color_groups_def)
  with True show ?thesis
    by (simp add: to_sgr_with_reset_def write_sgr_with_reset_to_def write_u8_def)
next
  case False
  then show ?thesis
    by (simp add: to_sgr_with_reset_def write_sgr_with_reset_to_def write_sgr_to_groups write_u8_def)
qed

lemma csi_params_of_sgr:
  assumes "style_ok s"
  shows "csi_params (sgr_body (to_sgr_with_reset s)) = [0] # sgr_groups s"
proof -
  have "sgr_body (to_sgr_with_reset s) = fmt_group [0] @ fmt_more (sgr_groups s)"
    by (simp add: to_sgr_with_reset_groups sgr_body_def butlast_append)
  then show ?thesis
    using csi_params_groups [of "[0]" "sgr_groups s"] sgr_groups_ok [OF assms]
    by (simp add: csi_params_def group_ok_def)
qed

text \<open>
  C1. The SGR bytes the renderer writes for a style (reset included), read as CSI parameters by any
  ECMA-48 parser and applied by \<open>apply_sgr\<close>, produce exactly that style from whatever style was
  current before; every colour form (8, 16, 256 colours and RGB, for foreground, background and
  underline) and every underline variant is covered.
\<close>

theorem sgr_roundtrip:
  assumes "style_ok s"
  shows "apply_sgr (csi_params (sgr_body (to_sgr_with_reset s))) old = s"
  using sgr_run_groups [OF assms, of old]
  by (simp add: csi_params_of_sgr [OF assms] apply_sgr_def sgr_run_def)

definition demo_style :: style where
  "demo_style = default_style\<lparr>st_bold := True, st_underline := UCurly, st_fg := Some (Indexed 12),
     st_bg := Some (Rgb 1 20 255), st_underline_color := Some (Indexed 200)\<rparr>"

theorem sgr_roundtrip_witness:
  "style_ok demo_style
   \<and> apply_sgr (csi_params (sgr_body (to_sgr_with_reset demo_style))) default_style = demo_style"
proof -
  have h: "style_ok demo_style" by (simp add: demo_style_def default_style_def style_ok_def)
  show ?thesis using h sgr_roundtrip [OF h, of default_style] by simp
qed

end
