(* ===== verification/Performer.thy ===== *)
theory Performer
  imports Grid_Inv Utf8 Sgr_Roundtrip
begin

section \<open>The performer (\<open>screen/performer.rs\<close>): parser events to grid mutations\<close>

text \<open>
  \<open>ScreenState\<close>, the pair of a grid and a state that \<open>ScreenPerformer\<close> borrows, and every operation
  of the performer, in the order of the source. The parser of the \<open>vte\<close> crate is not in the
  repository: its calls are the values of \<open>event\<close>. The width function of the \<open>unicode-width\<close> crate
  is the parameter \<open>wd\<close>. \<open>None\<close> is a panic.
\<close>

subsection \<open>State\<close>

record saved_cursor =
  cu_x :: u16
  cu_y :: u16
  cu_style :: style
  cu_g0 :: charset
  cu_g1 :: charset
  cu_active :: active_charset
  cu_autowrap :: bool
  cu_origin :: bool
  cu_wrap :: bool

definition MAX_PENDING :: nat where
  "MAX_PENDING = 1024"

definition MAX_QUEUED_NOTIFICATIONS :: nat where
  "MAX_QUEUED_NOTIFICATIONS = 50"

record screen_state =
  ss_style :: style
  ss_alt :: bool
  ss_saved :: "saved_grid option"
  ss_cursor :: "saved_cursor option"
  ss_modes :: "terminal_modes option"
  ss_region :: "(u16 \<times> u16) option"
  ss_responses :: "u8 list list"
  ss_passthrough :: "u8 list list"
  ss_notifications :: "u8 list list"
  ss_title :: rstring
  ss_titles :: "rstring list"
  ss_last :: rchar

definition state_default :: screen_state where
  "state_default = \<lparr>ss_style = default_style, ss_alt = False, ss_saved = None, ss_cursor = None,
     ss_modes = None, ss_region = None, ss_responses = [], ss_passthrough = [],
     ss_notifications = [], ss_title = [], ss_titles = [], ss_last = 32\<rparr>"

definition push_response :: "u8 list \<Rightarrow> screen_state \<Rightarrow> screen_state" where
  "push_response d s =
     (if length (ss_responses s) < MAX_PENDING then s\<lparr>ss_responses := ss_responses s @ [d]\<rparr> else s)"

definition push_passthrough :: "u8 list \<Rightarrow> screen_state \<Rightarrow> screen_state" where
  "push_passthrough d s =
     (if length (ss_passthrough s) < MAX_PENDING then s\<lparr>ss_passthrough := ss_passthrough s @ [d]\<rparr> else s)"

definition push_notification :: "u8 list \<Rightarrow> screen_state \<Rightarrow> screen_state" where
  "push_notification d s =
     (let q = (if length (ss_notifications s) \<ge> MAX_QUEUED_NOTIFICATIONS
               then tl (ss_notifications s) else ss_notifications s)
      in s\<lparr>ss_notifications := q @ [d]\<rparr>)"

text \<open>The grid and the state a \<open>ScreenPerformer\<close> borrows mutably.\<close>

record perf =
  pf_grid :: grid
  pf_state :: screen_state

text \<open>A mutation of the grid that may panic, one that cannot, and one of the state.\<close>

definition gmut :: "(grid \<Rightarrow> grid option) \<Rightarrow> perf \<Rightarrow> perf option" where
  "gmut f p = map_option (\<lambda>g. p\<lparr>pf_grid := g\<rparr>) (f (pf_grid p))"

definition gset :: "(grid \<Rightarrow> grid) \<Rightarrow> perf \<Rightarrow> perf" where
  "gset f p = p\<lparr>pf_grid := f (pf_grid p)\<rparr>"

definition sset :: "(screen_state \<Rightarrow> screen_state) \<Rightarrow> perf \<Rightarrow> perf" where
  "sset f p = p\<lparr>pf_state := f (pf_state p)\<rparr>"

abbreviation set_x :: "u16 \<Rightarrow> perf \<Rightarrow> perf" where
  "set_x x \<equiv> gset (\<lambda>g. g\<lparr>g_cx := x\<rparr>)"

abbreviation set_y :: "u16 \<Rightarrow> perf \<Rightarrow> perf" where
  "set_y y \<equiv> gset (\<lambda>g. g\<lparr>g_cy := y\<rparr>)"

abbreviation set_wrap :: "bool \<Rightarrow> perf \<Rightarrow> perf" where
  "set_wrap b \<equiv> gset (\<lambda>g. g\<lparr>g_wrap := b\<rparr>)"

abbreviation set_modes :: "(terminal_modes \<Rightarrow> terminal_modes) \<Rightarrow> perf \<Rightarrow> perf" where
  "set_modes f \<equiv> gset (\<lambda>g. g\<lparr>g_modes := f (g_modes g)\<rparr>)"

abbreviation modes_of :: "perf \<Rightarrow> terminal_modes" where
  "modes_of p \<equiv> g_modes (pf_grid p)"

subsection \<open>Styles\<close>

definition intern_style :: "style \<Rightarrow> perf \<Rightarrow> (u16 \<times> perf) option" where
  "intern_style s p =
     map_option (\<lambda>(i, t). (i, gset (\<lambda>g. g\<lparr>g_table := t\<rparr>) p)) (intern s (g_table (pf_grid p)))"

definition intern_with_gc :: "style \<Rightarrow> perf \<Rightarrow> (u16 \<times> perf) option" where
  "intern_with_gc s p =
     do { (i, p) \<leftarrow> intern_style s p;
          if i = 0 \<and> \<not> style_is_default s \<and> tbl_is_full (g_table (pf_grid p))
          then intern_style s (gset (compact_styles (ss_saved (pf_state p))) p)
          else Some (i, p) }"

definition blank_cell :: "perf \<Rightarrow> (cell \<times> perf) option" where
  "blank_cell p =
     do { (i, p) \<leftarrow> intern_with_gc (default_style\<lparr>st_bg := st_bg (ss_style (pf_state p))\<rparr>) p;
          Some (cell_new 32 i 1, p) }"

definition p_scroll_up :: "perf \<Rightarrow> perf option" where
  "p_scroll_up p =
     do { (fill, p) \<leftarrow> blank_cell p; gmut (scroll_up (ss_alt (pf_state p)) fill) p }"

definition p_scroll_down :: "perf \<Rightarrow> perf option" where
  "p_scroll_down p = do { (fill, p) \<leftarrow> blank_cell p; gmut (scroll_down fill) p }"

abbreviation ch :: "char \<Rightarrow> nat" where
  "ch c \<equiv> of_char c"

definition line_drawing :: "rchar \<Rightarrow> rchar" where
  "line_drawing c =
     (if c = ch CHR ''j'' then 0x2518 else if c = ch CHR ''k'' then 0x2510
      else if c = ch CHR ''l'' then 0x250C else if c = ch CHR ''m'' then 0x2514
      else if c = ch CHR ''n'' then 0x253C else if c = ch CHR ''q'' then 0x2500
      else if c = ch CHR ''t'' then 0x251C else if c = ch CHR ''u'' then 0x2524
      else if c = ch CHR ''v'' then 0x2534 else if c = ch CHR ''w'' then 0x252C
      else if c = ch CHR ''x'' then 0x2502 else if c = ch CHR ''a'' then 0x2592
      else if c = 0x60 then 0x25C6 else c)"

definition map_charset :: "terminal_modes \<Rightarrow> rchar \<Rightarrow> rchar" where
  "map_charset m c =
     (let cs = (case md_active m of G0 \<Rightarrow> md_g0 m | G1 \<Rightarrow> md_g1 m)
      in case cs of LineDrawing \<Rightarrow> line_drawing c | Ascii \<Rightarrow> c)"

subsection \<open>Cursor and alternate screen\<close>

definition save_cursor :: "perf \<Rightarrow> perf" where
  "save_cursor p =
     (let g = pf_grid p; m = g_modes g in
      sset (\<lambda>s. s\<lparr>ss_cursor := Some \<lparr>cu_x = g_cx g, cu_y = g_cy g, cu_style = ss_style s,
        cu_g0 = md_g0 m, cu_g1 = md_g1 m, cu_active = md_active m, cu_autowrap = md_autowrap m,
        cu_origin = md_origin m, cu_wrap = g_wrap g\<rparr>\<rparr>) p)"

definition restore_cursor :: "perf \<Rightarrow> perf" where
  "restore_cursor p =
     (case ss_cursor (pf_state p) of
        None \<Rightarrow> p
      | Some c \<Rightarrow>
          let g = pf_grid p;
              x = min (cu_x c) (u16_sub (g_cols g) 1);
              y = min (cu_y c) (u16_sub (g_rows g) 1)
          in set_modes (\<lambda>m. m\<lparr>md_g0 := cu_g0 c, md_g1 := cu_g1 c, md_active := cu_active c,
                 md_autowrap := cu_autowrap c, md_origin := cu_origin c\<rparr>)
              (sset (\<lambda>s. s\<lparr>ss_style := cu_style c\<rparr>) (set_y y (set_x x (set_wrap (cu_wrap c) p)))))"

definition enter_alt_screen :: "bool \<Rightarrow> perf \<Rightarrow> perf option" where
  "enter_alt_screen save p =
     (if ss_alt (pf_state p) then Some p
      else do {
        let p = (if save then save_cursor p else p);
        let p = sset (\<lambda>s. s\<lparr>ss_region := Some (g_top (pf_grid p), g_bottom (pf_grid p))\<rparr>) p;
        (rows, g) \<leftarrow> drain_visible (pf_grid p);
        let p = gset (\<lambda>_. g) p;
        let p = sset (\<lambda>s. s\<lparr>ss_saved := Some \<lparr>sg_visible = rows, sg_limit = g_sb_limit (pf_grid p)\<rparr>\<rparr>) p;
        let p = gset (\<lambda>g. (fill_visible_blank g)\<lparr>g_sb_limit := 0\<rparr>) p;
        let p = sset (\<lambda>s. s\<lparr>ss_modes := Some (g_modes (pf_grid p)), ss_alt := True\<rparr>) p;
        Some (gset (\<lambda>g. (reset_scroll_region (g\<lparr>g_cx := 0, g_cy := 0\<rparr>))\<lparr>g_wrap := False\<rparr>) p) })"

text \<open>The saved rows back in the grid: fitted to the current dimensions, row by row.\<close>

definition restore_saved :: "saved_grid \<Rightarrow> grid \<Rightarrow> grid option" where
  "restore_saved sg g =
     (let g = adjust_visible_to_fit ((replace_visible (sg_visible sg) g)\<lparr>g_sb_limit := sg_limit sg\<rparr>)
      in for_m [0..<visible_row_count g]
           (\<lambda>y. visible_row_mut y (\<lambda>r. Some (resize_row (g_cols g) r))) g)"

definition exit_alt_screen :: "bool \<Rightarrow> perf \<Rightarrow> perf option" where
  "exit_alt_screen restore p =
     (if \<not> ss_alt (pf_state p) then Some p
      else do {
        let p = sset (\<lambda>s. s\<lparr>ss_alt := False\<rparr>) p;
        p \<leftarrow> (case ss_saved (pf_state p) of
                None \<Rightarrow> Some p
              | Some sg \<Rightarrow> gmut (restore_saved sg) (sset (\<lambda>s. s\<lparr>ss_saved := None\<rparr>) p));
        let p = (case ss_modes (pf_state p) of
                   None \<Rightarrow> p
                 | Some m \<Rightarrow> gset (\<lambda>g. g\<lparr>g_modes := m\<rparr>) (sset (\<lambda>s. s\<lparr>ss_modes := None\<rparr>) p));
        let p = (if restore then restore_cursor p else p);
        let p = (case ss_region (pf_state p) of
                   Some (t, b) \<Rightarrow>
                     (let bm = u16_sat_sub (g_rows (pf_grid p)) 1; tp = min t bm; btm = max (min b bm) tp
                      in gset (set_scroll_region tp btm) (sset (\<lambda>s. s\<lparr>ss_region := None\<rparr>) p))
                 | None \<Rightarrow> gset reset_scroll_region p);
        Some (gset (compact_styles None) p) })"

subsection \<open>CSI: the cursor\<close>

abbreviation cols_of :: "perf \<Rightarrow> u16" where
  "cols_of p \<equiv> g_cols (pf_grid p)"

abbreviation rows_of :: "perf \<Rightarrow> u16" where
  "rows_of p \<equiv> g_rows (pf_grid p)"

definition csi_cursor_up :: "u16 \<Rightarrow> perf \<Rightarrow> perf" where
  "csi_cursor_up n p =
     (let p = set_wrap False p; g = pf_grid p;
          tp = (if g_cy g \<ge> g_top g then g_top g else 0)
      in set_y (max (u16_sat_sub (g_cy g) n) tp) p)"

definition csi_cursor_down :: "u16 \<Rightarrow> perf \<Rightarrow> perf" where
  "csi_cursor_down n p =
     (let p = set_wrap False p; g = pf_grid p;
          btm = (if g_cy g \<le> g_bottom g then g_bottom g else u16_sub (g_rows g) 1)
      in set_y (min (u16_sat_add (g_cy g) n) btm) p)"

definition csi_cursor_forward :: "u16 \<Rightarrow> perf \<Rightarrow> perf" where
  "csi_cursor_forward n p =
     (let p = set_wrap False p; g = pf_grid p
      in set_x (min (u16_sat_add (g_cx g) n) (u16_sub (g_cols g) 1)) p)"

definition csi_cursor_back :: "u16 \<Rightarrow> perf \<Rightarrow> perf" where
  "csi_cursor_back n p =
     (let p = set_wrap False p in set_x (u16_sat_sub (g_cx (pf_grid p)) n) p)"

definition csi_cursor_next_line :: "u16 \<Rightarrow> perf \<Rightarrow> perf" where
  "csi_cursor_next_line n p =
     (let p = set_x 0 (set_wrap False p); g = pf_grid p;
          btm = (if g_cy g \<le> g_bottom g then g_bottom g else u16_sub (g_rows g) 1)
      in set_y (min (u16_sat_add (g_cy g) n) btm) p)"

definition csi_cursor_prev_line :: "u16 \<Rightarrow> perf \<Rightarrow> perf" where
  "csi_cursor_prev_line n p =
     (let p = set_x 0 (set_wrap False p); g = pf_grid p;
          tp = (if g_cy g \<ge> g_top g then g_top g else 0)
      in set_y (max (u16_sat_sub (g_cy g) n) tp) p)"

definition csi_cursor_horizontal_absolute :: "u16 \<Rightarrow> perf \<Rightarrow> perf" where
  "csi_cursor_horizontal_absolute col p =
     (let p = set_wrap False p in set_x (min (u16_sat_sub col 1) (u16_sub (cols_of p) 1)) p)"

definition csi_line_position_absolute :: "u16 \<Rightarrow> perf \<Rightarrow> perf" where
  "csi_line_position_absolute line p =
     (let p = set_wrap False p; g = pf_grid p in
      if md_origin (modes_of p)
      then set_y (min (u16_sat_add (g_top g) (u16_sat_sub line 1)) (g_bottom g)) p
      else set_y (min (u16_sat_sub line 1) (u16_sub (g_rows g) 1)) p)"

definition csi_cursor_position :: "u16 \<Rightarrow> u16 \<Rightarrow> perf \<Rightarrow> perf" where
  "csi_cursor_position line col p =
     (let p = set_wrap False p; g = pf_grid p;
          p = (if md_origin (modes_of p)
               then set_y (min (u16_sat_add (g_top g) (u16_sat_sub line 1)) (g_bottom g)) p
               else set_y (min (u16_sat_sub line 1) (u16_sub (g_rows g) 1)) p)
      in set_x (min (u16_sat_sub col 1) (u16_sub (cols_of p) 1)) p)"

subsection \<open>CSI: erasing, inserting, deleting\<close>

definition csi_erase_display :: "u16 \<Rightarrow> perf \<Rightarrow> perf option" where
  "csi_erase_display mode p =
     do { (blank, p) \<leftarrow> blank_cell p;
          let g = pf_grid p; let y = g_cy g; let x = g_cx g; let cols = g_cols g;
          if mode = 0 then
            do { p \<leftarrow> gmut (erase_cells y x cols blank) p;
                 gmut (erase_rows (y + 1) (rows_of p) blank) p }
          else if mode = 1 then
            do { p \<leftarrow> gmut (erase_rows 0 y blank) p;
                 gmut (erase_cells y 0 (min (x + 1) (cols_of p)) blank) p }
          else if mode = 2 then gmut (erase_rows 0 (g_rows g) blank) p
          else if mode = 3 then
            do { p \<leftarrow> gmut clear_scrollback p;
                 Some (sset (push_passthrough (ESC # bytes ''[3J'')) p) }
          else Some p }"

definition csi_erase_line :: "u16 \<Rightarrow> perf \<Rightarrow> perf option" where
  "csi_erase_line mode p =
     do { (blank, p) \<leftarrow> blank_cell p;
          let g = pf_grid p; let y = g_cy g; let x = g_cx g; let cols = g_cols g;
          if mode = 0 then gmut (erase_cells y x cols blank) p
          else if mode = 1 then gmut (erase_cells y 0 (min (x + 1) cols) blank) p
          else if mode = 2 then gmut (erase_cells y 0 cols blank) p
          else Some p }"

definition csi_erase_character :: "u16 \<Rightarrow> perf \<Rightarrow> perf option" where
  "csi_erase_character n p =
     do { (blank, p) \<leftarrow> blank_cell p;
          let g = pf_grid p; let y = g_cy g; let x = g_cx g;
          if y < g_rows g then gmut (erase_cells y x (min (x + n) (g_cols g)) blank) p
          else Some p }"

text \<open>The row part of \<open>csi_delete_character\<close>: the shifts, then the orphans they leave.\<close>

definition delete_cells :: "usize \<Rightarrow> usize \<Rightarrow> cell \<Rightarrow> row \<Rightarrow> row option" where
  "delete_cells x count blank r =
     repeat_m count (\<lambda>r. map_option (row_push blank) (row_remove x r)) r"

definition fix_deleted :: "usize \<Rightarrow> usize \<Rightarrow> cell \<Rightarrow> row \<Rightarrow> row option" where
  "fix_deleted x cols blank r =
     (if x < cols then
        do { ce \<leftarrow> row_at r x;
             if ce_width ce = 0 then
               do { r \<leftarrow> row_set x blank r;
                    if x > 0 then
                      do { before \<leftarrow> row_at r (x - 1);
                           if ce_width before = 2 then row_set (x - 1) blank r else Some r }
                    else Some r }
             else Some r }
      else Some r)"

definition csi_delete_character :: "u16 \<Rightarrow> perf \<Rightarrow> perf option" where
  "csi_delete_character n p =
     do { (blank, p) \<leftarrow> blank_cell p;
          let g = pf_grid p; let y = g_cy g; let x = g_cx g; let cols = g_cols g;
          if y < g_rows g then
            do { p \<leftarrow> gmut (fixup_wide_char_at x y) p;
                 p \<leftarrow> gmut (visible_row_mut y (delete_cells x (min n (cols - x)) blank)) p;
                 gmut (visible_row_mut y (fix_deleted x cols blank)) p }
          else Some p }"

definition insert_cells :: "usize \<Rightarrow> usize \<Rightarrow> cell \<Rightarrow> row \<Rightarrow> row option" where
  "insert_cells x count blank r = repeat_m count (\<lambda>r. row_insert x blank (row_pop r)) r"

definition fix_inserted :: "usize \<Rightarrow> cell \<Rightarrow> row \<Rightarrow> row option" where
  "fix_inserted cols blank r =
     (let last = cols - 1 in
      do { ce \<leftarrow> row_at r last;
           if ce_width ce = 2 then row_set last blank r
           else if ce_width ce = 0 then
             do { r \<leftarrow> row_set last blank r;
                  if last > 0 then
                    do { before \<leftarrow> row_at r (last - 1);
                         if ce_width before = 2 then row_set (last - 1) blank r else Some r }
                  else Some r }
           else Some r })"

definition csi_insert_character :: "u16 \<Rightarrow> perf \<Rightarrow> perf option" where
  "csi_insert_character n p =
     do { (blank, p) \<leftarrow> blank_cell p;
          let g = pf_grid p; let y = g_cy g; let x = g_cx g; let cols = g_cols g;
          if y < g_rows g then
            do { p \<leftarrow> gmut (fixup_wide_char_at x y) p;
                 p \<leftarrow> gmut (visible_row_mut y (insert_cells x (min n (cols - x)) blank)) p;
                 gmut (visible_row_mut y (fix_inserted cols blank)) p }
          else Some p }"

definition csi_scroll_up_n :: "u16 \<Rightarrow> perf \<Rightarrow> perf option" where
  "csi_scroll_up_n n p = repeat_m (min n (rows_of p)) p_scroll_up p"

definition csi_scroll_down_n :: "u16 \<Rightarrow> perf \<Rightarrow> perf option" where
  "csi_scroll_down_n n p = repeat_m (min n (rows_of p)) p_scroll_down p"

definition csi_delete_lines :: "u16 \<Rightarrow> perf \<Rightarrow> perf option" where
  "csi_delete_lines n p =
     do { (blank, p) \<leftarrow> blank_cell p;
          let g = pf_grid p; let y = g_cy g; let tp = g_top g; let btm = g_bottom g;
          if tp \<le> y \<and> y \<le> btm then
            repeat_m (min n (btm - y + 1))
              (gmut (\<lambda>g. if y \<le> btm \<and> btm < visible_row_count g
                 then insert_visible_row btm (new_blank_row blank g) (remove_visible_row y g)
                 else Some g)) (set_wrap False p)
          else Some p }"

definition csi_insert_lines :: "u16 \<Rightarrow> perf \<Rightarrow> perf option" where
  "csi_insert_lines n p =
     do { (blank, p) \<leftarrow> blank_cell p;
          let g = pf_grid p; let y = g_cy g; let tp = g_top g; let btm = g_bottom g;
          if tp \<le> y \<and> y \<le> btm then
            repeat_m (min n (btm - y + 1))
              (gmut (\<lambda>g. if y \<le> btm \<and> btm < visible_row_count g
                 then insert_visible_row y (new_blank_row blank g) (remove_visible_row btm g)
                 else Some g)) (set_wrap False p)
          else Some p }"

definition csi_set_scrolling_region :: "u16 \<Rightarrow> u16 \<Rightarrow> perf \<Rightarrow> perf" where
  "csi_set_scrolling_region t b p =
     (let tp = u16_sat_sub t 1; btm = min (u16_sat_sub b 1) (u16_sub (rows_of p) 1) in
      if tp \<le> btm then
        set_wrap False
          (let p = set_x 0 (gset (set_scroll_region tp btm) p)
           in if md_origin (modes_of p) then set_y tp p else set_y 0 p)
      else p)"

subsection \<open>Printing\<close>

definition handle_combining_mark :: "rchar \<Rightarrow> perf \<Rightarrow> perf option" where
  "handle_combining_mark c p =
     (let g = pf_grid p; cx = g_cx g; cy = g_cy g in
      if cy \<ge> g_rows g \<or> \<not> g_wrap g \<and> cx = 0 then Some p
      else let tx = (if g_wrap g then cx else cx - 1) in
        if tx \<ge> g_cols g then Some p
        else do {
          r \<leftarrow> visible_row cy g;
          ce \<leftarrow> row_at r tx;
          let tx = (if ce_width ce = 0 \<and> tx > 0 then tx - 1 else tx);
          if combining_len r (as_u16 tx) < MAX_COMBINING
          then gmut (visible_row_mut cy (\<lambda>r. Some (push_combining (as_u16 tx) c r))) p
          else Some p })"

text \<open>Also the body of LF, VT, FF, IND and NEL.\<close>

definition line_feed :: "perf \<Rightarrow> perf option" where
  "line_feed p =
     (let g = pf_grid p in
      if g_cy g = g_bottom g then p_scroll_up p
      else if g_cy g < u16_sub (g_rows g) 1 then Some (set_y (u16_add (g_cy g) 1) p)
      else Some p)"

definition perform_deferred_wrap :: "perf \<Rightarrow> perf option" where
  "perform_deferred_wrap p = line_feed (set_x 0 (set_wrap False p))"

definition put_char :: "rchar \<Rightarrow> u16 \<Rightarrow> perf \<Rightarrow> perf option" where
  "put_char c w p =
     (let x = g_cx (pf_grid p); y = g_cy (pf_grid p) in
      if x < cols_of p \<and> y < rows_of p then
        do { (sid, p) \<leftarrow> intern_with_gc (ss_style (pf_state p)) p;
             p \<leftarrow> gmut (set_cell x y (cell_new c sid (as_u8 w))) p;
             let new_x = u16_add (g_cx (pf_grid p)) w;
             Some (if new_x \<ge> cols_of p
                   then (let p = set_x (u16_sub (cols_of p) 1) p
                         in if md_autowrap (modes_of p) then set_wrap True p else p)
                   else set_x new_x p) }
      else Some p)"

text \<open>A wide character that does not fit: the margin cell is blanked and the line wraps. The
  Boolean says whether \<open>print\<close> goes on (\<open>False\<close> is the early \<open>return\<close>).\<close>

definition wide_margin :: "u16 \<Rightarrow> perf \<Rightarrow> (bool \<times> perf) option" where
  "wide_margin w p =
     (if w = 2 \<and> g_cx (pf_grid p) \<ge> u16_sub (cols_of p) 1 then
        (if md_autowrap (modes_of p) then
           (if cols_of p < 2 then Some (False, p)
            else do {
              let x = g_cx (pf_grid p); let y = g_cy (pf_grid p);
              p \<leftarrow> (if x < cols_of p \<and> y < rows_of p
                     then do { (blank, p) \<leftarrow> blank_cell p; gmut (visible_row_mut y (row_set x blank)) p }
                     else Some p);
              p \<leftarrow> perform_deferred_wrap p;
              Some (True, p) })
         else Some (False, p))
      else Some (True, p))"

definition print :: "(rchar \<Rightarrow> nat option) \<Rightarrow> rchar \<Rightarrow> perf \<Rightarrow> perf option" where
  "print wd ch0 p =
     (let p = sset (\<lambda>s. s\<lparr>ss_last := ch0\<rparr>) p;
          c = map_charset (modes_of p) ch0;
          w = as_u16 (case wd c of None \<Rightarrow> 0 | Some n \<Rightarrow> n) in
      if w = 0 then handle_combining_mark c p
      else do {
        p \<leftarrow> (if g_wrap (pf_grid p) \<and> md_autowrap (modes_of p) then perform_deferred_wrap p else Some p);
        (go, p) \<leftarrow> wide_margin w p;
        if go then put_char c w p else Some p })"

subsection \<open>DEC private modes\<close>

definition dec_private_mode :: "u16 list \<Rightarrow> bool \<Rightarrow> perf \<Rightarrow> perf option" where
  "dec_private_mode param enable p =
     (case param of
        [] \<Rightarrow> Some p
      | n # _ \<Rightarrow>
          if n = 1 then Some (set_modes (\<lambda>m. m\<lparr>md_cursor_key := enable\<rparr>) p)
          else if n = 6 then
            (let p = set_modes (\<lambda>m. m\<lparr>md_origin := enable\<rparr>) p in
             Some (if enable then set_wrap False (set_y (g_top (pf_grid p)) (set_x 0 p)) else p))
          else if n = 7 then Some (set_modes (\<lambda>m. m\<lparr>md_autowrap := enable\<rparr>) p)
          else if n = 12 then Some p
          else if n = 25 then Some (gset (\<lambda>g. g\<lparr>g_cursor_visible := enable\<rparr>) p)
          else if n \<in> {1000, 1002, 1003} then
            Some (set_modes (\<lambda>m. m\<lparr>md_mouse := mouse_set n enable (md_mouse m)\<rparr>) p)
          else if n \<in> {1005, 1006} then
            Some (set_modes (\<lambda>m. m\<lparr>md_encoding :=
              (if enable then (case encoding_from_param n of Some e \<Rightarrow> e | None \<Rightarrow> EncX10) else EncX10)\<rparr>) p)
          else if n = 1004 then Some (set_modes (\<lambda>m. m\<lparr>md_focus := enable\<rparr>) p)
          else if n = 1048 then Some (if enable then save_cursor p else restore_cursor p)
          else if n = 2004 then Some (set_modes (\<lambda>m. m\<lparr>md_bracketed_paste := enable\<rparr>) p)
          else if n = 1049 then (if enable then enter_alt_screen True p else exit_alt_screen True p)
          else if n \<in> {1047, 47} then (if enable then enter_alt_screen False p else exit_alt_screen False p)
          else Some p)"

definition csi_set_dec_private_mode :: "u16 list list \<Rightarrow> bool \<Rightarrow> perf \<Rightarrow> perf option" where
  "csi_set_dec_private_mode ps enable p = for_m ps (\<lambda>param. dec_private_mode param enable) p"

subsection \<open>Dispatch\<close>

definition execute :: "u8 \<Rightarrow> perf \<Rightarrow> perf option" where
  "execute b p =
     (if b = 0x0D then Some (set_wrap False (set_x 0 p))
      else if 0x0A \<le> b \<and> b \<le> 0x0C then line_feed (set_wrap False p)
      else if b = 0x08 then
        (let p = set_wrap False p
         in Some (if g_cx (pf_grid p) > 0 then set_x (u16_sub (g_cx (pf_grid p)) 1) p else p))
      else if b = 0x09 then
        (let p = set_wrap False p in Some (set_x (next_tab_stop (g_cx (pf_grid p)) (pf_grid p)) p))
      else if b = 0x0E then Some (set_modes (\<lambda>m. m\<lparr>md_active := G1\<rparr>) p)
      else if b = 0x0F then Some (set_modes (\<lambda>m. m\<lparr>md_active := G0\<rparr>) p)
      else if b = 0x07 then Some (sset (push_passthrough [0x07]) p)
      else Some p)"

text \<open>The closure \<open>p(i, default)\<close>: a missing or zero parameter is the default.\<close>

definition param :: "u16 list list \<Rightarrow> usize \<Rightarrow> u16 \<Rightarrow> u16" where
  "param ps i d =
     (if i < length ps then (case ps ! i of [] \<Rightarrow> d | v # _ \<Rightarrow> if v \<noteq> 0 then v else d) else d)"

definition cursor_report :: "perf \<Rightarrow> u8 list" where
  "cursor_report p =
     (let g = pf_grid p;
          line = (if md_origin (g_modes g) then u16_add (u16_sat_sub (g_cy g) (g_top g)) 1
                  else u16_add (g_cy g) 1)
      in write_u16 (write_u16 (ESC # bytes ''['') line @ bytes '';'') (u16_add (g_cx g) 1) @ bytes ''R'')"

text \<open>\<open>String::truncate\<close> panics off a character boundary and does nothing past the end.\<close>

definition str_truncate :: "rstring \<Rightarrow> usize \<Rightarrow> rstring option" where
  "str_truncate s n = (if n \<le> length s then str_prefix s n else Some s)"

definition title_op :: "u16 list list \<Rightarrow> perf \<Rightarrow> perf option" where
  "title_op ps p =
     (let cmd = param ps 0 0; scope = param ps 1 0; s = pf_state p in
      if cmd = 22 \<and> (scope = 0 \<or> scope = 2) then
        (if length (ss_titles s) < 16
         then do { t \<leftarrow> str_truncate (ss_title s) 4096;
                   Some (sset (\<lambda>s. s\<lparr>ss_titles := ss_titles s @ [t]\<rparr>) p) }
         else Some p)
      else if cmd = 23 \<and> (scope = 0 \<or> scope = 2) then
        (if ss_titles s = [] then Some p
         else Some (sset (\<lambda>s. s\<lparr>ss_title := last (ss_titles s), ss_titles := butlast (ss_titles s)\<rparr>) p))
      else Some p)"

definition csi_dispatch ::
  "(rchar \<Rightarrow> nat option) \<Rightarrow> u16 list list \<Rightarrow> u8 list \<Rightarrow> rchar \<Rightarrow> perf \<Rightarrow> perf option" where
  "csi_dispatch wd ps im action p =
     (if action = ch CHR ''A'' then Some (csi_cursor_up (param ps 0 1) p)
      else if action = ch CHR ''B'' then Some (csi_cursor_down (param ps 0 1) p)
      else if action = ch CHR ''C'' then Some (csi_cursor_forward (param ps 0 1) p)
      else if action = ch CHR ''D'' then Some (csi_cursor_back (param ps 0 1) p)
      else if action = ch CHR ''E'' then Some (csi_cursor_next_line (param ps 0 1) p)
      else if action = ch CHR ''F'' then Some (csi_cursor_prev_line (param ps 0 1) p)
      else if action = ch CHR ''G'' then Some (csi_cursor_horizontal_absolute (param ps 0 1) p)
      else if action = ch CHR ''H'' \<or> action = ch CHR ''f''
      then Some (csi_cursor_position (param ps 0 1) (param ps 1 1) p)
      else if action = ch CHR ''d'' then Some (csi_line_position_absolute (param ps 0 1) p)
      else if action = ch CHR ''J'' then csi_erase_display (param ps 0 0) p
      else if action = ch CHR ''K'' then csi_erase_line (param ps 0 0) p
      else if action = ch CHR ''X'' then csi_erase_character (param ps 0 1) p
      else if action = ch CHR ''P'' then csi_delete_character (param ps 0 1) p
      else if action = ch CHR ''@'' then csi_insert_character (param ps 0 1) p
      else if action = ch CHR ''b'' then repeat_m (param ps 0 1) (print wd (ss_last (pf_state p))) p
      else if action = ch CHR ''m'' then Some (sset (\<lambda>s. s\<lparr>ss_style := apply_sgr ps (ss_style s)\<rparr>) p)
      else if action = ch CHR ''n'' \<and> im = [] then
        Some (if param ps 0 0 = 6 then sset (push_response (cursor_report p)) p else p)
      else if action = ch CHR ''c'' then
        Some (if im = [] then
                (if param ps 0 0 = 0 then sset (push_response (ESC # bytes ''[?62;c'')) p else p)
              else if im = bytes ''>'' \<and> param ps 0 0 = 0
              then sset (push_response (ESC # bytes ''[>0;10;1c'')) p else p)
      else if action = ch CHR ''q'' \<and> im = bytes '' '' then
        Some (set_modes (\<lambda>m. m\<lparr>md_shape := shape_from_param (as_u8 (param ps 0 0))\<rparr>) p)
      else if action = ch CHR ''S'' then csi_scroll_up_n (param ps 0 1) p
      else if action = ch CHR ''T'' \<and> length ps \<le> 1 then csi_scroll_down_n (param ps 0 1) p
      else if action = ch CHR ''M'' then csi_delete_lines (param ps 0 1) p
      else if action = ch CHR ''L'' then csi_insert_lines (param ps 0 1) p
      else if action = ch CHR ''r'' \<and> im = [] then
        Some (csi_set_scrolling_region (param ps 0 1) (param ps 1 (rows_of p)) p)
      else if action = ch CHR ''s'' \<and> im = [] then Some (save_cursor p)
      else if action = ch CHR ''u'' \<and> im = [] then Some (restore_cursor p)
      else if action = ch CHR ''g'' \<and> im = [] then
        Some (if param ps 0 0 = 0 then gset (\<lambda>g. clear_tab_stop (g_cx g) g) p
              else if param ps 0 0 = 3 then gset clear_all_tab_stops p else p)
      else if action = ch CHR ''t'' then title_op ps p
      else if (action = ch CHR ''h'' \<or> action = ch CHR ''l'') \<and> im = bytes ''?''
      then csi_set_dec_private_mode ps (action = ch CHR ''h'') p
      else Some p)"

text \<open>ESC c (RIS), in the order of the source.\<close>

definition full_reset :: "perf \<Rightarrow> perf option" where
  "full_reset p =
     do { let p = set_y 0 (set_x 0 p);
          let p = gset (\<lambda>g. (reset_scroll_region g)
                    \<lparr>g_cursor_visible := True, g_wrap := False, g_modes := default_modes\<rparr>) p;
          let p = sset (\<lambda>s. s\<lparr>ss_style := default_style\<rparr>) p;
          let p = (case ss_saved (pf_state p) of
                     Some sg \<Rightarrow> gset (\<lambda>g. g\<lparr>g_sb_limit := sg_limit sg\<rparr>) p | None \<Rightarrow> p);
          let p = sset (\<lambda>s. s\<lparr>ss_alt := False, ss_saved := None, ss_modes := None, ss_cursor := None,
                    ss_region := None, ss_title := [], ss_titles := [], ss_last := 32\<rparr>) p;
          let p = gset (\<lambda>g. (reset_tab_stops g)\<lparr>g_table := tbl_reset (g_table g)\<rparr>) p;
          p \<leftarrow> gmut (erase_rows 0 (rows_of p) default_cell) p;
          p \<leftarrow> gmut clear_scrollback p;
          Some (sset (push_passthrough (ESC # bytes ''[3J'')) p) }"

text \<open>ESC # 8 (DECALN).\<close>

definition screen_alignment :: "perf \<Rightarrow> perf option" where
  "screen_alignment p =
     do { let p = set_wrap False (set_y 0 (set_x 0 (gset reset_scroll_region p)));
          (sid, p) \<leftarrow> intern_with_gc default_style p;
          let e_cell = cell_new (ch CHR ''E'') sid 1;
          gmut (\<lambda>g. for_m [0..<g_rows g] (\<lambda>y. for_m [0..<g_cols g] (\<lambda>x. set_cell x y e_cell)) g) p }"

definition reverse_index :: "perf \<Rightarrow> perf option" where
  "reverse_index p =
     (let g = pf_grid p in
      if g_cy g = g_top g then p_scroll_down p
      else if g_cy g > 0 then Some (set_y (u16_sub (g_cy g) 1) p) else Some p)"

definition esc_dispatch :: "u8 list \<Rightarrow> u8 \<Rightarrow> perf \<Rightarrow> perf option" where
  "esc_dispatch im b p =
     (if im = [] then
        (if b = ch CHR ''H'' then Some (gset (\<lambda>g. set_tab_stop (g_cx g) g) p)
         else if b = ch CHR ''D'' then line_feed (set_wrap False p)
         else if b = ch CHR ''E'' then line_feed (set_wrap False (set_x 0 p))
         else if b = ch CHR ''M'' then reverse_index p
         else if b = ch CHR ''7'' then Some (save_cursor p)
         else if b = ch CHR ''8'' then Some (restore_cursor p)
         else if b = ch CHR ''c'' then full_reset p
         else if b = ch CHR ''='' then Some (set_modes (\<lambda>m. m\<lparr>md_keypad := True\<rparr>) p)
         else if b = ch CHR ''>'' then Some (set_modes (\<lambda>m. m\<lparr>md_keypad := False\<rparr>) p)
         else Some p)
      else if im = bytes ''('' \<and> b = ch CHR ''B'' then Some (set_modes (\<lambda>m. m\<lparr>md_g0 := Ascii\<rparr>) p)
      else if im = bytes ''('' \<and> b = ch CHR ''0'' then Some (set_modes (\<lambda>m. m\<lparr>md_g0 := LineDrawing\<rparr>) p)
      else if im = bytes '')'' \<and> b = ch CHR ''B'' then Some (set_modes (\<lambda>m. m\<lparr>md_g1 := Ascii\<rparr>) p)
      else if im = bytes '')'' \<and> b = ch CHR ''0'' then Some (set_modes (\<lambda>m. m\<lparr>md_g1 := LineDrawing\<rparr>) p)
      else if im = bytes ''#'' \<and> b = ch CHR ''8'' then screen_alignment p
      else Some p)"

definition osc_number :: "u8 list list \<Rightarrow> u16 option" where
  "osc_number params = (if utf8_valid (hd params) then parse_u16 (hd params) else None)"

text \<open>\<open>title[..4096]\<close> panics when byte 4096 is inside a character.\<close>

definition set_title :: "u8 list \<Rightarrow> perf \<Rightarrow> perf option" where
  "set_title t p =
     (if utf8_valid t then
        (if length t \<le> 4096 then Some (sset (\<lambda>s. s\<lparr>ss_title := t\<rparr>) p)
         else do { t' \<leftarrow> str_prefix t 4096; Some (sset (\<lambda>s. s\<lparr>ss_title := t'\<rparr>) p) })
      else Some p)"

fun join_semi :: "u8 list list \<Rightarrow> u8 list" where
  "join_semi [] = []"
| "join_semi [v] = v"
| "join_semi (v # vs) = v @ 59 # join_semi vs"

definition osc_dispatch :: "u8 list list \<Rightarrow> bool \<Rightarrow> perf \<Rightarrow> perf option" where
  "osc_dispatch params bell p =
     (if params = [] then Some p
      else if osc_number params \<in> {Some 0, Some 2} then
        (if length params \<ge> 2 then set_title (params ! 1) p else Some p)
      else
        let buf = ESC # bytes '']'' @ join_semi params @ (if bell then [0x07] else [ESC, 92]) in
        Some (if osc_number params \<in> {Some 9, Some 777, Some 99}
              then sset (push_notification buf) p
              else sset (push_passthrough buf) p))"

text \<open>The calls of the parser. \<open>ignore\<close> flags and DCS sequences are accepted and dropped.\<close>

datatype event =
    Print rchar
  | Execute u8
  | Csi "u16 list list" "u8 list" bool rchar
  | Esc "u8 list" bool u8
  | Osc "u8 list list" bool
  | Hook "u16 list list" "u8 list" bool rchar
  | Put u8
  | Unhook

fun perform :: "(rchar \<Rightarrow> nat option) \<Rightarrow> event \<Rightarrow> perf \<Rightarrow> perf option" where
  "perform wd (Print c) p = print wd c p"
| "perform wd (Execute b) p = execute b p"
| "perform wd (Csi ps im ignored action) p = csi_dispatch wd ps im action p"
| "perform wd (Esc im ignored b) p = esc_dispatch im b p"
| "perform wd (Osc params bell) p = osc_dispatch params bell p"
| "perform wd (Hook ps im ignored action) p = Some p"
| "perform wd (Put b) p = Some p"
| "perform wd Unhook p = Some p"

end
