(* ===== verification/Performer_Inv.thy ===== *)
theory Performer_Inv
  imports Performer
begin

section \<open>The screen's invariant and the safety of every event\<close>

text \<open>
  \<open>perf_inv\<close> extends the grid's invariant with the state of the performer: the rows saved for the
  main screen have live styles, the alternate-screen flag says whether a grid is saved, the history
  never exceeds its limit, and every queue, the title and the title stack are bounded. Every
  operation keeps it and none panics, except the title slice of \<open>osc_dispatch\<close>.
\<close>

definition history_limit :: "perf \<Rightarrow> usize" where
  "history_limit p = (case ss_saved (pf_state p) of None \<Rightarrow> g_sb_limit (pf_grid p) | Some sg \<Rightarrow> sg_limit sg)"

definition queues_ok :: "screen_state \<Rightarrow> bool" where
  "queues_ok s \<longleftrightarrow> length (ss_responses s) \<le> MAX_PENDING \<and> length (ss_passthrough s) \<le> MAX_PENDING
     \<and> length (ss_notifications s) \<le> MAX_QUEUED_NOTIFICATIONS
     \<and> length (ss_title s) \<le> 4096 \<and> length (ss_titles s) \<le> 16
     \<and> (\<forall>t\<in>set (ss_titles s). length t \<le> 4096)"

definition alt_ok :: "perf \<Rightarrow> bool" where
  "alt_ok p \<longleftrightarrow> ss_alt (pf_state p) = (ss_saved (pf_state p) \<noteq> None)
     \<and> (ss_alt (pf_state p) \<longrightarrow> g_sb_limit (pf_grid p) = 0)
     \<and> g_sb_len (pf_grid p) \<le> history_limit p"

definition perf_inv :: "perf \<Rightarrow> bool" where
  "perf_inv p \<longleftrightarrow> grid_inv (pf_grid p)
     \<and> rows_live (g_table (pf_grid p)) (saved_rows (ss_saved (pf_state p)))
     \<and> queues_ok (pf_state p) \<and> alt_ok p"

lemmas perf_inv_defs = perf_inv_def queues_ok_def alt_ok_def history_limit_def

named_theorems perf_ok \<open>operations of the performer keep the invariant and do not panic\<close>

lemma perf_inv_grid: "perf_inv p \<Longrightarrow> grid_inv (pf_grid p)"
  by (simp add: perf_inv_def)

subsection \<open>Updates of single fields\<close>

lemma gmut_ok: "ok P (gmut f p) = ok (\<lambda>g. P (p\<lparr>pf_grid := g\<rparr>)) (f (pf_grid p))"
  by (simp add: gmut_def)

lemma gset_simps [simp]:
  "pf_grid (gset f p) = f (pf_grid p)" "pf_state (gset f p) = pf_state p"
  "pf_grid (sset h p) = pf_grid p" "pf_state (sset h p) = h (pf_state p)"
  by (simp_all add: gset_def sset_def)

text \<open>A change of the grid that leaves the fields the performer's invariant reads.\<close>

definition same_history :: "grid \<Rightarrow> grid \<Rightarrow> bool" where
  "same_history g g' \<longleftrightarrow> g_table g' = g_table g \<and> g_sb_limit g' = g_sb_limit g \<and> g_sb_len g' = g_sb_len g"

lemma perf_inv_gset:
  assumes "perf_inv p" "grid_inv (f (pf_grid p))" "same_history (pf_grid p) (f (pf_grid p))"
  shows "perf_inv (gset f p)"
  using assms by (auto simp: perf_inv_def alt_ok_def history_limit_def same_history_def)

lemma perf_inv_content:
  assumes "perf_inv p" "content_step (pf_grid p) g'"
  shows "perf_inv (p\<lparr>pf_grid := g'\<rparr>)"
  using assms content_stepD [OF assms(2)] by (auto simp: perf_inv_def alt_ok_def history_limit_def)

lemma gmut_content_ok [perf_ok]:
  "perf_inv p \<Longrightarrow> ok (content_step (pf_grid p)) (f (pf_grid p)) \<Longrightarrow> ok perf_inv (gmut f p)"
  unfolding gmut_ok by (erule ok_mono) (rule perf_inv_content)

lemma grid_inv_fields [simp]:
  "grid_inv (g\<lparr>g_wrap := b\<rparr>) = grid_inv g"
  "grid_inv (g\<lparr>g_modes := m\<rparr>) = grid_inv g"
  "grid_inv (g\<lparr>g_cursor_visible := v\<rparr>) = grid_inv g"
  "grid_inv (g\<lparr>g_sb_limit := n\<rparr>) = grid_inv g"
  by (simp_all add: grid_inv_defs)

lemma grid_inv_pos [simp]:
  assumes "grid_inv g"
  shows "grid_inv (g\<lparr>g_cx := x\<rparr>) \<longleftrightarrow> x < g_cols g"
    "grid_inv (g\<lparr>g_cy := y\<rparr>) \<longleftrightarrow> y < g_rows g"
    "grid_inv (set_scroll_region t b g) \<longleftrightarrow> t \<le> b \<and> b < g_rows g"
    "grid_inv (reset_scroll_region g)"
    "grid_inv (set_tab_stop x g)" "grid_inv (clear_tab_stop x g)"
    "grid_inv (clear_all_tab_stops g)" "grid_inv (reset_tab_stops g)"
  using assms grid_invD [OF assms]
  by (auto simp: grid_inv_defs set_scroll_region_def reset_scroll_region_def set_tab_stop_def
      clear_tab_stop_def clear_all_tab_stops_def reset_tab_stops_def default_tab_stops_def u16_simps)

lemma same_history_fields [simp]:
  "same_history g g"
  "same_history g (h\<lparr>g_wrap := b\<rparr>) = same_history g h"
  "same_history g (h\<lparr>g_modes := m\<rparr>) = same_history g h"
  "same_history g (h\<lparr>g_cursor_visible := v\<rparr>) = same_history g h"
  "same_history g (h\<lparr>g_cx := x\<rparr>) = same_history g h"
  "same_history g (h\<lparr>g_cy := x\<rparr>) = same_history g h"
  "same_history g (set_scroll_region t r h) = same_history g h"
  "same_history g (reset_scroll_region h) = same_history g h"
  "same_history g (set_tab_stop x h) = same_history g h"
  "same_history g (clear_tab_stop x h) = same_history g h"
  "same_history g (clear_all_tab_stops h) = same_history g h"
  "same_history g (reset_tab_stops h) = same_history g h"
  by (simp_all add: same_history_def set_scroll_region_def reset_scroll_region_def set_tab_stop_def
      clear_tab_stop_def clear_all_tab_stops_def reset_tab_stops_def)

lemma perf_inv_setters:
  assumes "perf_inv p"
  shows "perf_inv (set_wrap b p)" "perf_inv (set_modes f p)" "x < cols_of p \<Longrightarrow> perf_inv (set_x x p)"
    "y < rows_of p \<Longrightarrow> perf_inv (set_y y p)"
    "perf_inv (gset (\<lambda>g. g\<lparr>g_cursor_visible := v\<rparr>) p)"
    "t \<le> r \<Longrightarrow> r < rows_of p \<Longrightarrow> perf_inv (gset (set_scroll_region t r) p)"
    "perf_inv (gset reset_scroll_region p)"
    "perf_inv (gset (\<lambda>g. set_tab_stop (h g) g) p)" "perf_inv (gset (\<lambda>g. clear_tab_stop (h g) g) p)"
    "perf_inv (gset clear_all_tab_stops p)"
  using assms perf_inv_grid [OF assms] by (auto intro!: perf_inv_gset)

text \<open>The dimensions and the position, as arithmetic facts for the cursor operations.\<close>

lemma perf_invD:
  assumes "perf_inv p"
  shows "0 < cols_of p" "cols_of p < 65536" "0 < rows_of p" "rows_of p < 65536"
    "g_cx (pf_grid p) < cols_of p" "g_cy (pf_grid p) < rows_of p"
    "g_top (pf_grid p) \<le> g_bottom (pf_grid p)" "g_bottom (pf_grid p) < rows_of p"
    "u16_sub (cols_of p) 1 = cols_of p - 1" "u16_sub (rows_of p) 1 = rows_of p - 1"
  using grid_invD [OF perf_inv_grid [OF assms]] grid_inv_u16 [OF perf_inv_grid [OF assms]] by auto

subsection \<open>Updates of the state\<close>

text \<open>What the invariant reads of the state.\<close>

lemma perf_inv_sset:
  assumes "perf_inv p" "ss_saved (f (pf_state p)) = ss_saved (pf_state p)"
    "ss_alt (f (pf_state p)) = ss_alt (pf_state p)" "queues_ok (f (pf_state p))"
  shows "perf_inv (sset f p)"
  using assms by (auto simp: perf_inv_def alt_ok_def history_limit_def)

lemma queues_ok_push [simp]:
  assumes "queues_ok s"
  shows "queues_ok (push_response d s)" "queues_ok (push_passthrough d s)"
    "queues_ok (push_notification d s)"
  using assms by (auto simp: queues_ok_def push_response_def push_passthrough_def push_notification_def
      MAX_PENDING_def MAX_QUEUED_NOTIFICATIONS_def Let_def)

lemma push_fields [simp]:
  "ss_saved (push_response d s) = ss_saved s" "ss_alt (push_response d s) = ss_alt s"
  "ss_saved (push_passthrough d s) = ss_saved s" "ss_alt (push_passthrough d s) = ss_alt s"
  "ss_saved (push_notification d s) = ss_saved s" "ss_alt (push_notification d s) = ss_alt s"
  by (simp_all add: push_response_def push_passthrough_def push_notification_def Let_def)

lemma perf_inv_push:
  assumes "perf_inv p"
  shows "perf_inv (sset (push_response d) p)" "perf_inv (sset (push_passthrough d) p)"
    "perf_inv (sset (push_notification d) p)"
    "perf_inv (sset (\<lambda>s. s\<lparr>ss_style := st\<rparr>) p)" "perf_inv (sset (\<lambda>s. s\<lparr>ss_style := h s\<rparr>) p)"
    "perf_inv (sset (\<lambda>s. s\<lparr>ss_last := c\<rparr>) p)"
    "perf_inv (sset (\<lambda>s. s\<lparr>ss_cursor := cu s\<rparr>) p)"
proof -
  have q: "queues_ok (pf_state p)" using assms by (simp add: perf_inv_def)
  then have "queues_ok ((pf_state p)\<lparr>ss_style := st\<rparr>)" "queues_ok ((pf_state p)\<lparr>ss_style := h (pf_state p)\<rparr>)"
    "queues_ok ((pf_state p)\<lparr>ss_last := c\<rparr>)" "queues_ok ((pf_state p)\<lparr>ss_cursor := cu (pf_state p)\<rparr>)"
    by (simp_all add: queues_ok_def)
  then show "perf_inv (sset (push_response d) p)" "perf_inv (sset (push_passthrough d) p)"
    "perf_inv (sset (push_notification d) p)"
    "perf_inv (sset (\<lambda>s. s\<lparr>ss_style := st\<rparr>) p)" "perf_inv (sset (\<lambda>s. s\<lparr>ss_style := h s\<rparr>) p)"
    "perf_inv (sset (\<lambda>s. s\<lparr>ss_last := c\<rparr>) p)" "perf_inv (sset (\<lambda>s. s\<lparr>ss_cursor := cu s\<rparr>) p)"
    using q by (simp_all add: perf_inv_sset [OF assms])
qed

subsection \<open>Cursor operations\<close>

lemmas cursor_ops_def = csi_cursor_up_def csi_cursor_down_def csi_cursor_forward_def csi_cursor_back_def
  csi_cursor_next_line_def csi_cursor_prev_line_def csi_cursor_horizontal_absolute_def
  csi_line_position_absolute_def csi_cursor_position_def csi_set_scrolling_region_def

lemma u16_sat_sub_lt [simp]: "a < n \<Longrightarrow> u16_sat_sub a b < n"
  by (rule le_less_trans [OF u16_sat_sub_le])

lemma set_scroll_region_fields [simp]:
  "g_cols (set_scroll_region t b g) = g_cols g" "g_rows (set_scroll_region t b g) = g_rows g"
  "g_modes (set_scroll_region t b g) = g_modes g" "g_table (set_scroll_region t b g) = g_table g"
  "g_cells (set_scroll_region t b g) = g_cells g" "g_sb_len (set_scroll_region t b g) = g_sb_len g"
  by (simp_all add: set_scroll_region_def)

lemma cursor_ops_ok [perf_ok]:
  assumes inv: "perf_inv p"
  shows "perf_inv (csi_cursor_up n p)" "perf_inv (csi_cursor_down n p)"
    "perf_inv (csi_cursor_forward n p)" "perf_inv (csi_cursor_back n p)"
    "perf_inv (csi_cursor_next_line n p)" "perf_inv (csi_cursor_prev_line n p)"
    "perf_inv (csi_cursor_horizontal_absolute n p)" "perf_inv (csi_line_position_absolute n p)"
    "perf_inv (csi_cursor_position n m p)" "perf_inv (csi_set_scrolling_region n m p)"
  using perf_invD [OF inv] inv
  by (simp_all add: cursor_ops_def Let_def perf_inv_setters, auto intro!: perf_inv_setters)

lemma restore_cursor_ok [perf_ok]: "perf_inv p \<Longrightarrow> perf_inv (restore_cursor p)"
  using perf_invD [of p]
  by (auto simp: restore_cursor_def Let_def split: option.split
      intro!: perf_inv_setters(1-4) perf_inv_push(4))

lemma save_cursor_ok [perf_ok]: "perf_inv p \<Longrightarrow> perf_inv (save_cursor p)"
  by (simp add: save_cursor_def Let_def perf_inv_push)

subsection \<open>Interning a style, with collection when the table is full\<close>

text \<open>
  \<open>tbl_step p p'\<close>: only the style table differs, the invariant holds, and every cell of the screen,
  the history and the saved main screen still resolves to the style it had.
\<close>

definition same_styles :: "perf \<Rightarrow> style_table \<Rightarrow> bool" where
  "same_styles p t \<longleftrightarrow> (\<forall>r\<in>set (g_cells (pf_grid p)) \<union> set (saved_rows (ss_saved (pf_state p))).
     \<forall>ce\<in>set (row_cells r). tbl_get t (ce_style ce) = tbl_get (g_table (pf_grid p)) (ce_style ce))"

definition tbl_step :: "perf \<Rightarrow> perf \<Rightarrow> bool" where
  "tbl_step p p' \<longleftrightarrow> perf_inv p'
     \<and> (\<exists>t. p' = p\<lparr>pf_grid := (pf_grid p)\<lparr>g_table := t\<rparr>\<rparr> \<and> same_styles p t)"

lemma tbl_stepI:
  assumes "perf_inv p" "tbl_inv t" "rows_live t (g_cells (pf_grid p))"
    "rows_live t (saved_rows (ss_saved (pf_state p)))" "same_styles p t"
  shows "tbl_step p (p\<lparr>pf_grid := (pf_grid p)\<lparr>g_table := t\<rparr>\<rparr>)"
  using assms by (auto simp: tbl_step_def perf_inv_def alt_ok_def history_limit_def grid_inv_defs)

lemma tbl_stepD:
  assumes "tbl_step p p'"
  shows "perf_inv p'" "pf_state p' = pf_state p" "cols_of p' = cols_of p" "rows_of p' = rows_of p"
    "g_cx (pf_grid p') = g_cx (pf_grid p)" "g_cy (pf_grid p') = g_cy (pf_grid p)"
    "g_cells (pf_grid p') = g_cells (pf_grid p)" "g_sb_len (pf_grid p') = g_sb_len (pf_grid p)"
    "g_top (pf_grid p') = g_top (pf_grid p)" "g_bottom (pf_grid p') = g_bottom (pf_grid p)"
    "modes_of p' = modes_of p" "g_wrap (pf_grid p') = g_wrap (pf_grid p)"
    "g_sb_limit (pf_grid p') = g_sb_limit (pf_grid p)"
    "g_pending (pf_grid p') = g_pending (pf_grid p)"
  using assms by (auto simp: tbl_step_def)

lemma tbl_step_trans:
  assumes "tbl_step p p'" "tbl_step p' p''"
  shows "tbl_step p p''"
proof -
  from assms(1) obtain t where p': "p' = p\<lparr>pf_grid := (pf_grid p)\<lparr>g_table := t\<rparr>\<rparr>" and t: "same_styles p t"
    by (auto simp: tbl_step_def)
  from assms(2) obtain u where p'': "p'' = p'\<lparr>pf_grid := (pf_grid p')\<lparr>g_table := u\<rparr>\<rparr>" and u: "same_styles p' u"
    and inv: "perf_inv p''" by (auto simp: tbl_step_def)
  have "same_styles p u" using t u by (auto simp: same_styles_def p')
  moreover have "p'' = p\<lparr>pf_grid := (pf_grid p)\<lparr>g_table := u\<rparr>\<rparr>" by (simp add: p'' p')
  ultimately show ?thesis using inv by (auto simp: tbl_step_def)
qed

definition interned :: "style \<Rightarrow> perf \<Rightarrow> u16 \<times> perf \<Rightarrow> bool" where
  "interned s p r \<longleftrightarrow> tbl_step p (snd r) \<and> tbl_live (g_table (pf_grid (snd r))) (fst r)
     \<and> (tbl_get (g_table (pf_grid (snd r))) (fst r) = s
        \<or> fst r = 0 \<and> tbl_is_full (g_table (pf_grid (snd r))))"

lemma intern_style_ok:
  assumes inv: "perf_inv p"
  shows "ok (interned s p) (intern_style s p)"
proof -
  let ?t = "g_table (pf_grid p)"
  have t: "tbl_inv ?t" and live: "rows_live ?t (g_cells (pf_grid p))"
    and saved: "rows_live ?t (saved_rows (ss_saved (pf_state p)))"
    using inv by (auto simp: perf_inv_def grid_inv_defs)
  have "ok (intern_post s ?t) (intern s ?t)" using t by (rule intern_ok)
  moreover have "interned s p (i, gset (\<lambda>g. g\<lparr>g_table := t'\<rparr>) p)"
    if post: "intern_post s ?t (i, t')" for i t'
  proof -
    have keep: "tbl_live t' j \<and> tbl_get t' j = tbl_get ?t j" if "tbl_live ?t j" for j
      using post that by (auto simp: intern_post_def)
    have "tbl_step p (p\<lparr>pf_grid := (pf_grid p)\<lparr>g_table := t'\<rparr>\<rparr>)"
      using post keep live saved
      by (intro tbl_stepI [OF inv])
        (auto simp: intern_post_def rows_live_def row_live_def cell_live_def same_styles_def)
    then show ?thesis
      using post by (auto simp: interned_def intern_post_def gset_def)
  qed
  ultimately show ?thesis
    unfolding intern_style_def by (auto elim!: ok_mono)
qed

lemma compact_ok:
  assumes inv: "perf_inv p"
  shows "tbl_step p (gset (compact_styles (ss_saved (pf_state p))) p)"
proof -
  have "gc_step (saved_rows (ss_saved (pf_state p))) (pf_grid p)
      (compact_styles (ss_saved (pf_state p)) (pf_grid p))"
    using inv by (intro compact_styles_ok) (auto simp: perf_inv_def)
  then obtain t where t: "compact_styles (ss_saved (pf_state p)) (pf_grid p) = (pf_grid p)\<lparr>g_table := t\<rparr>"
    "tbl_inv t" "rows_live t (g_cells (pf_grid p))" "rows_live t (saved_rows (ss_saved (pf_state p)))"
    "same_styles p t"
    unfolding gc_step_def same_styles_def by blast
  show ?thesis using tbl_stepI [OF inv t(2-5)] by (simp add: gset_def t(1))
qed

lemma intern_with_gc_ok:
  assumes inv: "perf_inv p"
  shows "ok (interned s p) (intern_with_gc s p)"
proof -
  have "ok (interned s p) (if i = 0 \<and> \<not> style_is_default s \<and> tbl_is_full (g_table (pf_grid q))
      then intern_style s (gset (compact_styles (ss_saved (pf_state q))) q) else Some (i, q))"
    if q: "interned s p (i, q)" for i q
  proof (cases "i = 0 \<and> \<not> style_is_default s \<and> tbl_is_full (g_table (pf_grid q))")
    case True
    let ?q = "gset (compact_styles (ss_saved (pf_state q))) q"
    have pq: "tbl_step p q" using q by (simp add: interned_def)
    then have qq: "tbl_step q ?q" by (intro compact_ok) (auto dest: tbl_stepD)
    have "ok (interned s ?q) (intern_style s ?q)" using tbl_stepD(1) [OF qq] by (rule intern_style_ok)
    then show ?thesis
      using True tbl_step_trans [OF tbl_step_trans [OF pq qq]]
      by (auto simp: interned_def elim!: ok_mono)
  qed (use q in auto)
  with intern_style_ok [OF inv, of s] show ?thesis
    unfolding intern_with_gc_def by (auto elim!: ok_mono)
qed

text \<open>The blank of background-colour erase.\<close>

definition blanked :: "perf \<Rightarrow> cell \<times> perf \<Rightarrow> bool" where
  "blanked p r \<longleftrightarrow> tbl_step p (snd r) \<and> cell_live (g_table (pf_grid (snd r))) (fst r)
     \<and> ce_c (fst r) = 32 \<and> ce_width (fst r) = 1"

lemma blank_cell_ok:
  assumes inv: "perf_inv p"
  shows "ok (blanked p) (blank_cell p)"
  using intern_with_gc_ok [OF inv, of "default_style\<lparr>st_bg := st_bg (ss_style (pf_state p))\<rparr>"]
  unfolding blank_cell_def
  by (auto simp: interned_def blanked_def cell_live_def cell_new_def elim!: ok_mono)

lemma blank_bind_ok:
  assumes "perf_inv p" "\<And>b q. perf_inv q \<Longrightarrow> tbl_step p q \<Longrightarrow> cell_live (g_table (pf_grid q)) b \<Longrightarrow> ok P (f (b, q))"
  shows "ok P (Option.bind (blank_cell p) f)"
  unfolding ok_bind
proof (rule ok_mono [OF blank_cell_ok [OF assms(1)]])
  fix r
  assume "blanked p r"
  then show "ok P (f r)"
    using assms(2) [of "snd r" "fst r"] tbl_stepD(1) [of p "snd r"] by (simp add: blanked_def)
qed

subsection \<open>Scrolling\<close>

lemma scrollback_after_bound:
  assumes "grid_inv g" "g_sb_len g \<le> g_sb_limit g"
  shows "length (scrollback_after in_alt g) \<le> g_sb_limit g"
  using assms grid_split(2) [OF assms(1)] by (auto simp: scrollback_after_def Let_def)

lemma scroll_up_perf_ok:
  assumes inv: "perf_inv p" and live: "cell_live (g_table (pf_grid p)) fill"
  shows "ok perf_inv (gmut (scroll_up (ss_alt (pf_state p)) fill) p)"
proof -
  let ?g = "pf_grid p" and ?alt = "ss_alt (pf_state p)"
  have g: "grid_inv ?g" using inv by (rule perf_inv_grid)
  obtain g' where g': "scroll_up ?alt fill ?g = Some g'" "scroll_step ?g g'"
    using scroll_up_ok [OF g live, of ?alt] by (auto simp: ok_ex)
  have "g_sb_len g' = length (scrollback_after ?alt ?g)" using g'(1) by (auto simp: scroll_up_eq [OF g])
  moreover have "length (scrollback_after ?alt ?g) \<le> history_limit p"
    using inv scrollback_after_bound [OF g, of ?alt] grid_split(2) [OF g]
    by (cases "ss_saved (pf_state p)")
      (auto simp: perf_inv_def alt_ok_def history_limit_def scrollback_after_def captures_def)
  ultimately have "perf_inv (p\<lparr>pf_grid := g'\<rparr>)"
    using inv scroll_stepD [OF g'(2)] by (auto simp: perf_inv_def alt_ok_def history_limit_def)
  then show ?thesis by (simp add: gmut_ok g'(1))
qed

lemma p_scroll_up_ok [perf_ok]: "perf_inv p \<Longrightarrow> ok perf_inv (p_scroll_up p)"
  unfolding p_scroll_up_def by (erule blank_bind_ok) (simp add: scroll_up_perf_ok)

lemma p_scroll_down_ok [perf_ok]: "perf_inv p \<Longrightarrow> ok perf_inv (p_scroll_down p)"
  unfolding p_scroll_down_def
  by (erule blank_bind_ok) (auto intro!: gmut_content_ok scroll_down_ok perf_inv_grid)

lemma line_feed_ok [perf_ok]:
  assumes "perf_inv p"
  shows "ok perf_inv (line_feed p)"
  using assms perf_invD [OF assms] p_scroll_up_ok [OF assms]
  by (auto simp: line_feed_def Let_def u16_simps intro!: perf_inv_setters)

lemma reverse_index_ok [perf_ok]:
  assumes "perf_inv p"
  shows "ok perf_inv (reverse_index p)"
  using assms perf_invD [OF assms] p_scroll_down_ok [OF assms]
  by (auto simp: reverse_index_def Let_def u16_simps intro!: perf_inv_setters)

lemma perform_deferred_wrap_ok [perf_ok]:
  "perf_inv p \<Longrightarrow> ok perf_inv (perform_deferred_wrap p)"
  unfolding perform_deferred_wrap_def
  by (intro line_feed_ok perf_inv_setters) (auto dest: perf_invD(1))

lemma csi_scroll_ok [perf_ok]:
  "perf_inv p \<Longrightarrow> ok perf_inv (csi_scroll_up_n n p)"
  "perf_inv p \<Longrightarrow> ok perf_inv (csi_scroll_down_n n p)"
  by (auto simp: csi_scroll_up_n_def csi_scroll_down_n_def intro!: repeat_m_ok p_scroll_up_ok p_scroll_down_ok)

subsection \<open>Erasing\<close>

lemma clear_scrollback_ok:
  assumes inv: "perf_inv p"
  shows "ok perf_inv (gmut clear_scrollback p)"
proof -
  let ?g = "pf_grid p"
  have g: "grid_inv ?g" using inv by (rule perf_inv_grid)
  have "grid_inv (?g\<lparr>g_cells := drop (g_sb_len ?g) (g_cells ?g), g_sb_len := 0, g_pending := 0\<rparr>)"
    using g grid_invD(6) [OF g] by (auto simp: grid_inv_defs rows_live_def dest: in_set_dropD)
  then show ?thesis
    using inv grid_invD(6) [OF g]
    by (auto simp: gmut_ok clear_scrollback_def perf_inv_def alt_ok_def history_limit_def)
qed

lemma bind_perf_ok:
  "ok perf_inv m \<Longrightarrow> (\<And>q. perf_inv q \<Longrightarrow> ok P (f q)) \<Longrightarrow> ok P (Option.bind m f)"
  by (auto simp: ok_ex)

text \<open>The table of the grid is kept by a content step, so a blank stays live across several.\<close>

lemma gmut_content_bind:
  assumes "perf_inv p" "ok (content_step (pf_grid p)) (f (pf_grid p))"
    "\<And>q. perf_inv q \<Longrightarrow> content_step (pf_grid p) (pf_grid q) \<Longrightarrow> pf_state q = pf_state p \<Longrightarrow> ok P (h q)"
  shows "ok P (Option.bind (gmut f p) h)"
proof -
  from assms(2) obtain g where g: "f (pf_grid p) = Some g" "content_step (pf_grid p) g" by (auto simp: ok_ex)
  show ?thesis
    using assms(3) [of "p\<lparr>pf_grid := g\<rparr>"] perf_inv_content [OF assms(1) g(2)] g by (simp add: gmut_def)
qed

lemma csi_erase_ok [perf_ok]:
  assumes inv: "perf_inv p"
  shows "ok perf_inv (csi_erase_display mode p)" "ok perf_inv (csi_erase_line mode p)"
    "ok perf_inv (csi_erase_character n p)"
proof -
  show "ok perf_inv (csi_erase_display mode p)"
    unfolding csi_erase_display_def
  proof (rule blank_bind_ok [OF inv])
    fix b q
    assume q: "perf_inv q" and b: "cell_live (g_table (pf_grid q)) b"
    note erase = erase_cells_ok [OF perf_inv_grid [OF q] b] erase_rows_ok [OF perf_inv_grid [OF q] b]
    have b': "cell_live (g_table (pf_grid q')) b" if "content_step (pf_grid q) (pf_grid q')" for q'
      using that b by (simp add: content_stepD)
    show "ok perf_inv (case (b, q) of (blank, p) \<Rightarrow> let g = pf_grid p; y = g_cy g; x = g_cx g; cols = g_cols g in
       if mode = 0 then gmut (erase_cells y x cols blank) p \<bind> (\<lambda>p. gmut (erase_rows (y + 1) (rows_of p) blank) p)
       else if mode = 1 then gmut (erase_rows 0 y blank) p \<bind> (\<lambda>p. gmut (erase_cells y 0 (min (x + 1) (cols_of p)) blank) p)
       else if mode = 2 then gmut (erase_rows 0 (g_rows g) blank) p
       else if mode = 3 then gmut clear_scrollback p \<bind> (\<lambda>p. Some (sset (push_passthrough (ESC # bytes ''[3J'')) p))
       else Some p)"
      unfolding Let_def prod.case
      by (intro ok_if gmut_content_bind [OF q] gmut_content_ok q erase bind_perf_ok [OF clear_scrollback_ok [OF q]]
          erase_rows_ok erase_cells_ok perf_inv_grid b')
        (simp_all add: q perf_inv_push)
  qed
  show "ok perf_inv (csi_erase_line mode p)"
    unfolding csi_erase_line_def
    by (rule blank_bind_ok [OF inv])
      (auto simp: Let_def intro!: gmut_content_ok erase_cells_ok perf_inv_grid)
  show "ok perf_inv (csi_erase_character n p)"
    unfolding csi_erase_character_def
    by (rule blank_bind_ok [OF inv])
      (auto simp: Let_def intro!: gmut_content_ok erase_cells_ok perf_inv_grid)
qed

subsection \<open>Inserting and deleting cells and lines\<close>

lemma row_live_subset: "set (row_cells r') \<subseteq> insert b (set (row_cells r)) \<Longrightarrow> row_live t r \<Longrightarrow> cell_live t b
    \<Longrightarrow> row_live t r'"
  by (auto simp: row_live_def)

lemma delete_cells_ok [grid_ok]:
  assumes "row_fits g r" "x < g_cols g" "cell_live (g_table g) b"
  shows "ok (row_fits g) (delete_cells x n b r)"
  unfolding delete_cells_def
proof (rule repeat_m_ok [where P = "row_fits g", OF assms(1)])
  fix r
  assume r: "row_fits g r"
  have "set (remove_at x (row_cells r) @ [b]) \<subseteq> insert b (set (row_cells r))"
    using set_remove_at [of x "row_cells r"] by auto
  then show "ok (row_fits g) (map_option (row_push b) (row_remove x r))"
    using r assms(2,3) by (auto simp: row_fits_def row_remove_def Let_def row_push_def row_live_def)
qed

lemma insert_cells_ok [grid_ok]:
  assumes "row_fits g r" "x < g_cols g" "cell_live (g_table g) b"
  shows "ok (row_fits g) (insert_cells x n b r)"
  unfolding insert_cells_def
proof (rule repeat_m_ok [where P = "row_fits g", OF assms(1)])
  fix r
  assume r: "row_fits g r"
  show "ok (row_fits g) (row_insert x b (row_pop r))"
    using r assms(2,3) by (auto simp: row_fits_def row_insert_def Let_def row_live_def dest: in_set_butlastD)
qed

lemma row_at_bind_ok:
  "row_fits g r \<Longrightarrow> x < g_cols g \<Longrightarrow> (\<And>ce. ok P (f ce)) \<Longrightarrow> ok P (Option.bind (row_at r x) f)"
  by (simp add: row_at_def row_fits_def)

lemma row_bind_ok:
  "ok (row_fits g) m \<Longrightarrow> (\<And>r. row_fits g r \<Longrightarrow> ok P (f r)) \<Longrightarrow> ok P (Option.bind m f)"
  by (auto simp: ok_ex)

lemma fix_deleted_ok [grid_ok]:
  assumes "row_fits g r" "cell_live (g_table g) b"
  shows "ok (row_fits g) (fix_deleted x (g_cols g) b r)"
  unfolding fix_deleted_def using assms
  by (intro ok_if row_at_bind_ok [of g] row_bind_ok [of g] row_set_fits) auto

lemma fix_inserted_ok [grid_ok]:
  assumes "row_fits g r" "cell_live (g_table g) b" "0 < g_cols g"
  shows "ok (row_fits g) (fix_inserted (g_cols g) b r)"
  unfolding fix_inserted_def Let_def using assms
  by (intro ok_if row_at_bind_ok [of g] row_bind_ok [of g] row_set_fits) auto

lemma edit_row_ok:
  assumes q: "perf_inv q" and b: "cell_live (g_table (pf_grid q)) b"
    and e: "\<And>g r. cell_live (g_table g) b \<Longrightarrow> row_fits g r \<Longrightarrow> g_cols g = cols_of q \<Longrightarrow> ok (row_fits g) (e r)"
    and f: "\<And>g r. cell_live (g_table g) b \<Longrightarrow> row_fits g r \<Longrightarrow> g_cols g = cols_of q \<Longrightarrow> ok (row_fits g) (f r)"
  shows "ok perf_inv (do { q' \<leftarrow> gmut (fixup_wide_char_at (g_cx (pf_grid q)) (g_cy (pf_grid q))) q;
       q'' \<leftarrow> gmut (visible_row_mut (g_cy (pf_grid q)) e) q';
       gmut (visible_row_mut (g_cy (pf_grid q)) f) q'' })"
proof (rule gmut_content_bind [OF q])
  show "ok (content_step (pf_grid q)) (fixup_wide_char_at (g_cx (pf_grid q)) (g_cy (pf_grid q)) (pf_grid q))"
    using perf_inv_grid [OF q] by (rule fixup_wide_char_at_ok)
next
  fix q1
  assume q1: "perf_inv q1" and s1: "content_step (pf_grid q) (pf_grid q1)"
  note d1 = content_stepD [OF s1]
  have y: "g_cy (pf_grid q) < rows_of q" using perf_invD(6) [OF q] .
  show "ok perf_inv (do { q'' \<leftarrow> gmut (visible_row_mut (g_cy (pf_grid q)) e) q1;
       gmut (visible_row_mut (g_cy (pf_grid q)) f) q'' })"
  proof (rule gmut_content_bind [OF q1])
    show "ok (content_step (pf_grid q1)) (visible_row_mut (g_cy (pf_grid q)) e (pf_grid q1))"
      using q1 y b d1 by (intro visible_row_mut_ok perf_inv_grid e) auto
  next
    fix q2
    assume q2: "perf_inv q2" and s2: "content_step (pf_grid q1) (pf_grid q2)"
    note d2 = content_stepD [OF s2]
    show "ok perf_inv (gmut (visible_row_mut (g_cy (pf_grid q)) f) q2)"
      using q2 y b d1 d2 by (intro gmut_content_ok visible_row_mut_ok perf_inv_grid f) auto
  qed
qed

lemma csi_edit_cells_ok [perf_ok]:
  assumes inv: "perf_inv p"
  shows "ok perf_inv (csi_delete_character n p)" "ok perf_inv (csi_insert_character n p)"
proof -
  show "ok perf_inv (csi_delete_character n p)"
    unfolding csi_delete_character_def
  proof (rule blank_bind_ok [OF inv])
    fix b q
    assume q: "perf_inv q" "cell_live (g_table (pf_grid q)) b"
    have "ok (row_fits g) (fix_deleted (g_cx (pf_grid q)) (cols_of q) b r)"
      if "cell_live (g_table g) b" "row_fits g r" "g_cols g = cols_of q" for g r
      using fix_deleted_ok [OF that(2,1)] that(3) by simp
    then show "ok perf_inv (case (b, q) of (blank, p) \<Rightarrow> let g = pf_grid p; y = g_cy g; x = g_cx g; cols = g_cols g in
        if y < g_rows g then do { p \<leftarrow> gmut (fixup_wide_char_at x y) p;
          p \<leftarrow> gmut (visible_row_mut y (delete_cells x (min n (cols - x)) blank)) p;
          gmut (visible_row_mut y (fix_deleted x cols blank)) p } else Some p)"
      unfolding Let_def prod.case using perf_invD(5) [OF q(1)]
      by (intro ok_if edit_row_ok q delete_cells_ok) (simp_all add: q)
  qed
  show "ok perf_inv (csi_insert_character n p)"
    unfolding csi_insert_character_def
  proof (rule blank_bind_ok [OF inv])
    fix b q
    assume q: "perf_inv q" "cell_live (g_table (pf_grid q)) b"
    have "ok (row_fits g) (fix_inserted (cols_of q) b r)"
      if "cell_live (g_table g) b" "row_fits g r" "g_cols g = cols_of q" for g r
      using fix_inserted_ok [OF that(2,1)] that(3) perf_invD(1) [OF q(1)] by simp
    then show "ok perf_inv (case (b, q) of (blank, p) \<Rightarrow> let g = pf_grid p; y = g_cy g; x = g_cx g; cols = g_cols g in
        if y < g_rows g then do { p \<leftarrow> gmut (fixup_wide_char_at x y) p;
          p \<leftarrow> gmut (visible_row_mut y (insert_cells x (min n (cols - x)) blank)) p;
          gmut (visible_row_mut y (fix_inserted cols blank)) p } else Some p)"
      unfolding Let_def prod.case using perf_invD(5) [OF q(1)]
      by (intro ok_if edit_row_ok q insert_cells_ok) (simp_all add: q)
  qed
qed

lemma repeat_content:
  assumes "perf_inv p" "\<And>g. content_step (pf_grid p) g \<Longrightarrow> ok (content_step g) (f g)"
  shows "ok perf_inv (repeat_m n (gmut f) p)"
proof (rule ok_mono [of "\<lambda>q. perf_inv q \<and> content_step (pf_grid p) (pf_grid q)"])
  show "ok (\<lambda>q. perf_inv q \<and> content_step (pf_grid p) (pf_grid q)) (repeat_m n (gmut f) p)"
  proof (rule repeat_m_ok)
    fix q
    assume q: "perf_inv q \<and> content_step (pf_grid p) (pf_grid q)"
    then have "ok (content_step (pf_grid q)) (f (pf_grid q))" using assms(2) by blast
    then show "ok (\<lambda>q. perf_inv q \<and> content_step (pf_grid p) (pf_grid q)) (gmut f q)"
      unfolding gmut_ok
      by (rule ok_mono) (use q in \<open>auto intro: perf_inv_content content_step_trans\<close>)
  qed (use assms(1) perf_inv_grid in auto)
qed simp

lemma csi_lines_ok [perf_ok]:
  assumes inv: "perf_inv p"
  shows "ok perf_inv (csi_delete_lines n p)" "ok perf_inv (csi_insert_lines n p)"
proof -
  have move: "ok (content_step g) (insert_visible_row j (new_blank_row b g) (remove_visible_row l g))"
    if "cell_live (g_table (pf_grid q)) b" "content_step (pf_grid q\<lparr>g_wrap := False\<rparr>) g"
      "j \<le> g_bottom (pf_grid q)" "l \<le> g_bottom (pf_grid q)" "perf_inv q" for q b g j l
    using that perf_invD(8) [OF that(5)] content_stepD [OF that(2)]
    by (auto intro!: move_row_ok blank_row_fits)
  show "ok perf_inv (csi_delete_lines n p)"
    unfolding csi_delete_lines_def
    by (rule blank_bind_ok [OF inv])
      (auto simp: Let_def intro!: repeat_content move perf_inv_setters(1),
        auto intro: content_step_refl content_stepD(1))
  show "ok perf_inv (csi_insert_lines n p)"
    unfolding csi_insert_lines_def
    by (rule blank_bind_ok [OF inv])
      (auto simp: Let_def intro!: repeat_content move perf_inv_setters(1),
        auto intro: content_step_refl content_stepD(1))
qed

subsection \<open>Printing\<close>

lemma handle_combining_mark_ok [perf_ok]:
  assumes inv: "perf_inv p"
  shows "ok perf_inv (handle_combining_mark c p)"
proof -
  let ?g = "pf_grid p" and ?r = "g_cells (pf_grid p) ! (g_sb_len (pf_grid p) + g_cy (pf_grid p))"
  have g: "grid_inv ?g" and y: "g_cy ?g < g_rows ?g" using inv by (rule perf_inv_grid, rule perf_invD(6))
  note row = grid_inv_visible [OF g y]
  have "ok perf_inv (gmut (visible_row_mut (g_cy ?g) (\<lambda>r. Some (push_combining k c r))) p)" for k
    using inv g y by (intro gmut_content_ok visible_row_mut_ok) auto
  then show ?thesis
    unfolding handle_combining_mark_def Let_def row(1) Option.bind.simps
    by (intro ok_if row_at_bind_ok [OF row(2)]) (auto simp: inv)
qed

lemma interned_bind_ok:
  assumes "perf_inv p" "\<And>i q. perf_inv q \<Longrightarrow> tbl_step p q \<Longrightarrow> tbl_live (g_table (pf_grid q)) i \<Longrightarrow> ok P (f (i, q))"
  shows "ok P (Option.bind (intern_with_gc s p) f)"
  unfolding ok_bind
proof (rule ok_mono [OF intern_with_gc_ok [OF assms(1)]])
  fix r
  assume "interned s p r"
  then show "ok P (f r)"
    using assms(2) [of "snd r" "fst r"] tbl_stepD(1) [of p "snd r"] by (simp add: interned_def)
qed

lemma put_char_ok [perf_ok]:
  assumes inv: "perf_inv p"
  shows "ok perf_inv (put_char c w p)"
proof -
  have advance: "perf_inv (if new_x \<ge> cols_of q
      then (let q = set_x (u16_sub (cols_of q) 1) q in if md_autowrap (modes_of q) then set_wrap True q else q)
      else set_x new_x q)" if "perf_inv q" for new_x q
    using perf_invD [OF that] by (auto simp: Let_def intro!: perf_inv_setters that)
  have "ok perf_inv (do { q' \<leftarrow> gmut (set_cell x y (cell_new c i (as_u8 w))) q;
      let new_x = u16_add (g_cx (pf_grid q')) w;
      Some (if new_x \<ge> cols_of q'
        then (let p = set_x (u16_sub (cols_of q') 1) q' in if md_autowrap (modes_of p) then set_wrap True p else p)
        else set_x new_x q') })"
    if "perf_inv q" "tbl_live (g_table (pf_grid q)) i" for q i x y
    using that unfolding Let_def
    by (intro bind_perf_ok [OF gmut_content_ok] set_cell_ok perf_inv_grid
        ok_Some [THEN iffD2] advance [unfolded Let_def])
      (simp_all add: cell_live_def cell_new_def)
  then show ?thesis
    unfolding put_char_def Let_def
    by (intro ok_if interned_bind_ok [OF inv]) (auto simp: inv Let_def)
qed

lemma wide_margin_ok:
  assumes inv: "perf_inv p"
  shows "ok (\<lambda>(go, q). perf_inv q) (wide_margin w p)"
proof -
  have blank: "ok perf_inv (do { (blank, q) \<leftarrow> blank_cell p;
      gmut (visible_row_mut (g_cy (pf_grid p)) (row_set (g_cx (pf_grid p)) blank)) q })"
    using perf_invD [OF inv]
    by (intro blank_bind_ok [OF inv])
      (auto dest: tbl_stepD intro!: gmut_content_ok visible_row_mut_ok perf_inv_grid row_set_fits
        simp: tbl_stepD row_fits_def)
  have "ok (\<lambda>(go, q). perf_inv q) (do { q \<leftarrow> perform_deferred_wrap q; Some (True, q) })"
    if "perf_inv q" for q
    by (rule bind_perf_ok [OF perform_deferred_wrap_ok [OF that]]) simp
  then show ?thesis
    unfolding wide_margin_def Let_def
    by (intro ok_if bind_perf_ok [OF ok_if] blank) (auto simp: inv)
qed

lemma print_ok [perf_ok]:
  assumes inv: "perf_inv p"
  shows "ok perf_inv (print wd c p)"
proof -
  define q where "q = sset (\<lambda>s. s\<lparr>ss_last := c\<rparr>) p"
  have q: "perf_inv q" unfolding q_def using inv by (rule perf_inv_push)
  have rest: "ok perf_inv (do { (go, p) \<leftarrow> wide_margin w q; if go then put_char ch w p else Some p })"
    if "perf_inv q" for q ch w
    unfolding ok_bind
    by (rule ok_mono [OF wide_margin_ok [OF that]]) (auto intro: put_char_ok)
  show ?thesis
    unfolding print_def Let_def q_def [symmetric]
    by (intro ok_if handle_combining_mark_ok bind_perf_ok [OF ok_if] perform_deferred_wrap_ok rest)
      (auto simp: q)
qed

subsection \<open>The alternate screen\<close>

text \<open>Leaving the alternate screen: the saved rows, fitted to the current dimensions.\<close>

lemma adjust_visible_to_fit_eq:
  assumes "g_cells g = S @ V" "g_sb_len g = length S"
  shows "adjust_visible_to_fit g = g\<lparr>g_cells := S @ resize_list (g_rows g) (row_new (g_cols g)) V\<rparr>"
proof -
  consider "length V > g_rows g" | "length V = g_rows g" | "length V < g_rows g" by linarith
  then show ?thesis
    by cases (simp_all add: adjust_visible_to_fit_def visible_row_count_def resize_list_def assms Let_def)
qed

lemma restore_saved_eq:
  assumes g: "grid_inv g"
  shows "restore_saved sg g = Some (g\<lparr>
     g_cells := scrollback_rows g @ resized_visible (g_cols g) (g_rows g) (sg_visible sg),
     g_sb_limit := sg_limit sg\<rparr>)"
proof -
  define S where "S = scrollback_rows g"
  have S: "g_sb_len g = length S" "take (length S) (g_cells g) = S"
    using grid_split(2) [OF g] by (simp_all add: S_def scrollback_rows_def)
  define V where "V = resize_list (g_rows g) (row_new (g_cols g)) (sg_visible sg)"
  define h where "h = g\<lparr>g_cells := S @ V, g_sb_limit := sg_limit sg\<rparr>"
  have adj: "adjust_visible_to_fit ((replace_visible (sg_visible sg) g)\<lparr>g_sb_limit := sg_limit sg\<rparr>) = h"
    by (simp add: adjust_visible_to_fit_eq [where S = S and V = "sg_visible sg"] replace_visible_def S h_def V_def)
  have len: "length V = g_rows g" by (simp add: V_def)
  have "for_m [0..<visible_row_count h] (\<lambda>y. visible_row_mut y (\<lambda>r. Some (resize_row (g_cols h) r))) h
      = Some (h\<lparr>g_cells := S @ map (resize_row (g_cols h)) V\<rparr>)"
    using for_rows_eq [of h "visible_row_count h" "resize_row (g_cols h)"]
    by (simp add: h_def visible_row_count_def grid_visible_def S scrollback_rows_def)
  then show ?thesis
    unfolding restore_saved_def adj Let_def S_def [symmetric] resized_visible_def V_def [symmetric]
    by (simp add: h_def)
qed

lemma resized_visible_live:
  assumes "tbl_inv t" "rows_live t V"
  shows "rows_live t (resized_visible c r V)"
  using assms set_resize_list [of r "row_new c" V]
  by (auto simp: resized_visible_def rows_live_def intro!: resize_row_live)

lemma resized_visible_length [simp]: "length (resized_visible c r V) = r"
  by (simp add: resized_visible_def)

lemma resized_visible_width: "q \<in> set (resized_visible c r V) \<Longrightarrow> length (row_cells q) = c"
  by (auto simp: resized_visible_def)

lemma restore_saved_inv:
  assumes g: "grid_inv g" and live: "rows_live (g_table g) (sg_visible sg)"
  shows "grid_inv (g\<lparr>g_cells := scrollback_rows g @ resized_visible (g_cols g) (g_rows g) (sg_visible sg),
     g_sb_limit := sg_limit sg\<rparr>)"
proof -
  have S: "rows_live (g_table g) (scrollback_rows g)"
    using grid_invD(13) [OF g] by (auto simp: scrollback_rows_def rows_live_def dest: in_set_takeD)
  show ?thesis
    using g grid_split(2) [OF g] S resized_visible_live [OF grid_invD(12) [OF g] live]
    by (auto simp: grid_inv_defs resized_visible_width)
qed

lemma enter_alt_screen_eq:
  assumes inv: "perf_inv p" and "\<not> ss_alt (pf_state p)"
  shows "enter_alt_screen save p = Some (let q = (if save then save_cursor p else p); g = pf_grid p in
     \<lparr>pf_grid = g\<lparr>g_cells := scrollback_rows g @ replicate (g_rows g) (row_new (g_cols g)),
         g_sb_limit := 0, g_cx := 0, g_cy := 0, g_top := 0, g_bottom := g_rows g - 1, g_wrap := False\<rparr>,
      pf_state = (pf_state q)\<lparr>ss_region := Some (g_top g, g_bottom g),
         ss_saved := Some \<lparr>sg_visible = grid_visible g, sg_limit = g_sb_limit g\<rparr>,
         ss_modes := Some (g_modes g), ss_alt := True\<rparr>\<rparr>)"
proof -
  have g: "grid_inv (pf_grid p)" using inv by (rule perf_inv_grid)
  have "u16_sub (g_rows (pf_grid p)) 1 = g_rows (pf_grid p) - 1" using g by (rule grid_inv_u16)
  then show ?thesis
    using grid_invD(6) [OF g] assms(2)
    by (cases p; cases "pf_grid p")
      (simp add: enter_alt_screen_def drain_visible_def Let_def save_cursor_def sset_def gset_def
        fill_visible_blank_def scrollback_rows_def grid_visible_def reset_scroll_region_def)
qed

lemma enter_alt_screen_ok [perf_ok]:
  assumes inv: "perf_inv p"
  shows "ok perf_inv (enter_alt_screen save p)"
proof (cases "ss_alt (pf_state p)")
  case False
  have g: "grid_inv (pf_grid p)" using inv by (rule perf_inv_grid)
  have S: "rows_live (g_table (pf_grid p)) (scrollback_rows (pf_grid p))"
    "rows_live (g_table (pf_grid p)) (grid_visible (pf_grid p))"
    "rows_live (g_table (pf_grid p)) (replicate (rows_of p) (row_new (cols_of p)))"
    using grid_invD(12,13) [OF g]
    by (auto simp: scrollback_rows_def grid_visible_def rows_live_def dest: in_set_takeD in_set_dropD)
  have "ss_saved (pf_state p) = None" using inv False by (auto simp: perf_inv_def alt_ok_def)
  then show ?thesis
    unfolding enter_alt_screen_eq [OF inv False] Let_def
    using inv g S grid_split(2) [OF g] save_cursor_ok [OF inv]
    by (auto simp: perf_inv_defs grid_inv_defs saved_rows_def save_cursor_def Let_def)
qed (use inv in \<open>simp add: enter_alt_screen_def\<close>)

text \<open>The steps of \<open>exit_alt_screen\<close> after the rows are back: the modes, the cursor, the region.\<close>

definition exit_modes :: "perf \<Rightarrow> perf" where
  "exit_modes p = (case ss_modes (pf_state p) of None \<Rightarrow> p
     | Some m \<Rightarrow> gset (\<lambda>g. g\<lparr>g_modes := m\<rparr>) (sset (\<lambda>s. s\<lparr>ss_modes := None\<rparr>) p))"

definition exit_region :: "perf \<Rightarrow> perf" where
  "exit_region p = (case ss_region (pf_state p) of
       Some (t, b) \<Rightarrow>
         (let bm = u16_sat_sub (rows_of p) 1; tp = min t bm; btm = max (min b bm) tp
          in gset (set_scroll_region tp btm) (sset (\<lambda>s. s\<lparr>ss_region := None\<rparr>) p))
     | None \<Rightarrow> gset reset_scroll_region p)"

definition exit_rows :: "perf \<Rightarrow> perf option" where
  "exit_rows p = (case ss_saved (pf_state p) of
       None \<Rightarrow> Some (sset (\<lambda>s. s\<lparr>ss_alt := False\<rparr>) p)
     | Some sg \<Rightarrow> gmut (restore_saved sg) (sset (\<lambda>s. s\<lparr>ss_saved := None\<rparr>) (sset (\<lambda>s. s\<lparr>ss_alt := False\<rparr>) p)))"

lemma exit_alt_screen_steps:
  "ss_alt (pf_state p) \<Longrightarrow> exit_alt_screen restore p = do { q \<leftarrow> exit_rows p;
     Some (gset (compact_styles None)
       (exit_region (if restore then restore_cursor (exit_modes q) else exit_modes q))) }"
  unfolding exit_alt_screen_def exit_rows_def exit_modes_def exit_region_def Let_def
  by (simp cong: option.case_cong)

lemma exit_rows_ok:
  assumes inv: "perf_inv p" and alt: "ss_alt (pf_state p)"
  shows "ok (\<lambda>q. perf_inv q \<and> ss_saved (pf_state q) = None) (exit_rows p)"
proof -
  obtain sg where sg: "ss_saved (pf_state p) = Some sg"
    using inv alt by (auto simp: perf_inv_def alt_ok_def)
  have "rows_live (g_table (pf_grid p)) (sg_visible sg)"
    using inv by (simp add: perf_inv_def saved_rows_def sg)
  note g = restore_saved_inv [OF perf_inv_grid [OF inv] this]
  show ?thesis
    using inv g by (simp add: exit_rows_def sg gmut_ok restore_saved_eq [OF perf_inv_grid [OF inv]])
      (auto simp: perf_inv_defs sg saved_rows_def)
qed

lemma exit_modes_ok: "perf_inv p \<Longrightarrow> perf_inv (exit_modes p)"
  by (auto simp: exit_modes_def perf_inv_defs split: option.split)

lemma exit_region_ok:
  assumes "perf_inv p"
  shows "perf_inv (exit_region p)"
proof -
  have "perf_inv (sset (\<lambda>s. s\<lparr>ss_region := None\<rparr>) p)" using assms by (auto simp: perf_inv_defs)
  then show ?thesis
    using assms perf_invD(3) [OF assms]
    by (auto simp: exit_region_def Let_def u16_sat_sub_eq split: option.split intro!: perf_inv_setters)
qed

lemma exit_steps_saved [simp]:
  "ss_saved (pf_state (exit_modes p)) = ss_saved (pf_state p)"
  "ss_saved (pf_state (exit_region p)) = ss_saved (pf_state p)"
  "ss_saved (pf_state (restore_cursor p)) = ss_saved (pf_state p)"
  by (auto simp: exit_modes_def exit_region_def restore_cursor_def Let_def split: option.split)

lemma exit_alt_screen_ok [perf_ok]:
  assumes inv: "perf_inv p"
  shows "ok perf_inv (exit_alt_screen restore p)"
proof (cases "ss_alt (pf_state p)")
  case True
  have "perf_inv (gset (compact_styles None)
       (exit_region (if restore then restore_cursor (exit_modes q) else exit_modes q)))"
    if "perf_inv q" "ss_saved (pf_state q) = None" for q
  proof -
    let ?q = "exit_region (if restore then restore_cursor (exit_modes q) else exit_modes q)"
    have q: "perf_inv ?q" using that(1) by (auto intro!: exit_region_ok restore_cursor_ok exit_modes_ok)
    have "ss_saved (pf_state ?q) = None" by (simp add: that(2))
    then show ?thesis using compact_ok [OF q] by (auto dest: tbl_stepD(1))
  qed
  then show ?thesis
    unfolding exit_alt_screen_steps [OF True] ok_bind ok_Some
    by (intro ok_mono [OF exit_rows_ok [OF inv True]]) auto
qed (use inv in \<open>simp add: exit_alt_screen_def\<close>)

subsection \<open>Reset and alignment\<close>

lemma full_reset_ok [perf_ok]:
  assumes inv: "perf_inv p"
  shows "ok perf_inv (full_reset p)"
proof -
  let ?g = "pf_grid p" and ?s = "pf_state p"
  define g0 where "g0 = reset_tab_stops ((reset_scroll_region (?g\<lparr>g_cx := 0, g_cy := 0\<rparr>))
      \<lparr>g_cursor_visible := True, g_wrap := False, g_modes := default_modes, g_sb_limit := history_limit p\<rparr>)"
  define g1 where "g1 = g0\<lparr>g_table := tbl_reset (g_table ?g)\<rparr>"
  define s1 where "s1 = ?s\<lparr>ss_style := default_style, ss_alt := False, ss_saved := None, ss_modes := None,
      ss_cursor := None, ss_region := None, ss_title := [], ss_titles := [], ss_last := 32\<rparr>"
  have g: "grid_inv ?g" using inv by (rule perf_inv_grid)
  have "grid_inv g0"
    using g grid_invD [OF g] unfolding g0_def by (intro grid_inv_pos) simp_all
  then have shape: "grid_shape g1" and pos: "grid_pos g1"
    by (auto simp: g1_def grid_inv_defs)
  let ?V = "map (\<lambda>r. clear_all_combining (r\<lparr>row_cells := map (\<lambda>_. default_cell) (row_cells r)\<rparr>)) (grid_visible g1)"
  have len: "length (scrollback_rows g1) = g_sb_len g1" "length ?V = g_rows g1"
    using shape by (auto simp: grid_shape_def check_invariants_def scrollback_rows_def grid_visible_def)
  have widths: "length (row_cells r) = g_cols g1" if "r \<in> set (grid_visible g1)" for r
    using shape that by (auto simp: grid_shape_def grid_visible_def)
  have inv2: "grid_inv (g1\<lparr>g_cells := ?V, g_sb_len := 0, g_pending := 0\<rparr>)"
    using shape pos len widths tbl_inv_reset [of "g_table ?g"]
    by (auto simp: grid_inv_defs rows_live_def row_live_def cell_live_default g1_def)
  have "full_reset p = do { q \<leftarrow> gmut (erase_rows 0 (g_rows g1) default_cell) \<lparr>pf_grid = g1, pf_state = s1\<rparr>;
      q \<leftarrow> gmut clear_scrollback q; Some (sset (push_passthrough (ESC # bytes ''[3J'')) q) }"
    unfolding full_reset_def
    by (cases p; cases "ss_saved ?s")
      (simp_all add: Let_def gset_def sset_def g1_def g0_def s1_def reset_scroll_region_def
        reset_tab_stops_def history_limit_def)
  also have "\<dots> = Some (sset (push_passthrough (ESC # bytes ''[3J''))
      \<lparr>pf_grid = g1\<lparr>g_cells := ?V, g_sb_len := 0, g_pending := 0\<rparr>, pf_state = s1\<rparr>)"
    using len by (simp add: gmut_def erase_all_rows_eq [OF shape] clear_scrollback_def)
  finally have eq: "full_reset p = \<dots>" .
  have "queues_ok s1" using inv by (simp add: perf_inv_defs s1_def)
  then have "perf_inv \<lparr>pf_grid = g1\<lparr>g_cells := ?V, g_sb_len := 0, g_pending := 0\<rparr>, pf_state = s1\<rparr>"
    using inv2 by (simp add: perf_inv_def alt_ok_def s1_def saved_rows_def)
  then show ?thesis unfolding eq by (simp add: perf_inv_push)
qed

lemma screen_alignment_ok [perf_ok]:
  assumes inv: "perf_inv p"
  shows "ok perf_inv (screen_alignment p)"
proof -
  have start: "perf_inv (set_wrap False (set_y 0 (set_x 0 (gset reset_scroll_region p))))"
    using inv perf_invD [OF inv]
    by (intro perf_inv_setters) (simp_all add: reset_scroll_region_def)
  have fill: "ok (content_step g) (for_m [0..<g_rows g] (\<lambda>y. for_m [0..<g_cols g] (\<lambda>x. set_cell x y ce)) g)"
    if "grid_inv g" "cell_live (g_table g) ce" for g ce
    using that
    by (intro ok_content_for set_cell_ok) (auto dest: content_stepD simp: content_stepD)
  show ?thesis
    unfolding screen_alignment_def Let_def
    by (rule interned_bind_ok [OF start])
      (auto intro!: gmut_content_ok fill perf_inv_grid simp: cell_live_def cell_new_def)
qed

subsection \<open>Every event\<close>

lemma dec_private_mode_ok [perf_ok]:
  assumes inv: "perf_inv p"
  shows "ok perf_inv (dec_private_mode v enable p)"
proof (cases v)
  case (Cons n ns)
  have m: "perf_inv (set_modes f p)" for f using inv by (rule perf_inv_setters)
  have r: "perf_inv (set_wrap False (set_y (g_top (pf_grid q)) (set_x 0 q)))" if "perf_inv q" for q
    using that perf_invD [OF that] by (auto intro!: perf_inv_setters)
  show ?thesis
    unfolding dec_private_mode_def Cons list.case Let_def using perf_invD(1,7,8) [OF inv]
    by (intro ok_if) (auto simp: inv intro!: m r [simplified] perf_inv_setters save_cursor_ok restore_cursor_ok
        enter_alt_screen_ok exit_alt_screen_ok)
qed (use inv in \<open>simp add: dec_private_mode_def\<close>)

lemma csi_set_dec_private_mode_ok [perf_ok]:
  "perf_inv p \<Longrightarrow> ok perf_inv (csi_set_dec_private_mode ps enable p)"
  unfolding csi_set_dec_private_mode_def by (rule for_m_ok) (auto intro: dec_private_mode_ok)

lemma title_op_ok [perf_ok]:
  assumes inv: "perf_inv p"
  shows "ok perf_inv (title_op ps p)"
proof -
  have q: "queues_ok (pf_state p)" using inv by (simp add: perf_inv_def)
  have trunc: "str_truncate (ss_title (pf_state p)) 4096 = Some (ss_title (pf_state p))"
    using q by (auto simp: str_truncate_def str_prefix_def is_char_boundary_def queues_ok_def)
  have pushed: "queues_ok ((pf_state p)\<lparr>ss_titles := ss_titles (pf_state p) @ [ss_title (pf_state p)]\<rparr>)"
    if "length (ss_titles (pf_state p)) < 16" using q that by (auto simp: queues_ok_def)
  have popped: "queues_ok ((pf_state p)\<lparr>ss_title := last (ss_titles (pf_state p)),
      ss_titles := butlast (ss_titles (pf_state p))\<rparr>)" if "ss_titles (pf_state p) \<noteq> []"
    using q that by (auto simp: queues_ok_def dest: in_set_butlastD)
  show ?thesis
    unfolding title_op_def Let_def trunc Option.bind.simps
    by (intro ok_if) (auto simp: inv intro!: perf_inv_sset pushed popped)
qed

lemma csi_dispatch_ok [perf_ok]:
  assumes inv: "perf_inv p"
  shows "ok perf_inv (csi_dispatch wd ps im action p)"
proof -
  have "ok perf_inv (repeat_m n (print wd c) p)" for n c
    by (rule repeat_m_ok) (auto intro: inv print_ok)
  then show ?thesis
    unfolding csi_dispatch_def
    by (intro ok_if)
      (auto simp: inv intro!: cursor_ops_ok csi_erase_ok csi_edit_cells_ok csi_scroll_ok csi_lines_ok
        perf_inv_push perf_inv_setters save_cursor_ok restore_cursor_ok title_op_ok
        csi_set_dec_private_mode_ok)
qed

lemma execute_ok [perf_ok]:
  assumes inv: "perf_inv p"
  shows "ok perf_inv (execute b p)"
proof -
  have w: "perf_inv (set_wrap False p)" using inv by (rule perf_inv_setters)
  show ?thesis
    unfolding execute_def Let_def using perf_invD [OF inv]
    by (intro ok_if)
      (auto simp: inv u16_simps intro!: line_feed_ok w perf_inv_setters perf_inv_push next_tab_stop_lt perf_inv_grid
        next_tab_stop_lt [THEN less_le_trans])
qed

lemma esc_dispatch_ok [perf_ok]:
  assumes inv: "perf_inv p"
  shows "ok perf_inv (esc_dispatch im b p)"
proof -
  have w: "perf_inv (set_wrap False p)" "perf_inv (set_wrap False (set_x 0 p))"
    using inv perf_invD [OF inv] by (auto intro!: perf_inv_setters)
  show ?thesis
    unfolding esc_dispatch_def
    by (intro ok_if)
      (auto simp: inv intro!: line_feed_ok w reverse_index_ok save_cursor_ok restore_cursor_ok full_reset_ok
        screen_alignment_ok perf_inv_setters)
qed

text \<open>
  The one panic of the performer: a window title over 4096 bytes whose byte 4096 is inside a
  character. Every other event succeeds.
\<close>

definition title_panics :: "event \<Rightarrow> bool" where
  "title_panics ev = (case ev of
     Osc params bell \<Rightarrow> params \<noteq> [] \<and> osc_number params \<in> {Some 0, Some 2} \<and> length params \<ge> 2
       \<and> utf8_valid (params ! 1) \<and> length (params ! 1) > 4096 \<and> is_cont (params ! 1 ! 4096)
   | _ \<Rightarrow> False)"

lemma str_prefix_len: "str_prefix t n = Some t' \<Longrightarrow> length t' \<le> n"
  by (auto simp: str_prefix_def split: if_splits)

lemma set_title_ok:
  assumes inv: "perf_inv p"
  shows "set_title t p = None \<longleftrightarrow> utf8_valid t \<and> length t > 4096 \<and> is_cont (t ! 4096)"
    "set_title t p = Some q \<Longrightarrow> perf_inv q"
proof -
  show "set_title t p = None \<longleftrightarrow> utf8_valid t \<and> length t > 4096 \<and> is_cont (t ! 4096)"
    by (auto simp: set_title_def str_prefix_def is_char_boundary_def)
  have "queues_ok ((pf_state p)\<lparr>ss_title := t'\<rparr>)" if "length t' \<le> 4096" for t'
    using inv that by (simp add: perf_inv_def queues_ok_def)
  then have "perf_inv (sset (\<lambda>s. s\<lparr>ss_title := t'\<rparr>) p)" if "length t' \<le> 4096" for t'
    using that by (intro perf_inv_sset [OF inv]) auto
  then show "set_title t p = Some q \<Longrightarrow> perf_inv q"
    using inv str_prefix_len [of t 4096]
    by (auto simp: set_title_def split: if_splits Option.bind_splits)
qed

lemma osc_dispatch_ok:
  assumes inv: "perf_inv p"
  shows "osc_dispatch params bell p = None \<longleftrightarrow> title_panics (Osc params bell)"
    "osc_dispatch params bell p = Some q \<Longrightarrow> perf_inv q"
proof -
  show "osc_dispatch params bell p = None \<longleftrightarrow> title_panics (Osc params bell)"
    using set_title_ok(1) [OF inv, of "params ! 1"] by (auto simp: osc_dispatch_def title_panics_def Let_def)
  show "osc_dispatch params bell p = Some q \<Longrightarrow> perf_inv q"
    using inv set_title_ok(2) [OF inv]
    by (auto simp: osc_dispatch_def Let_def perf_inv_push split: if_splits)
qed

lemma perform_safe:
  assumes inv: "perf_inv p" and "\<not> title_panics ev"
  shows "ok perf_inv (perform wd ev p)"
proof (cases ev)
  case (Osc params bell)
  then show ?thesis
    using assms(2) osc_dispatch_ok [OF inv, of params bell]
    by (cases "osc_dispatch params bell p") auto
qed (simp_all add: inv print_ok execute_ok csi_dispatch_ok esc_dispatch_ok)

lemma perform_panics:
  assumes inv: "perf_inv p"
  shows "perform wd ev p = None \<longleftrightarrow> title_panics ev"
proof
  assume "title_panics ev"
  then show "perform wd ev p = None"
    using osc_dispatch_ok(1) [OF inv] by (cases ev) (auto simp: title_panics_def)
next
  assume "perform wd ev p = None"
  then show "title_panics ev" using perform_safe [OF inv, of ev wd] by auto
qed

end
