(* ===== verification/Render.thy ===== *)
theory Render
  imports Performer_Inv
begin

section \<open>Rendering (\<open>screen/render.rs\<close>)\<close>

text \<open>
  The per-connection render cache, the writer of one row, the mode writers and their delta, and the
  two renderers: \<open>render_screen_impl\<close> on a grid and \<open>AnsiRenderer::render\<close> on a terminal emulator.
  The hash of a row (the standard library's \<open>DefaultHasher\<close>, whose algorithm is not specified) is the
  parameter \<open>hash\<close>. \<open>None\<close> is the panic of \<open>chunks(0)\<close>.
\<close>

record render_cache =
  rc_hashes :: "nat list"
  rc_modes :: "terminal_modes option"
  rc_region :: "(u16 \<times> u16) option"
  rc_title :: rstring
  rc_cursor :: "(u16 \<times> u16) option"
  rc_visible :: "bool option"

definition cache_new :: render_cache where
  "cache_new = \<lparr>rc_hashes = [], rc_modes = None, rc_region = None, rc_title = [], rc_cursor = None,
     rc_visible = None\<rparr>"

definition invalidate :: "render_cache \<Rightarrow> render_cache" where
  "invalidate c = c\<lparr>rc_hashes := [], rc_modes := None, rc_region := None, rc_title := [],
     rc_cursor := None, rc_visible := None\<rparr>"

definition u64_max :: nat where
  "u64_max = 2 ^ 64 - 1"

subsection \<open>Rows\<close>

definition has_content :: "cell \<Rightarrow> bool" where
  "has_content ce \<longleftrightarrow> (ce_c ce \<noteq> 32 \<and> ce_c ce \<noteq> 0) \<or> ce_style ce \<noteq> 0"

text \<open>\<open>rposition\<close>: the last index that satisfies the predicate.\<close>

fun rposition :: "('a \<Rightarrow> bool) \<Rightarrow> 'a list \<Rightarrow> usize option" where
  "rposition P [] = None"
| "rposition P (x # xs) = (case rposition P xs of Some i \<Rightarrow> Some (Suc i) | None \<Rightarrow> if P x then Some 0 else None)"

definition last_content_position :: "row \<Rightarrow> usize option" where
  "last_content_position r = rposition has_content (row_cells r)"

definition marks_bytes :: "row \<Rightarrow> usize \<Rightarrow> u8 list" where
  "marks_bytes r i = concat (map encode_utf8 (combining r (as_u16 i)))"

text \<open>The loop over the cells of a row, from column \<open>i\<close>, with the style number last written. \<open>n\<close> is
  the number of columns to write.\<close>

fun write_cells :: "style_table \<Rightarrow> row \<Rightarrow> usize \<Rightarrow> usize \<Rightarrow> cell list \<Rightarrow> u16 \<Rightarrow> u8 list \<Rightarrow> u8 list \<times> u16" where
  "write_cells t r n i [] cur out = (out, cur)"
| "write_cells t r n i (ce # cs) cur out =
     (if i \<ge> n then (out, cur)
      else if ce_width ce = 0 then write_cells t r n (i + 1) cs cur out
      else
        let out' = (if ce_style ce \<noteq> cur then write_sgr_with_reset_to (tbl_get t (ce_style ce)) out else out)
        in write_cells t r n (i + 1) cs (ce_style ce) (out' @ encode_utf8 (ce_c ce) @ marks_bytes r i))"

definition render_line :: "row \<Rightarrow> style_table \<Rightarrow> u8 list" where
  "render_line r t =
     (case last_content_position r of
        None \<Rightarrow> []
      | Some pos \<Rightarrow>
          let (out, cur) = write_cells t r (pos + 1) 0 (row_cells r) 0 []
          in if cur \<noteq> 0 then out @ ESC # bytes ''[0m'' else out)"

subsection \<open>Modes\<close>

definition emit_dec_mode :: "u16 \<Rightarrow> bool \<Rightarrow> u8 list \<Rightarrow> u8 list" where
  "emit_dec_mode code enabled out =
     write_u16 (out @ ESC # bytes ''[?'') code @ (if enabled then bytes ''h'' else bytes ''l'')"

definition emit_charset :: "u8 \<Rightarrow> charset \<Rightarrow> u8 list \<Rightarrow> u8 list" where
  "emit_charset slot cs out =
     out @ [ESC, slot] @ (case cs of Ascii \<Rightarrow> bytes ''B'' | LineDrawing \<Rightarrow> bytes ''0'')"

definition emit_mouse_encoding :: "mouse_encoding \<Rightarrow> u8 list \<Rightarrow> u8 list" where
  "emit_mouse_encoding e out =
     (case e of
        EncSgr \<Rightarrow> out @ (ESC # bytes ''[?1005l'') @ (ESC # bytes ''[?1006h'')
      | EncUtf8 \<Rightarrow> out @ (ESC # bytes ''[?1006l'') @ (ESC # bytes ''[?1005h'')
      | EncX10 \<Rightarrow> out @ (ESC # bytes ''[?1006l'') @ (ESC # bytes ''[?1005l''))"

definition emit_shape :: "cursor_shape \<Rightarrow> u8 list \<Rightarrow> u8 list" where
  "emit_shape s out = out @ (ESC # bytes ''['') @ [48 + shape_to_param s] @ bytes '' q''"

definition emit_keypad :: "bool \<Rightarrow> u8 list \<Rightarrow> u8 list" where
  "emit_keypad b out = out @ (if b then ESC # bytes ''='' else ESC # bytes ''>'')"

definition emit_active :: "active_charset \<Rightarrow> u8 list \<Rightarrow> u8 list" where
  "emit_active a out = out @ [case a of G0 \<Rightarrow> 0x0F | G1 \<Rightarrow> 0x0E]"

definition emit_mode :: "terminal_modes \<Rightarrow> u8 list \<Rightarrow> u8 list" where
  "emit_mode m out =
     (let out = emit_shape (md_shape m) out;
          out = emit_dec_mode 1 (md_cursor_key m) out;
          out = emit_dec_mode 6 (md_origin m) out;
          out = emit_dec_mode 7 (md_autowrap m) out;
          out = emit_dec_mode 2004 (md_bracketed_paste m) out;
          out = emit_dec_mode 1000 (mm_click (md_mouse m)) out;
          out = emit_dec_mode 1002 (mm_button (md_mouse m)) out;
          out = emit_dec_mode 1003 (mm_any (md_mouse m)) out;
          out = emit_mouse_encoding (md_encoding m) out;
          out = emit_dec_mode 1004 (md_focus m) out;
          out = emit_keypad (md_keypad m) out;
          out = emit_charset 40 (md_g0 m) out;
          out = emit_charset 41 (md_g1 m) out
      in emit_active (md_active m) out)"

definition emit_mode_delta :: "terminal_modes \<Rightarrow> terminal_modes \<Rightarrow> u8 list \<Rightarrow> u8 list" where
  "emit_mode_delta m prev out =
     (let out = (if md_shape m \<noteq> md_shape prev then emit_shape (md_shape m) out else out);
          out = (if md_cursor_key m \<noteq> md_cursor_key prev then emit_dec_mode 1 (md_cursor_key m) out else out);
          out = (if md_origin m \<noteq> md_origin prev then emit_dec_mode 6 (md_origin m) out else out);
          out = (if md_autowrap m \<noteq> md_autowrap prev then emit_dec_mode 7 (md_autowrap m) out else out);
          out = (if md_bracketed_paste m \<noteq> md_bracketed_paste prev
                 then emit_dec_mode 2004 (md_bracketed_paste m) out else out);
          out = (if mm_click (md_mouse m) \<noteq> mm_click (md_mouse prev)
                 then emit_dec_mode 1000 (mm_click (md_mouse m)) out else out);
          out = (if mm_button (md_mouse m) \<noteq> mm_button (md_mouse prev)
                 then emit_dec_mode 1002 (mm_button (md_mouse m)) out else out);
          out = (if mm_any (md_mouse m) \<noteq> mm_any (md_mouse prev)
                 then emit_dec_mode 1003 (mm_any (md_mouse m)) out else out);
          out = (if md_encoding m \<noteq> md_encoding prev then emit_mouse_encoding (md_encoding m) out else out);
          out = (if md_focus m \<noteq> md_focus prev then emit_dec_mode 1004 (md_focus m) out else out);
          out = (if md_keypad m \<noteq> md_keypad prev then emit_keypad (md_keypad m) out else out);
          out = (if md_g0 m \<noteq> md_g0 prev then emit_charset 40 (md_g0 m) out else out);
          out = (if md_g1 m \<noteq> md_g1 prev then emit_charset 41 (md_g1 m) out else out)
      in if md_active m \<noteq> md_active prev then emit_active (md_active m) out else out)"

subsection \<open>Scrollback, modes, title and cursor\<close>

function chunks :: "usize \<Rightarrow> 'a list \<Rightarrow> 'a list list" where
  "chunks n xs = (if n = 0 \<or> xs = [] then [] else take n xs # chunks n (drop n xs))"
  by pat_completeness auto
termination by (relation "measure (\<lambda>(n, xs). length xs)") auto

declare chunks.simps [simp del]

text \<open>\<open>ESC [ n ; 1 H\<close> and \<open>ESC [ a ; b final\<close>.\<close>

definition goto_line :: "u16 \<Rightarrow> u8 list \<Rightarrow> u8 list" where
  "goto_line n out = write_u16 (out @ ESC # bytes ''['') n @ bytes '';1H''"

definition csi2 :: "u16 \<Rightarrow> u16 \<Rightarrow> u8 \<Rightarrow> u8 list \<Rightarrow> u8 list" where
  "csi2 a b final out = write_u16 (write_u16 (out @ ESC # bytes ''['') a @ bytes '';'') b @ [final]"

fun chunk_lines :: "usize \<Rightarrow> u8 list list \<Rightarrow> u8 list \<Rightarrow> u8 list" where
  "chunk_lines i [] out = out"
| "chunk_lines i (l # ls) out =
     chunk_lines (i + 1) ls (goto_line (as_u16 (i + 1)) out @ (ESC # bytes ''[0m'') @ l @ ESC # bytes ''[K'')"

definition render_chunk :: "u16 \<Rightarrow> u8 list list \<Rightarrow> u8 list \<Rightarrow> u8 list" where
  "render_chunk rows chunk out =
     (let out = chunk_lines 0 chunk out;
          out = fold (\<lambda>i out. goto_line (as_u16 (i + 1)) out @ ESC # bytes ''[2K'') [length chunk..<rows] out
      in goto_line rows out @ replicate (length chunk) 10)"

definition render_scrollback :: "grid \<Rightarrow> u8 list list \<Rightarrow> u8 list \<Rightarrow> u8 list option" where
  "render_scrollback g scrollback out =
     (if g_rows g = 0 then None
      else Some (fold (render_chunk (g_rows g)) (chunks (g_rows g) scrollback)
             (out @ (ESC # bytes ''[?25l'') @ ESC # bytes ''[r'')))"

definition sanitize_title :: "rstring \<Rightarrow> u8 list" where
  "sanitize_title t = filter (\<lambda>b. b \<ge> 0x20 \<and> b \<noteq> 0x7f) t"

definition render_modes_title_cursor ::
  "grid \<Rightarrow> rstring \<Rightarrow> bool \<Rightarrow> u8 list \<times> render_cache \<Rightarrow> u8 list \<times> render_cache" where
  "render_modes_title_cursor g title full oc =
     (let (out, c) = oc;
          region = (g_top g, g_bottom g);
          (out, c) = (if full \<or> rc_region c \<noteq> Some region
                      then (csi2 (u16_add (fst region) 1) (u16_add (snd region) 1) (ch CHR ''r'') out,
                            c\<lparr>rc_region := Some region\<rparr>)
                      else (out, c));
          m = g_modes g;
          out = (case rc_modes c of
                   Some prev \<Rightarrow> (if \<not> full then emit_mode_delta m prev out else emit_mode m out)
                 | None \<Rightarrow> emit_mode m out);
          c = c\<lparr>rc_modes := Some m\<rparr>;
          pos = (g_cx g, g_cy g);
          (out, c) = (if full \<or> rc_cursor c \<noteq> Some pos
                      then (csi2 (u16_add (snd pos) 1) (u16_add (fst pos) 1) (ch CHR ''H'') out,
                            c\<lparr>rc_cursor := Some pos\<rparr>)
                      else (out, c))
      in if full \<or> title \<noteq> rc_title c
         then (out @ (ESC # bytes '']2;'') @ sanitize_title title @ [0x07], c\<lparr>rc_title := title\<rparr>)
         else (out, c))"

subsection \<open>The renderers\<close>

definition write_len :: "row \<Rightarrow> usize" where
  "write_len r = (case last_content_position r of None \<Rightarrow> 0 | Some p \<Rightarrow> p + 1)"

definition row_end :: "bool \<Rightarrow> u8 list" where
  "row_end full = (if full then ESC # bytes ''[0m'' else (ESC # bytes ''[0m'') @ ESC # bytes ''[K'')"

definition row_start :: "usize \<Rightarrow> u8 list \<Rightarrow> u8 list" where
  "row_start y out = goto_line (u16_add (as_u16 y) 1) out"

text \<open>The body of the loop over the visible rows.\<close>

definition draw_row :: "style_table \<Rightarrow> bool \<Rightarrow> usize \<Rightarrow> row \<Rightarrow> u8 list \<Rightarrow> u8 list" where
  "draw_row t full y r out =
     fst (write_cells t r (write_len r) 0 (row_cells r) 0 (row_start y out)) @ row_end full"

definition draw_row_if :: "(row \<Rightarrow> nat) \<Rightarrow> (usize \<Rightarrow> row \<Rightarrow> u8 list \<Rightarrow> u8 list) \<Rightarrow> bool \<Rightarrow> usize \<times> row
     \<Rightarrow> u8 list \<times> render_cache \<Rightarrow> u8 list \<times> render_cache" where
  "draw_row_if hash draw full yr oc =
     (let (y, r) = yr; (out, c) = oc; h = hash r in
      if \<not> full \<and> rc_hashes c ! y = h then (out, c)
      else (draw y r out, c\<lparr>rc_hashes := (rc_hashes c)[y := h]\<rparr>))"

definition sync_header :: "u8 list" where
  "sync_header = (ESC # bytes ''[?2026h'') @ ESC # bytes ''[?25l''"

definition clear_header :: "u8 list" where
  "clear_header = (ESC # bytes ''[0m'') @ (ESC # bytes ''[2J'') @ ESC # bytes ''[H''"

definition fit_hashes :: "usize \<Rightarrow> render_cache \<Rightarrow> render_cache" where
  "fit_hashes n c = (if length (rc_hashes c) \<noteq> n
     then c\<lparr>rc_hashes := resize_list n u64_max (rc_hashes c)\<rparr> else c)"

definition render_screen_impl :: "(row \<Rightarrow> nat) \<Rightarrow> grid \<Rightarrow> rstring \<Rightarrow> u8 list list \<Rightarrow> bool \<Rightarrow> render_cache
     \<Rightarrow> (u8 list \<times> render_cache) option" where
  "render_screen_impl hash g title scrollback full c =
     do { (out, c) \<leftarrow> (if scrollback \<noteq> []
             then do { out \<leftarrow> render_scrollback g scrollback []; Some (out, invalidate c) }
             else Some ([], c));
          let full = (full \<or> scrollback \<noteq> []);
          let pre = out;
          let out = out @ sync_header;
          let (out, c) = (if full then (out @ clear_header, invalidate c) else (out, c));
          let c = fit_hashes (visible_row_count g) c;
          let (out, c) = fold (draw_row_if hash (draw_row (g_table g) full) full)
                           (enumerate 0 (visible_rows g)) (out, c);
          let (out, c) = render_modes_title_cursor g title full (out, c);
          if length out = length pre + length sync_header \<and> rc_visible c = Some (g_cursor_visible g)
          then Some (pre, c)
          else Some (out @ (if g_cursor_visible g then ESC # bytes ''[?25h'' else []) @ ESC # bytes ''[?2026l'',
                     c\<lparr>rc_visible := Some (g_cursor_visible g)\<rparr>) }"

definition render_screen ::
  "(row \<Rightarrow> nat) \<Rightarrow> grid \<Rightarrow> rstring \<Rightarrow> bool \<Rightarrow> render_cache \<Rightarrow> (u8 list \<times> render_cache) option" where
  "render_screen hash g title full c = render_screen_impl hash g title [] full c"

definition render_screen_with_scrollback ::
  "(row \<Rightarrow> nat) \<Rightarrow> grid \<Rightarrow> rstring \<Rightarrow> u8 list list \<Rightarrow> render_cache \<Rightarrow> (u8 list \<times> render_cache) option" where
  "render_screen_with_scrollback hash g title scrollback c =
     render_screen_impl hash g title scrollback True c"

text \<open>\<open>AnsiRenderer::render\<close> resolves the style of each cell and compares styles.\<close>

fun write_styled :: "style_table \<Rightarrow> row \<Rightarrow> usize \<Rightarrow> usize \<Rightarrow> cell list \<Rightarrow> style \<Rightarrow> u8 list \<Rightarrow> u8 list" where
  "write_styled t r n i [] prev out = out"
| "write_styled t r n i (ce # cs) prev out =
     (if i \<ge> n then out
      else if ce_width ce = 0 then write_styled t r n (i + 1) cs prev out
      else
        let s = tbl_get t (ce_style ce);
            out' = (if s \<noteq> prev then write_sgr_with_reset_to s out else out)
        in write_styled t r n (i + 1) cs s (out' @ encode_utf8 (ce_c ce) @ marks_bytes r i))"

definition draw_styled :: "style_table \<Rightarrow> bool \<Rightarrow> usize \<Rightarrow> row \<Rightarrow> u8 list \<Rightarrow> u8 list" where
  "draw_styled t full y r out =
     write_styled t r (write_len r) 0 (row_cells r) default_style (row_start y out) @ row_end full"

definition ansi_render ::
  "(row \<Rightarrow> nat) \<Rightarrow> grid \<Rightarrow> rstring \<Rightarrow> bool \<Rightarrow> render_cache \<Rightarrow> u8 list \<times> render_cache" where
  "ansi_render hash g title full c =
     (let out = sync_header;
          (out, c) = (if full then (out @ clear_header, invalidate c) else (out, c));
          c = fit_hashes (g_rows g) c;
          header_len = length out;
          (out, c) = fold (draw_row_if hash (draw_styled (g_table g) full) full)
                       (enumerate 0 (visible_rows g)) (out, c);
          (out, c) = render_modes_title_cursor g title full (out, c)
      in if length out = header_len \<and> rc_visible c = Some (g_cursor_visible g)
         then ([], c)
         else (out @ (if g_cursor_visible g then ESC # bytes ''[?25h'' else []) @ ESC # bytes ''[?2026l'',
               c\<lparr>rc_visible := Some (g_cursor_visible g)\<rparr>))"

end
