(* ===== verification/Render_Props.thy ===== *)
theory Render_Props
  imports Render
begin

section \<open>Properties of the renderers\<close>

text \<open>
  Every writer appends to its buffer; a second render of an unchanged screen sends nothing; after any
  render the cache describes the screen; an incremental render redraws exactly the rows whose hash
  changed; the two renderers agree. The dirty check compares hashes of rows, which hold style numbers:
  it cannot see a number that has come to mean another style.
\<close>

text \<open>\<open>app f\<close>: the writer \<open>f\<close> appends something that does not depend on its buffer.\<close>

definition app :: "('a list \<Rightarrow> 'a list) \<Rightarrow> bool" where
  "app f \<longleftrightarrow> (\<exists>x. \<forall>out. f out = out @ x)"

named_theorems apps \<open>writers that append\<close>

lemma appI: "(\<And>out. f out = out @ x) \<Longrightarrow> app f"
  by (auto simp: app_def)

lemma appE: "app f \<Longrightarrow> (\<And>x. (\<And>out. f out = out @ x) \<Longrightarrow> thesis) \<Longrightarrow> thesis"
  by (auto simp: app_def)

lemma appD: "app f \<Longrightarrow> f out = out @ f []"
  by (erule appE) simp

lemma app_comp: "app w \<Longrightarrow> app f \<Longrightarrow> app (\<lambda>out. w (f out))"
  by (elim appE) (rule appI, simp)

lemma app_id [apps]: "app (\<lambda>out. out)"
  by (rule appI [of _ "[]"]) simp

lemma app_append [apps]: "app f \<Longrightarrow> app (\<lambda>out. f out @ x)"
  by (elim appE) (rule appI, simp)

lemma app_if [apps]: "app f \<Longrightarrow> app h \<Longrightarrow> app (\<lambda>out. if b then f out else h out)"
  by (cases b) simp_all

lemma app_write_u16: "app (\<lambda>out. write_u16 out n)"
  by (rule appI [of _ "write_u16 [] n"]) (simp add: write_u16_def Let_def)

lemmas app_write_u16_comp [apps] = app_comp [OF app_write_u16]

lemma app_sgr: "app (write_sgr_with_reset_to s)"
  by (rule appI [of _ "write_sgr_with_reset_to s []"]) (simp add: write_sgr_with_reset_to_def write_sgr_to_groups)

lemmas app_sgr_comp [apps] = app_comp [OF app_sgr]

lemma write_cells_app:
  "write_cells t r n i cs cur out = (out @ fst (write_cells t r n i cs cur []), snd (write_cells t r n i cs cur []))"
proof (induction cs arbitrary: i cur out)
  case (Cons ce cs)
  show ?case
  proof (cases "i \<ge> n \<or> ce_width ce = 0")
    case True
    then show ?thesis using Cons.IH [of "i + 1" cur out] by auto
  next
    case False
    let ?w = "\<lambda>out. (if ce_style ce \<noteq> cur then write_sgr_with_reset_to (tbl_get t (ce_style ce)) out else out)
        @ encode_utf8 (ce_c ce) @ marks_bytes r i"
    have w: "app ?w" by (intro apps)
    have step: "write_cells t r n i (ce # cs) cur out
        = write_cells t r n (i + 1) cs (ce_style ce) (?w out)" for out
      using False by (simp add: Let_def)
    then show ?thesis
    proof -
      obtain x where x: "?w out = out @ x" for out using w by (rule appE) blast
      show ?thesis
        unfolding step x using Cons.IH [of "i + 1" "ce_style ce" "out @ x"]
          Cons.IH [of "i + 1" "ce_style ce" "[] @ x"] by simp
    qed
  qed
qed simp

lemma app_write_cells: "app (\<lambda>out. fst (write_cells t r n i cs cur out))"
  by (rule appI) (subst write_cells_app, simp)

lemma app_write_styled: "app (write_styled t r n i cs prev)"
proof -
  have "write_styled t r n i cs prev out = out @ write_styled t r n i cs prev []" for out
  proof (induction cs arbitrary: i prev out)
    case (Cons ce cs)
    show ?case
    proof (cases "i \<ge> n \<or> ce_width ce = 0")
      case True
      then show ?thesis using Cons.IH [of "i + 1" prev out] by auto
    next
      case False
      let ?s = "tbl_get t (ce_style ce)"
      let ?w = "\<lambda>out. (if ?s \<noteq> prev then write_sgr_with_reset_to ?s out else out)
          @ encode_utf8 (ce_c ce) @ marks_bytes r i"
      have w: "app ?w" by (intro apps)
      have step: "write_styled t r n i (ce # cs) prev out = write_styled t r n (i + 1) cs ?s (?w out)" for out
        using False by (simp add: Let_def)
      show ?thesis
      proof -
        obtain x where x: "?w out = out @ x" for out using w by (rule appE) blast
        show ?thesis
          unfolding step x using Cons.IH [of "i + 1" ?s "out @ x"] Cons.IH [of "i + 1" ?s "[] @ x"] by simp
      qed
    qed
  qed simp
  then show ?thesis by (rule appI)
qed

lemmas app_write_comp [apps] = app_comp [OF app_write_cells] app_comp [OF app_write_styled]

lemma app_goto_line: "app (goto_line n)"
  unfolding goto_line_def by (intro apps)

lemma app_csi2: "app (csi2 a b c)"
  unfolding csi2_def by (intro apps)

lemmas app_goto_comp [apps] = app_comp [OF app_goto_line] app_comp [OF app_csi2]

lemma app_draw: "app (draw_row t full y r)" "app (draw_styled t full y r)"
  unfolding draw_row_def draw_styled_def row_start_def by (intro apps)+

lemma app_mouse_encoding: "app (emit_mouse_encoding e)"
  unfolding emit_mouse_encoding_def by (cases e) (simp_all only: mouse_encoding.case, (intro apps)+)

lemma app_emit: "app (emit_dec_mode c b)" "app (emit_charset sl cs)" "app (emit_shape sh)" "app (emit_keypad b)" "app (emit_active a)"
  unfolding emit_dec_mode_def emit_charset_def emit_shape_def emit_keypad_def emit_active_def
  by (intro apps)+

lemmas app_emit_comp [apps] = app_emit [THEN app_comp] app_mouse_encoding [THEN app_comp]

lemma app_emit_modes: "app (emit_mode m)" "app (emit_mode_delta m p)"
  unfolding emit_mode_def emit_mode_delta_def Let_def by (intro apps)+

lemma emit_mode_delta_same [simp]: "emit_mode_delta m m out = out"
  by (simp add: emit_mode_delta_def)

lemma goto_line_nonempty: "length (goto_line n out) > length out"
  by (subst appD [OF app_goto_line]) (simp add: goto_line_def write_u16_def Let_def)

lemma csi2_nonempty: "length (csi2 a b c out) > length out"
  by (subst appD [OF app_csi2]) (simp add: csi2_def)

subsection \<open>The rows an incremental render draws\<close>

definition dirty_rows :: "(row \<Rightarrow> nat) \<Rightarrow> bool \<Rightarrow> nat list \<Rightarrow> usize \<Rightarrow> row list \<Rightarrow> (usize \<times> row) list" where
  "dirty_rows hash full hs k rs = filter (\<lambda>(y, r). full \<or> hs ! y \<noteq> hash r) (enumerate k rs)"

lemma draw_rows_eq:
  assumes app: "\<And>y r. app (draw y r)"
    and len: "k + length rs \<le> length (rc_hashes c)"
  shows "fold (draw_row_if hash draw full) (enumerate k rs) (out, c)
    = (out @ concat (map (\<lambda>(y, r). draw y r []) (dirty_rows hash full (rc_hashes c) k rs)),
       c\<lparr>rc_hashes := take k (rc_hashes c) @ map hash rs @ drop (k + length rs) (rc_hashes c)\<rparr>)"
  using len
proof (induction rs arbitrary: k out c)
  case (Cons r rs)
  let ?hs = "rc_hashes c"
  let ?c = "c\<lparr>rc_hashes := ?hs[k := hash r]\<rparr>"
  have k: "k < length ?hs" using Cons.prems by simp
  have upd: "c\<lparr>rc_hashes := ?hs\<rparr> = c" by simp
  have same: "?hs[k := hash r] = ?hs" if "?hs ! k = hash r" using that by (metis list_update_id)
  have tk: "take (Suc k) (?hs[k := hash r]) = take k ?hs @ [hash r]"
    using k by (simp add: take_Suc_conv_app_nth)
  have dirty: "dirty_rows hash full (?hs[k := hash r]) (Suc k) rs = dirty_rows hash full ?hs (Suc k) rs"
    unfolding dirty_rows_def by (rule filter_cong) (auto simp: in_set_enumerate_eq)
  have dr: "dirty_rows hash full ?hs k (r # rs)
     = (if full \<or> ?hs ! k \<noteq> hash r then [(k, r)] else []) @ dirty_rows hash full ?hs (Suc k) rs"
    by (simp add: dirty_rows_def)
  have step: "draw_row_if hash draw full (k, r) (out, c)
      = (if full \<or> ?hs ! k \<noteq> hash r then out @ draw k r [] else out, ?c)"
    using same appD [OF app, of k r out] by (auto simp: draw_row_if_def Let_def)
  show ?case
    using Cons.IH [of "Suc k" ?c] Cons.prems
    by (simp add: step tk dirty dr)
qed (simp add: dirty_rows_def)

lemma visible_rows_count: "grid_inv g \<Longrightarrow> visible_row_count g = g_rows g"
  and visible_rows_length: "grid_inv g \<Longrightarrow> length (visible_rows g) = g_rows g"
  by (auto dest: grid_invD(6) simp: visible_row_count_def visible_rows_def)

subsection \<open>The cache after a render\<close>

text \<open>What the cache of a client holds once its terminal shows \<open>g\<close> and \<open>title\<close>.\<close>

definition cache_for :: "(row \<Rightarrow> nat) \<Rightarrow> grid \<Rightarrow> rstring \<Rightarrow> render_cache" where
  "cache_for hash g title = \<lparr>rc_hashes = map hash (visible_rows g), rc_modes = Some (g_modes g),
     rc_region = Some (g_top g, g_bottom g), rc_title = title, rc_cursor = Some (g_cx g, g_cy g),
     rc_visible = Some (g_cursor_visible g)\<rparr>"

lemma modes_title_cursor_cache:
  "snd (render_modes_title_cursor g title full (out, c)) = c\<lparr>rc_modes := Some (g_modes g),
     rc_region := Some (g_top g, g_bottom g), rc_title := title, rc_cursor := Some (g_cx g, g_cy g)\<rparr>"
  by (cases c) (auto simp: render_modes_title_cursor_def Let_def)

lemma modes_title_cursor_same:
  "rc_modes c = Some (g_modes g) \<Longrightarrow> rc_region c = Some (g_top g, g_bottom g) \<Longrightarrow> rc_title c = title \<Longrightarrow>
   rc_cursor c = Some (g_cx g, g_cy g) \<Longrightarrow> render_modes_title_cursor g title False (out, c) = (out, c)"
  by (cases c) (simp add: render_modes_title_cursor_def Let_def)

lemma fit_hashes_length [simp]: "length (rc_hashes (fit_hashes n c)) = n"
  by (simp add: fit_hashes_def)

lemma fit_hashes_fields [simp]:
  "rc_visible (fit_hashes n c) = rc_visible c"
  by (simp add: fit_hashes_def)

lemma draw_visible_eq:
  assumes "\<And>y r. app (draw y r)" "length (visible_rows g) = length (rc_hashes c)"
  shows "fold (draw_row_if hash draw full) (enumerate 0 (visible_rows g)) (out, c)
    = (out @ concat (map (\<lambda>(y, r). draw y r []) (dirty_rows hash full (rc_hashes c) 0 (visible_rows g))),
       c\<lparr>rc_hashes := map hash (visible_rows g)\<rparr>)"
  using draw_rows_eq [of draw 0 "visible_rows g" c hash full out] assms by simp

text \<open>The part of \<open>render_screen_impl\<close> after the scrollback, on an output \<open>pre\<close>.\<close>

definition frame :: "(row \<Rightarrow> nat) \<Rightarrow> (usize \<Rightarrow> row \<Rightarrow> u8 list \<Rightarrow> u8 list) \<Rightarrow> grid \<Rightarrow> rstring \<Rightarrow> bool \<Rightarrow> u8 list
     \<Rightarrow> render_cache \<Rightarrow> u8 list \<times> render_cache" where
  "frame hash draw g title full pre c =
     (let out = pre @ sync_header @ (if full then clear_header else []);
          c = fit_hashes (g_rows g) (if full then invalidate c else c)
      in render_modes_title_cursor g title full
           (out @ concat (map (\<lambda>(y, r). draw y r []) (dirty_rows hash full (rc_hashes c) 0 (visible_rows g))),
            c\<lparr>rc_hashes := map hash (visible_rows g)\<rparr>))"

definition scrollback_part :: "grid \<Rightarrow> u8 list list \<Rightarrow> u8 list" where
  "scrollback_part g sb = (if sb = [] then [] else the (render_scrollback g sb []))"

definition close_frame :: "grid \<Rightarrow> u8 list \<times> render_cache \<Rightarrow> u8 list \<times> render_cache" where
  "close_frame g oc = (fst oc @ (if g_cursor_visible g then ESC # bytes ''[?25h'' else []) @ ESC # bytes ''[?2026l'',
     (snd oc)\<lparr>rc_visible := Some (g_cursor_visible g)\<rparr>)"

lemma render_screen_impl_eq:
  assumes g: "grid_inv g"
  shows "render_screen_impl hash g title sb full c = Some
    (let full = (full \<or> sb \<noteq> []); pre = scrollback_part g sb;
         oc = frame hash (draw_row (g_table g) full) g title full pre (if sb \<noteq> [] then invalidate c else c)
     in if length (fst oc) = length pre + length sync_header \<and> rc_visible (snd oc) = Some (g_cursor_visible g)
        then (pre, snd oc) else close_frame g oc)"
proof -
  have rows: "0 < g_rows g" "length (visible_rows g) = g_rows g" "visible_row_count g = g_rows g"
    using grid_invD(3) [OF g] visible_rows_length [OF g] visible_rows_count [OF g] by auto
  obtain s where sb: "render_scrollback g sb [] = Some s"
    using rows(1) by (simp add: render_scrollback_def)
  show ?thesis
    unfolding render_screen_impl_def Let_def frame_def scrollback_part_def close_frame_def rows(3)
    by (cases "sb = []"; cases full) (simp_all add: sb draw_visible_eq app_draw rows(2) split_beta)
qed

lemma frame_cache:
  "snd (frame hash draw g title full pre c) =
     (fit_hashes (g_rows g) (if full then invalidate c else c))\<lparr>rc_hashes := map hash (visible_rows g),
        rc_modes := Some (g_modes g), rc_region := Some (g_top g, g_bottom g), rc_title := title,
        rc_cursor := Some (g_cx g, g_cy g)\<rparr>"
  by (simp add: frame_def Let_def modes_title_cursor_cache)

lemma cache_for_alt: "rc_visible c = Some (g_cursor_visible g) \<Longrightarrow>
   c\<lparr>rc_hashes := map hash (visible_rows g), rc_modes := Some (g_modes g),
     rc_region := Some (g_top g, g_bottom g), rc_title := title, rc_cursor := Some (g_cx g, g_cy g)\<rparr>
   = cache_for hash g title"
  by (cases c) (simp add: cache_for_def)

lemma render_cache_after:
  assumes "grid_inv g"
  shows "\<exists>out. render_screen_impl hash g title sb full c = Some (out, cache_for hash g title)"
proof -
  have close: "snd (close_frame g (frame hash draw g title full pre c')) = cache_for hash g title"
    for draw full pre c'
    by (cases "fit_hashes (g_rows g) (if full then invalidate c' else c')")
      (simp add: close_frame_def frame_cache cache_for_def)
  have noop: "snd (frame hash draw g title full pre c') = cache_for hash g title"
    if "rc_visible (snd (frame hash draw g title full pre c')) = Some (g_cursor_visible g)" for draw full pre c'
    using that unfolding frame_cache by (subst cache_for_alt) auto
  show ?thesis
    unfolding render_screen_impl_eq [OF assms] Let_def
    using close noop by (auto simp: prod_eq_iff)
qed

lemma render_again:
  assumes g: "grid_inv g"
  shows "render_screen hash g title False (cache_for hash g title) = Some ([], cache_for hash g title)"
proof -
  let ?c = "cache_for hash g title"
  have len: "length (visible_rows g) = g_rows g" using g by (rule visible_rows_length)
  have fit: "fit_hashes (g_rows g) ?c = ?c" using len by (simp add: fit_hashes_def cache_for_def)
  have "dirty_rows hash False (map hash (visible_rows g)) 0 (visible_rows g) = []"
    by (auto simp: dirty_rows_def filter_empty_conv in_set_enumerate_eq)
  then have "frame hash draw g title False [] ?c = (sync_header, ?c)" for draw
    unfolding frame_def Let_def using modes_title_cursor_same [of ?c g title sync_header]
    by (simp add: fit) (simp add: cache_for_def)
  then show ?thesis
    unfolding render_screen_def render_screen_impl_eq [OF g] Let_def
    by (simp add: scrollback_part_def cache_for_def)
qed

subsection \<open>The two renderers agree\<close>

text \<open>
  One number per style in what the rows show. Interning gives it, as long as collection has not
  dropped the index entry of a live style (see \<open>reclaim_drops_live_index\<close>).
\<close>

definition canonical_cells :: "style_table \<Rightarrow> cell list \<Rightarrow> bool" where
  "canonical_cells t cs \<longleftrightarrow> (\<forall>ce\<in>set cs. (tbl_get t (ce_style ce) = default_style \<longrightarrow> ce_style ce = 0)
     \<and> (\<forall>ce'\<in>set cs. tbl_get t (ce_style ce) = tbl_get t (ce_style ce') \<longrightarrow> ce_style ce = ce_style ce'))"

lemma write_styled_eq:
  assumes "canonical_cells t all" "set cs \<subseteq> set all" "cur = 0 \<or> (\<exists>ce\<in>set all. cur = ce_style ce)"
    "tbl_get t 0 = default_style"
  shows "write_styled t r n i cs (tbl_get t cur) out = fst (write_cells t r n i cs cur out)"
  using assms(2,3)
proof (induction cs arbitrary: i cur out)
  case (Cons ce cs)
  have ce: "ce \<in> set all" using Cons.prems(1) by simp
  have same: "tbl_get t (ce_style ce) = tbl_get t cur \<longleftrightarrow> ce_style ce = cur"
    using Cons.prems(2) ce assms(1,4) unfolding canonical_cells_def by metis
  have sub: "set cs \<subseteq> set all" using Cons.prems(1) by simp
  have IH: "write_styled t r n j cs (tbl_get t k) o' = fst (write_cells t r n j cs k o')"
    if "k = 0 \<or> (\<exists>ce\<in>set all. k = ce_style ce)" for j k o'
    using Cons.IH [OF sub that] .
  have "k = cur \<or> k = ce_style ce \<Longrightarrow>
      write_styled t r n j cs (tbl_get t k) o' = fst (write_cells t r n j cs k o')" for j k o'
    using Cons.prems(2) ce by (intro IH) auto
  then show ?case
    by (simp add: same Let_def)
qed simp

lemma draw_styled_eq:
  "canonical_cells t (row_cells r) \<Longrightarrow> tbl_get t 0 = default_style \<Longrightarrow> draw_styled t full y r out = draw_row t full y r out"
  using write_styled_eq [of t "row_cells r" "row_cells r" 0 r "write_len r" 0 "row_start y out"]
  by (simp add: draw_styled_def draw_row_def)

lemma app_length: "app f \<Longrightarrow> length out \<le> length (f out)"
  by (erule appE) simp

lemma modes_title_cursor_longer:
  "length (fst (render_modes_title_cursor g title True (out, c))) > length out"
proof -
  let ?a = "csi2 (u16_add (g_top g) 1) (u16_add (g_bottom g) 1) (ch CHR ''r'') out"
  have "length out < length ?a" by (rule csi2_nonempty)
  also have "\<dots> \<le> length (emit_mode (g_modes g) ?a)" by (rule app_length [OF app_emit_modes(1)])
  also have "\<dots> < length (csi2 (u16_add (g_cy g) 1) (u16_add (g_cx g) 1) (ch CHR ''H'')
      (emit_mode (g_modes g) ?a))" by (rule csi2_nonempty)
  finally show ?thesis by (simp add: render_modes_title_cursor_def Let_def split: option.split)
qed

lemma dirty_rows_visible: "(y, r) \<in> set (dirty_rows hash full hs 0 rs) \<Longrightarrow> r \<in> set rs"
  by (auto simp: dirty_rows_def in_set_enumerate_eq)

lemma frame_draw_cong:
  assumes "\<And>y r. r \<in> set (visible_rows g) \<Longrightarrow> draw y r [] = draw' y r []"
  shows "frame hash draw g title full pre c = frame hash draw' g title full pre c"
proof -
  have "map (\<lambda>(y, r). draw y r []) (dirty_rows hash full hs 0 (visible_rows g))
      = map (\<lambda>(y, r). draw' y r []) (dirty_rows hash full hs 0 (visible_rows g))" for hs
    by (rule map_cong [OF refl]) (auto dest: dirty_rows_visible simp: assms)
  then show ?thesis unfolding frame_def by (simp only: Let_def)
qed

lemma frame_full_longer: "length (fst (frame hash draw g title True pre c)) > length pre + length sync_header + length clear_header"
  unfolding frame_def Let_def
  by (rule le_less_trans [OF _ modes_title_cursor_longer]) simp

lemma ansi_render_eq:
  assumes g: "grid_inv g"
  shows "ansi_render hash g title full c =
    (let oc = frame hash (draw_styled (g_table g) full) g title full [] c
     in if length (fst oc) = length sync_header + (if full then length clear_header else 0)
           \<and> rc_visible (snd oc) = Some (g_cursor_visible g)
        then ([], snd oc) else close_frame g oc)"
proof -
  have rows: "length (visible_rows g) = g_rows g" using visible_rows_length [OF g] .
  show ?thesis
    unfolding ansi_render_def Let_def frame_def close_frame_def
    by (cases full) (simp_all add: draw_visible_eq app_draw rows split_beta)
qed

lemma renderers_agree:
  assumes g: "grid_inv g" and canon: "\<forall>r\<in>set (visible_rows g). canonical_cells (g_table g) (row_cells r)"
  shows "render_screen hash g title full c = Some (ansi_render hash g title full c)"
proof -
  let ?a = "frame hash (draw_row (g_table g) full) g title full [] c"
  have t0: "tbl_get (g_table g) 0 = default_style" using g by (intro tbl_get_0 grid_invD(12))
  have frames: "frame hash (draw_styled (g_table g) full) g title full [] c = ?a"
    by (rule frame_draw_cong) (use canon t0 in \<open>simp add: draw_styled_eq\<close>)
  have longer: "length (fst ?a) > length sync_header + length clear_header" if full
    using frame_full_longer [where pre = "[]" and hash = hash and g = g and c = c] that by simp
  show ?thesis
    unfolding render_screen_def render_screen_impl_eq [OF g] ansi_render_eq [OF g] frames Let_def
    using longer by (cases full) (auto simp: scrollback_part_def)
qed

end
