(* ===== verification/Screen.thy ===== *)
theory Screen
  imports Render_Props
begin

section \<open>The screen (\<open>screen/mod.rs\<close>)\<close>

text \<open>
  \<open>Screen\<close>: construction, feeding bytes through the parser, resizing, and the consuming accessors. The
  parser is the \<open>vte\<close> crate's: its state has the type \<open>'p\<close> and its \<open>advance\<close> is the parameter \<open>adv\<close>,
  which gives for a byte the next state and the calls it makes on the performer. The theory also holds
  the interface \<open>event_machine\<close> (a step function with an invariant and a set of safe events) and its
  interpretation on the performer.
\<close>

subsection \<open>Machines driven by events\<close>

locale event_machine =
  fixes step :: "'e \<Rightarrow> 's \<Rightarrow> 's option"
    and inv :: "'s \<Rightarrow> bool"
    and safe :: "'e \<Rightarrow> bool"
  assumes safe_step: "inv s \<Longrightarrow> safe e \<Longrightarrow> ok inv (step e s)"
    and unsafe_step: "inv s \<Longrightarrow> \<not> safe e \<Longrightarrow> step e s = None"
begin

lemma step_inv: "inv s \<Longrightarrow> step e s = Some s' \<Longrightarrow> inv s'"
  using safe_step [of s e] unsafe_step [of s e] by (cases "safe e") (auto simp: ok_def)

lemma step_panics: "inv s \<Longrightarrow> step e s = None \<longleftrightarrow> \<not> safe e"
  using safe_step [of s e] unsafe_step [of s e] by (auto simp: ok_def)

lemma run_inv: "inv s \<Longrightarrow> for_m es step s = Some s' \<Longrightarrow> inv s'"
proof (induction es arbitrary: s)
  case (Cons e es)
  then show ?case using step_inv by (cases "step e s") auto
qed simp

lemma run_panics: "inv s \<Longrightarrow> for_m es step s = None \<longleftrightarrow> (\<exists>e\<in>set es. \<not> safe e)"
proof (induction es arbitrary: s)
  case (Cons e es)
  then show ?case
    using step_panics [of s e] step_inv [of s e] by (cases "step e s") auto
qed simp

lemma run_safe: "inv s \<Longrightarrow> \<forall>e\<in>set es. safe e \<Longrightarrow> ok inv (for_m es step s)"
  using run_panics [of s es] run_inv [of s es] by (cases "for_m es step s") auto

end

interpretation perf: event_machine "perform wd" perf_inv "\<lambda>ev. \<not> title_panics ev" for wd
  by unfold_locales (auto simp: perform_safe perform_panics)

subsection \<open>The screen\<close>

record 'p screen =
  sc_perf :: perf
  sc_parser :: 'p

definition perf_new :: "u16 \<Rightarrow> u16 \<Rightarrow> usize \<Rightarrow> perf" where
  "perf_new cols rows limit = \<lparr>pf_grid = grid_new cols rows limit, pf_state = state_default\<rparr>"

definition screen_new :: "u16 \<Rightarrow> u16 \<Rightarrow> usize \<Rightarrow> 'p \<Rightarrow> 'p screen" where
  "screen_new cols rows limit parser = \<lparr>sc_perf = perf_new cols rows limit, sc_parser = parser\<rparr>"

text \<open>One byte: the calls of \<open>Parser::advance\<close> in order.\<close>

definition process_byte ::
  "('p \<Rightarrow> u8 \<Rightarrow> 'p \<times> event list) \<Rightarrow> (rchar \<Rightarrow> nat option) \<Rightarrow> u8 \<Rightarrow> 'p screen \<Rightarrow> 'p screen option" where
  "process_byte adv wd b s =
     (let (q, evs) = adv (sc_parser s) b
      in map_option (\<lambda>p. s\<lparr>sc_perf := p, sc_parser := q\<rparr>) (for_m evs (perform wd) (sc_perf s)))"

definition process ::
  "('p \<Rightarrow> u8 \<Rightarrow> 'p \<times> event list) \<Rightarrow> (rchar \<Rightarrow> nat option) \<Rightarrow> u8 list \<Rightarrow> 'p screen \<Rightarrow> 'p screen option" where
  "process adv wd bs s = for_m bs (process_byte adv wd) s"

text \<open>The calls the parser makes on a whole input, and the state it is left in.\<close>

fun parse :: "('p \<Rightarrow> u8 \<Rightarrow> 'p \<times> event list) \<Rightarrow> u8 list \<Rightarrow> 'p \<Rightarrow> event list \<times> 'p" where
  "parse adv [] q = ([], q)"
| "parse adv (b # bs) q = (let (q', evs) = adv q b; (evs', q'') = parse adv bs q' in (evs @ evs', q''))"

lemma process_parse:
  "process adv wd bs s = map_option (\<lambda>p. s\<lparr>sc_perf := p, sc_parser := snd (parse adv bs (sc_parser s))\<rparr>)
     (for_m (fst (parse adv bs (sc_parser s))) (perform wd) (sc_perf s))"
proof (induction bs arbitrary: s)
  case Nil
  show ?case by (simp add: process_def)
next
  case (Cons b bs)
  obtain q evs where adv: "adv (sc_parser s) b = (q, evs)" by force
  show ?case
  proof (cases "for_m evs (perform wd) (sc_perf s)")
    case None
    then show ?thesis by (simp add: process_def process_byte_def adv split_beta)
  next
    case (Some p)
    have "process adv wd (b # bs) s = process adv wd bs (s\<lparr>sc_perf := p, sc_parser := q\<rparr>)"
      by (simp add: process_def process_byte_def adv Some)
    then show ?thesis
      unfolding Cons.IH by (simp add: adv Some split_beta)
  qed
qed

definition screen_resize :: "u16 \<Rightarrow> u16 \<Rightarrow> perf \<Rightarrow> perf" where
  "screen_resize cols rows p =
     (let old = rows_of p;
          p = (if \<not> ss_alt (pf_state p) \<and> rows > old
               then let grow = u16_sub rows old; n = min grow (g_sb_len (pf_grid p));
                        p = gset (restore_scrollback n) p
                    in set_y (u16_sat_add (g_cy (pf_grid p)) (if n \<le> u16_max then n else u16_max)) p
               else p)
      in gset (grid_resize cols rows) p)"

definition take_responses :: "perf \<Rightarrow> u8 list list \<times> perf" where
  "take_responses p = (ss_responses (pf_state p), sset (\<lambda>s. s\<lparr>ss_responses := []\<rparr>) p)"

definition take_passthrough :: "perf \<Rightarrow> u8 list list \<times> perf" where
  "take_passthrough p = (ss_passthrough (pf_state p), sset (\<lambda>s. s\<lparr>ss_passthrough := []\<rparr>) p)"

definition take_queued_notifications :: "perf \<Rightarrow> u8 list list \<times> perf" where
  "take_queued_notifications p = (ss_notifications (pf_state p), sset (\<lambda>s. s\<lparr>ss_notifications := []\<rparr>) p)"

definition take_pending_scrollback :: "perf \<Rightarrow> u8 list list \<times> perf" where
  "take_pending_scrollback p =
     (let g = pf_grid p; start = g_pending g; count = pending_scrollback_count g;
          p = gset (\<lambda>g. g\<lparr>g_pending := g_sb_len g\<rparr>) p
      in (map (\<lambda>r. render_line r (g_table g)) (take count (drop start (scrollback_rows g))), p))"

definition get_history :: "perf \<Rightarrow> u8 list list" where
  "get_history p = map (\<lambda>r. render_line r (g_table (pf_grid p))) (scrollback_rows (pf_grid p))"

definition take_and_render :: "(row \<Rightarrow> nat) \<Rightarrow> perf \<Rightarrow> render_cache
    \<Rightarrow> ((u8 list \<times> u8 list list) \<times> perf \<times> render_cache) option" where
  "take_and_render hash p c =
     (let (lines, p) = take_pending_scrollback p;
          (passthrough, p) = take_passthrough p;
          (notes, p) = take_queued_notifications p
      in map_option (\<lambda>(out, c). ((out, passthrough @ notes), p, c))
           (if lines \<noteq> [] then render_screen_with_scrollback hash (pf_grid p) (ss_title (pf_state p)) lines c
            else render_screen hash (pf_grid p) (ss_title (pf_state p)) False c))"

subsection \<open>The invariant of the screen\<close>

lemma perf_new_inv: "cols \<le> u16_max \<Longrightarrow> rows \<le> u16_max \<Longrightarrow> perf_inv (perf_new cols rows limit)"
  using grid_new_inv [of cols rows limit]
  by (simp add: perf_inv_defs perf_new_def state_default_def saved_rows_def grid_new_def Let_def
      sanitize_dimensions_def)

lemma restore_scrollback_fields [simp]:
  "g_rows (restore_scrollback n g) = g_rows g" "g_cols (restore_scrollback n g) = g_cols g"
  "g_cells (restore_scrollback n g) = g_cells g" "g_table (restore_scrollback n g) = g_table g"
  "g_sb_limit (restore_scrollback n g) = g_sb_limit g" "g_cy (restore_scrollback n g) = g_cy g"
  "g_sb_len (restore_scrollback n g) = g_sb_len g - n"
  by (simp_all add: restore_scrollback_def Let_def)

lemma buffer_ok_cy [simp]: "buffer_ok (g\<lparr>g_cy := y\<rparr>) = buffer_ok g"
  by (simp add: buffer_ok_def grid_styles_def)

lemma grid_resize_fields [simp]:
  "g_table (grid_resize c r g) = g_table g" "g_sb_limit (grid_resize c r g) = g_sb_limit g"
  "g_sb_len (grid_resize c r g) = g_sb_len g"
  by (simp_all add: grid_resize_def Let_def split: prod.split)

text \<open>The grid that is handed to \<open>Grid::resize\<close>.\<close>

definition resize_start :: "u16 \<Rightarrow> perf \<Rightarrow> grid" where
  "resize_start rows p =
     (let g = pf_grid p; n = min (rows - g_rows g) (g_sb_len g) in
      if \<not> ss_alt (pf_state p) \<and> rows > g_rows g
      then (restore_scrollback n g)\<lparr>g_cy := u16_sat_add (g_cy g) n\<rparr> else g)"

lemma screen_resize_eq:
  assumes "rows \<le> u16_max"
  shows "screen_resize cols rows p = gset (grid_resize cols rows) (gset (\<lambda>_. resize_start rows p) p)"
proof -
  have "u16_sub rows (rows_of p) = rows - rows_of p" if "rows > rows_of p"
    using assms that by (intro u16_sub_id) (auto simp: u16_max_def)
  moreover have "min (rows - rows_of p) (g_sb_len (pf_grid p)) \<le> u16_max" using assms by simp
  ultimately show ?thesis
    by (auto simp: screen_resize_def resize_start_def Let_def gset_def)
qed

lemma screen_resize_inv:
  assumes inv: "perf_inv p" and dims: "cols \<le> u16_max" "rows \<le> u16_max"
  shows "perf_inv (screen_resize cols rows p)"
proof -
  let ?g = "resize_start rows p"
  have g: "grid_inv (pf_grid p)" using inv by (rule perf_inv_grid)
  have "buffer_ok ?g"
    using restore_scrollback_ok [OF g] grid_inv_buffer_ok [OF g] by (simp add: resize_start_def Let_def)
  then have "grid_inv (grid_resize cols rows ?g)" using dims by (rule grid_resize_inv)
  moreover have "g_table ?g = g_table (pf_grid p)" "g_sb_limit ?g = g_sb_limit (pf_grid p)"
    "g_sb_len ?g \<le> g_sb_len (pf_grid p)"
    by (auto simp: resize_start_def Let_def)
  ultimately show ?thesis
    using inv unfolding screen_resize_eq [OF dims(2)]
    by (auto simp: perf_inv_def alt_ok_def history_limit_def)
qed

lemma perf_inv_drain:
  assumes "perf_inv p"
  shows "perf_inv (snd (take_responses p))" "perf_inv (snd (take_passthrough p))"
    "perf_inv (snd (take_queued_notifications p))" "perf_inv (snd (take_pending_scrollback p))"
  using assms
  by (auto simp: take_responses_def take_passthrough_def take_queued_notifications_def
      take_pending_scrollback_def Let_def perf_inv_defs grid_inv_defs)

text \<open>The states of a screen: created, fed with events, resized, drained.\<close>

inductive reachable :: "(rchar \<Rightarrow> nat option) \<Rightarrow> perf \<Rightarrow> bool" for wd where
  reach_new: "cols \<le> u16_max \<Longrightarrow> rows \<le> u16_max \<Longrightarrow> reachable wd (perf_new cols rows limit)"
| reach_event: "reachable wd p \<Longrightarrow> perform wd ev p = Some q \<Longrightarrow> reachable wd q"
| reach_resize: "reachable wd p \<Longrightarrow> cols \<le> u16_max \<Longrightarrow> rows \<le> u16_max \<Longrightarrow> reachable wd (screen_resize cols rows p)"
| reach_responses: "reachable wd p \<Longrightarrow> reachable wd (snd (take_responses p))"
| reach_passthrough: "reachable wd p \<Longrightarrow> reachable wd (snd (take_passthrough p))"
| reach_notifications: "reachable wd p \<Longrightarrow> reachable wd (snd (take_queued_notifications p))"
| reach_scrollback: "reachable wd p \<Longrightarrow> reachable wd (snd (take_pending_scrollback p))"

lemma reachable_inv: "reachable wd p \<Longrightarrow> perf_inv p"
  by (induction rule: reachable.induct)
    (auto intro: perf_new_inv screen_resize_inv perf_inv_drain perf.step_inv)

lemma reachable_run: "reachable wd p \<Longrightarrow> for_m evs (perform wd) p = Some q \<Longrightarrow> reachable wd q"
proof (induction evs arbitrary: p)
  case (Cons e es)
  then show ?case by (cases "perform wd e p") (auto intro: reach_event)
qed simp

lemma process_some:
  assumes "reachable wd (sc_perf s)" "\<forall>ev\<in>set (fst (parse adv bs (sc_parser s))). \<not> title_panics ev"
  obtains s' where "process adv wd bs s = Some s'"
  using perf.run_panics [OF reachable_inv [OF assms(1)], of "fst (parse adv bs (sc_parser s))"] assms(2) that
  by (auto simp: process_parse)

lemma process_none:
  assumes "reachable wd (sc_perf s)" "ev \<in> set (fst (parse adv bs (sc_parser s)))" "title_panics ev"
  shows "process adv wd bs s = None"
  using perf.run_panics [OF reachable_inv [OF assms(1)], of "fst (parse adv bs (sc_parser s))"] assms(2,3)
  by (auto simp: process_parse)

end
