(* ===== verification/Alt_Screen.thy ===== *)
theory Alt_Screen
  imports Screen
begin

section \<open>What cannot change on the alternate screen\<close>

text \<open>
  A program that draws on the alternate screen, however it resizes, scrolls or erases, does not touch the
  saved rows of the main screen nor its history: every operation of the performer is shown to keep them, but
  for the three requests that are meant to (leaving, erasing the history, and the full reset).
\<close>

subsection \<open>Partial correctness\<close>

definition post :: "('a \<Rightarrow> bool) \<Rightarrow> 'a option \<Rightarrow> bool" where
  "post P m \<longleftrightarrow> (\<forall>x. m = Some x \<longrightarrow> P x)"

lemma post_simps [simp]: "post P (Some x) = P x" "post P None" "post P (map_option g n) = post (\<lambda>x. P (g x)) n"
  by (auto simp: post_def)

named_theorems holds \<open>operations that keep the history\<close>

text \<open>A sequence of two operations on the same state, after a query, and after one with a result.\<close>

lemma post_bind [holds]: "post I m \<Longrightarrow> (\<And>x. I x \<Longrightarrow> post I (f x)) \<Longrightarrow> post I (Option.bind m f)"
  by (auto simp: post_def split: Option.bind_splits)

lemma post_query: "(\<And>x. post I (f x)) \<Longrightarrow> post I (Option.bind m f)"
  by (auto simp: post_def split: Option.bind_splits)

lemmas post_queries [holds] = post_query [of I f "visible_row y g" for I f y g] post_query [of I f "row_at r x" for I f r x]
  post_query [of I f "str_truncate t n" for I f t n] post_query [of I f "str_prefix t n" for I f t n]

lemma post_pair [holds]:
  "post (\<lambda>r. I (snd r)) m \<Longrightarrow> (\<And>i x. I x \<Longrightarrow> post I (f i x)) \<Longrightarrow> post I (Option.bind m (\<lambda>(i, x). f i x))"
  by (auto simp: post_def split: Option.bind_splits)

lemma post_pair_snd [holds]:
  "post (\<lambda>r. I (snd r)) m \<Longrightarrow> (\<And>i x. I x \<Longrightarrow> post (\<lambda>r. I (snd r)) (f i x)) \<Longrightarrow> post (\<lambda>r. I (snd r)) (Option.bind m (\<lambda>(i, x). f i x))"
  by (auto simp: post_def split: Option.bind_splits)

lemma post_then: "post Q m \<Longrightarrow> (\<And>x. Q x \<Longrightarrow> post I (f x)) \<Longrightarrow> post I (Option.bind m f)"
  by (auto simp: post_def split: Option.bind_splits)

lemma post_if [holds]: "(b \<Longrightarrow> post I m) \<Longrightarrow> (\<not> b \<Longrightarrow> post I n) \<Longrightarrow> post I (if b then m else n)"
  by simp

lemma post_for [holds]: "P s \<Longrightarrow> (\<And>x s. P s \<Longrightarrow> post P (f x s)) \<Longrightarrow> post P (for_m xs f s)"
proof (induction xs arbitrary: s)
  case (Cons x xs)
  show ?case unfolding for_m.simps by (rule post_bind, rule Cons.prems, rule Cons.prems, rule Cons.IH, assumption, rule Cons.prems)
qed simp

lemma post_repeat [holds]: "P s \<Longrightarrow> (\<And>s. P s \<Longrightarrow> post P (f s)) \<Longrightarrow> post P (repeat_m n f s)"
proof (induction n arbitrary: s)
  case (Suc n)
  show ?case unfolding repeat_m.simps by (rule post_bind, rule Suc.prems, rule Suc.prems, rule Suc.IH, assumption, rule Suc.prems)
qed simp

subsection \<open>The grid\<close>

definition has_history :: "row list \<Rightarrow> grid \<Rightarrow> bool" where
  "has_history H g \<longleftrightarrow> g_sb_len g = length H \<and> take (length H) (g_cells g) = H"

lemma has_history_rows: "has_history H g \<Longrightarrow> scrollback_rows g = H"
  by (simp add: has_history_def scrollback_rows_def)

lemma has_history_scrollback: "grid_inv g \<Longrightarrow> has_history (scrollback_rows g) g"
  using grid_split(2) [of g] by (simp add: has_history_def) (simp add: scrollback_rows_def)

lemma history_len: "has_history H g \<Longrightarrow> length H \<le> length (g_cells g)"
  unfolding has_history_def by (metis length_take min.cobounded1)

lemma take_append_keep: "take (length H) xs = H \<Longrightarrow> take (length H) (xs @ ys) = H"
  by (metis append_Nil2 diff_is_0_eq length_take min.cobounded1 take_append take_eq_Nil)

lemma has_history_fields [simp]:
  "has_history H (g\<lparr>g_cx := x\<rparr>) = has_history H g" "has_history H (g\<lparr>g_cy := x\<rparr>) = has_history H g"
  "has_history H (g\<lparr>g_wrap := b\<rparr>) = has_history H g" "has_history H (g\<lparr>g_modes := m\<rparr>) = has_history H g"
  "has_history H (g\<lparr>g_table := t\<rparr>) = has_history H g" "has_history H (g\<lparr>g_cursor_visible := b\<rparr>) = has_history H g"
  "has_history H (g\<lparr>g_top := x\<rparr>) = has_history H g" "has_history H (g\<lparr>g_bottom := x\<rparr>) = has_history H g"
  "has_history H (g\<lparr>g_pending := x\<rparr>) = has_history H g" "has_history H (g\<lparr>g_tabs := ts\<rparr>) = has_history H g"
  by (simp_all add: has_history_def)

lemma has_history_ops [simp]:
  "has_history H (set_scroll_region t b g) = has_history H g" "has_history H (set_tab_stop c g) = has_history H g"
  "has_history H (clear_tab_stop c g) = has_history H g" "has_history H (clear_all_tab_stops g) = has_history H g"
  "has_history H (reset_scroll_region g) = has_history H g" "has_history H (compact_styles sg g) = has_history H g"
  by (simp_all add: set_scroll_region_def set_tab_stop_def clear_tab_stop_def clear_all_tab_stops_def
      reset_scroll_region_def compact_styles_def Let_def)

lemma visible_row_mut_holds [holds]: "has_history H g \<Longrightarrow> post (has_history H) (visible_row_mut y f g)"
  by (auto simp: visible_row_mut_def has_history_def post_def split: Option.bind_splits)

lemma fixup_holds [holds]: "has_history H g \<Longrightarrow> post (has_history H) (fixup_wide_char_at x y g)"
  unfolding fixup_wide_char_at_def by (intro holds) simp_all

lemma set_cell_holds [holds]: "has_history H g \<Longrightarrow> post (has_history H) (set_cell x y ce g)"
  unfolding set_cell_def by (intro holds) simp_all

lemma erase_cells_holds [holds]: "has_history H g \<Longrightarrow> post (has_history H) (erase_cells y a b blank g)"
  unfolding erase_cells_def Let_def by (intro holds) simp_all

lemma erase_rows_holds [holds]: "has_history H g \<Longrightarrow> post (has_history H) (erase_rows a b blank g)"
  unfolding erase_rows_def Let_def by (intro holds)

lemma history_insert [holds]:
  assumes "g_sb_len g = length H" "take (length H) cells = H"
  shows "post (has_history H) (Option.bind (deque_insert (g_sb_len g + y) r cells) (\<lambda>cells. Some (g\<lparr>g_cells := cells\<rparr>)))"
  using assms by (cases "length H + y \<le> length cells") (simp_all add: deque_insert_def has_history_def take_insert_at)

lemma history_remove: "has_history H g \<Longrightarrow> take (length H) (deque_remove (g_sb_len g + y) (g_cells g)) = H"
  by (cases "length H + y < length (g_cells g)") (simp_all add: deque_remove_def has_history_def take_remove_at)

lemma history_remove_0: "has_history H g \<Longrightarrow> take (length H) (deque_remove (g_sb_len g) (g_cells g) @ xs) = H"
  using history_remove [of H g 0] by (intro take_append_keep) simp

lemma scroll_up_holds:
  assumes "has_history H g"
  shows "post (has_history H) (scroll_up True fill g)"
proof -
  have "has_history H (g\<lparr>g_cells := deque_remove (g_sb_len g) (g_cells g) @ xs\<rparr>)" for xs
    using history_remove_0 [OF assms, of xs] assms by (simp add: has_history_def)
  moreover have "take (length H) (deque_remove (g_sb_len g + y) (g_cells g)) = H" "g_sb_len g = length H" for y
    using history_remove [OF assms] assms by (simp_all add: has_history_def)
  ultimately show ?thesis
    unfolding scroll_up_def Let_def simp_thms if_False by (intro post_if history_insert) (simp_all add: assms)
qed

lemma scroll_down_holds [holds]: "has_history H g \<Longrightarrow> post (has_history H) (scroll_down fill g)"
  unfolding scroll_down_def Let_def by (intro holds) (simp_all add: history_remove, simp_all add: has_history_def)

lemma move_row_holds [holds]:
  assumes "has_history H g"
  shows "post (has_history H) (insert_visible_row a r (remove_visible_row b g))"
  unfolding insert_visible_row_def
  by (rule history_insert) (use assms history_remove [OF assms, of b] in \<open>simp_all add: remove_visible_row_def has_history_def\<close>)

lemma grid_resize_holds: "has_history H g \<Longrightarrow> has_history H (grid_resize c r g)"
  using history_len [of H g] by (auto simp: grid_resize_def has_history_def Let_def min_def split: prod.split)

subsection \<open>The performer\<close>

text \<open>The alternate screen is shown, with the saved rows \<open>sg\<close> and the history \<open>H\<close>.\<close>

definition alt_held :: "saved_grid option \<Rightarrow> row list \<Rightarrow> perf \<Rightarrow> bool" where
  "alt_held sg H p \<longleftrightarrow> ss_alt (pf_state p) \<and> ss_saved (pf_state p) = sg \<and> has_history H (pf_grid p)"

lemma alt_held_alt [simp]: "alt_held sg H p \<Longrightarrow> ss_alt (pf_state p)"
  by (simp add: alt_held_def)

lemma alt_held_gset [simp]: "(\<And>g. has_history H (f g) = has_history H g) \<Longrightarrow> alt_held sg H (gset f p) = alt_held sg H p"
  by (simp add: alt_held_def gset_def)

lemma alt_held_sset [simp]:
  "(\<And>s. ss_alt (f s) = ss_alt s \<and> ss_saved (f s) = ss_saved s) \<Longrightarrow> alt_held sg H (sset f p) = alt_held sg H p"
  by (simp add: alt_held_def sset_def)

lemma push_alt [simp]:
  "ss_alt (push_response d s) = ss_alt s" "ss_saved (push_response d s) = ss_saved s"
  "ss_alt (push_passthrough d s) = ss_alt s" "ss_saved (push_passthrough d s) = ss_saved s"
  "ss_alt (push_notification d s) = ss_alt s" "ss_saved (push_notification d s) = ss_saved s"
  by (simp_all add: push_response_def push_passthrough_def push_notification_def Let_def)

lemma gmut_holds [holds]:
  "alt_held sg H p \<Longrightarrow> (\<And>g. has_history H g \<Longrightarrow> post (has_history H) (f g)) \<Longrightarrow> post (alt_held sg H) (gmut f p)"
  by (auto simp: alt_held_def gmut_def post_def)

lemma intern_holds [holds]: "alt_held sg H p \<Longrightarrow> post (\<lambda>r. alt_held sg H (snd r)) (intern_style s p)"
  by (auto simp: intern_style_def post_def)

lemma intern_gc_holds [holds]: "alt_held sg H p \<Longrightarrow> post (\<lambda>r. alt_held sg H (snd r)) (intern_with_gc s p)"
  unfolding intern_with_gc_def by (intro holds) (simp_all split: prod.split add: holds)

lemma blank_cell_holds [holds]: "alt_held sg H p \<Longrightarrow> post (\<lambda>r. alt_held sg H (snd r)) (blank_cell p)"
  unfolding blank_cell_def by (intro holds) simp_all

lemma p_scroll_holds [holds]:
  "alt_held sg H p \<Longrightarrow> post (alt_held sg H) (p_scroll_up p)" "alt_held sg H p \<Longrightarrow> post (alt_held sg H) (p_scroll_down p)"
  unfolding p_scroll_up_def p_scroll_down_def by (intro holds; simp add: scroll_up_holds holds)+

lemma line_feed_holds [holds]: "alt_held sg H p \<Longrightarrow> post (alt_held sg H) (line_feed p)"
  unfolding line_feed_def Let_def by (intro holds) simp_all

lemma wrap_holds [holds]: "alt_held sg H p \<Longrightarrow> post (alt_held sg H) (perform_deferred_wrap p)"
  unfolding perform_deferred_wrap_def by (intro holds) simp

lemma cursor_holds [simp]:
  "alt_held sg H (csi_cursor_up n p) = alt_held sg H p" "alt_held sg H (csi_cursor_down n p) = alt_held sg H p"
  "alt_held sg H (csi_cursor_forward n p) = alt_held sg H p" "alt_held sg H (csi_cursor_back n p) = alt_held sg H p"
  "alt_held sg H (csi_cursor_next_line n p) = alt_held sg H p" "alt_held sg H (csi_cursor_prev_line n p) = alt_held sg H p"
  "alt_held sg H (csi_cursor_horizontal_absolute n p) = alt_held sg H p"
  "alt_held sg H (csi_line_position_absolute n p) = alt_held sg H p" "alt_held sg H (csi_cursor_position n m p) = alt_held sg H p"
  "alt_held sg H (csi_set_scrolling_region n m p) = alt_held sg H p"
  "alt_held sg H (save_cursor p) = alt_held sg H p" "alt_held sg H (restore_cursor p) = alt_held sg H p"
  by (simp_all add: cursor_ops_def csi_set_scrolling_region_def save_cursor_def restore_cursor_def Let_def split: option.split)

lemma erase_holds [holds]:
  "alt_held sg H p \<Longrightarrow> mode \<noteq> 3 \<Longrightarrow> post (alt_held sg H) (csi_erase_display mode p)"
  "alt_held sg H p \<Longrightarrow> post (alt_held sg H) (csi_erase_line mode p)"
  "alt_held sg H p \<Longrightarrow> post (alt_held sg H) (csi_erase_character n p)"
  unfolding csi_erase_display_def csi_erase_line_def csi_erase_character_def Let_def
  by ((intro holds; simp)+)

lemma edit_holds [holds]:
  "alt_held sg H p \<Longrightarrow> post (alt_held sg H) (csi_delete_character n p)"
  "alt_held sg H p \<Longrightarrow> post (alt_held sg H) (csi_insert_character n p)"
  unfolding csi_delete_character_def csi_insert_character_def Let_def
  by ((intro holds; simp)+)

lemma lines_holds [holds]:
  "alt_held sg H p \<Longrightarrow> post (alt_held sg H) (csi_delete_lines n p)"
  "alt_held sg H p \<Longrightarrow> post (alt_held sg H) (csi_insert_lines n p)"
  "alt_held sg H p \<Longrightarrow> post (alt_held sg H) (csi_scroll_up_n n p)"
  "alt_held sg H p \<Longrightarrow> post (alt_held sg H) (csi_scroll_down_n n p)"
  unfolding csi_delete_lines_def csi_insert_lines_def csi_scroll_up_n_def csi_scroll_down_n_def Let_def
  by ((intro holds; simp)+)

lemma put_char_holds [holds]: "alt_held sg H p \<Longrightarrow> post (alt_held sg H) (put_char c w p)"
  unfolding put_char_def Let_def by (intro holds) simp_all

lemma combining_holds [holds]: "alt_held sg H p \<Longrightarrow> post (alt_held sg H) (handle_combining_mark c p)"
  unfolding handle_combining_mark_def Let_def by (intro holds) simp_all

lemma wide_margin_holds [holds]: "alt_held sg H p \<Longrightarrow> post (\<lambda>r. alt_held sg H (snd r)) (wide_margin w p)"
  unfolding wide_margin_def Let_def
  by (intro holds post_then [of "alt_held sg H"]) simp_all

lemma print_holds [holds]: "alt_held sg H p \<Longrightarrow> post (alt_held sg H) (print wd c p)"
  unfolding print_def Let_def by (intro holds) simp_all

subsection \<open>Events that stay on the alternate screen\<close>

text \<open>All but three requests: to leave it (modes 1049, 1047 and 47 reset), to erase the history (\<open>ESC[3J\<close>), and the full reset.\<close>

definition leaves_alt :: "u16 list list \<Rightarrow> bool" where
  "leaves_alt ps \<longleftrightarrow> (\<exists>mode\<in>set ps. mode \<noteq> [] \<and> hd mode \<in> {1049, 1047, 47})"

definition stays :: "event \<Rightarrow> bool" where
  "stays ev =
     (case ev of
        Csi ps im ignored action \<Rightarrow>
          \<not> (action = ch CHR ''J'' \<and> param ps 0 0 = 3) \<and> \<not> (action = ch CHR ''l'' \<and> im = bytes ''?'' \<and> leaves_alt ps)
      | Esc im ignored b \<Rightarrow> \<not> (im = [] \<and> b = ch CHR ''c'')
      | _ \<Rightarrow> True)"

lemma mode_holds [holds]:
  assumes "alt_held sg H p" "mode \<noteq> [] \<longrightarrow> hd mode \<in> {1049, 1047, 47} \<longrightarrow> enable"
  shows "post (alt_held sg H) (dec_private_mode mode enable p)"
proof (cases mode)
  case (Cons n ns)
  have "enter_alt_screen save p = Some p" for save using assms(1) by (simp add: enter_alt_screen_def)
  then show ?thesis
    unfolding dec_private_mode_def Let_def Cons list.case
    by (intro post_if) (use assms Cons in simp_all)
qed (use assms in \<open>simp add: dec_private_mode_def\<close>)

lemma modes_hold:
  assumes "alt_held sg H p" "\<forall>mode\<in>set ps. mode \<noteq> [] \<longrightarrow> hd mode \<in> {1049, 1047, 47} \<longrightarrow> enable"
  shows "post (alt_held sg H) (csi_set_dec_private_mode ps enable p)"
  using assms
proof (induction ps arbitrary: p)
  case (Cons mode ps)
  have "post (alt_held sg H) (dec_private_mode mode enable p)" using Cons.prems by (intro holds) simp_all
  moreover have "post (alt_held sg H) (csi_set_dec_private_mode ps enable q)" if "alt_held sg H q" for q
    using Cons that by simp
  ultimately show ?case
    using post_bind [of "alt_held sg H" "dec_private_mode mode enable p"] by (simp add: csi_set_dec_private_mode_def)
qed (simp add: csi_set_dec_private_mode_def)

lemma title_op_holds [holds]: "alt_held sg H p \<Longrightarrow> post (alt_held sg H) (title_op ps p)"
  unfolding title_op_def Let_def by (intro holds) simp_all

lemma execute_holds [holds]: "alt_held sg H p \<Longrightarrow> post (alt_held sg H) (execute b p)"
  unfolding execute_def Let_def by (intro holds) simp_all

lemma csi_holds:
  assumes "alt_held sg H p" "stays (Csi ps im ignored action)"
  shows "post (alt_held sg H) (csi_dispatch wd ps im action p)"
proof -
  have modes: "post (alt_held sg H) (csi_set_dec_private_mode ps (action = ch CHR ''h'') p)"
    if "(action = ch CHR ''h'' \<or> action = ch CHR ''l'') \<and> im = bytes ''?''"
    using assms that by (intro modes_hold) (auto simp: stays_def leaves_alt_def)
  have erase: "post (alt_held sg H) (csi_erase_display (param ps 0 0) p)" if "action = ch CHR ''J''"
    using assms that by (intro erase_holds) (simp_all add: stays_def)
  show ?thesis
    unfolding csi_dispatch_def
    by (intro post_if) (use modes in \<open>simp_all add: assms(1) erase holds\<close>)
qed

lemma esc_holds:
  assumes "alt_held sg H p" "stays (Esc im ignored b)"
  shows "post (alt_held sg H) (esc_dispatch im b p)"
proof -
  have align: "post (alt_held sg H) (screen_alignment p)"
    unfolding screen_alignment_def Let_def using assms(1) by (intro holds) simp_all
  have "post (alt_held sg H) (reverse_index p)"
    unfolding reverse_index_def Let_def using assms(1) by (intro holds) simp_all
  then show ?thesis
    unfolding esc_dispatch_def by (intro post_if) (use assms align in \<open>simp_all add: holds stays_def\<close>)
qed

lemma osc_holds: "alt_held sg H p \<Longrightarrow> post (alt_held sg H) (osc_dispatch params bell p)"
  unfolding osc_dispatch_def set_title_def Let_def by (intro holds) simp_all

lemma perform_holds: "alt_held sg H p \<Longrightarrow> stays ev \<Longrightarrow> post (alt_held sg H) (perform wd ev p)"
  by (cases ev) (simp_all add: holds csi_holds esc_holds osc_holds)

subsection \<open>Runs on the alternate screen\<close>

inductive alt_run :: "(rchar \<Rightarrow> nat option) \<Rightarrow> perf \<Rightarrow> perf \<Rightarrow> bool" for wd q where
  alt_start: "alt_run wd q q"
| alt_event: "alt_run wd q p \<Longrightarrow> stays ev \<Longrightarrow> perform wd ev p = Some p' \<Longrightarrow> alt_run wd q p'"
| alt_resize: "alt_run wd q p \<Longrightarrow> cols \<le> u16_max \<Longrightarrow> rows \<le> u16_max \<Longrightarrow> alt_run wd q (screen_resize cols rows p)"
| alt_responses: "alt_run wd q p \<Longrightarrow> alt_run wd q (snd (take_responses p))"
| alt_passthrough: "alt_run wd q p \<Longrightarrow> alt_run wd q (snd (take_passthrough p))"
| alt_notifications: "alt_run wd q p \<Longrightarrow> alt_run wd q (snd (take_queued_notifications p))"
| alt_scrollback: "alt_run wd q p \<Longrightarrow> alt_run wd q (snd (take_pending_scrollback p))"

lemma alt_run_holds:
  assumes "alt_run wd q p" "perf_inv q" "alt_held sg H q"
  shows "perf_inv p \<and> alt_held sg H p"
  using assms
proof (induction rule: alt_run.induct)
  case (alt_event p ev p')
  then show ?case using perform_holds [of sg H p ev wd] perf.step_inv by (auto simp: post_def)
next
  case (alt_resize p cols rows)
  then have "screen_resize cols rows p = gset (grid_resize cols rows) p"
    by (simp add: screen_resize_def alt_held_def Let_def)
  moreover have "perf_inv (screen_resize cols rows p)" using alt_resize by (intro screen_resize_inv) simp_all
  ultimately show ?case using alt_resize by (simp add: alt_held_def grid_resize_holds)
qed (simp_all add: perf_inv_drain, simp_all add: take_responses_def take_passthrough_def take_queued_notifications_def
    take_pending_scrollback_def Let_def)

end
