(* ===== verification/Screen_Props.thy ===== *)
theory Screen_Props
  imports Alt_Screen
begin

section \<open>Properties of the terminal screen\<close>

text \<open>
  What holds of every screen that the operations can reach: when feeding it bytes panics, its
  invariant, and the contracts of the alternate screen, the cursor, the scrolling history, the
  notification queue and resizing.
\<close>

subsection \<open>Feeding bytes\<close>

text \<open>C1. Feeding any bytes to a reachable screen, through any parser, panics exactly when the parser
  reports a window title of more than 4096 bytes whose byte 4096 lies inside a character; in every
  other case it returns a screen that is reachable again.\<close>

theorem process_panics_iff_title:
  assumes "reachable wd (sc_perf s)"
  shows "(process adv wd bs s = None \<longleftrightarrow> (\<exists>ev\<in>set (fst (parse adv bs (sc_parser s))). title_panics ev))
    \<and> (\<forall>s'. process adv wd bs s = Some s' \<longrightarrow> reachable wd (sc_perf s'))"
  using perf.run_panics [OF reachable_inv [OF assms], of "fst (parse adv bs (sc_parser s))" wd]
    reachable_run [OF assms, of "fst (parse adv bs (sc_parser s))"]
  by (auto simp: process_parse)

text \<open>A parser for the witness: every byte is printed.\<close>

definition print_parser :: "unit \<Rightarrow> u8 \<Rightarrow> unit \<times> event list" where
  "print_parser q b = ((), [Print b])"

definition demo_screen :: "unit screen" where
  "demo_screen = screen_new 4 2 10 ()"

lemma demo_reachable: "reachable wd (sc_perf demo_screen)"
  by (simp add: demo_screen_def screen_new_def reach_new u16_max_def)

theorem process_panics_iff_title_witness:
  "process print_parser (\<lambda>_. Some 1) (bytes ''ab'') demo_screen \<noteq> None"
  using process_panics_iff_title [OF demo_reachable, of print_parser "\<lambda>_. Some 1" "bytes ''ab''"]
  by (simp add: print_parser_def title_panics_def)

text \<open>C2. In every reachable screen the source's debug check holds, the cursor and the scroll region
  are inside the screen, the scrollback is within its limit, every queue, title and title stack is
  within its bound, and every cell of the screen and the history has a live style number.\<close>

theorem reachable_invariant:
  assumes "reachable wd p"
  shows "check_invariants (pf_grid p) \<and> g_cx (pf_grid p) < cols_of p \<and> g_cy (pf_grid p) < rows_of p
    \<and> g_top (pf_grid p) \<le> g_bottom (pf_grid p) \<and> g_bottom (pf_grid p) < rows_of p
    \<and> (\<forall>y < rows_of p. length (row_cells (visible_rows (pf_grid p) ! y)) = cols_of p)
    \<and> g_sb_len (pf_grid p) \<le> history_limit p
    \<and> length (ss_responses (pf_state p)) \<le> 1024 \<and> length (ss_passthrough (pf_state p)) \<le> 1024
    \<and> length (ss_notifications (pf_state p)) \<le> 50
    \<and> length (ss_title (pf_state p)) \<le> 4096 \<and> length (ss_titles (pf_state p)) \<le> 16
    \<and> rows_live (g_table (pf_grid p)) (g_cells (pf_grid p))"
proof -
  have inv: "perf_inv p" using assms by (rule reachable_inv)
  then have g: "grid_inv (pf_grid p)" by (rule perf_inv_grid)
  have "length (row_cells (visible_rows (pf_grid p) ! y)) = cols_of p" if "y < rows_of p" for y
    using grid_inv_visible(2) [OF g that] that grid_invD(6) [OF g]
    by (simp add: visible_rows_def row_fits_def)
  then show ?thesis
    using inv grid_invD [OF g] grid_inv_check [OF g]
    by (simp add: perf_inv_def alt_ok_def queues_ok_def MAX_PENDING_def MAX_QUEUED_NOTIFICATIONS_def)
qed

theorem reachable_invariant_witness:
  "check_invariants (pf_grid (perf_new 80 24 1000)) \<and> g_cx (pf_grid (perf_new 80 24 1000)) < 80"
  using reachable_invariant [OF reach_new [of 80 24 "\<lambda>_. Some 1" 1000]]
  by (simp add: u16_max_def perf_new_def grid_new_def sanitize_dimensions_def Let_def)

subsection \<open>The title slice\<close>

lemma utf8_valid_ascii: "c < 128 \<Longrightarrow> utf8_valid (replicate n c @ bs) = utf8_valid bs"
  by (induction n) simp_all

text \<open>4095 letters followed by a two-byte character.\<close>

definition long_title :: rstring where
  "long_title = replicate 4095 65 @ [0xC3, 0xA9]"

lemma long_title_facts:
  "utf8_valid long_title" "length long_title = 4097" "is_cont (long_title ! 4096)"
  "osc_number [bytes ''2'', long_title] = Some 2"
  by (simp_all add: long_title_def utf8_valid_ascii is_cont_def nth_append osc_number_def parse_u16_def
      digits_value_def u16_max_def)

lemma long_title_event: "title_panics (Osc [bytes ''2'', long_title] True)"
  using long_title_facts by (simp add: title_panics_def)

text \<open>On every screen there is a valid UTF-8 window title that makes the performer
  panic: 4095 letters followed by a two-byte character.\<close>

theorem long_title_panics:
  "utf8_valid long_title \<and> perform wd (Osc [bytes ''2'', long_title] True) p = None"
proof -
  note t = long_title_facts
  have "str_prefix long_title 4096 = None"
    using t(2,3) unfolding str_prefix_def is_char_boundary_def by simp
  then have "set_title long_title p = None" using t(1,2) unfolding set_title_def by simp
  then show ?thesis using t(1,4) unfolding perform.simps osc_dispatch_def by simp
qed

subsection \<open>The alternate screen\<close>

lemma resize_row_same: "length (row_cells r) = c \<Longrightarrow> resize_row c r = r"
  by (simp add: resize_row_def fix_wide_char_orphan_at_boundary_def row_resize_def resize_list_def)

lemma resized_visible_id:
  assumes "length V = r" "\<forall>q\<in>set V. length (row_cells q) = c"
  shows "resized_visible c r V = V"
proof -
  have "map (resize_row c) V = V" using assms(2) by (simp add: map_idI resize_row_same)
  then show ?thesis using assms(1) by (simp add: resized_visible_def resize_list_def)
qed

lemma compact_styles_cells [simp]:
  "g_cells (compact_styles sg g) = g_cells g" "g_sb_len (compact_styles sg g) = g_sb_len g"
  "g_sb_limit (compact_styles sg g) = g_sb_limit g" "g_rows (compact_styles sg g) = g_rows g"
  "g_cols (compact_styles sg g) = g_cols g" "g_cx (compact_styles sg g) = g_cx g"
  "g_cy (compact_styles sg g) = g_cy g" "g_modes (compact_styles sg g) = g_modes g"
  "g_top (compact_styles sg g) = g_top g" "g_bottom (compact_styles sg g) = g_bottom g"
  "g_wrap (compact_styles sg g) = g_wrap g"
  by (simp_all add: compact_styles_def Let_def)

lemma exit_steps_rows [simp]:
  "g_cells (pf_grid (exit_modes p)) = g_cells (pf_grid p)"
  "g_cells (pf_grid (exit_region p)) = g_cells (pf_grid p)"
  "g_cells (pf_grid (restore_cursor p)) = g_cells (pf_grid p)"
  "g_sb_len (pf_grid (exit_modes p)) = g_sb_len (pf_grid p)"
  "g_sb_len (pf_grid (exit_region p)) = g_sb_len (pf_grid p)"
  "g_sb_len (pf_grid (restore_cursor p)) = g_sb_len (pf_grid p)"
  "g_sb_limit (pf_grid (exit_modes p)) = g_sb_limit (pf_grid p)"
  "g_sb_limit (pf_grid (exit_region p)) = g_sb_limit (pf_grid p)"
  "g_sb_limit (pf_grid (restore_cursor p)) = g_sb_limit (pf_grid p)"
  by (auto simp: exit_modes_def exit_region_def restore_cursor_def Let_def set_scroll_region_def
      reset_scroll_region_def split: option.split)

lemma exit_rows_eq:
  assumes inv: "perf_inv q" and sg: "ss_saved (pf_state q) = Some sg"
  shows "exit_rows q = Some \<lparr>pf_grid = (pf_grid q)\<lparr>
       g_cells := scrollback_rows (pf_grid q) @ resized_visible (cols_of q) (rows_of q) (sg_visible sg),
       g_sb_limit := sg_limit sg\<rparr>,
     pf_state = (pf_state q)\<lparr>ss_alt := False, ss_saved := None\<rparr>\<rparr>"
  by (cases q) (use perf_inv_grid [OF inv] sg in \<open>auto simp: exit_rows_def gmut_def restore_saved_eq sset_def\<close>)

text \<open>C5. Whatever is drawn on the alternate screen, and however it is resized and drained meanwhile, leaving it brings
  the main screen back, when the size is then what it was: the visible rows and the whole history are those
  before entering, and capturing into the history is enabled again with its old limit. The program may
  send everything but the requests to leave, to erase the history and to reset the terminal.\<close>

theorem alt_screen_restores:
  assumes inv: "perf_inv p" and main: "\<not> ss_alt (pf_state p)"
    and enter: "enter_alt_screen save p = Some q" and run: "alt_run wd q q'"
    and size: "cols_of q' = cols_of p" "rows_of q' = rows_of p"
  shows "\<exists>r. exit_alt_screen restore q' = Some r
    \<and> grid_visible (pf_grid r) = grid_visible (pf_grid p)
    \<and> scrollback_rows (pf_grid r) = scrollback_rows (pf_grid p)
    \<and> g_sb_limit (pf_grid r) = g_sb_limit (pf_grid p) \<and> \<not> ss_alt (pf_state r)"
proof -
  let ?sg = "\<lparr>sg_visible = grid_visible (pf_grid p), sg_limit = g_sb_limit (pf_grid p)\<rparr>" and ?H = "scrollback_rows (pf_grid p)"
  have g: "grid_inv (pf_grid p)" using inv by (rule perf_inv_grid)
  have invq: "perf_inv q" using enter_alt_screen_ok [OF inv, of save] enter by simp
  have "alt_held (Some ?sg) ?H q"
    using enter grid_split(2) [OF g] unfolding enter_alt_screen_eq [OF inv main]
    by (auto simp: alt_held_def has_history_def Let_def)
  then have held: "perf_inv q'" "alt_held (Some ?sg) ?H q'" using alt_run_holds [OF run invq] by simp_all
  then have sg: "ss_saved (pf_state q') = Some ?sg" and alt: "ss_alt (pf_state q')"
    and H: "scrollback_rows (pf_grid q') = ?H" using has_history_rows by (auto simp: alt_held_def)
  have "\<forall>r\<in>set (grid_visible (pf_grid p)). length (row_cells r) = cols_of p"
    using g by (auto simp: grid_inv_defs grid_visible_def)
  then have V: "resized_visible (cols_of q') (rows_of q') (sg_visible ?sg) = grid_visible (pf_grid p)"
    unfolding size using grid_split(3) [OF g] by (simp add: resized_visible_id)
  have len: "g_sb_len (pf_grid q') = g_sb_len (pf_grid p)" "g_sb_len (pf_grid p) \<le> length (g_cells (pf_grid p))"
    using held(2) grid_split(2) [OF g] grid_invD [OF g] by (simp_all add: alt_held_def has_history_def)
  have noalt: "ss_alt (pf_state (exit_region x)) = ss_alt (pf_state x)"
    "ss_alt (pf_state (exit_modes x)) = ss_alt (pf_state x)"
    "ss_alt (pf_state (restore_cursor x)) = ss_alt (pf_state x)" for x
    by (auto simp: exit_modes_def exit_region_def restore_cursor_def Let_def split: option.split)
  show ?thesis
    unfolding exit_alt_screen_steps [OF alt] exit_rows_eq [OF held(1) sg] V H
    using len by (auto simp: grid_visible_def scrollback_rows_def noalt)
qed

lemma perf_new_main: "\<not> ss_alt (pf_state (perf_new c r l))"
  by (simp add: perf_new_def state_default_def)

text \<open>The witness prints a letter on the alternate screen, and resizes it to the same size.\<close>

theorem alt_screen_restores_witness:
  "\<exists>q q' r. enter_alt_screen True (perf_new 4 2 10) = Some q \<and> perform (\<lambda>_. Some 1) (Print 65) q = Some q'
     \<and> exit_alt_screen True (screen_resize 4 2 q') = Some r \<and> grid_visible (pf_grid r) = grid_visible (pf_grid (perf_new 4 2 10))"
proof -
  let ?wd = "\<lambda>_. Some 1"
  have inv: "perf_inv (perf_new 4 2 10)" by (rule perf_new_inv) (simp_all add: u16_max_def)
  obtain q where q: "enter_alt_screen True (perf_new 4 2 10) = Some q" "perf_inv q"
    using enter_alt_screen_ok [OF inv, of True] by (auto simp: ok_ex)
  obtain q' where q': "perform ?wd (Print 65) q = Some q'"
    using perform_safe [OF q(2), of "Print 65" ?wd] by (auto simp: ok_ex title_panics_def)
  have "alt_run ?wd q (screen_resize 4 2 q')"
    by (rule alt_resize [OF alt_event [OF alt_start _ q']]) (simp_all add: stays_def u16_max_def)
  moreover have "cols_of (screen_resize 4 2 q') = cols_of (perf_new 4 2 10)" "rows_of (screen_resize 4 2 q') = rows_of (perf_new 4 2 10)"
    by (simp_all add: screen_resize_def grid_resize_def sanitize_dimensions_def perf_new_def grid_new_def Let_def)
  ultimately show ?thesis using alt_screen_restores [OF inv perf_new_main q(1), of ?wd _ True] q q' by blast
qed

text \<open>C6. Mode 1049 set and reset in a row restores the cursor, its deferred wrap, the modes, the
  scroll region, the current style, the rows and the history limit.\<close>

theorem alt_screen_roundtrip:
  assumes inv: "perf_inv p" and main: "\<not> ss_alt (pf_state p)"
  shows "\<exists>q r. enter_alt_screen True p = Some q \<and> exit_alt_screen True q = Some r
    \<and> g_cells (pf_grid r) = g_cells (pf_grid p) \<and> g_sb_len (pf_grid r) = g_sb_len (pf_grid p)
    \<and> g_cx (pf_grid r) = g_cx (pf_grid p) \<and> g_cy (pf_grid r) = g_cy (pf_grid p)
    \<and> g_wrap (pf_grid r) = g_wrap (pf_grid p) \<and> modes_of r = modes_of p
    \<and> g_top (pf_grid r) = g_top (pf_grid p) \<and> g_bottom (pf_grid r) = g_bottom (pf_grid p)
    \<and> g_sb_limit (pf_grid r) = g_sb_limit (pf_grid p) \<and> ss_style (pf_state r) = ss_style (pf_state p)"
proof -
  obtain q where q: "enter_alt_screen True p = Some q" and invq: "perf_inv q"
    using enter_alt_screen_ok [OF inv, of True] by (auto simp: ok_ex)
  note q_eq = q [unfolded enter_alt_screen_eq [OF inv main], simplified Let_def if_True option.inject, symmetric]
  let ?sg = "\<lparr>sg_visible = grid_visible (pf_grid p), sg_limit = g_sb_limit (pf_grid p)\<rparr>"
  have g: "grid_inv (pf_grid p)" using inv by (rule perf_inv_grid)
  have sg: "ss_saved (pf_state q) = Some ?sg" "ss_alt (pf_state q)" by (simp_all add: q_eq)
  have "\<forall>r\<in>set (grid_visible (pf_grid p)). length (row_cells r) = cols_of p"
    using g by (auto simp: grid_inv_defs grid_visible_def)
  then have V: "resized_visible (cols_of p) (rows_of p) (grid_visible (pf_grid p)) = grid_visible (pf_grid p)"
    using grid_split(3) [OF g] by (simp add: resized_visible_id)
  have cells: "scrollback_rows (pf_grid p) @ grid_visible (pf_grid p) = g_cells (pf_grid p)"
    using grid_split(1) [OF g] by simp
  have S: "scrollback_rows (pf_grid q) = scrollback_rows (pf_grid p)"
    using grid_split(2) [OF g] by (simp add: q_eq scrollback_rows_def)
  define r where "r = \<lparr>pf_grid = (pf_grid q)\<lparr>g_cells := g_cells (pf_grid p), g_sb_limit := g_sb_limit (pf_grid p)\<rparr>,
     pf_state = (pf_state q)\<lparr>ss_alt := False, ss_saved := None\<rparr>\<rparr>"
  have dims: "cols_of q = cols_of p" "rows_of q = rows_of p" by (simp_all add: q_eq)
  have rows: "exit_rows q = Some r"
    unfolding exit_rows_eq [OF invq sg(1)] dims S using V cells by (simp add: r_def)
  define m where "m = exit_modes r"
  have m: "pf_grid m = (pf_grid r)\<lparr>g_modes := modes_of p\<rparr>"
    "pf_state m = (pf_state r)\<lparr>ss_modes := None\<rparr>"
    by (simp_all add: m_def exit_modes_def r_def q_eq)
  define c where "c = restore_cursor m"
  have saved: "ss_cursor (pf_state m) = Some \<lparr>cu_x = g_cx (pf_grid p), cu_y = g_cy (pf_grid p),
      cu_style = ss_style (pf_state p), cu_g0 = md_g0 (modes_of p), cu_g1 = md_g1 (modes_of p),
      cu_active = md_active (modes_of p), cu_autowrap = md_autowrap (modes_of p),
      cu_origin = md_origin (modes_of p), cu_wrap = g_wrap (pf_grid p)\<rparr>"
    by (simp add: m r_def q_eq save_cursor_def Let_def)
  have mdims: "cols_of m = cols_of p" "rows_of m = rows_of p" by (simp_all add: m r_def q_eq)
  have pos: "min (g_cx (pf_grid p)) (u16_sub (cols_of p) 1) = g_cx (pf_grid p)"
    "min (g_cy (pf_grid p)) (u16_sub (rows_of p) 1) = g_cy (pf_grid p)"
    using perf_invD [OF inv] by simp_all
  have c: "pf_grid c = (pf_grid m)\<lparr>g_cx := g_cx (pf_grid p), g_cy := g_cy (pf_grid p),
        g_wrap := g_wrap (pf_grid p)\<rparr>"
    "ss_style (pf_state c) = ss_style (pf_state p)" "ss_region (pf_state c) = ss_region (pf_state m)"
    unfolding c_def restore_cursor_def saved option.case Let_def
    by (simp_all add: mdims pos [unfolded One_nat_def]) (cases "modes_of p"; simp add: m pos [unfolded One_nat_def])
  have region: "ss_region (pf_state c) = Some (g_top (pf_grid p), g_bottom (pf_grid p))"
    by (simp add: c m r_def q_eq)
  have reg: "min (g_top (pf_grid p)) (rows_of p - 1) = g_top (pf_grid p)"
    "max (min (g_bottom (pf_grid p)) (rows_of p - 1)) (g_top (pf_grid p)) = g_bottom (pf_grid p)"
    using perf_invD(7,8) [OF inv] by simp_all
  have e: "pf_grid (exit_region c) = (pf_grid c)\<lparr>g_top := g_top (pf_grid p), g_bottom := g_bottom (pf_grid p)\<rparr>"
    "ss_style (pf_state (exit_region c)) = ss_style (pf_state p)"
    unfolding exit_region_def region option.case prod.case Let_def u16_sat_sub_eq
    by (simp_all add: c(1,2) mdims reg set_scroll_region_def del: One_nat_def)
  have "exit_alt_screen True q = Some (gset (compact_styles None) (exit_region c))"
    unfolding exit_alt_screen_steps [OF sg(2)] rows by (simp add: c_def m_def)
  then show ?thesis
    using q by (auto simp: e c m r_def q_eq)
qed

theorem alt_screen_roundtrip_witness:
  "\<exists>q r. enter_alt_screen True (perf_new 4 2 10) = Some q \<and> exit_alt_screen True q = Some r
     \<and> g_cells (pf_grid r) = g_cells (pf_grid (perf_new 4 2 10))"
  using alt_screen_roundtrip [OF perf_new_inv [of 4 2 10] perf_new_main] by (auto simp: u16_max_def)

subsection \<open>The cursor\<close>

text \<open>CUP moves to the given line and column, counted from 1 and clamped to the screen, or to the
  scroll region when origin mode is on, and cancels a deferred wrap.\<close>

theorem cursor_position_clamps:
  assumes inv: "perf_inv p" and q: "csi_dispatch wd [[line], [col]] [] (ch CHR ''H'') p = Some q"
  shows "g_cx (pf_grid q) = min (max col 1 - 1) (cols_of p - 1)
    \<and> g_cy (pf_grid q) = (if md_origin (modes_of p)
         then min (g_top (pf_grid p) + (max line 1 - 1)) (g_bottom (pf_grid p))
         else min (max line 1 - 1) (rows_of p - 1))
    \<and> \<not> g_wrap (pf_grid q)"
proof -
  have ps: "param [[line], [col]] 0 1 = max line 1" "param [[line], [col]] 1 1 = max col 1"
    by (auto simp: param_def)
  have q: "q = csi_cursor_position (max line 1) (max col 1) p"
    using q unfolding csi_dispatch_def ps by simp
  have b: "g_bottom (pf_grid p) \<le> u16_max" using perf_invD(4,8) [OF inv] by (simp add: u16_max_def)
  have sat: "min (u16_sat_add (g_top (pf_grid p)) n) (g_bottom (pf_grid p))
      = min (g_top (pf_grid p) + n) (g_bottom (pf_grid p))" for n
    using b by (simp add: u16_sat_add_def)
  show ?thesis
    unfolding q csi_cursor_position_def Let_def gset_simps u16_sat_sub_eq
    by (cases "md_origin (modes_of p)")
      (simp_all add: sat perf_invD(9,10) [OF inv] del: One_nat_def)
qed

theorem cursor_position_clamps_witness:
  "\<exists>q. csi_dispatch (\<lambda>_. Some 1) [[99], [3]] [] (ch CHR ''H'') (perf_new 4 2 10) = Some q
     \<and> g_cx (pf_grid q) = 2 \<and> g_cy (pf_grid q) = 1"
proof -
  let ?p = "perf_new 4 2 10"
  have inv: "perf_inv ?p" by (rule perf_new_inv) (simp_all add: u16_max_def)
  obtain q where q: "csi_dispatch (\<lambda>_. Some 1) [[99], [3]] [] (ch CHR ''H'') ?p = Some q"
    using csi_dispatch_ok [OF inv, of "\<lambda>_. Some 1" "[[99], [3]]" "[]" "ch CHR ''H''"] by (auto simp: ok_ex)
  have "cols_of ?p = 4" "rows_of ?p = 2" "\<not> md_origin (modes_of ?p)"
    by (simp_all add: perf_new_def grid_new_def sanitize_dimensions_def default_modes_def)
  then show ?thesis using cursor_position_clamps [OF inv q] q by (intro exI [of _ q]) simp
qed

subsection \<open>The history and what is still to be delivered\<close>

definition pending_rows :: "grid \<Rightarrow> row list" where
  "pending_rows g = drop (g_pending g) (scrollback_rows g)"

text \<open>C7. Scrolling up moves the lines of the scroll region up by one. On the main screen, with a region that starts at
  the first row and a history that is kept, the top row is appended to the history and to the queue of
  rows not yet delivered; at the limit the oldest row of the history goes, and the queue loses a row only
  when every row of the history is undelivered. In all other cases both stay as they are.\<close>

theorem scroll_up_queues_row:
  assumes inv: "grid_inv g" and bound: "\<not> in_alt \<Longrightarrow> g_sb_len g \<le> g_sb_limit g"
  shows "\<exists>g'. scroll_up in_alt fill g = Some g'
    \<and> grid_visible g' = insert_at (g_bottom g) (new_blank_row fill g) (remove_at (g_top g) (grid_visible g))
    \<and> (if \<not> in_alt \<and> g_top g = 0 \<and> 0 < g_sb_limit g
       then scrollback_rows g' = (if g_sb_len g < g_sb_limit g then scrollback_rows g else tl (scrollback_rows g))
              @ [grid_visible g ! 0]
          \<and> pending_rows g' = (if g_sb_len g = g_sb_limit g \<and> g_pending g = 0 then tl (pending_rows g) else pending_rows g)
              @ [grid_visible g ! 0]
       else scrollback_rows g' = scrollback_rows g \<and> pending_rows g' = pending_rows g)"
proof -
  let ?S = "scrollback_rows g" and ?top = "grid_visible g ! 0"
  have S: "length ?S = g_sb_len g" using inv by (rule grid_split)
  have P: "g_pending g \<le> g_sb_len g" using inv by (rule grid_invD)
  obtain g' where up: "scroll_up in_alt fill g = Some g'"
    and g': "scrollback_rows g' = scrollback_after in_alt g" "g_pending g' = pending_after in_alt g"
      "grid_visible g' = scroll_region_up (g_top g) (g_bottom g) (new_blank_row fill g) (grid_visible g)"
    by (simp add: scroll_up_eq [OF inv] scrollback_rows_def grid_visible_def)
  have vis: "grid_visible g' = insert_at (g_bottom g) (new_blank_row fill g) (remove_at (g_top g) (grid_visible g))"
    unfolding g'(3) scroll_region_up_def ..
  consider "\<not> captures in_alt g" | "captures in_alt g" "g_sb_len g < g_sb_limit g" | "captures in_alt g" "g_sb_len g = g_sb_limit g"
    using bound unfolding captures_def by (meson nat_less_le)
  then show ?thesis
  proof cases
    case 1
    then show ?thesis
      using up g' vis by (auto simp: captures_def scrollback_after_def pending_after_def pending_rows_def)
  next
    case 2
    then show ?thesis
      using S P up g' vis by (simp add: captures_def scrollback_after_def pending_after_def Let_def pending_rows_def)
  next
    case 3
    then have lim: "0 < g_sb_limit g" by (simp add: captures_def)
    then obtain s S' where SS: "?S = s # S'" using S 3(2) by (cases ?S) auto
    then have "length S' = g_sb_limit g - 1" using S 3(2) by simp
    then show ?thesis
      using 3 S P SS up g' vis
      by (cases "g_pending g") (simp_all add: captures_def scrollback_after_def pending_after_def Let_def pending_rows_def)
  qed
qed

theorem scroll_up_queues_row_witness:
  "\<exists>g'. scroll_up False default_cell (grid_new 4 2 10) = Some g'
     \<and> scrollback_rows g' = [row_new 4] \<and> pending_rows g' = [row_new 4]"
proof -
  let ?g = "grid_new 4 2 10"
  have "grid_inv ?g" by (rule grid_new_inv) (simp_all add: u16_max_def)
  moreover have "g_top ?g = 0" "g_sb_limit ?g = 10" "g_sb_len ?g = 0" "scrollback_rows ?g = []"
    "pending_rows ?g = []" "grid_visible ?g ! 0 = row_new 4"
    by (simp_all add: grid_new_def sanitize_dimensions_def scrollback_rows_def pending_rows_def grid_visible_def)
  ultimately show ?thesis using scroll_up_queues_row [of ?g False default_cell] by auto
qed












text \<open>The notification queue holds the last 50 notifications, oldest first.\<close>

theorem notifications_keep_last:
  assumes "length (ss_notifications s) \<le> 50"
  shows "ss_notifications (fold push_notification ds s)
    = drop (length (ss_notifications s @ ds) - 50) (ss_notifications s @ ds)"
  using assms
proof (induction ds arbitrary: s)
  case (Cons d ds)
  have q: "ss_notifications (push_notification d s) = drop (length (ss_notifications s) - 49) (ss_notifications s) @ [d]"
    using Cons.prems by (cases "ss_notifications s")
      (auto simp: push_notification_def Let_def MAX_QUEUED_NOTIFICATIONS_def)
  have "length (ss_notifications (push_notification d s)) \<le> 50" by (simp add: q)
  note IH = Cons.IH [OF this]
  show ?case
    using Cons.prems by (cases "length (ss_notifications s) = 50") (simp_all add: IH q)
qed simp

theorem notifications_keep_last_witness:
  "ss_notifications (fold push_notification [[1], [2]] state_default) = [[1], [2]]"
  using notifications_keep_last [of state_default "[[1], [2]]"] by (simp add: state_default_def)

subsection \<open>Resizing\<close>

text \<open>C11. Making the main screen taller, at any width, moves history rows back onto it instead of blank ones: as many rows
  of the history as there are new lines, or all of them, become visible and are fitted to the width; blank
  rows are added only when the history is too short, and the cursor stays on the row it was on. When all rows
  are already as wide as the new screen, every row is kept as it is.\<close>

theorem resize_taller_restores_history:
  assumes inv: "perf_inv p" and main: "\<not> ss_alt (pf_state p)" and rows: "rows_of p < rows" "rows \<le> u16_max" and cols: "0 < cols"
  shows "let q = screen_resize cols rows p; grow = rows - rows_of p; h = g_sb_len (pf_grid p) in
    g_cells (pf_grid q) = take (h - grow) (g_cells (pf_grid p))
      @ map (resize_row cols) (drop (h - grow) (g_cells (pf_grid p))) @ replicate (grow - h) (row_new cols)
    \<and> ((\<forall>r\<in>set (g_cells (pf_grid p)). length (row_cells r) = cols)
         \<longrightarrow> g_cells (pf_grid q) = g_cells (pf_grid p) @ replicate (grow - h) (row_new cols))
    \<and> g_sb_len (pf_grid q) = h - grow \<and> rows_of q = rows \<and> cols_of q = cols
    \<and> g_sb_len (pf_grid q) + g_cy (pf_grid q) = h + g_cy (pf_grid p)"
proof -
  let ?g = "pf_grid p"
  define n where "n = min (rows - rows_of p) (g_sb_len ?g)"
  define g' where "g' = resize_start rows p"
  define blanks where "blanks = replicate (rows - (rows_of p + n)) (row_new cols)"
  note d = perf_invD [OF inv]
  have g: "grid_inv ?g" using inv by (rule perf_inv_grid)
  have len: "length (g_cells ?g) = g_sb_len ?g + rows_of p" using g by (rule grid_invD)
  have nle: "n \<le> g_sb_len ?g" "n \<le> rows - rows_of p" "g_sb_len ?g - n = g_sb_len ?g - (rows - rows_of p)"
    by (auto simp: n_def)
  have cy: "u16_sat_add (g_cy ?g) n = g_cy ?g + n" "g_cy ?g + n < rows"
    using d(6) rows nle by (auto simp: u16_sat_add_def u16_max_def)
  have g': "g' = (restore_scrollback n ?g)\<lparr>g_cy := g_cy ?g + n\<rparr>"
    using main rows cy by (simp add: g'_def resize_start_def Let_def n_def)
  have cells: "g_cells g' = g_cells ?g" "g_sb_len g' = g_sb_len ?g - n" "g_cy g' = g_cy ?g + n"
    by (simp_all add: g')
  have vis: "length (grid_visible g') = rows_of p + n"
    using len nle by (simp add: grid_visible_def cells)
  have same: "map (resize_row cols) rs = rs" if "\<forall>r\<in>set rs. length (row_cells r) = cols" for rs
    using that by (simp add: map_idI resize_row_same)
  have "map (resize_row cols) blanks = blanks" by (rule same) (simp add: blanks_def)
  moreover have "resize_list rows (row_new cols) (grid_visible g') = grid_visible g' @ blanks"
    using vis nle rows by (auto simp: resize_list_def blanks_def)
  ultimately have V: "resized_visible cols rows (grid_visible g') = map (resize_row cols) (grid_visible g') @ blanks"
    by (simp add: resized_visible_def)
  have blank: "blanks = replicate (rows - rows_of p - g_sb_len ?g) (row_new cols)"
    unfolding blanks_def n_def by (rule arg_cong [of _ _ "\<lambda>k. replicate k (row_new cols)"]) auto
  have sb: "g_sb_len g' \<le> length (g_cells g')" using len by (simp add: cells)
  have m: "max cols 1 = cols" "max rows 1 = rows" using cols rows by auto
  have "screen_resize cols rows p = gset (grid_resize cols rows) (gset (\<lambda>_. g') p)"
    unfolding g'_def by (rule screen_resize_eq [OF rows(2)])
  then have q: "pf_grid (screen_resize cols rows p) = grid_resize cols rows g'" by simp
  have resized: "g_cells (grid_resize cols rows g') = take (g_sb_len ?g - n) (g_cells ?g)
      @ map (resize_row cols) (drop (g_sb_len ?g - n) (g_cells ?g)) @ blanks"
    unfolding grid_resize_eq [OF sb, of cols rows, unfolded m Let_def] V
    by (simp add: scrollback_rows_def grid_visible_def cells)
  have fits: "map (resize_row cols) (drop k (g_cells ?g)) = drop k (g_cells ?g)"
    if "\<forall>r\<in>set (g_cells ?g). length (row_cells r) = cols" for k
    by (rule same) (use that in \<open>auto dest: in_set_dropD\<close>)
  have rest: "g_sb_len (grid_resize cols rows g') = g_sb_len ?g - n" "g_rows (grid_resize cols rows g') = rows"
    "g_cols (grid_resize cols rows g') = cols" "g_cy (grid_resize cols rows g') = g_cy ?g + n"
    using cy by (simp_all add: grid_resize_eq [OF sb, of cols rows, unfolded m Let_def] cells)
  show ?thesis
    unfolding Let_def q resized rest nle(3) [symmetric] blank [symmetric]
    using fits nle(1) by simp
qed

theorem resize_taller_restores_history_witness:
  "rows_of (screen_resize 4 5 (perf_new 4 2 10)) = 5
   \<and> g_cells (pf_grid (screen_resize 4 5 (perf_new 4 2 10))) = replicate 5 (row_new 4)"
proof -
  have inv: "perf_inv (perf_new 4 2 10)" by (rule perf_new_inv) (simp_all add: u16_max_def)
  have dims: "rows_of (perf_new 4 2 10) = 2" "g_cells (pf_grid (perf_new 4 2 10)) = replicate 2 (row_new 4)"
    "g_sb_len (pf_grid (perf_new 4 2 10)) = 0"
    by (simp_all add: perf_new_def grid_new_def sanitize_dimensions_def numeral_2_eq_2)
  have "replicate 2 x @ replicate 3 x = replicate 5 x" for x :: row by (simp flip: replicate_add)
  then show ?thesis
    using resize_taller_restores_history [OF inv perf_new_main, of 5 4] dims resize_row_same [of "row_new 4" 4] by (simp add: u16_max_def Let_def)
qed

subsection \<open>Styles under collection\<close>

text \<open>C4. Taking a number for a style never changes what is displayed: it cannot panic, it keeps the style
  of every cell of the screen, the history and the saved main screen, also when it collects dead
  styles first, and the number it returns stands for the style unless the table is full of live ones.\<close>

theorem intern_keeps_display:
  assumes inv: "perf_inv p"
  shows "\<exists>i q. intern_with_gc s p = Some (i, q) \<and> perf_inv q
    \<and> g_cells (pf_grid q) = g_cells (pf_grid p) \<and> pf_state q = pf_state p
    \<and> (\<forall>r\<in>set (g_cells (pf_grid p)) \<union> set (saved_rows (ss_saved (pf_state p))). \<forall>ce\<in>set (row_cells r).
         tbl_get (g_table (pf_grid q)) (ce_style ce) = tbl_get (g_table (pf_grid p)) (ce_style ce))
    \<and> (tbl_get (g_table (pf_grid q)) i = s \<or> i = 0 \<and> tbl_is_full (g_table (pf_grid q)))"
proof -
  obtain i q where q: "intern_with_gc s p = Some (i, q)" "interned s p (i, q)"
    using intern_with_gc_ok [OF inv, of s] by (auto simp: ok_ex)
  then have step: "tbl_step p q" by (simp add: interned_def)
  then have same: "same_styles p (g_table (pf_grid q))" by (auto simp: tbl_step_def)
  then show ?thesis
    using q tbl_stepD [OF step] by (auto simp: interned_def same_styles_def)
qed

theorem intern_keeps_display_witness:
  "\<exists>i q. intern_with_gc (default_style\<lparr>st_bold := True\<rparr>) (perf_new 4 2 10) = Some (i, q) \<and> perf_inv q"
  using intern_keeps_display [OF perf_new_inv [of 4 2 10], of "default_style\<lparr>st_bold := True\<rparr>"]
  by (auto simp: u16_max_def)

subsection \<open>Rendering\<close>

text \<open>C9. Rendering never panics on a reachable screen, and a second incremental render of an unchanged
  screen sends nothing and leaves the cache as it is.\<close>

theorem render_twice_is_silent:
  assumes "perf_inv p"
  shows "\<exists>out c'. render_screen hash (pf_grid p) title full c = Some (out, c')
    \<and> render_screen hash (pf_grid p) title False c' = Some ([], c')"
  using render_cache_after [OF perf_inv_grid [OF assms], of hash title "[]" full c]
    render_again [OF perf_inv_grid [OF assms], of hash title]
  by (auto simp: render_screen_def)

theorem render_twice_is_silent_witness:
  "\<exists>out c'. render_screen (\<lambda>_. 7) (pf_grid (perf_new 4 2 10)) [] True cache_new = Some (out, c')
     \<and> render_screen (\<lambda>_. 7) (pf_grid (perf_new 4 2 10)) [] False c' = Some ([], c')"
  using render_twice_is_silent [OF perf_new_inv [of 4 2 10]] by (simp add: u16_max_def)

text \<open>C10. The renderer on the grid and the renderer on a terminal emulator send the same bytes and leave
  the same cache, when the visible cells use one number per style.\<close>

theorem ansi_renderer_equivalent:
  assumes "perf_inv p" "\<forall>r\<in>set (visible_rows (pf_grid p)). canonical_cells (g_table (pf_grid p)) (row_cells r)"
  shows "render_screen hash (pf_grid p) title full c = Some (ansi_render hash (pf_grid p) title full c)"
  by (rule renderers_agree [OF perf_inv_grid [OF assms(1)] assms(2)])

theorem ansi_renderer_equivalent_witness:
  "render_screen (\<lambda>_. 7) (pf_grid (perf_new 4 2 10)) [] True cache_new
     = Some (ansi_render (\<lambda>_. 7) (pf_grid (perf_new 4 2 10)) [] True cache_new)"
proof (rule ansi_renderer_equivalent)
  show "perf_inv (perf_new 4 2 10)" by (rule perf_new_inv) (simp_all add: u16_max_def)
  have "visible_rows (pf_grid (perf_new 4 2 10)) = replicate 2 (row_new 4)"
    by (simp add: perf_new_def grid_new_def sanitize_dimensions_def visible_rows_def numeral_2_eq_2)
  then show "\<forall>r\<in>set (visible_rows (pf_grid (perf_new 4 2 10))).
      canonical_cells (g_table (pf_grid (perf_new 4 2 10))) (row_cells r)"
    by (auto simp: canonical_cells_def default_cell_def)
qed

end
