(* ===== verification/Wide.thy ===== *)
theory Wide
  imports Performer_Inv
begin

section \<open>Double-width characters keep their two cells\<close>

text \<open>
  \<open>wide_ok cs\<close>: every cell of width 2 is followed by its continuation of width 0 and every
  continuation follows its base. Writing, erasing, inserting, deleting and resizing keep it, by way of
  the fix-ups the source makes at the edges of what it overwrites.
\<close>

definition wide_ok :: "cell list \<Rightarrow> bool" where
  "wide_ok cs \<longleftrightarrow> (\<forall>i < length cs. ce_width (cs ! i) \<le> 2
     \<and> (ce_width (cs ! i) = 2 \<longrightarrow> Suc i < length cs \<and> ce_width (cs ! Suc i) = 0)
     \<and> (ce_width (cs ! i) = 0 \<longrightarrow> 0 < i \<and> ce_width (cs ! (i - 1)) = 2))"

lemma wide_okD:
  assumes "wide_ok cs" "i < length cs"
  shows "ce_width (cs ! i) = 2 \<Longrightarrow> Suc i < length cs" "ce_width (cs ! i) = 2 \<Longrightarrow> ce_width (cs ! Suc i) = 0"
    "ce_width (cs ! i) = 0 \<Longrightarrow> 0 < i" "ce_width (cs ! i) = 0 \<Longrightarrow> ce_width (cs ! (i - 1)) = 2"
    "ce_width (cs ! i) = 0 \<or> ce_width (cs ! i) = 1 \<or> ce_width (cs ! i) = 2"
  using assms by (auto simp: wide_ok_def le_Suc_eq numeral_2_eq_2)

text \<open>The widths alone decide it.\<close>

definition widths :: "cell list \<Rightarrow> nat list" where
  "widths cs = map ce_width cs"

definition wd_ok :: "nat list \<Rightarrow> bool" where
  "wd_ok ws \<longleftrightarrow> (\<forall>i < length ws. ws ! i \<le> 2
     \<and> (ws ! i = 2 \<longrightarrow> Suc i < length ws \<and> ws ! Suc i = 0)
     \<and> (ws ! i = 0 \<longrightarrow> 0 < i \<and> ws ! (i - 1) = 2))"

lemma wide_ok_widths: "wide_ok cs \<longleftrightarrow> wd_ok (widths cs)"
  by (auto simp: wide_ok_def wd_ok_def widths_def)

lemma wd_okD:
  assumes "wd_ok ws" "i < length ws"
  shows "ws ! i = 2 \<Longrightarrow> Suc i < length ws \<and> ws ! Suc i = 0"
    "ws ! i = 0 \<Longrightarrow> 0 < i \<and> ws ! (i - 1) = 2" "ws ! i \<le> 2"
  using assms by (auto simp: wd_ok_def)

lemma wd_okI:
  assumes "\<And>i. i < length ws \<Longrightarrow> ws ! i \<le> 2"
    "\<And>i. i < length ws \<Longrightarrow> ws ! i = 2 \<Longrightarrow> Suc i < length ws \<and> ws ! Suc i = 0"
    "\<And>i. Suc i < length ws \<Longrightarrow> ws ! Suc i = 0 \<Longrightarrow> ws ! i = 2" "ws \<noteq> [] \<Longrightarrow> ws ! 0 \<noteq> 0"
  shows "wd_ok ws"
  unfolding wd_ok_def
proof (intro allI impI conjI)
  fix i
  assume i: "i < length ws"
  then show "ws ! i \<le> 2" by (rule assms(1))
  show "Suc i < length ws" "ws ! Suc i = 0" if "ws ! i = 2" using assms(2) [OF i that] by auto
  show "0 < i" if "ws ! i = 0" using that assms(4) i by (cases i) auto
  then show "ws ! (i - 1) = 2" if "ws ! i = 0" using that assms(3) [of "i - 1"] i by simp
qed

text \<open>\<open>cut ws k\<close>: no character straddles the boundary before column \<open>k\<close>.\<close>

definition cut :: "nat list \<Rightarrow> nat \<Rightarrow> bool" where
  "cut ws k \<longleftrightarrow> k \<ge> length ws \<or> ws ! k \<noteq> 0"

lemma wd_ok_append: "wd_ok (us @ vs) \<longleftrightarrow> wd_ok us \<and> wd_ok vs" if "cut (us @ vs) (length us)"
proof
  assume ok: "wd_ok (us @ vs)"
  have "wd_ok us"
  proof (rule wd_okI)
    fix i
    assume i: "i < length us"
    then show "us ! i \<le> 2" using wd_okD(3) [OF ok, of i] by (simp add: nth_append)
    assume "us ! i = 2"
    then have "Suc i < length (us @ vs)" "(us @ vs) ! Suc i = 0"
      using wd_okD(1) [OF ok, of i] i by (auto simp: nth_append)
    moreover from this have "Suc i \<noteq> length us" using that by (auto simp: cut_def)
    ultimately show "Suc i < length us \<and> us ! Suc i = 0" using i by (simp add: nth_append)
  next
    fix i
    assume "Suc i < length us" "us ! Suc i = 0"
    then show "us ! i = 2" using wd_okD(2) [OF ok, of "Suc i"] by (simp add: nth_append)
  next
    assume "us \<noteq> []"
    then show "us ! 0 \<noteq> 0" using wd_okD(2) [OF ok, of 0] by (auto simp: nth_append)
  qed
  moreover have "wd_ok vs"
  proof (rule wd_okI)
    fix i
    assume i: "i < length vs"
    then show "vs ! i \<le> 2" using wd_okD(3) [OF ok, of "length us + i"] by simp
    assume "vs ! i = 2"
    then show "Suc i < length vs \<and> vs ! Suc i = 0"
      using wd_okD(1) [OF ok, of "length us + i"] i by (simp add: nth_append)
  next
    fix i
    assume "Suc i < length vs" "vs ! Suc i = 0"
    then show "vs ! i = 2" using wd_okD(2) [OF ok, of "length us + Suc i"] by (simp add: nth_append)
  next
    assume "vs \<noteq> []"
    then show "vs ! 0 \<noteq> 0" using that by (simp add: cut_def nth_append)
  qed
  ultimately show "wd_ok us \<and> wd_ok vs" ..
next
  assume ok: "wd_ok us \<and> wd_ok vs"
  show "wd_ok (us @ vs)"
  proof (rule wd_okI)
    fix i
    assume i: "i < length (us @ vs)"
    show "(us @ vs) ! i \<le> 2"
      using i ok wd_okD(3) [of us i] wd_okD(3) [of vs "i - length us"] by (auto simp: nth_append)
    assume two: "(us @ vs) ! i = 2"
    show "Suc i < length (us @ vs) \<and> (us @ vs) ! Suc i = 0"
    proof (cases "i < length us")
      case True
      then show ?thesis using ok two wd_okD(1) [of us i] by (auto simp: nth_append)
    next
      case False
      then have "i - length us < length vs" using i by auto
      moreover have "vs ! (i - length us) = 2" using two False by (simp add: nth_append)
      ultimately have "Suc (i - length us) < length vs \<and> vs ! Suc (i - length us) = 0"
        using ok wd_okD(1) by blast
      then show ?thesis using False by (auto simp: nth_append Suc_diff_le)
    qed
  next
    fix i
    assume "Suc i < length (us @ vs)" "(us @ vs) ! Suc i = 0"
    then show "(us @ vs) ! i = 2"
      using ok wd_okD(2) [of us "Suc i"] wd_okD(2) [of vs "Suc i - length us"]
      by (cases "Suc i < length us"; cases "Suc i = length us") (auto simp: nth_append not_less Suc_diff_le)
  next
    assume "us @ vs \<noteq> []"
    then show "(us @ vs) ! 0 \<noteq> 0"
      using ok wd_okD(2) [of us 0] wd_okD(2) [of vs 0] by (cases us) (auto simp: nth_append)
  qed
qed

lemma wd_ok_ones [simp]: "wd_ok (replicate n (Suc 0))"
  by (simp add: wd_ok_def)

lemma wd_ok_pair [simp]: "wd_ok [2, 0]" "wd_ok [Suc 0]" "wd_ok []"
  by (auto simp: wd_ok_def nth_Cons split: nat.splits)

text \<open>Splitting a row at a cut.\<close>

lemma wd_ok_split: "wd_ok ws \<Longrightarrow> cut ws k \<Longrightarrow> k \<le> length ws \<Longrightarrow> wd_ok (take k ws) \<and> wd_ok (drop k ws)"
  using wd_ok_append [of "take k ws" "drop k ws"] by (simp add: min_def)

text \<open>Parts that are fine on their own can be put together.\<close>

lemma wd_ok_join: "wd_ok us \<Longrightarrow> wd_ok vs \<Longrightarrow> wd_ok (us @ vs)"
proof -
  assume a: "wd_ok us" "wd_ok vs"
  then have "cut (us @ vs) (length us)" using wd_okD(2) [of vs 0] by (auto simp: cut_def nth_append)
  then show ?thesis using a wd_ok_append by blast
qed

lemma pair_split:
  assumes ok: "wd_ok ws" and i: "i < length ws" "ws ! i = 2"
  shows "ws = take i ws @ [2, 0] @ drop (i + 2) ws" "wd_ok (take i ws)" "wd_ok (drop (i + 2) ws)"
proof -
  have n: "Suc i < length ws" "ws ! Suc i = 0" using wd_okD(1) [OF ok i] by auto
  have "drop i ws = 2 # 0 # drop (i + 2) ws"
    using i n by (simp add: Cons_nth_drop_Suc [symmetric])
  then show "ws = take i ws @ [2, 0] @ drop (i + 2) ws" by (metis append_Cons append_Nil append_take_drop_id)
  have "cut ws i" using i by (simp add: cut_def)
  then show "wd_ok (take i ws)" using wd_ok_split [OF ok, of i] i by simp
  have "cut ws (i + 2)"
  proof (cases "i + 2 < length ws")
    case True
    then show ?thesis using wd_okD(2) [OF ok True] n by (auto simp: cut_def)
  qed (simp add: cut_def)
  then show "wd_ok (drop (i + 2) ws)" using wd_ok_split [OF ok, of "i + 2"] n by simp
qed

lemma single_split:
  assumes ok: "wd_ok ws" and i: "i < length ws" "ws ! i = 1"
  shows "ws = take i ws @ [1] @ drop (Suc i) ws" "wd_ok (take i ws)" "wd_ok (drop (Suc i) ws)"
proof -
  show "ws = take i ws @ [1] @ drop (Suc i) ws"
    using i by (metis append_Cons append_Nil id_take_nth_drop)
  have "cut ws i" using i by (simp add: cut_def)
  then show "wd_ok (take i ws)" using wd_ok_split [OF ok, of i] i by simp
  have "cut ws (Suc i)"
    using wd_okD(2) [OF ok, of "Suc i"] i by (cases "Suc i < length ws") (auto simp: cut_def)
  then show "wd_ok (drop (Suc i) ws)" using wd_ok_split [OF ok, of "Suc i"] i by simp
qed

subsection \<open>The operations on the widths of a row\<close>

definition fix_w :: "nat \<Rightarrow> nat list \<Rightarrow> nat list" where
  "fix_w x ws =
     (if ws ! x = 2 then (if x + 1 < length ws then ws[x + 1 := 1] else ws)[x := 1]
      else if ws ! x = 0 \<and> x > 0 then (ws[x - 1 := 1])[x := 1] else ws)"

definition set_w :: "nat \<Rightarrow> nat \<Rightarrow> nat list \<Rightarrow> nat list" where
  "set_w x w ws =
     (let ws = (fix_w x ws)[x := w]
      in if w = 2 \<and> x + 1 < length ws then (fix_w (x + 1) ws)[x + 1 := 0] else ws)"

definition fill_w :: "nat \<Rightarrow> nat \<Rightarrow> nat list \<Rightarrow> nat list" where
  "fill_w from to ws = fold (\<lambda>i ws. ws[i := 1]) [from..<to] ws"

definition erase_w :: "nat \<Rightarrow> nat \<Rightarrow> nat list \<Rightarrow> nat list" where
  "erase_w from to ws =
     (let ws = fix_w from ws; ws = (if to < length ws then fix_w to ws else ws) in fill_w from to ws)"

lemma length_fix_w [simp]: "length (fix_w x ws) = length ws"
  by (simp add: fix_w_def)

lemma fill_w_eq: "from \<le> to \<Longrightarrow> to \<le> length ws \<Longrightarrow>
    fill_w from to ws = take from ws @ replicate (to - from) 1 @ drop to ws"
proof (induction to)
  case (Suc to)
  show ?case
  proof (cases "from = Suc to")
    case False
    then have le: "from \<le> to" "to \<le> length ws" using Suc.prems by auto
    have "fill_w from (Suc to) ws = (take from ws @ replicate (to - from) 1 @ drop to ws)[to := 1]"
      using Suc.IH [OF le] le by (simp add: fill_w_def)
    also have "\<dots> = take from ws @ replicate (to - from) 1 @ (drop to ws)[0 := 1]"
      using le by (simp add: list_update_append)
    also have "(drop to ws)[0 := 1] = 1 # drop (Suc to) ws"
      using Suc.prems by (simp add: Cons_nth_drop_Suc [symmetric])
    finally show ?thesis using le by (simp add: Suc_diff_le replicate_append_same [symmetric])
  qed (simp add: fill_w_def)
qed (simp add: fill_w_def)

lemma fix_w_ok:
  assumes ok: "wd_ok ws" and x: "x < length ws"
  shows "wd_ok (fix_w x ws)" "fix_w x ws ! x = 1"
proof -
  have one: "wd_ok (take i ws @ [1, 1] @ drop (i + 2) ws)" if "i < length ws" "ws ! i = 2" for i
    using pair_split(2,3) [OF ok that] wd_ok_ones [of 2]
    by (intro wd_ok_join) (simp_all add: numeral_2_eq_2)
  have upd: "(ws[i + 1 := 1])[i := 1] = take i ws @ [1, 1] @ drop (i + 2) ws"
    "(ws[i := 1])[i + 1 := 1] = take i ws @ [1, 1] @ drop (i + 2) ws"
    if "i < length ws" "ws ! i = 2" for i
  proof -
    let ?u = "take i ws" and ?v = "drop (i + 2) ws"
    have e: "ws = ?u @ [2, 0] @ ?v" and l: "length ?u = i" using pair_split(1) [OF ok that] that by auto
    have "((?u @ [2, 0] @ ?v)[i + 1 := 1])[i := 1] = ?u @ [1, 1] @ ?v"
      "((?u @ [2, 0] @ ?v)[i := 1])[i + 1 := 1] = ?u @ [1, 1] @ ?v"
      using l by (simp_all add: list_update_append)
    then show "(ws[i + 1 := 1])[i := 1] = ?u @ [1, 1] @ ?v" "(ws[i := 1])[i + 1 := 1] = ?u @ [1, 1] @ ?v"
      using e by metis+
  qed
  consider (two) "ws ! x = 2" | (zero) "ws ! x = 0" | (other) "ws ! x \<noteq> 2" "ws ! x \<noteq> 0" by blast
  then show "wd_ok (fix_w x ws)"
  proof cases
    case two
    then show ?thesis using one [OF x two] upd(1) [OF x two] wd_okD(1) [OF ok x two] by (simp add: fix_w_def)
  next
    case zero
    then have z: "0 < x" "ws ! (x - 1) = 2" "x - 1 < length ws" using wd_okD(2) [OF ok x] x by auto
    then have "fix_w x ws = (ws[x - 1 := 1])[x - 1 + 1 := 1]" using zero by (simp add: fix_w_def)
    then show ?thesis using one [OF z(3,2)] upd(2) [OF z(3,2)] by simp
  qed (use ok in \<open>simp add: fix_w_def\<close>)
  have "ws ! x = 0 \<or> ws ! x = 1 \<or> ws ! x = 2" using wd_okD(3) [OF ok x] by linarith
  then show "fix_w x ws ! x = 1"
    using wd_okD(2) [OF ok x] x by (auto simp: fix_w_def)
qed

lemma set_w_ok:
  assumes ok: "wd_ok ws" and x: "x < length ws" and w: "w = 1 \<or> w = 2 \<and> x + 1 < length ws"
  shows "wd_ok (set_w x w ws)"
proof -
  let ?f = "fix_w x ws"
  have f: "wd_ok ?f" "?f ! x = 1" "x < length ?f" using fix_w_ok [OF ok x] x by auto
  show ?thesis
  proof (cases "w = 1")
    case True
    then show ?thesis using f by (simp add: set_w_def Let_def) (metis list_update_id One_nat_def)
  next
    case False
    then have w: "w = 2" and x1: "x + 1 < length ?f" using w by auto
    let ?u = "take x ?f"
    have u: "wd_ok ?u" "length ?u = x" using single_split(2) [OF f(1,3,2)] f(3) by auto
    have d: "wd_ok (drop (Suc x) ?f)" by (rule single_split(3) [OF f(1,3,2)])
    have e: "?f = ?u @ [1] @ drop (Suc x) ?f" by (rule single_split(1) [OF f(1,3,2)])
    then obtain v vs where vs: "drop (Suc x) ?f = v # vs" using x1 by (cases "drop (Suc x) ?f") auto
    have upd: "?f[x := 2] = ?u @ 2 # v # vs"
      using e u(2) vs by (metis append_Cons append_Nil list_update_length)
    have d: "wd_ok (v # vs)" using d vs by simp
    have v0: "v \<noteq> 0" using wd_okD(2) [OF d, of 0] by auto
    have "set_w x 2 ws = (fix_w (x + 1) (?u @ 2 # v # vs))[x + 1 := 0]"
      using x1 by (simp add: set_w_def Let_def upd)
    also have "\<dots> = ?u @ [2, 0] @ (if v = 2 \<and> vs \<noteq> [] then 1 # tl vs else vs)"
      using u(2) v0 by (cases vs) (auto simp: fix_w_def nth_append list_update_append)
    also have "wd_ok \<dots>"
    proof (intro wd_ok_join u(1) wd_ok_pair)
      have "wd_ok (tl (v # vs))" if "v \<noteq> 2"
      proof -
        have "v = 1" using that v0 wd_okD(3) [OF d, of 0] by auto
        then show ?thesis using single_split(3) [OF d, of 0] by simp
      qed
      moreover have "vs \<noteq> [] \<and> wd_ok (1 # tl vs)" if "v = 2"
      proof -
        have "wd_ok (tl vs)" using pair_split(3) [OF d, of 0] that by (simp add: drop_Suc)
        then have "wd_ok ([1] @ tl vs)" using wd_ok_join [OF wd_ok_pair(2)] by simp
        then show ?thesis using pair_split(1) [OF d, of 0] that by auto
      qed
      ultimately show "wd_ok (if v = 2 \<and> vs \<noteq> [] then 1 # tl vs else vs)" by auto
    qed
    finally show ?thesis by (simp add: w)
  qed
qed

lemma erase_w_ok:
  assumes ok: "wd_ok ws" and b: "from < to" "to \<le> length ws"
  shows "wd_ok (erase_w from to ws)"
proof -
  let ?f = "fix_w from ws"
  let ?h = "if to < length ?f then fix_w to ?f else ?f"
  have f: "wd_ok ?f" "?f ! from = 1" using fix_w_ok [OF ok, of "from"] b by auto
  have h: "wd_ok ?h" using fix_w_ok(1) [OF f(1)] f(1) by auto
  have "?h ! from \<noteq> 0" using f(2) b by (auto simp: fix_w_def nth_list_update)
  then have "wd_ok (take from ?h)" using wd_ok_split [OF h, of "from"] b by (auto simp: cut_def)
  moreover have "wd_ok (drop to ?h)"
    using wd_ok_split [OF h, of to] fix_w_ok(2) [OF f(1), of to] b by (auto simp: cut_def)
  ultimately have "wd_ok (take from ?h @ replicate (to - from) 1 @ drop to ?h)"
    using wd_ok_ones [of "to - from"] by (intro wd_ok_join) simp_all
  then show ?thesis
    using b fill_w_eq [of "from" to ?h] by (simp add: erase_w_def Let_def)
qed

subsection \<open>The operations of the grid, on the widths of its rows\<close>

definition row_widths :: "grid \<Rightarrow> nat list list" where
  "row_widths g = map (\<lambda>r. widths (row_cells r)) (grid_visible g)"

definition screen_wide_ok :: "grid \<Rightarrow> bool" where
  "screen_wide_ok g \<longleftrightarrow> (\<forall>r\<in>set (grid_visible g). wide_ok (row_cells r))"

lemma screen_wide_ok_widths: "screen_wide_ok g \<longleftrightarrow> (\<forall>ws\<in>set (row_widths g). wd_ok ws)"
  by (auto simp: screen_wide_ok_def row_widths_def wide_ok_widths)

text \<open>\<open>wstep y W g g'\<close>: a content step that changes the widths of row \<open>y\<close> by \<open>W\<close> and no other row's.\<close>

definition wstep :: "usize \<Rightarrow> (nat list \<Rightarrow> nat list) \<Rightarrow> grid \<Rightarrow> grid \<Rightarrow> bool" where
  "wstep y W g g' \<longleftrightarrow> content_step g g' \<and> row_widths g' = (row_widths g)[y := W (row_widths g ! y)]"

lemma length_row_widths: "grid_inv g \<Longrightarrow> length (row_widths g) = g_rows g"
  by (simp add: row_widths_def grid_split)

lemma row_widths_nth:
  "grid_inv g \<Longrightarrow> y < g_rows g \<Longrightarrow> row_widths g ! y = widths (row_cells (g_cells g ! (g_sb_len g + y)))"
  using grid_split(3) [of g] grid_invD(6) [of g] by (simp add: row_widths_def grid_visible_def)

lemma row_widths_cols: "grid_inv g \<Longrightarrow> y < g_rows g \<Longrightarrow> length (row_widths g ! y) = g_cols g"
  using grid_inv_visible(2) [of g y] by (simp add: row_widths_nth row_fits_def widths_def)

lemma wstep_refl: "grid_inv g \<Longrightarrow> (\<And>ws. W ws = ws) \<Longrightarrow> wstep y W g g"
  by (simp add: wstep_def)

lemma wstep_trans:
  assumes "wstep y W g g'" "wstep y W' g' g''" "grid_inv g" "y < g_rows g"
  shows "wstep y (\<lambda>ws. W' (W ws)) g g''"
  using assms length_row_widths [OF assms(3)] content_step_trans by (auto simp: wstep_def)

lemma wstep_content: "wstep y W g g' \<Longrightarrow> content_step g g'"
  by (simp add: wstep_def)

lemma row_mut_wstep:
  assumes g: "grid_inv g" and y: "y < g_rows g"
    and f: "\<And>r. row_fits g r \<Longrightarrow> widths (row_cells r) = row_widths g ! y \<Longrightarrow>
      ok (\<lambda>r'. row_fits g r' \<and> widths (row_cells r') = W (widths (row_cells r))) (f r)"
  shows "ok (wstep y W g) (visible_row_mut y f g)"
proof -
  let ?k = "g_sb_len g + y" and ?r = "g_cells g ! (g_sb_len g + y)"
  have w: "widths (row_cells ?r) = row_widths g ! y" using row_widths_nth [OF g y] by simp
  obtain r' where r': "f ?r = Some r'" "row_fits g r'" "widths (row_cells r') = W (widths (row_cells ?r))"
    using f [OF grid_inv_visible(2) [OF g y] w] by (auto simp: ok_ex)
  let ?g = "g\<lparr>g_cells := (g_cells g)[?k := r']\<rparr>"
  have "content_step g ?g" using g y r'(2) by (rule content_step_update)
  moreover have "row_widths ?g = (row_widths g)[y := widths (row_cells r')]"
    by (simp add: row_widths_def grid_visible_def list_surgery map_update)
  ultimately have "wstep y W g ?g" using r'(3) w by (simp add: wstep_def)
  then show ?thesis
    by (simp add: visible_row_mut_def grid_inv_visible(1) [OF g y] r'(1))
qed

lemma ok_wstep_bind:
  assumes "ok (wstep y W g) m" "grid_inv g" "y < g_rows g" "\<And>g'. wstep y W g g' \<Longrightarrow> ok (wstep y W' g') (f g')"
  shows "ok (wstep y (\<lambda>ws. W' (W ws)) g) (Option.bind m f)"
proof -
  from assms(1) obtain g' where g': "m = Some g'" "wstep y W g g'" by (auto simp: ok_ex)
  show ?thesis
    using ok_mono [OF assms(4) [OF g'(2)], of "wstep y (\<lambda>ws. W' (W ws)) g"] wstep_trans [OF g'(2) _ assms(2,3)] g'
    by simp
qed

lemma wstep_cong: "ok (wstep y W g) m \<Longrightarrow> W (row_widths g ! y) = W' (row_widths g ! y) \<Longrightarrow> ok (wstep y W' g) m"
  by (erule ok_mono) (simp add: wstep_def)

lemma widths_simps [simp]: "length (widths cs) = length cs" "widths (cs[x := ce]) = (widths cs)[x := ce_width ce]"
  "x < length cs \<Longrightarrow> widths cs ! x = ce_width (cs ! x)" "widths (cs @ ds) = widths cs @ widths ds"
  "widths (replicate n ce) = replicate n (ce_width ce)" "widths (take n cs) = take n (widths cs)"
  "widths (drop n cs) = drop n (widths cs)" "widths [] = []" "widths (ce # cs) = ce_width ce # widths cs"
  by (simp_all add: widths_def map_update take_map drop_map)

lemma set_row_wstep:
  assumes "grid_inv g" "y < g_rows g" "x < g_cols g" "cell_live (g_table g) ce"
  shows "ok (wstep y (\<lambda>ws. ws[x := ce_width ce]) g) (visible_row_mut y (row_set x ce) g)"
  using assms by (intro row_mut_wstep)
    (auto simp: row_set_def row_fits_def row_live_def dest: set_update_subset_insert [THEN subsetD])

lemma set_row_mark_wstep:
  assumes "grid_inv g" "y < g_rows g" "x < g_cols g" "cell_live (g_table g) ce"
  shows "ok (wstep y (\<lambda>ws. ws[x := ce_width ce]) g)
    (visible_row_mut y (\<lambda>r. map_option (clear_combining k) (row_set x ce r)) g)"
  using assms by (intro row_mut_wstep)
    (auto simp: row_set_def row_fits_def row_live_def dest: set_update_subset_insert [THEN subsetD])

lemma default_width [simp]: "ce_width default_cell = 1"
  by (simp add: default_cell_def)

lemma fixup_wstep:
  assumes g: "grid_inv g" and y: "y < g_rows g" and x: "x < g_cols g"
  shows "ok (wstep y (fix_w x) g) (fixup_wide_char_at x y g)"
proof -
  let ?r = "g_cells g ! (g_sb_len g + y)" and ?ws = "row_widths g ! y"
  have w: "ce_width (row_cells ?r ! x) = ?ws ! x" and len: "x < length (row_cells ?r)" "length ?ws = g_cols g"
    using row_widths_nth [OF g y] row_widths_cols [OF g y] x by auto
  have live: "cell_live (g_table g) default_cell" using grid_invD(12) [OF g] by simp
  have one: "ok (wstep y (\<lambda>ws. ws[k := 1]) g') (visible_row_mut y (row_set k default_cell) g')"
    if "content_step g g'" "k < g_cols g" for g' k
    using set_row_wstep [of g' y k default_cell] that content_stepD [OF that(1)] y live by simp
  have two: "ok (wstep y (\<lambda>ws. (ws[k := 1])[x := 1]) g)
      (do { g \<leftarrow> visible_row_mut y (row_set k default_cell) g; visible_row_mut y (row_set x default_cell) g })"
    if "k < g_cols g" for k
    by (rule ok_wstep_bind [OF one [OF content_step_refl [OF g] that] g y])
      (rule one [OF wstep_content x])
  have unfold: "fixup_wide_char_at x y g =
     (if ?ws ! x = 2 then do {
          g \<leftarrow> (if x + 1 < g_cols g then visible_row_mut y (row_set (x + 1) default_cell) g else Some g);
          visible_row_mut y (row_set x default_cell) g }
      else if ?ws ! x = 0 \<and> x > 0 then do {
          g \<leftarrow> visible_row_mut y (row_set (x - 1) default_cell) g;
          visible_row_mut y (row_set x default_cell) g }
      else Some g)"
    using x y len(1) by (simp add: fixup_wide_char_at_def grid_inv_visible(1) [OF g y] row_at_def w)
  consider (pair) "?ws ! x = 2" "x + 1 < g_cols g" | (edge) "?ws ! x = 2" "\<not> x + 1 < g_cols g"
    | (cont) "?ws ! x \<noteq> 2" "?ws ! x = 0 \<and> x > 0" | (single) "?ws ! x \<noteq> 2" "\<not> (?ws ! x = 0 \<and> x > 0)" by blast
  then show ?thesis
  proof cases
    case pair
    then show ?thesis using wstep_cong [OF two [OF pair(2)], of "fix_w x"] len by (simp add: unfold fix_w_def)
  next
    case edge
    then show ?thesis
      using wstep_cong [OF one [OF content_step_refl [OF g] x], of "fix_w x"] len by (simp add: unfold fix_w_def)
  next
    case cont
    then show ?thesis using wstep_cong [OF two [of "x - 1"], of "fix_w x"] x by (simp add: unfold fix_w_def)
  next
    case single
    then show ?thesis unfolding unfold using g by (auto simp: wstep_def fix_w_def)
  qed
qed

lemma set_cell_wstep:
  assumes g: "grid_inv g" and y: "y < g_rows g" and x: "x < g_cols g" and live: "cell_live (g_table g) ce"
  shows "ok (wstep y (set_w x (ce_width ce)) g) (set_cell x y ce g)"
proof -
  let ?mark = "\<lambda>k ce. visible_row_mut y (\<lambda>r. map_option (clear_combining (as_u16 k)) (row_set k ce r))"
  have mark: "ok (wstep y (\<lambda>ws. ws[k := ce_width c]) g') (?mark k c g')"
    if "content_step g g'" "k < g_cols g" "cell_live (g_table g) c" for g' k c
    using set_row_mark_wstep [of g' y k c] that content_stepD [OF that(1)] y by simp
  have fix': "ok (wstep y (fix_w k) g') (fixup_wide_char_at k y g')"
    if "content_step g g'" "k < g_cols g" for g' k
    using fixup_wstep [of g' y k] that content_stepD [OF that(1)] y by simp
  have first: "ok (wstep y (\<lambda>ws. (fix_w x ws)[x := ce_width ce]) g)
      (do { g \<leftarrow> fixup_wide_char_at x y g; ?mark x ce g })"
    by (rule ok_wstep_bind [OF fix' [OF content_step_refl [OF g] x] g y]) (rule mark [OF wstep_content x live])
  have cont: "cell_live (g_table g) (cell_new 0 (ce_style ce) 0)" "ce_width (cell_new 0 (ce_style ce) 0) = 0"
    using live by (simp_all add: cell_live_def cell_new_def)
  have second: "ok (wstep y (\<lambda>ws. (fix_w (x + 1) ws)[x + 1 := 0]) g')
      (do { g \<leftarrow> fixup_wide_char_at (x + 1) y g'; ?mark (x + 1) (cell_new 0 (ce_style ce) 0) g })"
    if "content_step g g'" "x + 1 < g_cols g" for g'
    using content_stepD [OF that(1)] y
    by (intro ok_wstep_bind [OF fix' [OF that]] mark [OF _ that(2) cont(1), unfolded cont(2)])
      (auto dest: wstep_content intro: content_step_trans [OF that(1)])
  have len: "length (row_widths g ! y) = g_cols g" using row_widths_cols [OF g y] .
  let ?rest = "\<lambda>g'. if ce_width ce = 2 \<and> x + 1 < g_cols g' then do {
      g' \<leftarrow> fixup_wide_char_at (x + 1) y g'; ?mark (x + 1) (cell_new 0 (ce_style ce) 0) g' } else Some g'"
  have eq: "set_cell x y ce g = Option.bind (do { g \<leftarrow> fixup_wide_char_at x y g; ?mark x ce g }) ?rest"
    using x y by (simp add: set_cell_def)
  show ?thesis
  proof (cases "ce_width ce = 2 \<and> x + 1 < g_cols g")
    case True
    have "ok (wstep y (\<lambda>ws. (fix_w (x + 1) ws)[x + 1 := 0]) g') (?rest g')"
      if "wstep y (\<lambda>ws. (fix_w x ws)[x := ce_width ce]) g g'" for g'
      using second [OF wstep_content [OF that]] True content_stepD(2) [OF wstep_content [OF that]] by simp
    from ok_wstep_bind [OF first g y this]
    moreover have "set_w x (ce_width ce) (row_widths g ! y)
        = (fix_w (x + 1) ((fix_w x (row_widths g ! y))[x := ce_width ce]))[x + 1 := 0]"
      using True len by (simp add: set_w_def Let_def)
    ultimately show ?thesis unfolding eq by (rule wstep_cong [OF _ sym])
  next
    case False
    have "ok (wstep y (\<lambda>ws. ws) g') (?rest g')"
      if "wstep y (\<lambda>ws. (fix_w x ws)[x := ce_width ce]) g g'" for g'
    proof -
      have "\<not> (ce_width ce = 2 \<and> x + 1 < g_cols g')"
        using False content_stepD(2) [OF wstep_content [OF that]] by simp
      moreover have "wstep y (\<lambda>ws. ws) g' g'"
        using content_stepD(1) [OF wstep_content [OF that]] by (rule wstep_refl) simp
      ultimately show ?thesis by (simp only: if_False ok_Some)
    qed
    from ok_wstep_bind [OF first g y this]
    moreover have "set_w x (ce_width ce) (row_widths g ! y) = (fix_w x (row_widths g ! y))[x := ce_width ce]"
      using False len by (auto simp: set_w_def Let_def)
    ultimately show ?thesis unfolding eq by (rule wstep_cong [OF _ sym])
  qed
qed

lemma fill_wstep:
  assumes g: "grid_inv g" and y: "y < g_rows g" and to: "to \<le> g_cols g" and live: "cell_live (g_table g) blank"
    and w: "ce_width blank = 1"
  shows "ok (wstep y (fill_w from to) g) (visible_row_mut y (\<lambda>r. map_option (clear_combining_range a b)
     (for_m [from..<to] (\<lambda>i. row_set i blank) r)) g)"
proof (rule row_mut_wstep [OF g y])
  fix r
  assume r: "row_fits g r"
  have "ok (\<lambda>r'. row_fits g r' \<and> widths (row_cells r') = fill_w from to (widths (row_cells r)))
      (for_m [from..<to] (\<lambda>i. row_set i blank) r)"
    using to
  proof (induction to)
    case 0
    then show ?case using r by (simp add: fill_w_def)
  next
    case (Suc to)
    show ?case
    proof (cases "from \<le> to")
      case True
      then have "[from..<Suc to] = [from..<to] @ [to]" by simp
      then show ?thesis
        using Suc.IH Suc.prems True live w
        by (auto elim!: ok_mono simp: row_set_def row_fits_def row_live_def fill_w_def
            dest: set_update_subset_insert [THEN subsetD])
    qed (use r in \<open>simp add: fill_w_def\<close>)
  qed
  then show "ok (\<lambda>r'. row_fits g r' \<and> widths (row_cells r') = fill_w from to (widths (row_cells r)))
      (map_option (clear_combining_range a b) (for_m [from..<to] (\<lambda>i. row_set i blank) r))"
    by simp
qed

lemma erase_cells_wstep:
  assumes g: "grid_inv g" and y: "y < g_rows g" and live: "cell_live (g_table g) blank"
    and w: "ce_width blank = 1" and ft: "min from (g_cols g) < min to (g_cols g)"
  shows "ok (wstep y (erase_w (min from (g_cols g)) (min to (g_cols g))) g) (erase_cells y from to blank g)"
proof -
  define f where "f = min from (g_cols g)"
  define t where "t = min to (g_cols g)"
  have ft': "f < t" "t \<le> g_cols g" "f < g_cols g" using ft by (auto simp: f_def t_def)
  have len: "length (row_widths g ! y) = g_cols g" using row_widths_cols [OF g y] .
  let ?fill = "\<lambda>g. visible_row_mut y (\<lambda>r. map_option (clear_combining_range (as_u16 f) (as_u16 t))
      (for_m [f..<t] (\<lambda>i. row_set i blank) r)) g"
  have second: "ok (wstep y (if t < g_cols g then fix_w t else (\<lambda>ws. ws)) g')
      (if t < g_cols g then fixup_wide_char_at t y g' else Some g')" if "content_step g g'" for g'
    using fixup_wstep [of g' y t] wstep_refl [of g' "\<lambda>ws. ws" y] content_stepD [OF that] y by auto
  have fill: "ok (wstep y (fill_w f t) g') (?fill g')" if "content_step g g'" for g'
    using fill_wstep [of g' y t blank f] content_stepD [OF that] y live w ft' by simp
  have "ok (wstep y (\<lambda>ws. fill_w f t ((if t < g_cols g then fix_w t else (\<lambda>ws. ws)) (fix_w f ws))) g)
      (do { g1 \<leftarrow> do { g1 \<leftarrow> fixup_wide_char_at f y g;
              if t < g_cols g then fixup_wide_char_at t y g1 else Some g1 }; ?fill g1 })"
    using ok_wstep_bind [OF ok_wstep_bind [OF fixup_wstep [OF g y ft'(3)] g y second [OF wstep_content]] g y
        fill [OF wstep_content]] by simp
  moreover have "erase_cells y from to blank g = do { g1 \<leftarrow> do { g1 \<leftarrow> fixup_wide_char_at f y g;
      if t < g_cols g then fixup_wide_char_at t y g1 else Some g1 }; ?fill g1 }"
    unfolding erase_cells_def Let_def f_def t_def using y ft by (simp add: not_le [symmetric] del: min_less_iff_conj)
  ultimately show ?thesis
    unfolding f_def [symmetric] t_def [symmetric]
    by (simp only:) (erule wstep_cong, simp add: erase_w_def Let_def len)
qed

text \<open>A step whose effect on the widths keeps them sound keeps every row sound.\<close>

lemma wstep_keeps:
  assumes "wstep y W g g'" "screen_wide_ok g" "grid_inv g" "y < g_rows g" "wd_ok (W (row_widths g ! y))"
  shows "screen_wide_ok g'"
  using assms length_row_widths [OF assms(3)] set_update_subset_insert [of "row_widths g" y "W (row_widths g ! y)"]
  by (auto simp: screen_wide_ok_widths wstep_def)

lemma screen_wide_okD: "screen_wide_ok g \<Longrightarrow> grid_inv g \<Longrightarrow> y < g_rows g \<Longrightarrow> wd_ok (row_widths g ! y)"
  using length_row_widths [of g] by (simp add: screen_wide_ok_widths)

lemma set_cell_wide:
  assumes "grid_inv g" "screen_wide_ok g" "cell_live (g_table g) ce"
    "ce_width ce = 1 \<or> ce_width ce = 2 \<and> x + 1 < g_cols g"
  shows "ok (\<lambda>g'. content_step g g' \<and> screen_wide_ok g') (set_cell x y ce g)"
proof (cases "x < g_cols g \<and> y < g_rows g")
  case True
  have "wd_ok (set_w x (ce_width ce) (row_widths g ! y))"
    using screen_wide_okD [OF assms(2,1)] row_widths_cols [OF assms(1)] True assms(4) by (intro set_w_ok) auto
  then show ?thesis
    using set_cell_wstep [OF assms(1) _ _ assms(3)] True wstep_keeps assms(1,2) wstep_content
    by (blast intro: ok_mono)
qed (use assms in \<open>auto simp: set_cell_def\<close>)

lemma erase_cells_wide:
  assumes "grid_inv g" "screen_wide_ok g" "cell_live (g_table g) blank" "ce_width blank = 1"
  shows "ok (\<lambda>g'. content_step g g' \<and> screen_wide_ok g') (erase_cells y from to blank g)"
proof (cases "y < g_rows g \<and> min from (g_cols g) < min to (g_cols g)")
  case True
  have "wd_ok (erase_w (min from (g_cols g)) (min to (g_cols g)) (row_widths g ! y))"
    using screen_wide_okD [OF assms(2,1)] row_widths_cols [OF assms(1)] True by (intro erase_w_ok) auto
  then show ?thesis
    using erase_cells_wstep [OF assms(1) _ assms(3,4)] True wstep_keeps assms(1,2) wstep_content
    by (blast intro: ok_mono)
qed (use assms in \<open>auto simp: erase_cells_def Let_def\<close>)

subsection \<open>Deleting and inserting cells\<close>

lemma drop_orphan:
  assumes ok: "wd_ok ws" and k: "k < length ws" "ws ! k = 0"
  shows "drop k ws = 0 # drop (Suc k) ws" "wd_ok (drop (Suc k) ws)"
proof -
  show "drop k ws = 0 # drop (Suc k) ws" using k by (simp add: Cons_nth_drop_Suc [symmetric])
  have "0 < k" "ws ! (k - 1) = 2" using wd_okD(2) [OF ok k] by auto
  then show "wd_ok (drop (Suc k) ws)" using pair_split(3) [OF ok, of "k - 1"] k by simp
qed

lemma drop_whole: "wd_ok ws \<Longrightarrow> k \<le> length ws \<Longrightarrow> k = length ws \<or> ws ! k \<noteq> 0 \<Longrightarrow> wd_ok (drop k ws)"
  using wd_ok_split [of ws k] by (auto simp: cut_def)

lemma take_orphan:
  assumes ok: "wd_ok ws" and k: "k < length ws" "ws ! k = 0"
  shows "0 < k" "take k ws = take (k - 1) ws @ [2]" "wd_ok (take (k - 1) ws)"
proof -
  show pos: "0 < k" using wd_okD(2) [OF ok k] by simp
  have two: "ws ! (k - 1) = 2" using wd_okD(2) [OF ok k] by simp
  show "take k ws = take (k - 1) ws @ [2]"
    using take_Suc_conv_app_nth [of "k - 1" ws] pos k two by simp
  show "wd_ok (take (k - 1) ws)" using pair_split(2) [OF ok, of "k - 1"] two k by simp
qed

lemma take_whole: "wd_ok ws \<Longrightarrow> k \<le> length ws \<Longrightarrow> k = length ws \<or> ws ! k \<noteq> 0 \<Longrightarrow> wd_ok (take k ws)"
  using wd_ok_split [of ws k] by (auto simp: cut_def)

definition delete_w :: "nat \<Rightarrow> nat \<Rightarrow> nat list \<Rightarrow> nat list" where
  "delete_w x n ws = take x ws @ drop (x + n) ws @ replicate n 1"

definition fix_deleted_w :: "nat \<Rightarrow> nat list \<Rightarrow> nat list" where
  "fix_deleted_w x ws =
     (if ws ! x = 0 then
        (let ws = ws[x := 1] in if x > 0 \<and> ws ! (x - 1) = 2 then ws[x - 1 := 1] else ws)
      else ws)"

definition insert_w :: "nat \<Rightarrow> nat \<Rightarrow> nat list \<Rightarrow> nat list" where
  "insert_w x n ws = take x ws @ replicate n 1 @ take (length ws - x - n) (drop x ws)"

definition fix_inserted_w :: "nat list \<Rightarrow> nat list" where
  "fix_inserted_w ws =
     (let l = length ws - 1 in
      if ws ! l = 2 then ws[l := 1]
      else if ws ! l = 0 then
        (let ws = ws[l := 1] in if l > 0 \<and> ws ! (l - 1) = 2 then ws[l - 1 := 1] else ws)
      else ws)"

lemma delete_w_ok:
  assumes ok: "wd_ok ws" and x: "x < length ws" "ws ! x = 1" and n: "x + n \<le> length ws"
  shows "wd_ok (fix_deleted_w x (delete_w x n ws))"
proof -
  have u: "wd_ok (take x ws)" and lu: "length (take x ws) = x" using single_split(2) [OF ok x] x by auto
  have last: "take x ws ! (x - 1) \<noteq> 2" if "0 < x"
    using wd_okD(1) [OF u, of "x - 1"] that x by auto
  show ?thesis
  proof (cases "x + n < length ws \<and> ws ! (x + n) = 0")
    case True
    then have d: "drop (x + n) ws = 0 # drop (Suc (x + n)) ws" "wd_ok (drop (Suc (x + n)) ws)"
      using drop_orphan [OF ok] by auto
    have e: "delete_w x n ws = take x ws @ 0 # (drop (Suc (x + n)) ws @ replicate n 1)"
      unfolding delete_w_def d(1) by simp
    have z: "delete_w x n ws ! x = 0" unfolding e using lu by (metis nth_append_length)
    have upd: "(delete_w x n ws)[x := 1] = take x ws @ 1 # (drop (Suc (x + n)) ws @ replicate n 1)"
      unfolding e using lu by (metis list_update_length)
    have no: "\<not> (0 < x \<and> (delete_w x n ws)[x := 1] ! (x - 1) = 2)"
      using last lu x unfolding upd by (auto simp: nth_append)
    have "fix_deleted_w x (delete_w x n ws) = (delete_w x n ws)[x := 1]"
      by (simp only: fix_deleted_w_def Let_def z no if_True if_False simp_thms)
    also have "\<dots> = take x ws @ [1] @ drop (Suc (x + n)) ws @ replicate n 1" by (simp add: upd [unfolded One_nat_def])
    also have "wd_ok \<dots>" using u d(2) wd_ok_ones [of n] by (intro wd_ok_join) simp_all
    finally show ?thesis .
  next
    case False
    then have d: "wd_ok (drop (x + n) ws)" using drop_whole [OF ok n] n by auto
    then have all: "wd_ok (delete_w x n ws)"
      unfolding delete_w_def using u wd_ok_ones [of n] by (intro wd_ok_join) simp_all
    have "wd_ok (drop (x + n) ws @ replicate n 1)" using d wd_ok_ones [of n] by (intro wd_ok_join) simp_all
    moreover have "drop (x + n) ws @ replicate n 1 \<noteq> []" using x n by (cases n) auto
    ultimately have "(drop (x + n) ws @ replicate n 1) ! 0 \<noteq> 0"
      using wd_okD(2) [of "drop (x + n) ws @ replicate n 1" 0] by blast
    then have "delete_w x n ws ! x \<noteq> 0" using lu by (simp add: delete_w_def nth_append)
    then show ?thesis using all by (simp add: fix_deleted_w_def)
  qed
qed

lemma fix_inserted_w_ok:
  assumes "us \<noteq> []" "wd_ok us \<or> (\<exists>vs. us = vs @ [2] \<and> wd_ok vs)"
  shows "wd_ok (fix_inserted_w us)"
proof -
  let ?l = "length us - 1"
  have l: "?l < length us" using assms(1) by (cases us) auto
  from assms(2) show ?thesis
  proof
    assume ok: "wd_ok us"
    have "us ! ?l \<noteq> 2" using wd_okD(1) [OF ok l] l by auto
    moreover have "wd_ok ((us[?l := 1])[?l - 1 := 1])" "0 < ?l" "us ! (?l - 1) = 2" if "us ! ?l = 0"
    proof -
      show z: "0 < ?l" "us ! (?l - 1) = 2" using wd_okD(2) [OF ok l that] by auto
      have "fix_w ?l us = (us[?l - 1 := 1])[?l := 1]" using that z by (simp add: fix_w_def)
      also have "\<dots> = (us[?l := 1])[?l - 1 := 1]" using z by (intro list_update_swap) simp
      finally show "wd_ok ((us[?l := 1])[?l - 1 := 1])" using fix_w_ok(1) [OF ok l] by simp
    qed
    ultimately show ?thesis using ok by (auto simp: fix_inserted_w_def Let_def)
  next
    assume "\<exists>vs. us = vs @ [2] \<and> wd_ok vs"
    then obtain vs where vs: "us = vs @ [2]" "wd_ok vs" by blast
    then have "fix_inserted_w us = vs @ [1]" by (simp add: fix_inserted_w_def)
    then show ?thesis using wd_ok_join [OF vs(2) wd_ok_pair(2)] by simp
  qed
qed

lemma insert_w_ok:
  assumes ok: "wd_ok ws" and x: "x < length ws" "ws ! x = 1" and n: "x + n \<le> length ws"
  shows "wd_ok (fix_inserted_w (insert_w x n ws))"
proof (rule fix_inserted_w_ok)
  have u: "wd_ok (take x ws)" using single_split(2) [OF ok x] .
  have d: "wd_ok (drop x ws)" using drop_whole [OF ok] x by simp
  let ?k = "length ws - x - n"
  show "insert_w x n ws \<noteq> []" using x n by (auto simp: insert_w_def)
  have pre: "wd_ok (take x ws @ replicate n 1)" using u wd_ok_ones [of n] by (intro wd_ok_join) simp_all
  show "wd_ok (insert_w x n ws) \<or> (\<exists>vs. insert_w x n ws = vs @ [2] \<and> wd_ok vs)"
  proof (cases "?k < length (drop x ws) \<and> drop x ws ! ?k = 0")
    case True
    note t = take_orphan [OF d True [THEN conjunct1] True [THEN conjunct2]]
    have "insert_w x n ws = (take x ws @ replicate n 1 @ take (?k - 1) (drop x ws)) @ [2]"
      unfolding insert_w_def t(2) by simp
    moreover have "wd_ok (take x ws @ replicate n 1 @ take (?k - 1) (drop x ws))"
      using wd_ok_join [OF pre t(3)] by simp
    ultimately show ?thesis by blast
  next
    case False
    then have "wd_ok (take ?k (drop x ws))" using x n by (intro take_whole [OF d]) auto
    then have "wd_ok (insert_w x n ws)" unfolding insert_w_def using wd_ok_join [OF pre] by simp
    then show ?thesis ..
  qed
qed

end
