(* ===== verification/Rust_Text.thy ===== *)
theory Rust_Text
  imports Utf8 "HOL-Library.Sublist"
begin

section \<open>Text, as the source uses it from the standard library\<close>

text \<open>
  Operations of \<open>str\<close> on lists of characters: white space and control characters, trimming, prefixes,
  splitting, joining, searching, \<open>parse::<i32>\<close> and the lossy decoding of bytes
  (\<open>String::from_utf8_lossy\<close>, which puts U+FFFD for every maximal ill-formed piece).
\<close>

text \<open>\<open>char::is_whitespace\<close> (the Unicode property) and \<open>char::is_control\<close> (category Cc).\<close>

definition is_whitespace :: "rchar \<Rightarrow> bool" where
  "is_whitespace c \<longleftrightarrow> 9 \<le> c \<and> c \<le> 13 \<or> c \<in> {32, 133, 160, 5760, 8232, 8233, 8239, 8287, 12288}
     \<or> 8192 \<le> c \<and> c \<le> 8202"

definition is_control :: "rchar \<Rightarrow> bool" where
  "is_control c \<longleftrightarrow> c < 32 \<or> 127 \<le> c \<and> c \<le> 159"

definition is_ascii_alphanumeric :: "rchar \<Rightarrow> bool" where
  "is_ascii_alphanumeric c \<longleftrightarrow> 48 \<le> c \<and> c \<le> 57 \<or> 65 \<le> c \<and> c \<le> 90 \<or> 97 \<le> c \<and> c \<le> 122"

definition to_ascii_lowercase :: "nat \<Rightarrow> nat" where
  "to_ascii_lowercase c = (if 65 \<le> c \<and> c \<le> 90 then c + 32 else c)"

definition trim_start :: "rtext \<Rightarrow> rtext" where
  "trim_start s = dropWhile is_whitespace s"

definition trim_end :: "rtext \<Rightarrow> rtext" where
  "trim_end s = rev (dropWhile is_whitespace (rev s))"

definition trim :: "rtext \<Rightarrow> rtext" where
  "trim s = trim_end (trim_start s)"

definition strip_prefix :: "'a list \<Rightarrow> 'a list \<Rightarrow> 'a list option" where
  "strip_prefix p s = (if prefix p s then Some (drop (length p) s) else None)"

fun contains :: "'a list \<Rightarrow> 'a list \<Rightarrow> bool" where
  "contains p [] = (p = [])"
| "contains p (c # s) = (prefix p (c # s) \<or> contains p s)"

text \<open>\<open>split(c)\<close>, \<open>splitn(n, c)\<close>, \<open>split_once(c)\<close> and \<open>join\<close>.\<close>

fun split_on :: "'a \<Rightarrow> 'a list \<Rightarrow> 'a list list" where
  "split_on c [] = [[]]"
| "split_on c (x # xs) =
     (if x = c then [] # split_on c xs
      else (case split_on c xs of p # ps \<Rightarrow> (x # p) # ps | [] \<Rightarrow> [[x]]))"

definition split_once :: "'a \<Rightarrow> 'a list \<Rightarrow> ('a list \<times> 'a list) option" where
  "split_once c s =
     (case dropWhile (\<lambda>x. x \<noteq> c) s of [] \<Rightarrow> None | _ # rest \<Rightarrow> Some (takeWhile (\<lambda>x. x \<noteq> c) s, rest))"

fun splitn :: "nat \<Rightarrow> 'a \<Rightarrow> 'a list \<Rightarrow> 'a list list" where
  "splitn 0 c s = []"
| "splitn (Suc 0) c s = [s]"
| "splitn (Suc (Suc n)) c s =
     (case split_once c s of None \<Rightarrow> [s] | Some (p, rest) \<Rightarrow> p # splitn (Suc n) c rest)"

fun join :: "'a list \<Rightarrow> 'a list list \<Rightarrow> 'a list" where
  "join sep [] = []"
| "join sep [p] = p"
| "join sep (p # ps) = p @ sep @ join sep ps"

text \<open>\<open>str::replace\<close> with a pattern that is not empty.\<close>

function replace_str :: "'a list \<Rightarrow> 'a list \<Rightarrow> 'a list \<Rightarrow> 'a list" where
  "replace_str p r [] = []"
| "replace_str p r (c # s) =
     (if p \<noteq> [] \<and> prefix p (c # s) then r @ replace_str p r (drop (length p) (c # s)) else c # replace_str p r s)"
  by pat_completeness auto
termination
  by (relation "measure (\<lambda>(p, r, s). length s)") (auto simp: neq_Nil_conv)

lemma replace_str_single: "replace_str [a] r s = concat (map (\<lambda>c. if c = a then r else [c]) s)"
  by (induction s) auto

text \<open>\<open>str::parse\<close> of a signed integer of \<open>n + 1\<close> bits: an optional sign and digits, in range.\<close>

definition parse_signed :: "nat \<Rightarrow> rtext \<Rightarrow> int option" where
  "parse_signed n s =
     (let (neg, ds) = (case s of c # rest \<Rightarrow> (if c = 45 then (True, rest) else if c = 43 then (False, rest) else (False, s))
                       | [] \<Rightarrow> (False, s))
      in case digits_value ds of
           None \<Rightarrow> None
         | Some m \<Rightarrow> (let v = (if neg then - int m else int m)
                     in if - (2 ^ n) \<le> v \<and> v < 2 ^ n then Some v else None))"

definition parse_i32 :: "rtext \<Rightarrow> int option" where "parse_i32 = parse_signed 31"
definition parse_i64 :: "rtext \<Rightarrow> int option" where "parse_i64 = parse_signed 63"

text \<open>\<open>str::lines\<close>: the pieces between line feeds, without a carriage return before one; nothing after the last one.\<close>

definition str_lines :: "rtext \<Rightarrow> rtext list" where
  "str_lines s =
     (let ps = split_on 10 s in
      map (\<lambda>l. if l \<noteq> [] \<and> last l = 13 then butlast l else l) (butlast ps) @ (if last ps = [] then [] else [last ps]))"

text \<open>
  \<open>String::from_utf8_lossy\<close>. The second byte of a sequence of three or four bytes is restricted by the
  first.
\<close>

definition second_ok :: "u8 \<Rightarrow> u8 \<Rightarrow> bool" where
  "second_ok b b1 \<longleftrightarrow> is_cont b1 \<and> (b = 224 \<longrightarrow> 160 \<le> b1) \<and> (b = 237 \<longrightarrow> b1 < 160)
     \<and> (b = 240 \<longrightarrow> 144 \<le> b1) \<and> (b = 244 \<longrightarrow> b1 < 144)"

fun from_utf8_lossy :: "u8 list \<Rightarrow> rtext" where
  "from_utf8_lossy [] = []"
| "from_utf8_lossy (b # bs) =
     (if b < 128 then b # from_utf8_lossy bs
      else if 194 \<le> b \<and> b < 224 then
        (case bs of
           b1 # r1 \<Rightarrow> if is_cont b1 then ((b - 192) * 64 + (b1 - 128)) # from_utf8_lossy r1
                     else 65533 # from_utf8_lossy bs
         | [] \<Rightarrow> [65533])
      else if 224 \<le> b \<and> b < 240 then
        (case bs of
           b1 # r1 \<Rightarrow> if second_ok b b1 then
               (case r1 of
                  b2 # r2 \<Rightarrow> if is_cont b2
                    then ((b - 224) * 4096 + (b1 - 128) * 64 + (b2 - 128)) # from_utf8_lossy r2
                    else 65533 # from_utf8_lossy r1
                | [] \<Rightarrow> [65533])
             else 65533 # from_utf8_lossy bs
         | [] \<Rightarrow> [65533])
      else if 240 \<le> b \<and> b < 245 then
        (case bs of
           b1 # r1 \<Rightarrow> if second_ok b b1 then
               (case r1 of
                  b2 # r2 \<Rightarrow> if is_cont b2 then
                      (case r2 of
                         b3 # r3 \<Rightarrow> if is_cont b3
                           then ((b - 240) * 262144 + (b1 - 128) * 4096 + (b2 - 128) * 64 + (b3 - 128)) # from_utf8_lossy r3
                           else 65533 # from_utf8_lossy r2
                       | [] \<Rightarrow> [65533])
                    else 65533 # from_utf8_lossy r1
                | [] \<Rightarrow> [65533])
             else 65533 # from_utf8_lossy bs
         | [] \<Rightarrow> [65533])
      else 65533 # from_utf8_lossy bs)"

lemma from_utf8_lossy_ascii: "list_all (\<lambda>b. b < 128) bs \<Longrightarrow> from_utf8_lossy bs = bs"
  by (induction bs) simp_all

lemma from_utf8_lossy_ascii_append: "list_all (\<lambda>b. b < 128) bs \<Longrightarrow> from_utf8_lossy (bs @ r) = bs @ from_utf8_lossy r"
  by (induction bs) simp_all

lemma split_on_nonempty [simp]: "split_on c s \<noteq> []"
  by (cases s) (simp_all split: list.split)

lemma join_split_on [simp]: "join [c] (split_on c s) = s"
proof (induction s)
  case (Cons x xs)
  obtain p ps where s: "split_on c xs = p # ps" using split_on_nonempty [of c xs] by (cases "split_on c xs") auto
  show ?case using Cons by (cases ps) (auto simp: s)
qed simp

lemma split_on_notin: "c \<notin> set s \<Longrightarrow> split_on c s = [s]"
  by (induction s) auto

lemma split_on_append: "c \<notin> set p \<Longrightarrow> split_on c (p @ c # s) = p # split_on c s"
  by (induction p) auto

lemma split_on_join:
  "ps \<noteq> [] \<Longrightarrow> \<forall>p\<in>set ps. c \<notin> set p \<Longrightarrow> split_on c (join [c] ps) = ps"
  by (induction "[c]" ps rule: join.induct) (simp_all add: split_on_notin split_on_append)

lemma str_lines_cons:
  "10 \<notin> set l \<Longrightarrow> str_lines (l @ 10 # s) = (if l \<noteq> [] \<and> last l = 13 then butlast l else l) # str_lines s"
  by (simp add: str_lines_def split_on_append Let_def)

lemma str_lines_nil [simp]: "str_lines [] = []"
  by (simp add: str_lines_def)

lemma split_once_at: "c \<notin> set p \<Longrightarrow> split_once c (p @ c # s) = Some (p, s)"
proof -
  assume "c \<notin> set p"
  then have "takeWhile (\<lambda>x. x \<noteq> c) (p @ c # s) = p" "dropWhile (\<lambda>x. x \<noteq> c) (p @ c # s) = c # s"
    by (induction p) auto
  then show ?thesis by (simp add: split_once_def)
qed

lemma from_utf8_lossy_encode:
  assumes "is_scalar c"
  shows "from_utf8_lossy (encode_utf8 c @ bs) = c # from_utf8_lossy bs"
proof -
  have cont: "is_cont (128 + n mod 64)" for n
    using mod_less_divisor [of 64 n] unfolding is_cont_def by linarith
  consider "c < 128" | "128 \<le> c" "c < 2048" | "2048 \<le> c" "c < 65536" | "65536 \<le> c" by linarith
  then show ?thesis
  proof cases
    case 1
    then show ?thesis by (simp add: encode_utf8_def)
  next
    case 2
    then have "2 \<le> c div 64" "c div 64 < 32" by auto
    then show ?thesis using 2 cont by (simp add: encode_utf8_def)
  next
    case 3
    define h where "h = c div 4096"
    define k where "k = c div 64 mod 64"
    have h: "h = c div 64 div 64" unfolding h_def by (simp add: div_mult2_eq [symmetric])
    have c: "c div 64 = h * 64 + k" unfolding h k_def by (rule div_mult_mod_eq [symmetric])
    have whole: "h * 4096 + k * 64 + c mod 64 = c" using div_mult_mod_eq [of c 64] unfolding c by simp
    have k: "k < 64" unfolding k_def by simp
    have "h < 16" unfolding h_def using 3(2) by auto
    moreover have "h = 0 \<Longrightarrow> 32 \<le> k" using c 3(1) by auto
    moreover have "h = 13 \<Longrightarrow> k < 32"
    proof -
      assume "h = 13"
      moreover have "c div 64 < 864 \<or> 896 \<le> c div 64" using assms 3 by (auto simp: is_scalar_def)
      ultimately show "k < 32" using c k by linarith
    qed
    moreover have "is_cont (128 + k)" using cont [of "c div 64"] unfolding k_def .
    ultimately show ?thesis
      using 3 k whole cont [of c] by (simp add: encode_utf8_def second_ok_def h_def [symmetric] k_def [symmetric])
  next
    case 4
    define h where "h = c div 262144"
    define k where "k = c div 4096 mod 64"
    define l where "l = c div 64 mod 64"
    have h: "h = c div 4096 div 64" unfolding h_def by (simp add: div_mult2_eq [symmetric])
    have c: "c div 4096 = h * 64 + k" unfolding h k_def by (rule div_mult_mod_eq [symmetric])
    have d: "c div 4096 = c div 64 div 64" by (simp add: div_mult2_eq [symmetric])
    have c': "c div 64 = c div 4096 * 64 + l" unfolding d l_def by (rule div_mult_mod_eq [symmetric])
    have whole: "h * 262144 + k * 4096 + l * 64 + c mod 64 = c" using div_mult_mod_eq [of c 64] unfolding c' c by simp
    have k: "k < 64" "l < 64" unfolding k_def l_def by simp_all
    have rng: "c div 4096 \<ge> 16" "c div 4096 < 272" using 4 assms by (auto simp: is_scalar_def)
    have "h < 5" unfolding h_def using 4 assms by (auto simp: is_scalar_def)
    moreover have "h = 0 \<Longrightarrow> 16 \<le> k" using c rng by simp
    moreover have "h = 4 \<Longrightarrow> k < 16" using c rng by simp
    moreover have "is_cont (128 + k)" "is_cont (128 + l)" using cont [of "c div 4096"] cont [of "c div 64"] unfolding k_def l_def .
    ultimately show ?thesis
      using 4 k whole cont [of c] by (simp add: encode_utf8_def second_ok_def h_def [symmetric] k_def [symmetric] l_def [symmetric])
  qed
qed

lemma from_utf8_lossy_utf8: "list_all is_scalar s \<Longrightarrow> from_utf8_lossy (utf8 s) = s"
  by (induction s) (simp_all add: utf8_def from_utf8_lossy_encode del: from_utf8_lossy.simps(2))

end
