(* ===== verification/Core_Types.thy ===== *)
theory Core_Types
  imports Utf8 "HOL-Library.Word"
begin

section \<open>The data of the application (\<open>octty-core/src/types.rs\<close>)\<close>

text \<open>
  Panes, sessions, workspaces, and the activity of a pane. Text is \<open>rtext\<close>, \<open>i64\<close> is \<open>int\<close> (with the one
  saturating subtraction written out), and hashes are 64-bit words. \<open>f64\<close> lengths are a parameter of the
  records that carry them.
\<close>

unbundle bit_operations_syntax

subsection \<open>Enumerations\<close>

datatype pane_type = PaneShell | PaneAgentShell | PaneNote | PaneBrowser | PaneDiff

datatype terminal_kind = KShell | KCodex | KPi | KNvim | KJjui

datatype terminal_exit_behavior = RestartAuto | RestartManually | CloseOnExit

definition exit_behavior_default :: terminal_exit_behavior where
  "exit_behavior_default = CloseOnExit"

datatype inner_session_handler = NoHandler | CodexHandler

datatype session_state = Live | Stopped | Missing

datatype agent_attention_state = AttIdleSeen | AttThinking | AttIdleUnseen

datatype activity_state = Active | IdleUnseen | IdleSeen

datatype workspace_bookmark_relation = BookmarkNone | BookmarkExact | BookmarkAbove

datatype workspace_state = Published | MergedLocal | Draft | Conflicted | UnknownState

datatype baseline_relation_target = TargetLocal | TargetRemote | TargetNone

datatype baseline_relation_state = Same | Ahead | Behind | Diverged

subsection \<open>Defaults\<close>

definition DEFAULT_TERMINAL_WIDTH_CHARS :: u16 where
  "DEFAULT_TERMINAL_WIDTH_CHARS = 90"

definition default_shell_type_name :: rtext where
  "default_shell_type_name = bytes ''plain''"

definition codex_inner_session_prompt :: "rtext \<Rightarrow> rtext" where
  "codex_inner_session_prompt pane_id =
     bytes ''FYI: You are running inside Octty pane '' @ [34] @ pane_id @ [34] @ bytes ''. Reply '' @ [34]
     @ bytes ''ok'' @ [34]"

subsection \<open>Activity of a pane\<close>

type_synonym i64 = int

definition i64_sat :: "int \<Rightarrow> i64" where
  "i64_sat n = max (- (2 ^ 63)) (min (2 ^ 63 - 1) n)"

record pane_activity =
  pa_workspace_id :: rtext
  pa_pane_id :: rtext
  pa_last_activity :: i64
  pa_last_seen :: i64
  pa_last_seen_activity :: i64
  pa_tmux :: "i64 option"
  pa_seen_tmux :: "i64 option"
  pa_fingerprint :: "rtext option"
  pa_seen_fingerprint :: "rtext option"
  pa_attention :: bool
  pa_attention_at :: i64
  pa_attention_cleared :: i64
  pa_updated :: i64

definition activity_new :: "rtext \<Rightarrow> rtext \<Rightarrow> i64 \<Rightarrow> pane_activity" where
  "activity_new workspace_id pane_id now =
     \<lparr>pa_workspace_id = workspace_id, pa_pane_id = pane_id, pa_last_activity = 0, pa_last_seen = 0,
      pa_last_seen_activity = 0, pa_tmux = None, pa_seen_tmux = None, pa_fingerprint = None,
      pa_seen_fingerprint = None, pa_attention = False, pa_attention_at = 0, pa_attention_cleared = 0,
      pa_updated = now\<rparr>"

definition set_fingerprint :: "rtext option \<Rightarrow> pane_activity \<Rightarrow> pane_activity" where
  "set_fingerprint fp a = (case fp of Some f \<Rightarrow> a\<lparr>pa_fingerprint := Some f\<rparr> | None \<Rightarrow> a)"

definition record_activity :: "i64 \<Rightarrow> i64 option \<Rightarrow> rtext option \<Rightarrow> pane_activity \<Rightarrow> pane_activity" where
  "record_activity at tmux fp a =
     (let a = a\<lparr>pa_last_activity := max (pa_last_activity a) at\<rparr>;
          a = (case tmux of
                 Some t \<Rightarrow> a\<lparr>pa_tmux := Some (max (case pa_tmux a of Some c \<Rightarrow> c | None \<Rightarrow> 0) t)\<rparr>
               | None \<Rightarrow> a);
          a = set_fingerprint fp a
      in a\<lparr>pa_updated := max (pa_updated a) at\<rparr>)"

definition record_tmux_observation :: "i64 \<Rightarrow> i64 option \<Rightarrow> rtext option \<Rightarrow> pane_activity \<Rightarrow> pane_activity" where
  "record_tmux_observation at tmux fp a =
     (let a = (case tmux of
                 Some t \<Rightarrow>
                   if (case pa_tmux a of None \<Rightarrow> True | Some c \<Rightarrow> t > c)
                   then a\<lparr>pa_tmux := Some t, pa_last_activity := max (pa_last_activity a) at\<rparr> else a
               | None \<Rightarrow> a);
          a = set_fingerprint fp a
      in a\<lparr>pa_updated := max (pa_updated a) at\<rparr>)"

definition record_attention :: "i64 \<Rightarrow> pane_activity \<Rightarrow> pane_activity" where
  "record_attention at a =
     a\<lparr>pa_attention := True, pa_attention_at := max (pa_attention_at a) at, pa_attention_cleared := 0,
       pa_updated := max (pa_updated a) at\<rparr>"

definition record_seen :: "i64 \<Rightarrow> pane_activity \<Rightarrow> pane_activity" where
  "record_seen at a =
     (let a = a\<lparr>pa_last_seen := at, pa_last_seen_activity := pa_last_activity a, pa_seen_tmux := pa_tmux a,
                pa_seen_fingerprint := pa_fingerprint a\<rparr>;
          a = (if pa_attention a then a\<lparr>pa_attention_cleared := at\<rparr> else a)
      in a\<lparr>pa_attention := False, pa_updated := max (pa_updated a) at\<rparr>)"

definition attention_closes_current_activity :: "pane_activity \<Rightarrow> bool" where
  "attention_closes_current_activity a \<longleftrightarrow> pa_attention_at a > 0 \<and> pa_attention_at a \<ge> pa_last_activity a"

definition has_recent_activity :: "i64 \<Rightarrow> i64 \<Rightarrow> pane_activity \<Rightarrow> bool" where
  "has_recent_activity now window a \<longleftrightarrow>
     pa_last_activity a > 0 \<and> \<not> attention_closes_current_activity a
     \<and> i64_sat (now - pa_last_activity a) \<le> window"

definition has_unseen_activity :: "pane_activity \<Rightarrow> bool" where
  "has_unseen_activity a \<longleftrightarrow>
     pa_last_activity a > pa_last_seen_activity a
     \<or> (case (pa_tmux a, pa_seen_tmux a) of (Some t, Some s) \<Rightarrow> t > s | _ \<Rightarrow> False)
     \<or> pa_tmux a \<noteq> None \<and> pa_seen_tmux a = None
     \<or> pa_fingerprint a \<noteq> None \<and> pa_fingerprint a \<noteq> pa_seen_fingerprint a"

definition state_at :: "i64 \<Rightarrow> i64 \<Rightarrow> pane_activity \<Rightarrow> activity_state" where
  "state_at now window a =
     (if has_recent_activity now window a then Active
      else if has_unseen_activity a then IdleUnseen else IdleSeen)"

text \<open>The loop returns at the first active pane.\<close>

fun derive_loop :: "activity_state list \<Rightarrow> bool \<Rightarrow> activity_state" where
  "derive_loop [] unseen = (if unseen then IdleUnseen else IdleSeen)"
| "derive_loop (Active # _) unseen = Active"
| "derive_loop (IdleUnseen # states) unseen = derive_loop states True"
| "derive_loop (IdleSeen # states) unseen = derive_loop states unseen"

definition derive_workspace_activity :: "activity_state list \<Rightarrow> activity_state" where
  "derive_workspace_activity states = derive_loop states False"

subsection \<open>Fingerprints\<close>

definition FNV_OFFSET :: "64 word" where "FNV_OFFSET = 0xcbf29ce484222325"
definition FNV_PRIME :: "64 word" where "FNV_PRIME = 0x100000001b3"

definition fnv_step :: "u8 \<Rightarrow> 64 word \<Rightarrow> 64 word" where
  "fnv_step b h = (h XOR word_of_nat b) * FNV_PRIME"

definition fnv_hash :: "u8 list \<Rightarrow> 64 word" where
  "fnv_hash bs = fold fnv_step bs FNV_OFFSET"

text \<open>\<open>{:016x}\<close>: sixteen digits, the most significant first.\<close>

definition hex_digit :: "nat \<Rightarrow> rchar" where
  "hex_digit n = (if n < 10 then 48 + n else 87 + n)"

definition hex16 :: "64 word \<Rightarrow> rtext" where
  "hex16 h = map (\<lambda>i. hex_digit (unat h div 16 ^ i mod 16)) (rev [0..<16])"

definition screen_fingerprint :: "rtext \<Rightarrow> rtext" where
  "screen_fingerprint screen = hex16 (fnv_hash (utf8 screen))"

subsection \<open>Baselines\<close>

record baseline_relation =
  br_target_name :: rtext
  br_detail_name :: "rtext option"
  br_ahead :: i64
  br_behind :: i64

definition baseline_state :: "baseline_relation \<Rightarrow> baseline_relation_state" where
  "baseline_state r =
     (case (br_ahead r > 0, br_behind r > 0) of
        (False, False) \<Rightarrow> Same | (True, False) \<Rightarrow> Ahead | (False, True) \<Rightarrow> Behind | (True, True) \<Rightarrow> Diverged)"

subsection \<open>Records of the store\<close>

record embedded_session_ref =
  es_provider :: rtext
  es_id :: rtext
  es_label :: "rtext option"
  es_detected_at :: i64

record workspace_status =
  ws_state :: workspace_state
  ws_has_changes :: bool
  ws_has_conflicts :: bool
  ws_local :: "baseline_relation option"
  ws_remote :: "baseline_relation option"
  ws_primary :: baseline_relation_target
  ws_bookmarks :: "rtext list"
  ws_bookmark_relation :: workspace_bookmark_relation
  ws_unread_notes :: i64
  ws_active_agents :: i64
  ws_attention :: "agent_attention_state option"
  ws_recent_activity :: i64
  ws_diff_text :: rtext

definition workspace_status_default :: workspace_status where
  "workspace_status_default = \<lparr>ws_state = UnknownState, ws_has_changes = False, ws_has_conflicts = False,
     ws_local = None, ws_remote = None, ws_primary = TargetNone, ws_bookmarks = [],
     ws_bookmark_relation = BookmarkNone, ws_unread_notes = 0, ws_active_agents = 0, ws_attention = None,
     ws_recent_activity = 0, ws_diff_text = []\<rparr>"

record workspace_summary =
  wm_id :: rtext
  wm_root_id :: rtext
  wm_root_path :: rtext
  wm_project_display_name :: rtext
  wm_workspace_name :: rtext
  wm_display_name :: rtext
  wm_workspace_path :: rtext
  wm_status :: workspace_status
  wm_created_at :: i64
  wm_updated_at :: i64
  wm_last_opened_at :: i64

record terminal_pane_payload =
  tp_kind :: terminal_kind
  tp_shell_type :: rtext
  tp_handler :: inner_session_handler
  tp_inner_session_id :: "rtext option"
  tp_session_id :: "rtext option"
  tp_session_state :: session_state
  tp_cwd :: rtext
  tp_command :: rtext
  tp_parameters :: "rtext list"
  tp_on_exit :: terminal_exit_behavior
  tp_width_chars :: u16
  tp_exit_code :: "i64 option"
  tp_auto_start :: bool
  tp_restored_buffer :: rtext
  tp_embedded :: "embedded_session_ref option"
  tp_correlation_id :: "rtext option"
  tp_attention :: "agent_attention_state option"

record note_pane_payload =
  np_note_path :: "rtext option"

record 'f browser_pane_payload =
  bp_url :: rtext
  bp_title :: rtext
  bp_zoom :: 'f
  bp_popup :: "rtext option"

record diff_pane_payload =
  dp_pinned :: bool

datatype 'f pane_payload =
    TerminalPayload terminal_pane_payload
  | NotePayload note_pane_payload
  | BrowserPayload "'f browser_pane_payload"
  | DiffPayload diff_pane_payload

record 'f pane_state =
  ps_id :: rtext
  ps_type :: pane_type
  ps_title :: rtext
  ps_payload :: "'f pane_payload"

record session_snapshot =
  sn_id :: rtext
  sn_inner_session_id :: "rtext option"
  sn_workspace_id :: rtext
  sn_pane_id :: rtext
  sn_kind :: terminal_kind
  sn_cwd :: rtext
  sn_command :: rtext
  sn_buffer :: rtext
  sn_screen :: "rtext option"
  sn_state :: session_state
  sn_exit_code :: "i64 option"
  sn_embedded :: "embedded_session_ref option"
  sn_correlation_id :: "rtext option"
  sn_attention :: "agent_attention_state option"

end
