(* ===== verification/Codec.thy ===== *)
theory Codec
  imports Utf8
begin

section \<open>The wire protocol (\<open>protocol/messages.rs\<close>, \<open>protocol/codec.rs\<close>)\<close>

text \<open>
  Messages, the length-prefixed frames and the buffered \<open>FrameReader\<close>. \<open>bincode\<close> is a parameter:
  \<open>ser\<close> and \<open>de\<close> stand for \<open>bincode_config().serialize\<close> and \<open>.deserialize\<close>, with the error type \<open>'e\<close>.
  An asynchronous \<open>read\<close> is the value it delivers: \<open>Inl e\<close> for an I/O error, \<open>Inr bytes\<close> for the bytes
  put at the start of the buffer, \<open>Inr []\<close> for end of file. A list of such values is what a reader
  delivers in turn; a loop that has used them all is still waiting.
  A slice out of range is the panic \<open>None\<close>.
\<close>

subsection \<open>Messages\<close>

datatype connect_mode = CreateOrAttach | CreateOnly | AttachOnly

record spawn_request =
  sr_cwd :: "rtext option"
  sr_command :: "rtext list"

definition spawn_default :: spawn_request where
  "spawn_default = \<lparr>sr_cwd = None, sr_command = []\<rparr>"

datatype client_msg =
    Input "u8 list"
  | Resize (rs_cols: u16) (rs_rows: u16)
  | Detach
  | ListSessions
  | Connect (cn_name: rtext) (cn_history: usize) (cn_cols: u16) (cn_rows: u16)
      (cn_mode: connect_mode) (cn_spawn: spawn_request)
  | KillSession rtext
  | RefreshScreen

record session_info =
  si_name :: rtext
  si_pid :: u32
  si_cols :: u16
  si_rows :: u16

datatype server_msg =
    ScreenUpdate "u8 list"
  | History "u8 list list"
  | SessionList "session_info list"
  | SessionEnded
  | ErrorMsg rtext
  | Connected rtext bool
  | SessionKilled rtext
  | Passthrough "u8 list"

subsection \<open>Frames\<close>

datatype 'i io_error = UnexpectedEof rtext | IoOther 'i

datatype ('e, 'i) protocol_error =
    FrameTooLarge usize usize
  | EncodeTooLarge usize
  | Deserialize 'e
  | Io "'i io_error"

definition MAX_FRAME_SIZE :: usize where
  "MAX_FRAME_SIZE = 16 * 1024 * 1024"

definition READ_BUF_SIZE :: usize where
  "READ_BUF_SIZE = 65536"

definition u32_to_be_bytes :: "u32 \<Rightarrow> u8 list" where
  "u32_to_be_bytes n = [n div 16777216 mod 256, n div 65536 mod 256, n div 256 mod 256, n mod 256]"

definition u32_from_be_bytes :: "u8 \<Rightarrow> u8 \<Rightarrow> u8 \<Rightarrow> u8 \<Rightarrow> u32" where
  "u32_from_be_bytes a b c d = a * 16777216 + b * 65536 + c * 256 + d"

definition encode :: "('m \<Rightarrow> 'e + u8 list) \<Rightarrow> 'm \<Rightarrow> ('e, 'i) protocol_error + u8 list" where
  "encode ser msg =
     (case ser msg of
        Inl e \<Rightarrow> Inl (Deserialize e)
      | Inr data \<Rightarrow>
          if length data < 2 ^ 32 then Inr (u32_to_be_bytes (length data) @ data)
          else Inl (EncodeTooLarge (length data)))"

definition decode :: "(u8 list \<Rightarrow> 'e + 'm) \<Rightarrow> u8 list \<Rightarrow> ('e, 'i) protocol_error + 'm" where
  "decode de data = (case de data of Inl e \<Rightarrow> Inl (Deserialize e) | Inr m \<Rightarrow> Inr m)"

fun decode_frame :: "u8 list \<Rightarrow> ('e, 'i) protocol_error + (u8 list \<times> usize) option" where
  "decode_frame (a # b # c # d # rest) =
     (let len = u32_from_be_bytes a b c d
      in if len > MAX_FRAME_SIZE then Inl (FrameTooLarge len MAX_FRAME_SIZE)
         else if length rest + 4 < 4 + len then Inr None
         else Inr (Some (take len rest, 4 + len)))"
| "decode_frame buf = Inr None"

subsection \<open>\<open>FrameReader\<close>\<close>

record frame_reader =
  fr_buf :: "u8 list"
  fr_offset :: usize
  fr_tmp :: "u8 list"

definition reader_new :: frame_reader where
  "reader_new = \<lparr>fr_buf = [], fr_offset = 0, fr_tmp = replicate READ_BUF_SIZE 0\<rparr>"

definition with_leftover :: "u8 list \<Rightarrow> frame_reader" where
  "with_leftover leftover = \<lparr>fr_buf = leftover, fr_offset = 0, fr_tmp = replicate READ_BUF_SIZE 0\<rparr>"

text \<open>\<open>&v[n..]\<close> and \<open>v.drain(..n)\<close>.\<close>

definition slice_from :: "usize \<Rightarrow> 'a list \<Rightarrow> 'a list option" where
  "slice_from n xs = (if n \<le> length xs then Some (drop n xs) else None)"

definition fill_from :: "'i io_error + u8 list \<Rightarrow> frame_reader
    \<Rightarrow> ((('e, 'i) protocol_error + bool) \<times> frame_reader) option" where
  "fill_from rd f = do {
     f \<leftarrow> (if fr_offset f > 0
           then map_option (\<lambda>rest. f\<lparr>fr_buf := rest, fr_offset := 0\<rparr>) (slice_from (fr_offset f) (fr_buf f))
           else Some f);
     (case rd of
        Inl e \<Rightarrow> Some (Inl (Io e), f)
      | Inr bs \<Rightarrow>
          let n = length bs; f = f\<lparr>fr_tmp := bs @ drop n (fr_tmp f)\<rparr> in
          if n = 0 then Some (Inr False, f)
          else
            let f = f\<lparr>fr_buf := fr_buf f @ take n (fr_tmp f)\<rparr> in
            if length (fr_buf f) > MAX_FRAME_SIZE * 2 + 8
            then Some (Inl (FrameTooLarge (length (fr_buf f)) MAX_FRAME_SIZE), f)
            else Some (Inr True, f)) }"

definition decode_next :: "(u8 list \<Rightarrow> 'e + 'm) \<Rightarrow> frame_reader
    \<Rightarrow> ((('e, 'i) protocol_error + 'm option) \<times> frame_reader) option" where
  "decode_next de f = do {
     buf \<leftarrow> slice_from (fr_offset f) (fr_buf f);
     (case decode_frame buf of
        Inl e \<Rightarrow> Some (Inl e, f)
      | Inr None \<Rightarrow> Some (Inr None, f)
      | Inr (Some (data, consumed)) \<Rightarrow>
          (case decode de data of
             Inl e \<Rightarrow> Some (Inl e, f)
           | Inr m \<Rightarrow> Some (Inr (Some m), f\<lparr>fr_offset := fr_offset f + consumed\<rparr>))) }"

definition into_leftover :: "frame_reader \<Rightarrow> u8 list option" where
  "into_leftover f = slice_from (fr_offset f) (fr_buf f)"

text \<open>The bytes received and not yet decoded, and the well-formedness of a reader.\<close>

definition unread :: "frame_reader \<Rightarrow> u8 list" where
  "unread f = drop (fr_offset f) (fr_buf f)"

definition reader_ok :: "frame_reader \<Rightarrow> bool" where
  "reader_ok f \<longleftrightarrow> fr_offset f \<le> length (fr_buf f)"

subsection \<open>The loops over a reader\<close>

text \<open>What an asynchronous loop has come to: waiting for more data, or returned.\<close>

datatype 'a outcome = Waiting | Done 'a

text \<open>A read with a deadline, which may pass instead.\<close>

datatype 'i timed_read = TimedOut | ReadInTime "'i io_error + u8 list"

fun read_one_loop :: "(u8 list \<Rightarrow> 'e + 'm) \<Rightarrow> ('i io_error + u8 list) list \<Rightarrow> frame_reader
    \<Rightarrow> (('e, 'i) protocol_error + 'm) outcome option" where
  "read_one_loop de [] f = Some Waiting"
| "read_one_loop de (rd # rds) f = do {
     (r, f) \<leftarrow> fill_from rd f;
     (case r of
        Inl e \<Rightarrow> Some (Done (Inl e))
      | Inr False \<Rightarrow> Some (Done (Inl (Io (UnexpectedEof (bytes ''connection closed'')))))
      | Inr True \<Rightarrow> do {
          (r, f) \<leftarrow> decode_next de f;
          (case r of
             Inl e \<Rightarrow> Some (Done (Inl e))
           | Inr (Some m) \<Rightarrow> Some (Done (Inr m))
           | Inr None \<Rightarrow> read_one_loop de rds f) }) }"

definition read_one_message :: "(u8 list \<Rightarrow> 'e + 'm) \<Rightarrow> ('i io_error + u8 list) list
    \<Rightarrow> (('e, 'i) protocol_error + 'm) outcome option" where
  "read_one_message de rds = read_one_loop de rds reader_new"

text \<open>
  \<open>while let Some(msg) = frames.decode_next()? \<dots>\<close>, over the \<open>decode_next\<close> of either crate: \<open>h\<close> is the
  body, which returns an error (\<open>?\<close>), leaves the enclosing function (\<open>Inr False\<close>) or goes on. A loop
  that does not end would be \<open>None\<close>.
\<close>

partial_function (option) while_msgs :: "(frame_reader \<Rightarrow> (('x + 'm option) \<times> frame_reader) option)
    \<Rightarrow> ('m \<Rightarrow> 's \<Rightarrow> ('x + bool) \<times> 's) \<Rightarrow> frame_reader \<Rightarrow> 's \<Rightarrow> (('x + bool) \<times> frame_reader \<times> 's) option" where
  "while_msgs dec h f s = Option.bind (dec f) (\<lambda>(r, f).
     (case r of
        Inl e \<Rightarrow> Some (Inl e, f, s)
      | Inr None \<Rightarrow> Some (Inr True, f, s)
      | Inr (Some m) \<Rightarrow>
          (case h m s of
             (Inl e, s) \<Rightarrow> Some (Inl e, f, s)
           | (Inr go_on, s) \<Rightarrow> if go_on then while_msgs dec h f s else Some (Inr False, f, s))))"

text \<open>
  \<open>loop { if !frames.fill_from(..).await? { break; } while let .. }\<close>, over the two operations of a reader.
\<close>

fun relay :: "('r \<Rightarrow> frame_reader \<Rightarrow> (('x + bool) \<times> frame_reader) option)
    \<Rightarrow> (frame_reader \<Rightarrow> (('x + 'm option) \<times> frame_reader) option)
    \<Rightarrow> ('m \<Rightarrow> 's \<Rightarrow> ('x + bool) \<times> 's) \<Rightarrow> 'r list \<Rightarrow> frame_reader \<Rightarrow> 's
    \<Rightarrow> (('x + unit) outcome \<times> frame_reader \<times> 's) option" where
  "relay fill dec h [] f s = Some (Waiting, f, s)"
| "relay fill dec h (rd # rds) f s = do {
     (r, f) \<leftarrow> fill rd f;
     (case r of
        Inl e \<Rightarrow> Some (Done (Inl e), f, s)
      | Inr False \<Rightarrow> Some (Done (Inr ()), f, s)
      | Inr True \<Rightarrow> do {
          (r, f, s) \<leftarrow> while_msgs dec h f s;
          (case r of
             Inl e \<Rightarrow> Some (Done (Inl e), f, s)
           | Inr go_on \<Rightarrow> if go_on then relay fill dec h rds f s else Some (Done (Inr ()), f, s)) }) }"

lemma relay_map: "relay fill dec h (map g rds) f s = relay (\<lambda>rd. fill (g rd)) dec h rds f s"
proof (induction rds arbitrary: f s)
  case (Cons rd rds)
  then show ?case
    by (cases "fill (g rd) f")
      (auto split: sum.splits bool.splits intro!: bind_option_cong)
qed simp

subsection \<open>Reference semantics: the messages of a byte stream\<close>

text \<open>
  \<open>parse_stream nx bs\<close> splits a byte string at the frames \<open>nx\<close> finds at its front: the messages, the
  error that ends it, and the bytes that are not consumed. \<open>run_msgs\<close> hands messages to a loop body.
\<close>

function parse_stream :: "(u8 list \<Rightarrow> 'x + ('m \<times> usize) option) \<Rightarrow> u8 list \<Rightarrow> 'm list \<times> 'x option \<times> u8 list" where
  "parse_stream nx bs =
     (case nx bs of
        Inl e \<Rightarrow> ([], Some e, bs)
      | Inr None \<Rightarrow> ([], None, bs)
      | Inr (Some (m, k)) \<Rightarrow>
          if 0 < k \<and> k \<le> length bs
          then let (ms, e, rest) = parse_stream nx (drop k bs) in (m # ms, e, rest)
          else ([], None, bs))"
  by pat_completeness auto
termination by (relation "measure (length \<circ> snd)") auto

declare parse_stream.simps [simp del]

fun run_msgs :: "('m \<Rightarrow> 's \<Rightarrow> ('x + bool) \<times> 's) \<Rightarrow> 'm list \<Rightarrow> 's \<Rightarrow> ('x + bool) \<times> 's" where
  "run_msgs h [] s = (Inr True, s)"
| "run_msgs h (m # ms) s =
     (case h m s of (Inl e, s) \<Rightarrow> (Inl e, s) | (Inr go_on, s) \<Rightarrow> if go_on then run_msgs h ms s else (Inr False, s))"

text \<open>What the loop body and the end of the stream come to together.\<close>

definition stream_result :: "('x + bool) \<times> 's \<Rightarrow> 'x option \<Rightarrow> ('x + bool) \<times> 's" where
  "stream_result r e = (case r of (Inr True, s) \<Rightarrow> (case e of None \<Rightarrow> (Inr True, s) | Some x \<Rightarrow> (Inl x, s)) | _ \<Rightarrow> r)"

lemma run_msgs_append:
  "run_msgs h (ms @ ms') s = (case run_msgs h ms s of (Inr True, s) \<Rightarrow> run_msgs h ms' s | r \<Rightarrow> r)"
  by (induction ms arbitrary: s) (auto split: sum.splits prod.splits bool.splits)

subsection \<open>The contract of a framed reader\<close>

locale framed_reader =
  fixes nx :: "u8 list \<Rightarrow> 'x + ('m \<times> usize) option"
    and fill :: "u8 list \<Rightarrow> frame_reader \<Rightarrow> (('x + bool) \<times> frame_reader) option"
    and dec :: "frame_reader \<Rightarrow> (('x + 'm option) \<times> frame_reader) option"
  assumes nx_progress: "nx bs = Inr (Some (m, k)) \<Longrightarrow> 0 < k \<and> k \<le> length bs"
    and nx_extend: "nx bs \<noteq> Inr None \<Longrightarrow> nx (bs @ cs) = nx bs"
    and nx_short: "nx bs = Inr None \<Longrightarrow> length bs < MAX_FRAME_SIZE + 4"
    and dec_nx: "reader_ok f \<Longrightarrow> dec f = Some (case nx (unread f) of
        Inl e \<Rightarrow> (Inl e, f) | Inr None \<Rightarrow> (Inr None, f)
      | Inr (Some (m, k)) \<Rightarrow> (Inr (Some m), f\<lparr>fr_offset := fr_offset f + k\<rparr>))"
    and fill_unread: "reader_ok f \<Longrightarrow> bs \<noteq> [] \<Longrightarrow> length (unread f) + length bs \<le> MAX_FRAME_SIZE * 2 + 8 \<Longrightarrow>
      \<exists>f'. fill bs f = Some (Inr True, f') \<and> reader_ok f' \<and> unread f' = unread f @ bs"
begin

lemma parse_more:
  assumes "nx bs = Inr (Some (m, k))"
  shows "parse_stream nx bs = (let (ms, e, rest) = parse_stream nx (drop k bs) in (m # ms, e, rest))"
  using nx_progress [OF assms] assms by (subst parse_stream.simps) simp

lemma parse_stop: "nx bs = Inr None \<Longrightarrow> parse_stream nx bs = ([], None, bs)"
  and parse_error: "nx bs = Inl e \<Longrightarrow> parse_stream nx bs = ([], Some e, bs)"
  by (subst parse_stream.simps, simp)+

lemma parse_cases [consumes 0, case_names stop error more]:
  assumes "nx bs = Inr None \<Longrightarrow> P" and "\<And>e. nx bs = Inl e \<Longrightarrow> P"
    and "\<And>m k. nx bs = Inr (Some (m, k)) \<Longrightarrow> length (drop k bs) < length bs \<Longrightarrow> P"
  shows P
proof (cases "nx bs")
  case (Inr a)
  then show ?thesis
    using assms(1,3) nx_progress [of bs] by (cases a) (auto intro: diff_less)
qed (use assms in auto)

lemma parse_rest:
  "parse_stream nx bs = (ms, e, rest) \<Longrightarrow> nx rest = (case e of None \<Rightarrow> Inr None | Some x \<Rightarrow> Inl x)"
proof (induction bs arbitrary: ms rule: measure_induct_rule [where f = length])
  case (less bs)
  show ?case
  proof (cases bs rule: parse_cases)
    case (more m k)
    obtain ms' where "parse_stream nx (drop k bs) = (ms', e, rest)"
      using less.prems more(1) by (auto simp: parse_more Let_def split: prod.splits)
    then show ?thesis by (rule less.IH [OF more(2)])
  qed (use less.prems in \<open>auto simp: parse_stop parse_error\<close>)
qed

lemma parse_append:
  "parse_stream nx (bs @ cs) =
     (let (ms, e, rest) = parse_stream nx bs in
      case e of Some x \<Rightarrow> (ms, Some x, rest @ cs)
      | None \<Rightarrow> let (ms', e', rest') = parse_stream nx (rest @ cs) in (ms @ ms', e', rest'))"
proof (induction bs rule: measure_induct_rule [where f = length])
  case (less bs)
  show ?case
  proof (cases bs rule: parse_cases)
    case stop
    then show ?thesis by (simp add: parse_stop split: prod.splits)
  next
    case (error e)
    then show ?thesis using nx_extend [of bs cs] by (simp add: parse_error)
  next
    case (more m k)
    have "k \<le> length bs" using nx_progress [OF more(1)] by simp
    then show ?thesis
      using less.IH [OF more(2)] nx_extend [of bs cs] more(1)
      by (auto simp: parse_more Let_def split: prod.splits option.splits)
  qed
qed

lemma while_msgs_eq:
  "reader_ok f \<Longrightarrow> parse_stream nx (unread f) = (ms, e, rest) \<Longrightarrow>
   \<exists>r s' f'. while_msgs dec h f s = Some (r, f', s') \<and> reader_ok f'
     \<and> (r, s') = stream_result (run_msgs h ms s) e \<and> (r = Inr True \<longrightarrow> unread f' = rest)"
proof (induction "unread f" arbitrary: f ms s rule: measure_induct_rule [where f = length])
  case less
  show ?case
  proof (cases "unread f" rule: parse_cases)
    case stop
    then show ?thesis
      using less.prems by (subst while_msgs.simps) (simp add: dec_nx parse_stop stream_result_def)
  next
    case (error x)
    then show ?thesis
      using less.prems by (subst while_msgs.simps) (auto simp: dec_nx parse_error stream_result_def)
  next
    case (more m k)
    let ?f = "f\<lparr>fr_offset := fr_offset f + k\<rparr>"
    have k: "k \<le> length (unread f)" using nx_progress [OF more(1)] by simp
    have f': "unread ?f = drop k (unread f)" "reader_ok ?f"
      using k less.prems(1) by (simp_all add: unread_def reader_ok_def add.commute)
    obtain ms' where ms: "ms = m # ms'" and ms': "parse_stream nx (unread ?f) = (ms', e, rest)"
      using less.prems(2) more(1) f'(1) by (auto simp: parse_more Let_def split: prod.splits)
    note ih = less.hyps [OF _ f'(2) ms', unfolded f'(1), OF more(2)]
    have step: "while_msgs dec h f s = (case h m s of
        (Inl e, s) \<Rightarrow> Some (Inl e, ?f, s)
      | (Inr go_on, s) \<Rightarrow> if go_on then while_msgs dec h ?f s else Some (Inr False, ?f, s))"
      using less.prems(1) more(1) by (subst while_msgs.simps) (simp add: dec_nx)
    show ?thesis
    proof (cases "h m s")
      case (Pair r s')
      then show ?thesis
        using f'(2) ih [of s'] unfolding step ms
        by (cases r) (auto simp: stream_result_def split: bool.splits)
    qed
  qed
qed

lemma relay_eq:
  assumes "reader_ok f" "list_all (\<lambda>c. c \<noteq> [] \<and> length c \<le> READ_BUF_SIZE) cs" "cs \<noteq> []"
    and "length (unread f) + READ_BUF_SIZE \<le> MAX_FRAME_SIZE * 2 + 8"
    and "parse_stream nx (unread f @ concat cs) = (ms, e, rest)"
    and "stream_result (run_msgs h ms s) e = (r, s')"
  shows "\<exists>f'. relay fill dec h cs f s =
     Some (case r of Inl x \<Rightarrow> Done (Inl x) | Inr go_on \<Rightarrow> if go_on then Waiting else Done (Inr ()), f', s')
     \<and> (r = Inr True \<longrightarrow> reader_ok f' \<and> unread f' = rest)"
  using assms
proof (induction cs arbitrary: f s ms)
  case (Cons c cs)
  have c: "c \<noteq> []" "length (unread f) + length c \<le> MAX_FRAME_SIZE * 2 + 8" using Cons.prems by auto
  obtain f1 where f1: "fill c f = Some (Inr True, f1)" "reader_ok f1" "unread f1 = unread f @ c"
    using fill_unread [OF Cons.prems(1) c] by blast
  obtain ms1 e1 rest1 where p1: "parse_stream nx (unread f1) = (ms1, e1, rest1)" by (metis prod_cases3)
  obtain r1 s1 f2 where w: "while_msgs dec h f1 s = Some (r1, f2, s1)" "reader_ok f2"
      "(r1, s1) = stream_result (run_msgs h ms1 s) e1" "r1 = Inr True \<longrightarrow> unread f2 = rest1"
    using while_msgs_eq [OF f1(2) p1, of h s] by (elim exE conjE) (rule that)
  have p: "(ms, e, rest) = (case e1 of Some x \<Rightarrow> (ms1, Some x, rest1 @ concat cs)
      | None \<Rightarrow> let (ms', e', rest') = parse_stream nx (rest1 @ concat cs) in (ms1 @ ms', e', rest'))"
    using Cons.prems(5) parse_append [of "unread f @ c" "concat cs"] by (simp add: p1 [unfolded f1(3)])
  show ?case
  proof (cases "r1 = Inr True")
    case False
    have "(r, s') = (r1, s1)"
      using False w(3) p Cons.prems(6)
      by (auto simp: stream_result_def run_msgs_append split: option.splits prod.splits sum.splits bool.splits)
    then have "r = r1" "s' = s1" by simp_all
    then show ?thesis using False f1(1) w(1) by (auto split: sum.splits)
  next
    case True
    then have run1: "run_msgs h ms1 s = (Inr True, s1)" and e1: "e1 = None"
      using w(3) by (auto simp: stream_result_def split: option.splits prod.splits sum.splits bool.splits)
    have u2: "unread f2 = rest1" using True w(4) by simp
    have short: "length (unread f2) < MAX_FRAME_SIZE + 4"
      using parse_rest [OF p1] by (simp add: e1 u2 nx_short)
    obtain ms2 where ms2: "ms = ms1 @ ms2" "parse_stream nx (unread f2 @ concat cs) = (ms2, e, rest)"
      using p by (auto simp: e1 u2 split: prod.splits)
    show ?thesis
    proof (cases cs)
      case Nil
      have "nx (unread f2) = Inr None" using parse_rest [OF p1] by (simp add: e1 u2)
      then have "ms2 = []" "e = None" "rest = unread f2" using ms2(2) Nil by (auto simp: parse_stop)
      then show ?thesis using f1 w True run1 Nil Cons.prems(6) ms2(1) by (auto simp: stream_result_def)
    next
      case Cons': (Cons c' cs')
      have "stream_result (run_msgs h ms2 s1) e = (r, s')"
        using Cons.prems(6) run1 by (simp add: ms2(1) run_msgs_append)
      then obtain f' where "relay fill dec h cs f2 s1 =
          Some (case r of Inl x \<Rightarrow> Done (Inl x) | Inr go_on \<Rightarrow> if go_on then Waiting else Done (Inr ()), f', s')"
          "r = Inr True \<longrightarrow> reader_ok f' \<and> unread f' = rest"
        using Cons.IH [OF w(2) _ _ _ ms2(2)] Cons.prems(2) short Cons'
        by (auto simp: MAX_FRAME_SIZE_def READ_BUF_SIZE_def)
      then show ?thesis using f1 w True by auto
    qed
  qed
qed simp

end

subsection \<open>Lengths and frames\<close>

lemma be_bytes_value:
  assumes "n < 2 ^ 32"
  shows "u32_from_be_bytes (n div 16777216 mod 256) (n div 65536 mod 256) (n div 256 mod 256) (n mod 256) = n"
proof -
  have a: "n div 65536 = n div 256 div 256" "n div 16777216 = n div 256 div 256 div 256"
    by (simp_all add: div_mult2_eq [symmetric])
  have "n div 256 div 256 div 256 < 256" using assms by (simp add: div_mult2_eq [symmetric] less_mult_imp_div_less)
  then have "n div 256 div 256 div 256 mod 256 = n div 256 div 256 div 256" by simp
  moreover have "n = n div 256 * 256 + n mod 256" "n div 256 = n div 256 div 256 * 256 + n div 256 mod 256"
    "n div 256 div 256 = n div 256 div 256 div 256 * 256 + n div 256 div 256 mod 256" by simp_all
  ultimately show ?thesis unfolding u32_from_be_bytes_def a by linarith
qed

text \<open>A whole frame at the front of a buffer.\<close>

lemma decode_frame_whole:
  assumes "length data \<le> MAX_FRAME_SIZE"
  shows "decode_frame (u32_to_be_bytes (length data) @ data @ rest) = Inr (Some (data, 4 + length data))"
  using assms be_bytes_value [of "length data"]
  by (simp add: u32_to_be_bytes_def Let_def MAX_FRAME_SIZE_def)

lemma decode_frame_some:
  assumes "decode_frame buf = Inr (Some (data, k))"
  shows "k = 4 + length data" "k \<le> length buf" "length data \<le> MAX_FRAME_SIZE" "data = take (length data) (drop 4 buf)"
  using assms by (cases buf rule: decode_frame.cases, auto simp: Let_def split: if_splits)+

lemma decode_frame_extend:
  "decode_frame buf \<noteq> Inr None \<Longrightarrow> decode_frame (buf @ cs) = decode_frame buf"
  by (cases buf rule: decode_frame.cases) (auto simp: Let_def split: if_splits)

lemma decode_frame_short: "decode_frame buf = Inr None \<Longrightarrow> length buf < MAX_FRAME_SIZE + 4"
  by (cases buf rule: decode_frame.cases) (auto simp: Let_def MAX_FRAME_SIZE_def split: if_splits)

subsection \<open>The reader keeps the contract\<close>

text \<open>The next message at the front of the unread bytes, with the number of bytes it takes.\<close>

definition next_frame :: "(u8 list \<Rightarrow> 'e + 'm) \<Rightarrow> u8 list \<Rightarrow> ('e, 'i) protocol_error + ('m \<times> usize) option" where
  "next_frame de bs =
     (case decode_frame bs of
        Inl e \<Rightarrow> Inl e
      | Inr None \<Rightarrow> Inr None
      | Inr (Some (data, k)) \<Rightarrow> (case de data of Inl e \<Rightarrow> Inl (Deserialize e) | Inr m \<Rightarrow> Inr (Some (m, k))))"

lemma decode_next_eq:
  "reader_ok f \<Longrightarrow> decode_next de f = Some (case next_frame de (unread f) of
     Inl e \<Rightarrow> (Inl e, f) | Inr None \<Rightarrow> (Inr None, f)
   | Inr (Some (m, k)) \<Rightarrow> (Inr (Some m), f\<lparr>fr_offset := fr_offset f + k\<rparr>))"
  by (simp add: decode_next_def next_frame_def decode_def slice_from_def reader_ok_def unread_def
      split: sum.splits option.splits prod.splits)

lemma fill_from_unread:
  assumes "reader_ok f" "bs \<noteq> []" "length (unread f) + length bs \<le> MAX_FRAME_SIZE * 2 + 8"
  shows "\<exists>f'. fill_from (Inr bs) f = Some (Inr True, f') \<and> reader_ok f' \<and> unread f' = unread f @ bs"
  using assms by (auto simp: fill_from_def slice_from_def reader_ok_def unread_def Let_def)

lemma next_frame_progress:
  fixes de :: "u8 list \<Rightarrow> 'e + 'm"
  assumes "(next_frame de bs :: ('e, 'i) protocol_error + _) = Inr (Some (m, k))"
  shows "0 < k \<and> k \<le> length bs"
proof -
  obtain d where "(decode_frame bs :: ('e, 'i) protocol_error + _) = Inr (Some (d, k))"
    using assms by (auto simp: next_frame_def split: sum.splits option.splits)
  from decode_frame_some(1,2) [OF this] show ?thesis by simp
qed

lemma next_frame_extend:
  fixes de :: "u8 list \<Rightarrow> 'e + 'm"
  assumes "(next_frame de bs :: ('e, 'i) protocol_error + _) \<noteq> Inr None"
  shows "(next_frame de (bs @ cs) :: ('e, 'i) protocol_error + _) = next_frame de bs"
proof -
  have "(decode_frame bs :: ('e, 'i) protocol_error + _) \<noteq> Inr None"
    using assms by (auto simp: next_frame_def)
  then show ?thesis by (simp add: next_frame_def decode_frame_extend)
qed

lemma next_frame_short:
  fixes de :: "u8 list \<Rightarrow> 'e + 'm"
  assumes "(next_frame de bs :: ('e, 'i) protocol_error + _) = Inr None"
  shows "length bs < MAX_FRAME_SIZE + 4"
proof -
  have "(decode_frame bs :: ('e, 'i) protocol_error + _) = Inr None"
    using assms by (auto simp: next_frame_def split: sum.splits option.splits)
  then show ?thesis by (rule decode_frame_short)
qed

interpretation retach_reader: framed_reader "next_frame de" "\<lambda>bs. fill_from (Inr bs)" "decode_next de" for de
  by unfold_locales (simp_all add: next_frame_progress next_frame_extend next_frame_short decode_next_eq fill_from_unread)

text \<open>Errors carried into a larger error type (\<open>?\<close>), and the reader that has them.\<close>

definition lift_error :: "(('c + 'a) \<times> 'f) option \<Rightarrow> ((('c + 'd) + 'a) \<times> 'f) option" where
  "lift_error m = map_option (map_prod (map_sum Inl id) id) m"

definition lift_errors :: "('r \<Rightarrow> 'f \<Rightarrow> (('c + 'a) \<times> 'f) option) \<Rightarrow> 'r \<Rightarrow> 'f \<Rightarrow> ((('c + 'd) + 'a) \<times> 'f) option" where
  "lift_errors fill rd f = lift_error (fill rd f)"

definition lift_next :: "('b \<Rightarrow> 'c + 'a) \<Rightarrow> 'b \<Rightarrow> ('c + 'd) + 'a" where
  "lift_next nx bs = map_sum Inl id (nx bs)"

lemma lift_next_iff [simp]:
  "lift_next nx bs = Inr a \<longleftrightarrow> nx bs = Inr a"
  "lift_next nx bs = Inl e \<longleftrightarrow> (\<exists>c. e = Inl c \<and> nx bs = Inl c)"
  by (cases "nx bs"; auto simp: lift_next_def)+

context framed_reader
begin

lemma lifted: "framed_reader (lift_next nx) (lift_errors fill) (\<lambda>f. lift_error (dec f))"
proof unfold_locales
  fix bs cs :: "u8 list" assume "lift_next nx bs \<noteq> (Inr None :: ('x + 'd) + ('m \<times> nat) option)"
  then have "nx bs \<noteq> Inr None" by simp
  then show "lift_next nx (bs @ cs) = (lift_next nx bs :: ('x + 'd) + ('m \<times> nat) option)"
    by (simp add: lift_next_def nx_extend)
next
  fix f assume ok: "reader_ok f"
  show "lift_error (dec f) = Some (case lift_next nx (unread f) :: ('x + 'd) + ('m \<times> nat) option of
        Inl e \<Rightarrow> (Inl e, f) | Inr None \<Rightarrow> (Inr None, f)
      | Inr (Some (m, k)) \<Rightarrow> (Inr (Some m), f\<lparr>fr_offset := fr_offset f + k\<rparr>))"
    unfolding dec_nx [OF ok]
    by (auto simp: lift_error_def lift_next_def split: sum.splits option.splits)
next
  fix f :: frame_reader and bs :: "u8 list"
  assume "reader_ok f" "bs \<noteq> []" "length (unread f) + length bs \<le> MAX_FRAME_SIZE * 2 + 8"
  from fill_unread [OF this] obtain f' where "fill bs f = Some (Inr True, f')"
    "reader_ok f'" "unread f' = unread f @ bs" by blast
  then show "\<exists>f'. lift_errors fill bs f = Some (Inr True, f') \<and> reader_ok f' \<and> unread f' = unread f @ bs"
    by (simp add: lift_errors_def lift_error_def)
qed (auto dest: nx_progress nx_short)

end

interpretation lifted_reader: framed_reader "lift_next (next_frame de)" "lift_errors (\<lambda>bs. fill_from (Inr bs))"
    "\<lambda>f. lift_error (decode_next de f)" for de
  by (rule retach_reader.lifted)

text \<open>A whole frame of a message in front of more bytes is that message.\<close>

lemma next_frame_encoded:
  assumes "encode ser m = Inr frame" "\<And>d. ser m = Inr d \<Longrightarrow> de d = Inr m \<and> length d \<le> MAX_FRAME_SIZE"
  shows "next_frame de (frame @ rest) = Inr (Some (m, length frame))"
proof -
  obtain d where "ser m = Inr d" "frame = u32_to_be_bytes (length d) @ d"
    using assms(1) by (auto simp: encode_def split: sum.splits if_splits)
  then show ?thesis
    using assms(2) [of d] by (simp add: next_frame_def decode_frame_whole) (simp add: u32_to_be_bytes_def)
qed

subsection \<open>Streams of encoded messages\<close>

text \<open>
  What the codec relies on of \<open>bincode\<close> for a message: it serialises within the size limit and
  deserialises to the same message (its documented round trip under one configuration).
\<close>

definition codec_ok :: "('m \<Rightarrow> 'e + u8 list) \<Rightarrow> (u8 list \<Rightarrow> 'e + 'm) \<Rightarrow> 'm \<Rightarrow> bool" where
  "codec_ok ser de m \<longleftrightarrow> (case ser m of Inl _ \<Rightarrow> False | Inr d \<Rightarrow> de d = Inr m \<and> length d \<le> MAX_FRAME_SIZE)"

definition wire_frame :: "('m \<Rightarrow> 'e + u8 list) \<Rightarrow> 'm \<Rightarrow> u8 list" where
  "wire_frame ser m = (case ser m of Inl _ \<Rightarrow> [] | Inr d \<Rightarrow> u32_to_be_bytes (length d) @ d)"

lemma encode_frame: "codec_ok ser de m \<Longrightarrow> encode ser m = Inr (wire_frame ser m)"
  by (auto simp: codec_ok_def encode_def wire_frame_def MAX_FRAME_SIZE_def split: sum.splits)

lemma frame_nonempty: "codec_ok ser de m \<Longrightarrow> wire_frame ser m \<noteq> []"
  by (auto simp: codec_ok_def wire_frame_def u32_to_be_bytes_def split: sum.splits)

lemma next_frame_frame:
  "codec_ok ser de m \<Longrightarrow> next_frame de (wire_frame ser m @ rest) = Inr (Some (m, length (wire_frame ser m)))"
  using next_frame_encoded [OF encode_frame, of ser de m de] by (auto simp: codec_ok_def split: sum.splits)

lemma parse_frames:
  fixes de :: "u8 list \<Rightarrow> 'e + 'm"
  assumes "\<forall>m\<in>set ms. codec_ok ser de m"
  shows "(parse_stream (next_frame de) (concat (map (wire_frame ser) ms) @ rest) :: 'm list \<times> ('e, 'i) protocol_error option \<times> _) =
    (let (ms', e, rest') = parse_stream (next_frame de) rest in (ms @ ms', e, rest'))"
  using assms
proof (induction ms)
  case (Cons m ms)
  then have "(next_frame de (wire_frame ser m @ concat (map (wire_frame ser) ms) @ rest) :: ('e, 'i) protocol_error + _)
      = Inr (Some (m, length (wire_frame ser m)))"
    by (simp add: next_frame_frame)
  from retach_reader.parse_more [OF this] show ?case using Cons by (simp split: prod.splits)
qed simp

lemma parse_nothing [simp]: "parse_stream (next_frame de) [] = ([], None, [])"
  by (simp add: parse_stream.simps next_frame_def)

lemma parse_frames_all:
  "\<forall>m\<in>set ms. codec_ok ser de m \<Longrightarrow> parse_stream (next_frame de) (concat (map (wire_frame ser) ms)) = (ms, None, [])"
  using parse_frames [of ms ser de "[]"] by simp

lemma parse_lift:
  "parse_stream (lift_next nx) bs = (let (ms, e, rest) = parse_stream nx bs in (ms, map_option Inl e, rest))"
proof (induction nx bs rule: parse_stream.induct)
  case (1 nx bs)
  show ?case
  proof (cases "nx bs")
    case (Inr a)
    then show ?thesis
      using 1 by (cases a) (auto simp: parse_stream.simps [of _ bs] lift_next_def Let_def split: prod.splits)
  qed (simp add: parse_stream.simps lift_next_def)
qed

text \<open>A loop that reads a stream of whole frames in chunks of any sizes handles exactly its messages.\<close>

lemma relay_frames:
  fixes de :: "u8 list \<Rightarrow> 'e + 'm" and h :: "'m \<Rightarrow> 's \<Rightarrow> ((('e, 'i) protocol_error + 'd) + bool) \<times> 's"
  assumes "\<forall>m\<in>set ms. codec_ok ser de m" "concat cs = concat (map (wire_frame ser) ms)"
    and "list_all (\<lambda>c. c \<noteq> [] \<and> length c \<le> READ_BUF_SIZE) cs"
    and "run_msgs h ms s = (Inr True, s')"
  shows "\<exists>f. relay (lift_errors fill_from) (\<lambda>f. lift_error (decode_next de f)) h (map Inr cs) (with_leftover []) s
    = Some (Waiting, f, s') \<and> unread f = []"
proof (cases "cs = []")
  case True
  then have "ms = []" using assms(1,2) frame_nonempty by (cases ms) fastforce+
  then show ?thesis using True assms(4) by (simp add: unread_def with_leftover_def)
next
  case False
  have f: "reader_ok (with_leftover [])" "unread (with_leftover []) = []"
    by (simp_all add: reader_ok_def unread_def with_leftover_def)
  have p: "(parse_stream (lift_next (next_frame de)) (unread (with_leftover []) @ concat cs)
      :: 'm list \<times> (('e, 'i) protocol_error + 'd) option \<times> _) = (ms, None, [])"
    by (simp add: f assms(2) parse_lift parse_frames_all [OF assms(1)])
  have r: "stream_result (run_msgs h ms s) None = (Inr True, s')" by (simp add: stream_result_def assms(4))
  have small: "length (unread (with_leftover [])) + READ_BUF_SIZE \<le> MAX_FRAME_SIZE * 2 + 8"
    by (simp add: f READ_BUF_SIZE_def MAX_FRAME_SIZE_def)
  from lifted_reader.relay_eq [OF f(1) assms(3) False small p r] show ?thesis
    by (auto simp: relay_map lift_errors_def [abs_def])
qed

text \<open>The same when the last message ends the loop.\<close>

lemma relay_frames_stop:
  fixes de :: "u8 list \<Rightarrow> 'e + 'm" and h :: "'m \<Rightarrow> 's \<Rightarrow> ((('e, 'i) protocol_error + 'd) + bool) \<times> 's"
  assumes "\<forall>m\<in>set ms. codec_ok ser de m" "concat cs = concat (map (wire_frame ser) ms)"
    and "list_all (\<lambda>c. c \<noteq> [] \<and> length c \<le> READ_BUF_SIZE) cs" "cs \<noteq> []"
    and "run_msgs h ms s = (Inr False, s')"
  shows "\<exists>f. relay (lift_errors fill_from) (\<lambda>f. lift_error (decode_next de f)) h (map Inr cs) (with_leftover []) s
    = Some (Done (Inr ()), f, s')"
proof -
  have f: "reader_ok (with_leftover [])" "unread (with_leftover []) = []"
    by (simp_all add: reader_ok_def unread_def with_leftover_def)
  have p: "(parse_stream (lift_next (next_frame de)) (unread (with_leftover []) @ concat cs)
      :: 'm list \<times> (('e, 'i) protocol_error + 'd) option \<times> _) = (ms, None, [])"
    by (simp add: f assms(2) parse_lift parse_frames_all [OF assms(1)])
  have r: "stream_result (run_msgs h ms s) None = (Inr False, s')" by (simp add: stream_result_def assms(5))
  have small: "length (unread (with_leftover [])) + READ_BUF_SIZE \<le> MAX_FRAME_SIZE * 2 + 8"
    by (simp add: f READ_BUF_SIZE_def MAX_FRAME_SIZE_def)
  from lifted_reader.relay_eq [OF f(1) assms(3,4) small p r] show ?thesis
    by (auto simp: relay_map lift_errors_def [abs_def])
qed

end
