(* ===== verification/Retach_Launch.thy ===== *)
theory Retach_Launch
  imports Rust_Text Core_Types Codec
begin

section \<open>Launching sessions from the application (\<open>octty-term/src/retach.rs\<close>, \<open>lib.rs\<close>)\<close>

text \<open>
  The command line of a terminal's session, its name, the bytes of named keys, and the text that is left
  of terminal output without its escape sequences. The environment (\<open>SHELL\<close>, the history limit, the
  path of the binary) is a parameter.
\<close>

record session_spec =
  sp_workspace_id :: rtext
  sp_pane_id :: rtext
  sp_kind :: terminal_kind
  sp_cwd :: rtext
  sp_command :: rtext
  sp_parameters :: "rtext list"
  sp_handler :: inner_session_handler
  sp_inner_session_id :: "rtext option"
  sp_on_exit :: terminal_exit_behavior
  sp_cols :: u16
  sp_rows :: u16

record retach_launch =
  rl_program :: rtext
  rl_session_name :: rtext
  rl_args :: "rtext list"
  rl_clean_env :: "(rtext \<times> rtext) list"

subsection \<open>Shell words\<close>

definition shell_single_quote :: "rtext \<Rightarrow> rtext" where
  "shell_single_quote value = [39] @ concat (map (\<lambda>c. if c = 39 then [39, 92, 39, 39] else [c]) value) @ [39]"

definition shell_safe_char :: "rchar \<Rightarrow> bool" where
  "shell_safe_char c \<longleftrightarrow> is_ascii_alphanumeric c \<or> c \<in> {95, 45, 46, 47, 58, 61}"

definition shell_quote :: "rtext \<Rightarrow> rtext" where
  "shell_quote value =
     (if value = [] then [39, 39] else if list_all shell_safe_char value then value else shell_single_quote value)"

definition shell_command_line :: "rtext \<Rightarrow> rtext list \<Rightarrow> rtext" where
  "shell_command_line command params = join [32] (map shell_quote (command # params))"

definition restart_auto_shell_command :: "rtext \<Rightarrow> rtext" where
  "restart_auto_shell_command line =
     bytes ''while true; do '' @ line @ bytes ''; status=$?; printf '' @ [39, 10]
     @ bytes ''[octty] exited with status %s; restarting in 1s...'' @ [10, 39]
     @ bytes '' '' @ [34] @ bytes ''$status'' @ [34] @ bytes ''; sleep 1; done''"

definition restart_manually_shell_command :: "rtext \<Rightarrow> rtext" where
  "restart_manually_shell_command line =
     line @ bytes ''; status=$?; printf '' @ [39, 10]
     @ bytes ''[octty] exited with status %s. Restart manually or exit the shell to close.'' @ [10, 39]
     @ bytes '' '' @ [34] @ bytes ''$status'' @ [34] @ bytes ''; exec '' @ [34] @ bytes ''${SHELL:-sh}'' @ [34]
     @ bytes '' -l''"

definition shell_argv :: "rtext option \<Rightarrow> rtext \<Rightarrow> rtext list" where
  "shell_argv shell line =
     [case shell of Some s \<Rightarrow> (if trim s \<noteq> [] then s else bytes ''sh'') | None \<Rightarrow> bytes ''sh'', bytes ''-lc'', line]"

subsection \<open>The command of a terminal\<close>

definition codex_terminal_command_args :: "rtext \<Rightarrow> session_spec \<Rightarrow> rtext list" where
  "codex_terminal_command_args command spec =
     command # sp_parameters spec @
       (case sp_inner_session_id spec of
          Some i \<Rightarrow> if trim i \<noteq> [] then [bytes ''resume'', i] else [codex_inner_session_prompt (sp_pane_id spec)]
        | None \<Rightarrow> [codex_inner_session_prompt (sp_pane_id spec)])"

fun terminal_kind_command :: "terminal_kind \<Rightarrow> rtext" where
  "terminal_kind_command KShell = []"
| "terminal_kind_command KCodex = bytes ''codex''"
| "terminal_kind_command KPi = bytes ''pi''"
| "terminal_kind_command KNvim = bytes ''nvim''"
| "terminal_kind_command KJjui = bytes ''jjui''"

definition effective_command :: "session_spec \<Rightarrow> rtext" where
  "effective_command spec =
     (let command = trim (sp_command spec) in if command = [] then terminal_kind_command (sp_kind spec) else command)"

definition terminal_command_args :: "rtext option \<Rightarrow> session_spec \<Rightarrow> rtext list" where
  "terminal_command_args shell spec =
     (let command = effective_command spec in
      if command = [] then []
      else if sp_handler spec = CodexHandler then codex_terminal_command_args command spec
      else let line = shell_command_line command (sp_parameters spec) in
           (case sp_on_exit spec of
              RestartAuto \<Rightarrow> shell_argv shell (restart_auto_shell_command line)
            | RestartManually \<Rightarrow> shell_argv shell (restart_manually_shell_command line)
            | CloseOnExit \<Rightarrow> command # sp_parameters spec))"

definition spawn_request_of :: "rtext option \<Rightarrow> session_spec \<Rightarrow> spawn_request" where
  "spawn_request_of shell spec = \<lparr>sr_cwd = Some (sp_cwd spec), sr_command = terminal_command_args shell spec\<rparr>"

definition stable_retach_session_name :: "session_spec \<Rightarrow> rtext" where
  "stable_retach_session_name spec =
     bytes ''octty-'' @ hex16 (fnv_hash (utf8 (sp_workspace_id spec) @ [0] @ utf8 (sp_pane_id spec)))"

definition DEFAULT_RETACH_HISTORY :: usize where "DEFAULT_RETACH_HISTORY = 10000"

text \<open>\<open>program\<close>: \<open>retach_binary()\<close>; \<open>history\<close>: \<open>retach_history()\<close>.\<close>

definition build_retach_launch :: "rtext \<Rightarrow> usize \<Rightarrow> rtext option \<Rightarrow> session_spec \<Rightarrow> retach_launch" where
  "build_retach_launch program history shell spec =
     (let session_name = stable_retach_session_name spec;
          command_args = terminal_command_args shell spec;
          args = [bytes ''open'', session_name, bytes ''--history'', decimal history, bytes ''--cwd'', sp_cwd spec];
          args = (if command_args \<noteq> [] then args @ [bytes ''--''] @ command_args else args)
      in \<lparr>rl_program = program, rl_session_name = session_name, rl_args = args, rl_clean_env = []\<rparr>)"

subsection \<open>Keys\<close>

definition key_table :: "(rtext \<times> u8 list) list" where
  "key_table =
     [(bytes ''Enter'', [13]), (bytes ''BSpace'', [127]), (bytes ''Delete'', 27 # bytes ''[3~''),
      (bytes ''Tab'', [9]), (bytes ''Escape'', [27]), (bytes ''Left'', 27 # bytes ''[D''),
      (bytes ''Right'', 27 # bytes ''[C''), (bytes ''Up'', 27 # bytes ''[A''), (bytes ''Down'', 27 # bytes ''[B''),
      (bytes ''Home'', 27 # bytes ''[H''), (bytes ''End'', 27 # bytes ''[F''), (bytes ''PageUp'', 27 # bytes ''[5~''),
      (bytes ''PageDown'', 27 # bytes ''[6~''), (bytes ''Insert'', 27 # bytes ''[2~''),
      (bytes ''F1'', 27 # bytes ''OP''), (bytes ''F2'', 27 # bytes ''OQ''), (bytes ''F3'', 27 # bytes ''OR''),
      (bytes ''F4'', 27 # bytes ''OS''), (bytes ''F5'', 27 # bytes ''[15~''), (bytes ''F6'', 27 # bytes ''[17~''),
      (bytes ''F7'', 27 # bytes ''[18~''), (bytes ''F8'', 27 # bytes ''[19~''), (bytes ''F9'', 27 # bytes ''[20~''),
      (bytes ''F10'', 27 # bytes ''[21~''), (bytes ''F11'', 27 # bytes ''[23~''), (bytes ''F12'', 27 # bytes ''[24~'')]"

definition retach_key_bytes :: "rtext \<Rightarrow> u8 list" where
  "retach_key_bytes key =
     (case map_of key_table key of
        Some bs \<Rightarrow> bs
      | None \<Rightarrow>
          if prefix (bytes ''C-'') key
          then (case drop 2 (utf8 key) of b # _ \<Rightarrow> [to_ascii_lowercase b mod 32] | [] \<Rightarrow> [])
          else utf8 key)"

subsection \<open>The visible text of terminal output\<close>

text \<open>The tails after a control sequence and after an operating-system command.\<close>

fun skip_csi :: "u8 list \<Rightarrow> u8 list" where
  "skip_csi [] = []"
| "skip_csi (b # bs) = (if 64 \<le> b \<and> b \<le> 126 then bs else skip_csi bs)"

fun skip_osc :: "u8 list \<Rightarrow> u8 list" where
  "skip_osc [] = []"
| "skip_osc (b # bs) =
     (if b = 7 then bs
      else if b = 27 \<and> (case bs of c # _ \<Rightarrow> c = 92 | [] \<Rightarrow> False) then tl bs
      else skip_osc bs)"

lemma length_skip_csi: "length (skip_csi bs) \<le> length bs"
  by (induction bs) auto

lemma length_skip_osc: "length (skip_osc bs) \<le> length bs"
  by (induction bs) auto

text \<open>\<open>byte as char\<close>: a byte is pushed as the character of that number.\<close>

function ansi_visible_text :: "u8 list \<Rightarrow> rtext" where
  "ansi_visible_text [] = []"
| "ansi_visible_text (b # bs) =
     (if b = 27 then
        (case bs of
           [] \<Rightarrow> []
         | c # rest \<Rightarrow>
             if c = 91 then ansi_visible_text (skip_csi rest)
             else if c = 93 then ansi_visible_text (skip_osc rest)
             else ansi_visible_text rest)
      else if b = 13 then ansi_visible_text bs
      else if b = 10 then 10 # ansi_visible_text bs
      else if b \<ge> 32 \<or> b = 9 then b # ansi_visible_text bs
      else ansi_visible_text bs)"
  by pat_completeness auto
termination
  by (relation "measure length")
    (auto simp: less_Suc_eq_le intro: le_SucI length_skip_csi length_skip_osc)

end
