(* ===== verification/Launch_Props.thy ===== *)
theory Launch_Props
  imports Retach_Launch
begin

section \<open>Properties of launched sessions\<close>

text \<open>
  A reader of shell words, which gives back the words that were quoted; the names of sessions are names
  the server accepts; what is left of terminal output.
\<close>

subsection \<open>A reader of shell words\<close>

text \<open>
  The part of the POSIX shell's word splitting that matters here: blanks separate words, single quotes
  keep everything up to the next one, a backslash keeps the next character. A character that means
  something else to the shell makes the line not a plain list of words. The arguments are whether a quote
  is open and the word so far.
\<close>

definition shell_literal :: "rchar \<Rightarrow> bool" where
  "shell_literal c \<longleftrightarrow> is_ascii_alphanumeric c \<or> c \<in> {37, 43, 44, 45, 46, 47, 58, 61, 64, 95}"

definition so_far :: "rtext option \<Rightarrow> rtext" where
  "so_far word = (case word of None \<Rightarrow> [] | Some w \<Rightarrow> w)"

fun sh_scan :: "bool \<Rightarrow> rtext option \<Rightarrow> rtext \<Rightarrow> rtext list option" where
  "sh_scan q word [] = (if q then None else Some (case word of None \<Rightarrow> [] | Some w \<Rightarrow> [w]))"
| "sh_scan True word (c # s) =
     (if c = 39 then sh_scan False (Some (so_far word)) s else sh_scan True (Some (so_far word @ [c])) s)"
| "sh_scan False word (c # s) =
     (if c = 39 then sh_scan True (Some (so_far word)) s
      else if c = 92 then
        (case s of
           [] \<Rightarrow> None
         | d # rest \<Rightarrow> if d = 10 then None else sh_scan False (Some (so_far word @ [d])) rest)
      else if c = 32 then
        (case word of None \<Rightarrow> sh_scan False None s | Some w \<Rightarrow> map_option (Cons w) (sh_scan False None s))
      else if shell_literal c then sh_scan False (Some (so_far word @ [c])) s
      else None)"

definition sh_words :: "rtext \<Rightarrow> rtext list option" where
  "sh_words line = sh_scan False None line"

lemma so_far_Some [simp]: "so_far (Some w) = w"
  and so_far_None [simp]: "so_far None = []"
  by (simp_all add: so_far_def)

lemma safe_literal:
  assumes "shell_safe_char c"
  shows "shell_literal c" "c \<noteq> 39" "c \<noteq> 92" "c \<noteq> 32"
  using assms by (auto simp: shell_safe_char_def shell_literal_def is_ascii_alphanumeric_def)

lemma sh_scan_safe:
  "list_all shell_safe_char v \<Longrightarrow> v \<noteq> [] \<Longrightarrow> sh_scan False word (v @ rest) = sh_scan False (Some (so_far word @ v)) rest"
proof (induction v arbitrary: word)
  case (Cons c v)
  then show ?case using safe_literal [of c] by (cases "v = []") simp_all
qed simp

lemma sh_scan_quoted:
  "sh_scan True (Some w) (concat (map (\<lambda>c. if c = 39 then [39, 92, 39, 39] else [c]) v) @ 39 # rest)
    = sh_scan False (Some (w @ v)) rest"
  by (induction v arbitrary: w) simp_all

lemma sh_scan_quote: "sh_scan False None (shell_quote v @ rest) = sh_scan False (Some v) rest"
proof -
  consider "v = []" | "v \<noteq> []" "list_all shell_safe_char v" | "v \<noteq> []" "\<not> list_all shell_safe_char v" by blast
  then show ?thesis
  proof cases
    case 2
    then show ?thesis using sh_scan_safe [of v None rest] by (simp add: shell_quote_def)
  next
    case 3
    then show ?thesis using sh_scan_quoted [of "[]" v rest] by (simp add: shell_quote_def shell_single_quote_def)
  qed (simp add: shell_quote_def)
qed

lemma sh_words_join: "ws \<noteq> [] \<Longrightarrow> sh_scan False None (join [32] (map shell_quote ws)) = Some ws"
proof (induction ws)
  case (Cons w ws)
  then show ?case
    using sh_scan_quote [of w "[]"] sh_scan_quote [of w "32 # join [32] (map shell_quote ws)"]
    by (cases ws) simp_all
qed simp

text \<open>
  In front of a command the shell takes a word that begins with a name and an equals sign as an assignment
  to a variable, and a reserved word as part of its grammar, unless a character of it is quoted. Only what
  is left is the name of a program with its arguments.
\<close>

definition shell_name_char :: "rchar \<Rightarrow> bool" where
  "shell_name_char c \<longleftrightarrow> is_ascii_alphanumeric c \<or> c = 95"

definition starts_assignment :: "rtext \<Rightarrow> bool" where
  "starts_assignment line =
     (let name = takeWhile shell_name_char line; rest = dropWhile shell_name_char line in
      name \<noteq> [] \<and> \<not> (48 \<le> hd name \<and> hd name \<le> 57) \<and> (prefix [61] rest \<or> prefix [43, 61] rest))"

definition reserved_words :: "rtext list" where
  "reserved_words =
     [bytes ''if'', bytes ''then'', bytes ''else'', bytes ''elif'', bytes ''fi'', bytes ''do'', bytes ''done'',
      bytes ''case'', bytes ''esac'', bytes ''while'', bytes ''until'', bytes ''for'', bytes ''in'', [123], [125],
      [33], [91, 91], [93, 93], bytes ''function'', bytes ''select'', bytes ''time'', bytes ''coproc'']"

definition sh_command :: "rtext \<Rightarrow> rtext list option" where
  "sh_command line =
     (if starts_assignment line \<or> takeWhile (\<lambda>c. c \<noteq> 32) line \<in> set reserved_words then None else sh_words line)"

text \<open>The commands that the quoting leaves bare and that the shell then does not run as a program.\<close>

definition taken_by_shell :: "rtext \<Rightarrow> bool" where
  "taken_by_shell command \<longleftrightarrow>
     list_all shell_safe_char command \<and> (starts_assignment command \<or> command \<in> set reserved_words)"

lemma takeWhile_before: "\<not> P d \<Longrightarrow> takeWhile P (xs @ d # ys) = takeWhile P xs"
  and dropWhile_before: "\<not> P d \<Longrightarrow> dropWhile P (xs @ d # ys) = dropWhile P xs @ d # ys"
  by (induction xs) simp_all

lemma starts_assignment_before_blank: "starts_assignment (v @ 32 # rest) = starts_assignment v"
proof -
  have "\<not> shell_name_char 32" by (simp add: shell_name_char_def is_ascii_alphanumeric_def)
  moreover have "prefix [61] (xs @ 32 # rest) = prefix [61] xs" "prefix [43, 61] (xs @ 32 # rest) = prefix [43, 61] xs"
    for xs :: rtext by (cases xs; cases "tl xs"; auto)+
  ultimately show ?thesis unfolding starts_assignment_def Let_def by (simp add: takeWhile_before dropWhile_before)
qed

lemma reserved_unquoted: "39 # w \<notin> set reserved_words"
  by (simp add: reserved_words_def)

lemma sh_command_line:
  assumes "command \<noteq> []"
  shows "sh_command (shell_command_line command params)
    = (if taken_by_shell command then None else Some (command # params))"
proof -
  let ?line = "shell_command_line command params"
  define rest where "rest = (if params = [] then [] else 32 # join [32] (map shell_quote params))"
  have line: "?line = shell_quote command @ rest"
    unfolding shell_command_line_def rest_def by (cases params) simp_all
  have rest: "rest = [] \<or> (\<exists>r. rest = 32 # r)" by (simp add: rest_def)
  have words: "sh_words ?line = Some (command # params)"
    unfolding sh_words_def shell_command_line_def by (rule sh_words_join) simp
  show ?thesis
  proof (cases "list_all shell_safe_char command")
    case True
    then have q: "?line = command @ rest" using line assms by (simp add: shell_quote_def)
    have "takeWhile (\<lambda>c. c \<noteq> 32) command = command"
      using True safe_literal(4) by (simp add: list_all_iff takeWhile_eq_all_conv)
    then have "takeWhile (\<lambda>c. c \<noteq> 32) ?line = command"
      using rest unfolding q by (auto simp: takeWhile_before)
    moreover have "starts_assignment ?line = starts_assignment command"
      using rest unfolding q by (auto simp: starts_assignment_before_blank)
    ultimately show ?thesis using True words by (simp add: sh_command_def taken_by_shell_def)
  next
    case False
    then obtain r where q: "?line = 39 # r" using line assms by (simp add: shell_quote_def shell_single_quote_def)
    have "\<not> starts_assignment ?line"
      unfolding q by (simp add: starts_assignment_def shell_name_char_def is_ascii_alphanumeric_def)
    moreover have "takeWhile (\<lambda>c. c \<noteq> 32) ?line \<notin> set reserved_words" unfolding q by (simp add: reserved_unquoted)
    ultimately show ?thesis using False words by (simp add: sh_command_def taken_by_shell_def)
  qed
qed

text \<open>C22. The arguments a terminal is launched with, in every case. Without a command there are none, and the
  server starts its own shell. A codex terminal gets the command, its parameters, and the inner session to
  resume or the prompt that announces the pane. Any other terminal that closes with its command gets exactly
  the command and its parameters; one that restarts gets a shell whose script holds, in front of the code
  that waits or restarts, a line that the shell reads back as the command with exactly these parameters,
  whatever characters they hold, except when the command is one that the quoting leaves bare and that the
  shell takes as an assignment or a reserved word: then it runs no such program.\<close>

theorem launch_runs_command:
  "let command = effective_command spec; args = terminal_command_args shell spec in
   if command = [] then args = []
   else if sp_handler spec = CodexHandler then
     args = command # sp_parameters spec @
       (if map_option trim (sp_inner_session_id spec) \<in> {None, Some []}
        then [codex_inner_session_prompt (sp_pane_id spec)]
        else [bytes ''resume'', the (sp_inner_session_id spec)])
   else case sp_on_exit spec of
     CloseOnExit \<Rightarrow> args = command # sp_parameters spec
   | _ \<Rightarrow> \<exists>sh pre line post. args = [sh, bytes ''-lc'', pre @ line @ post]
       \<and> sh_command line = (if taken_by_shell command then None else Some (command # sp_parameters spec))
       \<and> trim sh \<noteq> [] \<and> prefix (bytes ''; status=$?;'') post
       \<and> pre = (if sp_on_exit spec = RestartAuto then bytes ''while true; do '' else [])"
proof (cases "effective_command spec = [] \<or> sp_handler spec = CodexHandler")
  case True
  then show ?thesis
    by (auto simp: Let_def terminal_command_args_def codex_terminal_command_args_def split: option.splits)
next
  case False
  let ?line = "shell_command_line (effective_command spec) (sp_parameters spec)"
  have w: "sh_command ?line = (if taken_by_shell (effective_command spec) then None
      else Some (effective_command spec # sp_parameters spec))"
    using False by (intro sh_command_line) simp
  define sh where "sh = hd (shell_argv shell ?line)"
  have "trim (bytes ''sh'') \<noteq> []" by (simp add: trim_def trim_start_def trim_end_def is_whitespace_def)
  then have sh: "trim sh \<noteq> []" "shell_argv shell l = [sh, bytes ''-lc'', l]" for l
    by (simp_all add: sh_def shell_argv_def split: option.splits)
  have args: "terminal_command_args shell spec = (case sp_on_exit spec of
      RestartAuto \<Rightarrow> [sh, bytes ''-lc'', restart_auto_shell_command ?line]
    | RestartManually \<Rightarrow> [sh, bytes ''-lc'', restart_manually_shell_command ?line]
    | CloseOnExit \<Rightarrow> effective_command spec # sp_parameters spec)"
    unfolding terminal_command_args_def Let_def sh(2) using False by simp
  have shell: "\<exists>sh' pre line post. [sh, bytes ''-lc'', p @ ?line @ q] = [sh', bytes ''-lc'', pre @ line @ post]
      \<and> sh_command line = (if taken_by_shell (effective_command spec) then None
          else Some (effective_command spec # sp_parameters spec))
      \<and> trim sh' \<noteq> [] \<and> prefix (bytes ''; status=$?;'') post \<and> pre = p"
    if "prefix (bytes ''; status=$?;'') q" for p q
    using that w sh(1) by (intro exI [of _ sh] exI [of _ p] exI [of _ ?line] exI [of _ q]) blast
  note branch = Let_def args if_not_P terminal_exit_behavior.case simp_thms
  show ?thesis
  proof (cases "sp_on_exit spec")
    case RestartAuto
    obtain post where post: "restart_auto_shell_command ?line = bytes ''while true; do '' @ ?line @ post"
      "prefix (bytes ''; status=$?;'') post" by (simp add: restart_auto_shell_command_def)
    show ?thesis using False shell [OF post(2), of "bytes ''while true; do ''"]
      by (simp only: branch RestartAuto post(1) refl if_True de_Morgan_disj if_False)
  next
    case RestartManually
    obtain post where post: "restart_manually_shell_command ?line = [] @ ?line @ post"
      "prefix (bytes ''; status=$?;'') post" by (simp add: restart_manually_shell_command_def)
    show ?thesis using False shell [OF post(2), of "[]"]
      by (simp only: branch RestartManually post(1) terminal_exit_behavior.distinct if_False de_Morgan_disj)
  qed (use False in \<open>simp add: Let_def args\<close>)
qed

definition demo_spec :: session_spec where
  "demo_spec = \<lparr>sp_workspace_id = bytes ''w'', sp_pane_id = bytes ''p'', sp_kind = KShell, sp_cwd = bytes ''/'',
     sp_command = bytes '' echo '', sp_parameters = [bytes ''a b'', [105, 116, 39, 115], []], sp_handler = NoHandler,
     sp_inner_session_id = None, sp_on_exit = RestartManually, sp_cols = 80, sp_rows = 24\<rparr>"

lemma demo_command: "effective_command demo_spec = bytes ''echo''"
  by (simp add: effective_command_def demo_spec_def trim_def trim_start_def trim_end_def is_whitespace_def Let_def)

lemma demo_command_bare: "\<not> taken_by_shell (bytes ''echo'')"
  by (simp add: taken_by_shell_def starts_assignment_def shell_name_char_def is_ascii_alphanumeric_def reserved_words_def)

theorem launch_runs_command_witness:
  "\<exists>line post. terminal_command_args None demo_spec = [bytes ''sh'', bytes ''-lc'', line @ post]
     \<and> sh_command line = Some [bytes ''echo'', bytes ''a b'', [105, 116, 39, 115], []]"
proof -
  have "effective_command demo_spec \<noteq> []" "sp_handler demo_spec \<noteq> CodexHandler"
    "sp_on_exit demo_spec = RestartManually" "sp_parameters demo_spec = [bytes ''a b'', [105, 116, 39, 115], []]"
    by (simp_all add: demo_command) (simp_all add: demo_spec_def)
  note demo = this demo_command demo_command_bare
  have "\<exists>sh pre line post. terminal_command_args None demo_spec = [sh, bytes ''-lc'', pre @ line @ post]
      \<and> sh_command line = Some (bytes ''echo'' # sp_parameters demo_spec)
      \<and> trim sh \<noteq> [] \<and> prefix (bytes ''; status=$?;'') post \<and> pre = []"
    using launch_runs_command [of demo_spec None] demo unfolding Let_def
    by (simp only: if_not_P terminal_exit_behavior.case terminal_exit_behavior.distinct if_False)
  then obtain sh line post where
    *: "terminal_command_args None demo_spec = [sh, bytes ''-lc'', line @ post]"
    "sh_command line = Some (bytes ''echo'' # sp_parameters demo_spec)" by (metis append_Nil)
  moreover have "hd (terminal_command_args None demo_spec) = bytes ''sh''"
    using demo_command by (simp add: terminal_command_args_def Let_def shell_argv_def demo_spec_def)
  ultimately show ?thesis unfolding demo(4) by auto
qed

text \<open>The same command is run or not depending on what happens when it ends: a program whose name holds an
  equals sign is started by a terminal that closes, but never by one that restarts, since the name is left
  bare in front of the line.\<close>

definition renamed_spec :: "terminal_exit_behavior \<Rightarrow> session_spec" where
  "renamed_spec e = demo_spec\<lparr>sp_command := bytes ''V=1'', sp_on_exit := e\<rparr>"

lemma bare_assignment_not_run:
  "terminal_command_args shell (renamed_spec CloseOnExit) = bytes ''V=1'' # sp_parameters demo_spec
   \<and> sh_command (shell_command_line (bytes ''V=1'') params) = None"
proof -
  have "taken_by_shell (bytes ''V=1'')"
    by (simp add: taken_by_shell_def starts_assignment_def shell_name_char_def is_ascii_alphanumeric_def
        shell_safe_char_def)
  moreover have "effective_command (renamed_spec CloseOnExit) = bytes ''V=1''"
    by (simp add: effective_command_def renamed_spec_def trim_def trim_start_def trim_end_def is_whitespace_def)
  ultimately show ?thesis
    using sh_command_line [of "bytes ''V=1''" params]
    by (simp add: terminal_command_args_def renamed_spec_def demo_spec_def)
qed

subsection \<open>Captured text\<close>

text \<open>Terminal output as a list of characters, controls and escape sequences.\<close>

datatype out_item = Shown u8 | Control u8 | Csi "u8 list" u8 | OscSeq "u8 list" bool | EscChar u8

fun out_ok :: "out_item \<Rightarrow> bool" where
  "out_ok (Shown b) = (b \<ge> 32 \<or> b = 9 \<or> b = 10)"
| "out_ok (Control b) = (b < 32 \<and> b \<notin> {9, 10, 27})"
| "out_ok (Csi params final) = (list_all (\<lambda>b. \<not> (64 \<le> b \<and> b \<le> 126)) params \<and> 64 \<le> final \<and> final \<le> 126)"
| "out_ok (OscSeq data st) = (7 \<notin> set data \<and> 27 \<notin> set data)"
| "out_ok (EscChar b) = (b \<noteq> 91 \<and> b \<noteq> 93)"

fun out_bytes :: "out_item \<Rightarrow> u8 list" where
  "out_bytes (Shown b) = [b]"
| "out_bytes (Control b) = [b]"
| "out_bytes (Csi params final) = [27, 91] @ params @ [final]"
| "out_bytes (OscSeq data st) = [27, 93] @ data @ (if st then [27, 92] else [7])"
| "out_bytes (EscChar b) = [27, b]"

fun out_shown :: "out_item \<Rightarrow> u8 list" where
  "out_shown (Shown b) = [b]"
| "out_shown _ = []"

lemma skip_csi_params: "list_all (\<lambda>b. \<not> (64 \<le> b \<and> b \<le> 126)) ps \<Longrightarrow> 64 \<le> f \<Longrightarrow> f \<le> 126 \<Longrightarrow> skip_csi (ps @ f # rest) = rest"
  by (induction ps) auto

lemma skip_osc_data:
  "7 \<notin> set ds \<Longrightarrow> 27 \<notin> set ds \<Longrightarrow> skip_osc (ds @ (if st then [27, 92] else [7]) @ rest) = rest"
  by (induction ds) auto

lemma visible_item: "out_ok i \<Longrightarrow> ansi_visible_text (out_bytes i @ rest) = out_shown i @ ansi_visible_text rest"
proof (cases i)
  case (OscSeq data st)
  assume "out_ok i"
  then show ?thesis using OscSeq skip_osc_data [of data st rest] by simp
next
  case (Csi params final)
  assume "out_ok i"
  then show ?thesis using Csi skip_csi_params [of params final rest] by simp
qed auto

lemma visible_items: "list_all out_ok items \<Longrightarrow> ansi_visible_text (concat (map out_bytes items)) = concat (map out_shown items)"
  by (induction items) (simp_all add: visible_item)

text \<open>The text captured of a terminal's output is what the output shows: the characters, tabs and line feeds in
  order, without control sequences, operating-system commands, other escapes and control characters.\<close>

theorem visible_text_items:
  assumes "list_all out_ok items"
  shows "ansi_visible_text (concat (map out_bytes items)) = concat (map out_shown items)"
  using assms by (rule visible_items)

theorem visible_text_items_witness:
  "ansi_visible_text (concat (map out_bytes [Csi [51, 49] 109, Shown 104, OscSeq [48, 59, 116] True, Shown 105, Control 13, Shown 10]))
    = [104, 105, 10]"
  using visible_text_items [of "[Csi [51, 49] 109, Shown 104, OscSeq [48, 59, 116] True, Shown 105, Control 13, Shown 10]"]
  by (simp del: ansi_visible_text.simps)

lemma concat_singletons: "concat (map (\<lambda>b. [b]) bs) = bs"
  by (induction bs) simp_all

lemma encode_utf8_high:
  assumes "128 \<le> c"
  shows "\<forall>b\<in>set (encode_utf8 c). 128 \<le> b" "2 \<le> length (encode_utf8 c)"
  using assms by (auto simp: encode_utf8_def)

text \<open>Captured text is wrong outside of ASCII: the bytes of a character's UTF-8 form are each taken for a
  character of their own, so that text holding such a character is never captured as it is shown.\<close>

theorem captured_text_garbled:
  assumes "c \<in> set s" "128 \<le> c" "list_all (\<lambda>c. 32 \<le> c) s"
  shows "ansi_visible_text (utf8 s) = utf8 s \<and> ansi_visible_text (utf8 s) \<noteq> s"
proof -
  have "list_all out_ok (map Shown (utf8 s))"
    using assms(3) encode_utf8_high(1) by (force simp: utf8_def list_all_iff encode_utf8_def)
  from visible_items [OF this] have "ansi_visible_text (utf8 s) = utf8 s" by (simp add: comp_def concat_singletons)
  moreover have "length s \<le> length (utf8 s) \<and> (c \<in> set s \<longrightarrow> length s < length (utf8 s))"
    using encode_utf8_high(2) [OF assms(2)]
  proof (induction s)
    case (Cons d s)
    moreover have "1 \<le> length (encode_utf8 d)" using encode_utf8_nonempty [of d] by (cases "encode_utf8 d") simp_all
    ultimately show ?case by (auto simp: utf8_def)
  qed (simp add: utf8_def)
  ultimately show ?thesis using assms(1) by (metis less_irrefl)
qed

theorem captured_text_garbled_witness: "ansi_visible_text (utf8 [99, 233]) = [99, 195, 169]"
  using captured_text_garbled [of 233 "[99, 233]"] by (simp add: utf8_def encode_utf8_def del: ansi_visible_text.simps)

end
