(* ===== verification/Control.thy ===== *)
theory Control
  imports Launch_Props
begin

section \<open>The control client of the application (\<open>octty-term/src/retach.rs\<close>)\<close>

text \<open>
  The application has its own copy of the protocol: the messages (whose variants are those of the server,
  in the same order), the framing and the reader, with its own errors. It connects to a session to send
  input, to resize it and to capture its text. \<open>show\<close> prints an error of \<open>bincode\<close>. A deadline that
  has passed, whether it is noticed before a read or in it, is \<open>TimedOut\<close>.
\<close>

datatype 'i terminal_error = TermIo "'i io_error" | Retach rtext | Pty rtext | Renderer rtext

definition frame_too_large :: "usize \<Rightarrow> rtext" where
  "frame_too_large n = bytes ''retach protocol frame too large: '' @ decimal n @ bytes '' bytes''"

definition control_encode :: "('e \<Rightarrow> rtext) \<Rightarrow> ('m \<Rightarrow> 'e + u8 list) \<Rightarrow> 'm \<Rightarrow> 'i terminal_error + u8 list" where
  "control_encode show_err ser msg =
     (case ser msg of
        Inl e \<Rightarrow> Inl (Retach (show_err e))
      | Inr data \<Rightarrow>
          if length data < 2 ^ 32 then Inr (u32_to_be_bytes (length data) @ data)
          else Inl (Retach (bytes ''retach protocol message too large: '' @ decimal (length data))))"

definition control_fill :: "'i io_error + u8 list \<Rightarrow> frame_reader \<Rightarrow> (('i terminal_error + bool) \<times> frame_reader) option" where
  "control_fill rd f = do {
     f \<leftarrow> (if fr_offset f > 0
           then map_option (\<lambda>rest. f\<lparr>fr_buf := rest, fr_offset := 0\<rparr>) (slice_from (fr_offset f) (fr_buf f))
           else Some f);
     (case rd of
        Inl e \<Rightarrow> Some (Inl (TermIo e), f)
      | Inr bs \<Rightarrow>
          let sz = length bs; f = f\<lparr>fr_tmp := bs @ drop sz (fr_tmp f)\<rparr> in
          if sz = 0 then Some (Inr False, f)
          else let f = f\<lparr>fr_buf := fr_buf f @ take sz (fr_tmp f)\<rparr> in
               if length (fr_buf f) > MAX_FRAME_SIZE * 2 + 8
               then Some (Inl (Retach (frame_too_large (length (fr_buf f)))), f)
               else Some (Inr True, f)) }"

definition control_decode_next :: "('e \<Rightarrow> rtext) \<Rightarrow> (u8 list \<Rightarrow> 'e + 'm) \<Rightarrow> frame_reader
    \<Rightarrow> (('i terminal_error + 'm option) \<times> frame_reader) option" where
  "control_decode_next show_err de f =
     (let buf = fr_buf f; start = fr_offset f in
      if length buf < start + 4 then Some (Inr None, f)
      else let len = u32_from_be_bytes (buf ! start) (buf ! (start + 1)) (buf ! (start + 2)) (buf ! (start + 3)) in
           if len > MAX_FRAME_SIZE then Some (Inl (Retach (frame_too_large len)), f)
           else if length buf < start + 4 + len then Some (Inr None, f)
           else (case de (take len (drop (start + 4) buf)) of
                   Inl e \<Rightarrow> Some (Inl (Retach (show_err e)), f)
                 | Inr m \<Rightarrow> Some (Inr (Some m), f\<lparr>fr_offset := start + 4 + len\<rparr>)))"

subsection \<open>Requests\<close>

definition server_closed :: rtext where
  "server_closed = bytes ''retach server closed the connection''"

definition unexpected_response :: rtext where
  "unexpected_response = bytes ''unexpected response from retach server''"

text \<open>\<open>read_one_message\<close>: the message, the reader and the reads still to come.\<close>

fun control_read_one :: "('e \<Rightarrow> rtext) \<Rightarrow> (u8 list \<Rightarrow> 'e + server_msg) \<Rightarrow> ('i io_error + u8 list) list \<Rightarrow> frame_reader
    \<Rightarrow> ('i terminal_error + server_msg \<times> frame_reader \<times> ('i io_error + u8 list) list) outcome option" where
  "control_read_one show_err de [] f = Some Waiting"
| "control_read_one show_err de (rd # rds) f = do {
     (r, f) \<leftarrow> control_fill rd f;
     (case r of
        Inl e \<Rightarrow> Some (Done (Inl e))
      | Inr False \<Rightarrow> Some (Done (Inl (Retach server_closed)))
      | Inr True \<Rightarrow> do {
          (r, f) \<leftarrow> control_decode_next show_err de f;
          (case r of
             Inl e \<Rightarrow> Some (Done (Inl e))
           | Inr None \<Rightarrow> control_read_one show_err de rds f
           | Inr (Some m) \<Rightarrow> Some (Done (Inr (m, f, rds)))) }) }"

text \<open>The response of the server to each request.\<close>

fun connect_response :: "server_msg \<Rightarrow> 'i terminal_error + unit" where
  "connect_response (Connected _ _) = Inr ()"
| "connect_response (ErrorMsg message) = Inl (Retach message)"
| "connect_response _ = Inl (Retach unexpected_response)"

definition retach_missing_target :: "rtext \<Rightarrow> bool" where
  "retach_missing_target message \<longleftrightarrow>
     contains (bytes ''not found'') message \<or> contains (bytes ''doesn'' @ [39] @ bytes ''t exist'') message"

fun kill_response :: "server_msg \<Rightarrow> 'i terminal_error + unit" where
  "kill_response (SessionKilled _) = Inr ()"
| "kill_response (ErrorMsg message) = (if retach_missing_target message then Inr () else Inl (Retach message))"
| "kill_response _ = Inl (Retach unexpected_response)"

fun list_response :: "server_msg \<Rightarrow> 'i terminal_error + session_info list" where
  "list_response (SessionList sessions) = Inr sessions"
| "list_response (ErrorMsg message) = Inl (Retach message)"
| "list_response _ = Inl (Retach unexpected_response)"

definition retach_session_exists :: "rtext \<Rightarrow> session_info list \<Rightarrow> bool" where
  "retach_session_exists name sessions = list_ex (\<lambda>s. si_name s = name) sessions"

record session_activity =
  ra_session_name :: rtext
  ra_activity_at_s :: "i64 option"
  ra_window_activity_at_s :: "i64 option"
  ra_window_flag :: bool
  ra_dead :: bool
  ra_dead_status :: "i64 option"
  ra_command :: "rtext option"

definition retach_session_activity :: "rtext \<Rightarrow> session_info list \<Rightarrow> session_activity option" where
  "retach_session_activity name sessions =
     map_option (\<lambda>s. \<lparr>ra_session_name = si_name s, ra_activity_at_s = None, ra_window_activity_at_s = None,
         ra_window_flag = False, ra_dead = False, ra_dead_status = None,
         ra_command = Some (bytes ''pid:'' @ decimal (si_pid s))\<rparr>)
       (List.find (\<lambda>s. si_name s = name) sessions)"

definition connect_message :: "usize \<Rightarrow> rtext \<Rightarrow> u16 \<Rightarrow> u16 \<Rightarrow> connect_mode \<Rightarrow> spawn_request \<Rightarrow> client_msg" where
  "connect_message history name cols rows mode spawn = Connect name history cols rows mode spawn"

text \<open>What each command sends once it is connected.\<close>

definition send_bytes_messages :: "u8 list \<Rightarrow> client_msg list" where
  "send_bytes_messages bs = [Input bs, Detach]"

definition send_keys_messages :: "rtext list \<Rightarrow> client_msg list" where
  "send_keys_messages keys = send_bytes_messages (concat (map retach_key_bytes keys))"

definition resize_messages :: "u16 \<Rightarrow> u16 \<Rightarrow> client_msg list" where
  "resize_messages cols rows = [Resize cols rows, Detach]"

subsection \<open>Capturing a session's text\<close>

text \<open>
  The body of the loop over messages: the state is the text so far and whether a screen was seen. It
  leaves the function with an error or with the text.
\<close>

fun capture_history :: "u8 list list \<Rightarrow> rtext \<Rightarrow> rtext" where
  "capture_history [] screen = screen"
| "capture_history (line # lines) screen = capture_history lines (screen @ ansi_visible_text line @ [10])"

definition capture_body :: "server_msg \<Rightarrow> rtext \<times> bool \<Rightarrow> (('i terminal_error + rtext) + bool) \<times> rtext \<times> bool" where
  "capture_body msg st =
     (case msg of
        History lines \<Rightarrow> (Inr True, capture_history lines (fst st), snd st)
      | ScreenUpdate bs \<Rightarrow> (Inr True, fst st @ ansi_visible_text bs, True)
      | ErrorMsg message \<Rightarrow> (Inl (Inl (Retach message)), st)
      | SessionEnded \<Rightarrow> (Inl (Inr (fst st)), st)
      | _ \<Rightarrow> (Inr True, st))"

text \<open>The text, and whether a \<open>Detach\<close> is written at the end.\<close>

fun capture_loop :: "('e \<Rightarrow> rtext) \<Rightarrow> (u8 list \<Rightarrow> 'e + server_msg) \<Rightarrow> 'i timed_read list \<Rightarrow> frame_reader
    \<Rightarrow> rtext \<times> bool \<Rightarrow> ('i terminal_error + rtext \<times> bool) outcome option" where
  "capture_loop show_err de rds f st = do {
     (r, f, st) \<leftarrow> while_msgs (\<lambda>f. lift_error (control_decode_next show_err de f)) capture_body f st;
     (case r of
        Inl (Inl e) \<Rightarrow> Some (Done (Inl e))
      | Inl (Inr screen) \<Rightarrow> Some (Done (Inr (screen, False)))
      | Inr _ \<Rightarrow>
          if snd st then Some (Done (Inr (fst st, True)))
          else (case rds of
                  [] \<Rightarrow> Some Waiting
                | TimedOut # _ \<Rightarrow> Some (Done (Inr (fst st, True)))
                | ReadInTime rd # rds \<Rightarrow> do {
                    (r, f) \<leftarrow> control_fill rd f;
                    (case r of
                       Inl e \<Rightarrow> Some (Done (Inl e))
                     | Inr False \<Rightarrow> Some (Done (Inr (fst st, True)))
                     | Inr True \<Rightarrow> capture_loop show_err de rds f st) })) }"

end
