(* ===== verification/Activity.thy ===== *)
theory Activity
  imports Core_Types
begin

section \<open>Properties of pane activity and of fingerprints\<close>

text \<open>
  The order on activity states and the workspace's state as its greatest, what every history of
  recordings keeps, what seeing a pane and asking for attention do, and the injectivity of the
  hexadecimal form of a hash.
\<close>

subsection \<open>The order on states\<close>

instantiation activity_state :: linorder
begin

fun activity_rank :: "activity_state \<Rightarrow> nat" where
  "activity_rank IdleSeen = 0"
| "activity_rank IdleUnseen = 1"
| "activity_rank Active = 2"

definition less_eq_activity_state :: "activity_state \<Rightarrow> activity_state \<Rightarrow> bool" where
  "a \<le> b \<longleftrightarrow> activity_rank a \<le> activity_rank b"

definition less_activity_state :: "activity_state \<Rightarrow> activity_state \<Rightarrow> bool" where
  "a < b \<longleftrightarrow> activity_rank a < activity_rank b"

instance
proof
  fix a b :: activity_state
  show "a \<le> b \<Longrightarrow> b \<le> a \<Longrightarrow> a = b"
    by (cases a; cases b) (simp_all add: less_eq_activity_state_def)
qed (auto simp: less_eq_activity_state_def less_activity_state_def)

end

lemma activity_order [simp]: "IdleSeen \<le> a" "a \<le> Active"
  by (cases a; simp add: less_eq_activity_state_def)+

lemma derive_loop_Max:
  "derive_loop states unseen = Max (insert (if unseen then IdleUnseen else IdleSeen) (set states))"
proof (induction states unseen rule: derive_loop.induct)
  case (2 states unseen)
  have "Max (insert (if unseen then IdleUnseen else IdleSeen) (set (Active # states))) = Active"
    by (rule Max_eqI) auto
  then show ?case by simp
next
  case (3 states unseen)
  show ?case
  proof (cases unseen)
    case False
    have "Max (insert IdleSeen (insert IdleUnseen (set states))) = Max (insert IdleUnseen (set states))"
      by (subst Max_insert) (auto simp: max_absorb2)
    then show ?thesis using 3 False by simp
  qed (use 3 in simp)
next
  case (4 states unseen)
  have "Max (insert b (insert IdleSeen (set states))) = Max (insert b (set states))" for b
    by (subst insert_commute, subst Max_insert) (auto simp: max_absorb2)
  then show ?case using 4 by simp
qed simp

text \<open>A workspace's activity is the greatest of its panes' in the order seen, unseen, active (seen when
  it has no pane), whatever their order.\<close>

theorem workspace_activity_is_max:
  "derive_workspace_activity states = Max (insert IdleSeen (set states))"
  by (simp add: derive_workspace_activity_def derive_loop_Max)

subsection \<open>Histories\<close>

inductive activity_history :: "pane_activity \<Rightarrow> bool" where
  history_new: "activity_history (activity_new w p now)"
| history_activity: "activity_history a \<Longrightarrow> activity_history (record_activity at tmux fp a)"
| history_observation: "activity_history a \<Longrightarrow> activity_history (record_tmux_observation at tmux fp a)"
| history_attention: "activity_history a \<Longrightarrow> activity_history (record_attention at a)"
| history_seen: "activity_history a \<Longrightarrow> activity_history (record_seen at a)"

definition activity_ok :: "pane_activity \<Rightarrow> bool" where
  "activity_ok a \<longleftrightarrow> 0 \<le> pa_last_activity a \<and> pa_last_seen_activity a \<le> pa_last_activity a
     \<and> (case pa_seen_tmux a of None \<Rightarrow> True | Some s \<Rightarrow> (case pa_tmux a of None \<Rightarrow> False | Some t \<Rightarrow> s \<le> t))
     \<and> (pa_seen_fingerprint a \<noteq> None \<longrightarrow> pa_fingerprint a \<noteq> None)
     \<and> 0 \<le> pa_attention_at a \<and> (pa_attention a \<longrightarrow> pa_attention_cleared a = 0)"

lemmas activity_defs = record_activity_def record_tmux_observation_def record_attention_def record_seen_def
  set_fingerprint_def Let_def

lemma activity_ok_steps:
  "activity_ok (activity_new w p now)"
  "activity_ok a \<Longrightarrow> activity_ok (record_activity at tmux fp a)"
  "activity_ok a \<Longrightarrow> activity_ok (record_tmux_observation at tmux fp a)"
  "activity_ok a \<Longrightarrow> activity_ok (record_attention at a)"
  "activity_ok a \<Longrightarrow> activity_ok (record_seen at a)"
  by (auto simp: activity_ok_def activity_new_def activity_defs split: option.splits)

text \<open>C40. In every history of recordings, with any times, the activity seen is never after the last activity,
  the terminal activity seen is never after the last one observed, a fingerprint is seen only after one
  was recorded, and while attention is wanted no time of clearing it is stored.\<close>

theorem activity_history_ok:
  assumes "activity_history a"
  shows "activity_ok a"
  using assms by (induction rule: activity_history.induct) (simp_all add: activity_ok_steps)

theorem activity_history_ok_witness:
  "activity_ok (record_seen 7 (record_activity 5 (Some 3) None (activity_new [] [] 0)))"
  by (rule activity_history_ok) (intro history_seen history_activity history_new)

text \<open>Seeing a pane clears it: afterwards it has no unseen activity and wants no attention, and its state
  is seen, or active when its last activity is recent; and it stays so for any later time. An activity
  recorded later makes it unseen again.\<close>

theorem seen_clears_unseen:
  "\<not> has_unseen_activity (record_seen at a) \<and> \<not> pa_attention (record_seen at a)
   \<and> state_at now window (record_seen at a) = (if has_recent_activity now window a then Active else IdleSeen)
   \<and> (later > pa_last_activity a \<longrightarrow> has_unseen_activity (record_activity later tmux fp (record_seen at a)))"
proof -
  have "\<not> has_unseen_activity (record_seen at a)"
    by (auto simp: has_unseen_activity_def activity_defs split: option.splits)
  moreover have "has_recent_activity now window (record_seen at a) = has_recent_activity now window a"
    by (simp add: has_recent_activity_def attention_closes_current_activity_def activity_defs)
  moreover have "has_unseen_activity (record_activity later tmux fp (record_seen at a))"
    if "later > pa_last_activity a"
    using that by (simp add: has_unseen_activity_def activity_defs split: option.splits)
  ultimately show ?thesis by (simp add: state_at_def) (simp add: activity_defs)
qed

theorem seen_clears_unseen_witness:
  "has_unseen_activity (record_activity 9 None None (record_seen 7 (activity_new [] [] 0)))"
  using seen_clears_unseen [of 7 "activity_new [] [] 0" 0 0 9 None None] by (simp add: activity_new_def)

lemma record_activity_fields:
  "pa_last_activity (record_activity at tmux fp a) = max (pa_last_activity a) at"
  "pa_attention_at (record_activity at tmux fp a) = pa_attention_at a"
  by (simp_all add: activity_defs split: option.splits)

text \<open>A request for attention ends the current activity: from a request at or after the last activity
  on, the pane is not active, whatever the time and the window and whatever older activity is still
  recorded, until an activity after the request.\<close>

theorem attention_closes_activity:
  assumes "0 < at" "pa_last_activity a \<le> at"
  shows "state_at now window (record_attention at a) \<noteq> Active
    \<and> (older \<le> at \<longrightarrow> state_at now window (record_activity older tmux fp (record_attention at a)) \<noteq> Active)
    \<and> (newer > max at (pa_attention_at a) \<longrightarrow> 0 \<le> window \<longrightarrow>
         state_at newer window (record_activity newer tmux fp (record_attention at a)) = Active)"
proof (intro conjI impI)
  show "state_at now window (record_attention at a) \<noteq> Active"
    using assms
    by (simp add: state_at_def has_recent_activity_def attention_closes_current_activity_def record_attention_def less_max_iff_disj le_max_iff_disj)
  show "state_at now window (record_activity older tmux fp (record_attention at a)) \<noteq> Active" if "older \<le> at"
    using assms that
    by (simp add: state_at_def has_recent_activity_def attention_closes_current_activity_def record_attention_def
        record_activity_fields less_max_iff_disj le_max_iff_disj)
  show "state_at newer window (record_activity newer tmux fp (record_attention at a)) = Active"
    if "newer > max at (pa_attention_at a)" "0 \<le> window"
    using assms that
    by (simp add: state_at_def has_recent_activity_def attention_closes_current_activity_def record_attention_def
        record_activity_fields i64_sat_def less_max_iff_disj le_max_iff_disj)
qed

theorem attention_closes_activity_witness:
  "state_at 6 100 (record_attention 5 (record_activity 5 None None (activity_new [] [] 0))) \<noteq> Active"
  using attention_closes_activity [of 5 "record_activity 5 None None (activity_new [] [] 0)" 6 100 0 None None 9]
  by (simp add: activity_new_def activity_defs)

subsection \<open>Hexadecimal hashes\<close>

lemma hex_digit_inj: "m < 16 \<Longrightarrow> n < 16 \<Longrightarrow> hex_digit m = hex_digit n \<Longrightarrow> m = n"
  by (auto simp: hex_digit_def split: if_splits)

lemma length_hex16 [simp]: "length (hex16 h) = 16"
  by (simp add: hex16_def)

lemma digits_value_eq:
  fixes n :: nat
  assumes "n < 16 ^ k"
  shows "n = (\<Sum>i<k. n div 16 ^ i mod 16 * 16 ^ i)"
  using assms
proof (induction k arbitrary: n)
  case (Suc k)
  have "n div 16 < 16 ^ k" using Suc.prems by (simp add: less_mult_imp_div_less mult.commute)
  from Suc.IH [OF this] have "n div 16 = (\<Sum>i<k. n div 16 ^ Suc i mod 16 * 16 ^ i)"
    by (simp add: div_mult2_eq)
  then have "16 * (n div 16) = (\<Sum>i<k. n div 16 ^ Suc i mod 16 * 16 ^ Suc i)"
    by (simp add: sum_distrib_left mult.assoc mult.left_commute [of _ 16] mult.commute [of _ 16])
  moreover have "n = n mod 16 + 16 * (n div 16)" by simp
  ultimately show ?case by (subst sum.lessThan_Suc_shift) simp
qed simp

lemma hex16_inj: "hex16 g = hex16 h \<longleftrightarrow> g = h"
proof
  assume eq: "hex16 g = hex16 h"
  have "unat g div 16 ^ i mod 16 = unat h div 16 ^ i mod 16" if "i < 16" for i
  proof (rule hex_digit_inj)
    have "\<forall>i\<in>set (rev [0..<16]). hex_digit (unat g div 16 ^ i mod 16) = hex_digit (unat h div 16 ^ i mod 16)"
      using eq unfolding hex16_def map_eq_conv .
    then show "hex_digit (unat g div 16 ^ i mod 16) = hex_digit (unat h div 16 ^ i mod 16)"
      using that unfolding set_rev set_upt by simp
  qed simp_all
  then have "(\<Sum>i<16. unat g div 16 ^ i mod 16 * 16 ^ i) = (\<Sum>i<16. unat h div 16 ^ i mod 16 * 16 ^ i)"
    by (intro sum.cong refl) simp
  moreover have "unat w = (\<Sum>i<16. unat w div 16 ^ i mod 16 * 16 ^ i)" for w :: "64 word"
  proof (rule digits_value_eq)
    have "unat w < 2 ^ 64" using unsigned_less [of w] by simp
    then show "unat w < 16 ^ 16" by simp
  qed
  ultimately have "unat g = unat h" by (simp only:)
  then show "g = h" by (simp only: word_unat_eq_iff)
qed simp

lemma hex_digit_range: "n < 16 \<Longrightarrow> 48 \<le> hex_digit n \<and> hex_digit n \<le> 57 \<or> 97 \<le> hex_digit n \<and> hex_digit n \<le> 102"
  by (auto simp: hex_digit_def)

lemma hex16_chars: "c \<in> set (hex16 h) \<Longrightarrow> 48 \<le> c \<and> c \<le> 57 \<or> 97 \<le> c \<and> c \<le> 102"
proof -
  assume "c \<in> set (hex16 h)"
  then obtain i where "c = hex_digit (unat h div 16 ^ i mod 16)" by (auto simp: hex16_def)
  then show ?thesis using hex_digit_range [of "unat h div 16 ^ i mod 16"] by simp
qed

text \<open>Two screens have the same fingerprint exactly when their 64-bit hashes are the same, and a
  fingerprint is sixteen hexadecimal digits.\<close>

theorem fingerprint_faithful:
  "(screen_fingerprint a = screen_fingerprint b \<longleftrightarrow> fnv_hash (utf8 a) = fnv_hash (utf8 b))
   \<and> length (screen_fingerprint a) = 16"
  by (simp add: screen_fingerprint_def hex16_inj)

end
