(* ===== verification/Client.thy ===== *)
theory Client
  imports Codec
begin

section \<open>The interactive client (\<open>client/mod.rs\<close>)\<close>

text \<open>
  What the client writes to its terminal for each server message, the filter of typed input (detach key,
  focus events, escape sequences split over reads), the loops that relay standard input to the socket
  and the socket to standard output, and the handshake. Standard output and the socket are the bytes and
  the messages written to them; standard error is left out. Writes succeed.
\<close>

subsection \<open>Messages from the server\<close>

text \<open>The bytes written for a message, and whether the loop goes on.\<close>

fun write_history :: "u8 list list \<Rightarrow> u8 list \<Rightarrow> u8 list" where
  "write_history [] out = out"
| "write_history (line # lines) out = write_history lines (out @ line @ [13, 10])"

definition dispatch_server_msg :: "server_msg \<Rightarrow> u8 list \<Rightarrow> ('c + bool) \<times> u8 list" where
  "dispatch_server_msg msg out =
     (case msg of
        ScreenUpdate data \<Rightarrow> (Inr True, out @ data)
      | Passthrough data \<Rightarrow> (Inr True, out @ data)
      | History lines \<Rightarrow> (Inr True, write_history lines out)
      | SessionEnded \<Rightarrow> (Inr False, out)
      | ErrorMsg e \<Rightarrow> (Inr False, out)
      | SessionList _ \<Rightarrow> (Inr True, out)
      | Connected _ _ \<Rightarrow> (Inr True, out)
      | SessionKilled _ \<Rightarrow> (Inr True, out))"

text \<open>\<open>run_socket_to_stdout\<close>: whole frames left over from the handshake come before the first read.\<close>

definition run_socket_to_stdout :: "(u8 list \<Rightarrow> 'e + server_msg) \<Rightarrow> ('i io_error + u8 list) list \<Rightarrow> u8 list
    \<Rightarrow> ((('e, 'i) protocol_error + unit) outcome \<times> frame_reader \<times> u8 list) option" where
  "run_socket_to_stdout de rds leftover = do {
     (r, f, out) \<leftarrow> while_msgs (decode_next de) dispatch_server_msg (with_leftover leftover) [];
     (case r of
        Inl e \<Rightarrow> Some (Done (Inl e), f, out)
      | Inr False \<Rightarrow> Some (Done (Inr ()), f, out)
      | Inr True \<Rightarrow> relay fill_from (decode_next de) dispatch_server_msg rds f out) }"

subsection \<open>The handshake\<close>

datatype handshake_error = HandshakeClosed | ServerError rtext | UnexpectedResponse

text \<open>
  The loop of \<open>connect\<close> after the request is sent: the name, whether the session is new, the leftover,
  and the reads still to come.
\<close>

fun await_connected :: "(u8 list \<Rightarrow> 'e + server_msg) \<Rightarrow> ('i io_error + u8 list) list \<Rightarrow> frame_reader
    \<Rightarrow> ((('e, 'i) protocol_error + handshake_error) + rtext \<times> bool \<times> u8 list \<times> ('i io_error + u8 list) list) outcome option" where
  "await_connected de [] f = Some Waiting"
| "await_connected de (rd # rds) f = do {
     (r, f) \<leftarrow> fill_from rd f;
     (case r of
        Inl e \<Rightarrow> Some (Done (Inl (Inl e)))
      | Inr False \<Rightarrow> Some (Done (Inl (Inr HandshakeClosed)))
      | Inr True \<Rightarrow> do {
          (r, f) \<leftarrow> decode_next de f;
          (case r of
             Inl e \<Rightarrow> Some (Done (Inl (Inl e)))
           | Inr None \<Rightarrow> await_connected de rds f
           | Inr (Some (Connected name new_session)) \<Rightarrow>
               map_option (\<lambda>leftover. Done (Inr (name, new_session, leftover, rds))) (into_leftover f)
           | Inr (Some (ErrorMsg e)) \<Rightarrow> Some (Done (Inl (Inr (ServerError e))))
           | Inr (Some _) \<Rightarrow> Some (Done (Inl (Inr UnexpectedResponse)))) }) }"

subsection \<open>The filter of typed input\<close>

definition DETACH_KEY :: u8 where "DETACH_KEY = 0x1c"
definition FOCUS_IN :: u8 where "FOCUS_IN = 73"
definition FOCUS_OUT :: u8 where "FOCUS_OUT = 79"

datatype filter_action = Forward "u8 list" | DetachKey | FocusIn

definition flush_filtered :: "filter_action list \<Rightarrow> u8 list \<Rightarrow> filter_action list" where
  "flush_filtered actions filtered = (if filtered = [] then actions else actions @ [Forward filtered])"

text \<open>The loop over the bytes not yet handled (\<open>raw[i..]\<close>): the actions, and the bytes carried over.\<close>

fun filter_loop :: "u8 list \<Rightarrow> filter_action list \<Rightarrow> u8 list \<Rightarrow> filter_action list \<times> u8 list" where
  "filter_loop [] actions filtered = (flush_filtered actions filtered, [])"
| "filter_loop (b # bs) actions filtered =
     (if b \<noteq> ESC then filter_loop bs actions (filtered @ [b])
      else case bs of
        [] \<Rightarrow> (flush_filtered actions filtered, [b])
      | b1 # rest \<Rightarrow>
          if b1 \<noteq> 91 then filter_loop rest actions (filtered @ [b, b1])
          else (case rest of
            [] \<Rightarrow> (flush_filtered actions filtered, [b, b1])
          | b2 # rest' \<Rightarrow>
              if b2 = FOCUS_IN then filter_loop rest' (flush_filtered actions filtered @ [FocusIn]) []
              else if b2 = FOCUS_OUT then filter_loop rest' actions filtered
              else filter_loop bs actions (filtered @ [b])))"

text \<open>\<open>InputFilter::process\<close> on the carried bytes and a read: the actions and the bytes carried over.\<close>

definition filter_process :: "u8 list \<Rightarrow> u8 list \<Rightarrow> filter_action list \<times> u8 list" where
  "filter_process carry input =
     (let raw = carry @ input in
      if DETACH_KEY \<in> set raw
      then (let before = takeWhile (\<lambda>b. b \<noteq> DETACH_KEY) raw
            in ((if before \<noteq> [] then [Forward before] else []) @ [DetachKey], []))
      else filter_loop raw [] [])"

definition filter_flush :: "u8 list \<Rightarrow> filter_action option" where
  "filter_flush carry = (if carry = [] then None else Some (Forward carry))"

subsection \<open>Standard input to the socket\<close>

text \<open>The message of an action, and whether the loop returns after it.\<close>

fun action_message :: "filter_action \<Rightarrow> client_msg" where
  "action_message (Forward data) = Input data"
| "action_message DetachKey = Detach"
| "action_message FocusIn = RefreshScreen"

text \<open>
  The loop body over the actions of one read: the messages sent; \<open>False\<close> when it returned (detach).
  Encoding an \<open>Input\<close> can fail and ends the loop with the error; the other two messages are small and an
  encoding failure would only skip them.
\<close>

fun send_actions :: "(client_msg \<Rightarrow> 'x + u8 list) \<Rightarrow> filter_action list \<Rightarrow> u8 list \<Rightarrow> ('x + bool) \<times> u8 list" where
  "send_actions enc [] sock = (Inr True, sock)"
| "send_actions enc (Forward data # actions) sock =
     (case enc (Input data) of
        Inl e \<Rightarrow> (Inl e, sock)
      | Inr msg \<Rightarrow> send_actions enc actions (sock @ msg))"
| "send_actions enc (DetachKey # actions) sock =
     (Inr False, case enc Detach of Inl e \<Rightarrow> sock | Inr msg \<Rightarrow> sock @ msg)"
| "send_actions enc (FocusIn # actions) sock =
     send_actions enc actions (case enc RefreshScreen of Inl e \<Rightarrow> sock | Inr msg \<Rightarrow> sock @ msg)"

text \<open>\<open>run_stdin_to_socket\<close> over the reads of standard input, \<open>Inr []\<close> being its end.\<close>

fun run_stdin :: "(client_msg \<Rightarrow> 'x + u8 list) \<Rightarrow> ('i + u8 list) list \<Rightarrow> u8 list \<Rightarrow> u8 list
    \<Rightarrow> ('x + 'i option) outcome \<times> u8 list" where
  "run_stdin enc [] carry sock = (Waiting, sock)"
| "run_stdin enc (Inl e # rds) carry sock = (Done (Inr (Some e)), sock)"
| "run_stdin enc (Inr input # rds) carry sock =
     (if input = [] then
        (case filter_flush carry of
           Some (Forward data) \<Rightarrow>
             (case enc (Input data) of
                Inl e \<Rightarrow> (Done (Inl e), sock)
              | Inr msg \<Rightarrow> (Done (Inr None), sock @ msg))
         | _ \<Rightarrow> (Done (Inr None), sock))
      else
        let (actions, carry) = filter_process carry input; (r, sock) = send_actions enc actions sock in
        case r of
          Inl e \<Rightarrow> (Done (Inl e), sock)
        | Inr go_on \<Rightarrow> if go_on then run_stdin enc rds carry sock else (Done (Inr None), sock))"

definition run_stdin_to_socket :: "(client_msg \<Rightarrow> 'x + u8 list) \<Rightarrow> ('i + u8 list) list
    \<Rightarrow> ('x + 'i option) outcome \<times> u8 list" where
  "run_stdin_to_socket enc rds = run_stdin enc rds [] []"

end
