(* ===== verification/Session.thy ===== *)
theory Session
  imports Screen Codec "HOL-Library.AList"
begin

section \<open>Sessions (\<open>session.rs\<close>) and their set-up (\<open>server/session_setup.rs\<close>)\<close>

text \<open>
  A session is the screen, the size agreed with the pseudo-terminal, the flag and channel of the attached
  client, and the state of the reader thread. The pseudo-terminal belongs to \<open>portable_pty\<close>: spawning
  is the parameter \<open>spawn_pty\<close> (an error, or the child's process id), \<open>se_pty_size\<close> is the size last set
  and \<open>se_pty_in\<close> the bytes written to it. Shared handles (\<open>Arc\<close>) of one session are the fields of its
  record. A \<open>watch\<close> channel is its index in \<open>se_chans\<close>, which holds the value last sent
  (\<open>False\<close>: evicted). A mutex is poisoned when a thread panics while it holds it.
\<close>

definition DEFAULT_COLS :: u16 where "DEFAULT_COLS = 80"
definition DEFAULT_ROWS :: u16 where "DEFAULT_ROWS = 24"
definition MAX_SESSION_NAME_LEN :: usize where "MAX_SESSION_NAME_LEN = 128"
definition MAX_DEFERRED :: usize where "MAX_DEFERRED = 64"

record 'p session =
  se_name :: rtext
  se_pid :: "u32 option"
  se_child_alive :: bool
  se_pty_size :: "u16 \<times> u16"
  se_pty_in :: "u8 list"
  se_screen :: "'p screen"
  se_poisoned :: bool
  se_dims :: "u16 \<times> u16"
  se_evict :: "nat option"
  se_chans :: "bool list"
  se_notify :: bool
  se_has_client :: bool
  se_reader_alive :: bool
  se_reader_running :: bool
  se_deferred :: "u8 list list"

subsection \<open>Errors and their messages\<close>

datatype 'x session_error =
    NameEmpty
  | NameTooLong
  | NameInvalid rchar
  | AlreadyExists rtext
  | NotFound rtext
  | PtyFailed 'x
  | MutexPoisoned rtext
  | ResizeFailed rtext

definition quoted :: "rtext \<Rightarrow> rtext" where
  "quoted name = bytes ''session '' @ [39] @ name @ [39]"

fun error_text :: "('x \<Rightarrow> rtext) \<Rightarrow> 'x session_error \<Rightarrow> rtext" where
  "error_text sh NameEmpty = bytes ''session name cannot be empty''"
| "error_text sh NameTooLong = bytes ''session name too long (max 128 bytes)''"
| "error_text sh (NameInvalid c) =
     bytes ''invalid character '' @ [39, c, 39] @ bytes '' in session name (allowed: a-zA-Z0-9_-.)''"
| "error_text sh (AlreadyExists name) = quoted name @ bytes '' already exists''"
| "error_text sh (NotFound name) = quoted name @ bytes '' not found''"
| "error_text sh (PtyFailed e) = sh e"
| "error_text sh (MutexPoisoned label) = label @ bytes '' mutex poisoned''"
| "error_text sh (ResizeFailed name) = bytes ''failed to resize/SIGWINCH on reattach to '' @ [39] @ name @ [39]"

definition name_char :: "rchar \<Rightarrow> bool" where
  "name_char c \<longleftrightarrow> 97 \<le> c \<and> c \<le> 122 \<or> 65 \<le> c \<and> c \<le> 90 \<or> 48 \<le> c \<and> c \<le> 57 \<or> c = 95 \<or> c = 45 \<or> c = 46"

definition validate_session_name :: "rtext \<Rightarrow> 'x session_error + unit" where
  "validate_session_name name =
     (if name = [] then Inl NameEmpty
      else if length (utf8 name) > MAX_SESSION_NAME_LEN then Inl NameTooLong
      else case find (\<lambda>c. \<not> name_char c) name of
             Some c \<Rightarrow> Inl (NameInvalid c)
           | None \<Rightarrow> Inr ())"

subsection \<open>One session\<close>

definition session_new :: "(u16 \<Rightarrow> u16 \<Rightarrow> spawn_request \<Rightarrow> 'x + u32 option) \<Rightarrow> 'p
    \<Rightarrow> rtext \<Rightarrow> u16 \<Rightarrow> u16 \<Rightarrow> usize \<Rightarrow> spawn_request \<Rightarrow> 'x session_error + 'p session" where
  "session_new spawn_pty parser name cols rows history spawn =
     (case spawn_pty cols rows spawn of
        Inl e \<Rightarrow> Inl (PtyFailed e)
      | Inr pid \<Rightarrow> Inr
          \<lparr>se_name = name, se_pid = pid, se_child_alive = True, se_pty_size = (cols, rows), se_pty_in = [],
           se_screen = screen_new cols rows history parser, se_poisoned = False, se_dims = (cols, rows),
           se_evict = None, se_chans = [], se_notify = False, se_has_client = False,
           se_reader_alive = True, se_reader_running = True, se_deferred = []\<rparr>)"

definition is_alive :: "'p session \<Rightarrow> bool" where
  "is_alive s \<longleftrightarrow> se_reader_alive s \<and> se_child_alive s"

text \<open>\<open>Session::connect\<close>; the guard and the relay's receiver are the index of the new channel.\<close>

definition session_connect :: "'p session \<Rightarrow> nat \<times> 'p session" where
  "session_connect s =
     (let s = s\<lparr>se_has_client := True\<rparr>;
          s = (case se_evict s of
                 Some old \<Rightarrow> s\<lparr>se_evict := None, se_chans := (se_chans s)[old := False]\<rparr>
               | None \<Rightarrow> s);
          rx = length (se_chans s)
      in (rx, s\<lparr>se_chans := se_chans s @ [True], se_evict := Some rx\<rparr>))"

definition session_disconnect :: "'p session \<Rightarrow> 'p session" where
  "session_disconnect s = s\<lparr>se_evict := None\<rparr>"

text \<open>\<open>ClientGuard::drop\<close>: the test and the store are two steps, and no lock is held over them.\<close>

definition guard_test :: "nat \<Rightarrow> 'p session \<Rightarrow> bool" where
  "guard_test rx s = (se_chans s ! rx)"

definition guard_store :: "'p session \<Rightarrow> 'p session" where
  "guard_store s = s\<lparr>se_has_client := False\<rparr>"

definition guard_drop :: "nat \<Rightarrow> 'p session \<Rightarrow> 'p session" where
  "guard_drop rx s = (if guard_test rx s then guard_store s else s)"

subsection \<open>The reader thread\<close>

text \<open>
  One round of the loop. \<open>lock\<close> says what \<open>pty_writer.try_lock()\<close> gives: \<open>None\<close> when it is contended,
  otherwise how many of the responses the terminal accepts before a write fails (the failure is logged
  and the loop goes on). A panic in the emulator is \<open>None\<close>.
\<close>

datatype read_event = ReadData "u8 list" "nat option" | ReadEof | ReadError

definition push_deferred :: "u8 list \<Rightarrow> u8 list list \<Rightarrow> u8 list list" where
  "push_deferred resp q = (if length q \<ge> MAX_DEFERRED then drop 1 q else q) @ [resp]"

definition reader_step :: "('p \<Rightarrow> u8 \<Rightarrow> 'p \<times> event list) \<Rightarrow> (rchar \<Rightarrow> nat option) \<Rightarrow> u8 list \<Rightarrow> nat option
    \<Rightarrow> 'p session \<Rightarrow> 'p session option" where
  "reader_step adv wd bs lock s = do {
     scr \<leftarrow> process adv wd bs (se_screen s);
     let (responses, p) = take_responses (sc_perf scr);
     let p = (if \<not> se_has_client s then snd (take_passthrough (snd (take_pending_scrollback p))) else p);
     let s = s\<lparr>se_screen := scr\<lparr>sc_perf := p\<rparr>\<rparr>;
     let responses = se_deferred s @ responses;
     let s = s\<lparr>se_deferred := []\<rparr>;
     let s = (if responses = [] then s
              else case lock of
                Some n \<Rightarrow> s\<lparr>se_pty_in := se_pty_in s @ concat (take n responses)\<rparr>
              | None \<Rightarrow> s\<lparr>se_deferred := fold push_deferred responses (se_deferred s)\<rparr>);
     Some (s\<lparr>se_notify := True\<rparr>) }"

text \<open>
  The thread as the rest of the server sees it: on end of file or a read error, and when the screen's
  mutex is poisoned, it stores that the reader is gone; when it panics, it stores nothing, and the
  mutex it holds is poisoned.
\<close>

definition reader_exit :: "'p session \<Rightarrow> 'p session" where
  "reader_exit s = s\<lparr>se_reader_alive := False, se_reader_running := False, se_notify := True\<rparr>"

definition reader_event :: "('p \<Rightarrow> u8 \<Rightarrow> 'p \<times> event list) \<Rightarrow> (rchar \<Rightarrow> nat option) \<Rightarrow> read_event
    \<Rightarrow> 'p session \<Rightarrow> 'p session" where
  "reader_event adv wd ev s =
     (if \<not> se_reader_running s then s
      else case ev of
        ReadEof \<Rightarrow> reader_exit s
      | ReadError \<Rightarrow> reader_exit s
      | ReadData bs lock \<Rightarrow>
          (if se_poisoned s then reader_exit s
           else case reader_step adv wd bs lock s of
                  Some s' \<Rightarrow> s'
                | None \<Rightarrow> s\<lparr>se_poisoned := True, se_reader_running := False\<rparr>))"

subsection \<open>The registry\<close>

type_synonym 'p manager = "(rtext \<times> 'p session) list"

definition manager_new :: "'p manager" where
  "manager_new = []"

definition or_default :: "u16 \<Rightarrow> u16 \<Rightarrow> u16" where
  "or_default n d = (if n > 0 then n else d)"

definition manager_create :: "(u16 \<Rightarrow> u16 \<Rightarrow> spawn_request \<Rightarrow> 'x + u32 option) \<Rightarrow> 'p
    \<Rightarrow> rtext \<Rightarrow> u16 \<Rightarrow> u16 \<Rightarrow> usize \<Rightarrow> spawn_request \<Rightarrow> 'p manager \<Rightarrow> 'x session_error + 'p manager" where
  "manager_create spawn_pty parser name cols rows history spawn mgr =
     (case validate_session_name name of
        Inl e \<Rightarrow> Inl e
      | Inr _ \<Rightarrow>
          if map_of mgr name \<noteq> None then Inl (AlreadyExists name)
          else case session_new spawn_pty parser name (or_default cols DEFAULT_COLS)
                      (or_default rows DEFAULT_ROWS) history spawn of
                 Inl e \<Rightarrow> Inl e
               | Inr s \<Rightarrow> Inr (AList.update name s mgr))"

definition manager_get_or_create :: "(u16 \<Rightarrow> u16 \<Rightarrow> spawn_request \<Rightarrow> 'x + u32 option) \<Rightarrow> 'p
    \<Rightarrow> rtext \<Rightarrow> u16 \<Rightarrow> u16 \<Rightarrow> usize \<Rightarrow> spawn_request \<Rightarrow> 'p manager
    \<Rightarrow> 'x session_error + ('p session \<times> bool) \<times> 'p manager" where
  "manager_get_or_create spawn_pty parser name cols rows history spawn mgr =
     (case validate_session_name name of
        Inl e \<Rightarrow> Inl e
      | Inr _ \<Rightarrow>
          (case map_of mgr name of
             Some s \<Rightarrow> Inr ((s, False), mgr)
           | None \<Rightarrow>
               (case session_new spawn_pty parser name (or_default cols DEFAULT_COLS)
                       (or_default rows DEFAULT_ROWS) history spawn of
                  Inl e \<Rightarrow> Inl e
                | Inr s \<Rightarrow> Inr ((s, True), AList.update name s mgr))))"

definition manager_get :: "rtext \<Rightarrow> 'p manager \<Rightarrow> 'p session option" where
  "manager_get name mgr = map_of mgr name"

definition manager_remove :: "rtext \<Rightarrow> 'p manager \<Rightarrow> 'p session option \<times> 'p manager" where
  "manager_remove name mgr = (map_of mgr name, AList.delete name mgr)"

text \<open>Nothing panics while it holds the lock of the sizes, so \<open>list\<close> always reads them.\<close>

definition manager_list :: "'p manager \<Rightarrow> session_info list" where
  "manager_list mgr = map (\<lambda>(_, s). \<lparr>si_name = se_name s, si_pid = (case se_pid s of Some n \<Rightarrow> n | None \<Rightarrow> 0),
     si_cols = fst (se_dims s), si_rows = snd (se_dims s)\<rparr>) mgr"

definition manager_drain_all :: "'p manager \<Rightarrow> 'p session list \<times> 'p manager" where
  "manager_drain_all mgr = (map snd mgr, [])"

definition take_dead_sessions :: "'p manager \<Rightarrow> 'p session list \<times> 'p manager" where
  "take_dead_sessions mgr =
     (let dead = map fst (filter (\<lambda>(_, s). \<not> is_alive s) mgr)
      in fold (\<lambda>name (out, mgr).
           let (removed, mgr) = manager_remove name mgr
           in (out @ (case removed of Some s \<Rightarrow> [s] | None \<Rightarrow> []), mgr)) dead ([], mgr))"

end
