(* ===== verification/Server.thy ===== *)
theory Server
  imports Session
begin

section \<open>The server's side of a connection (\<open>server/*.rs\<close>)\<close>

text \<open>
  Set-up of a session for a client, the initial state it is sent, the two relay loops and the dispatch
  of a connection's first message. Sending a message is appending it to the list of messages written;
  that encoding a message fails (a message over the frame limit) ends the connection and is left to the
  codec. \<open>hash\<close> is the row hash of the renderer and \<open>adv\<close>, \<open>wd\<close> the parser and width tables of the screen.
  A resize of the pseudo-terminal is the parameter \<open>pr\<close>: the error it reports, if any.
\<close>

subsection \<open>Resizing\<close>

definition resize_pty :: "'x option \<Rightarrow> u16 \<Rightarrow> u16 \<Rightarrow> 'p session \<Rightarrow> 'x session_error + 'p session" where
  "resize_pty pr cols rows s =
     (let (cols, rows) = sanitize_dimensions cols rows in
      if se_poisoned s then Inl (MutexPoisoned (bytes ''screen''))
      else case pr of
             Some e \<Rightarrow> Inl (PtyFailed e)
           | None \<Rightarrow> Inr (s\<lparr>se_pty_size := (cols, rows),
               se_screen := (se_screen s)\<lparr>sc_perf := screen_resize cols rows (sc_perf (se_screen s))\<rparr>\<rparr>))"

definition resize_session :: "'x option \<Rightarrow> u16 \<Rightarrow> u16 \<Rightarrow> 'p session \<Rightarrow> 'x session_error + 'p session" where
  "resize_session pr cols rows s =
     (case resize_pty pr cols rows s of
        Inl e \<Rightarrow> Inl e
      | Inr s \<Rightarrow> Inr (s\<lparr>se_dims := sanitize_dimensions cols rows\<rparr>))"

definition resize_or_sigwinch :: "'x option \<Rightarrow> u16 \<Rightarrow> u16 \<Rightarrow> u16 \<times> u16 \<Rightarrow> 'p session
    \<Rightarrow> 'x session_error + 'p session" where
  "resize_or_sigwinch pr cols rows current s =
     (if fst current \<noteq> cols \<or> snd current \<noteq> rows then resize_session pr cols rows s
      else case pr of
             Some e \<Rightarrow> Inl (PtyFailed e)
           | None \<Rightarrow> Inr (s\<lparr>se_pty_size := sanitize_dimensions cols rows\<rparr>))"

subsection \<open>Setting up the session of a connection\<close>

record connect_request =
  cr_name :: rtext
  cr_history :: usize
  cr_cols :: u16
  cr_rows :: u16
  cr_leftover :: "u8 list"
  cr_mode :: connect_mode
  cr_spawn :: spawn_request

text \<open>
  The session to use, whether it is new, and the registry; an error here is sent to the client.
\<close>

definition acquire_session :: "(u16 \<Rightarrow> u16 \<Rightarrow> spawn_request \<Rightarrow> 'x + u32 option) \<Rightarrow> 'p
    \<Rightarrow> connect_request \<Rightarrow> 'p manager \<Rightarrow> 'x session_error + ('p session \<times> bool) \<times> 'p manager" where
  "acquire_session spawn_pty parser req mgr =
     (case cr_mode req of
        CreateOrAttach \<Rightarrow>
          manager_get_or_create spawn_pty parser (cr_name req) (cr_cols req) (cr_rows req)
            (cr_history req) (cr_spawn req) mgr
      | CreateOnly \<Rightarrow>
          if manager_get (cr_name req) mgr \<noteq> None then Inl (AlreadyExists (cr_name req))
          else (case manager_create spawn_pty parser (cr_name req) (cr_cols req) (cr_rows req)
                        (cr_history req) (cr_spawn req) mgr of
                  Inl e \<Rightarrow> Inl e
                | Inr mgr \<Rightarrow>
                    (case manager_get (cr_name req) mgr of
                       Some s \<Rightarrow> Inr ((s, True), mgr)
                     | None \<Rightarrow> Inl (NotFound (cr_name req))))
      | AttachOnly \<Rightarrow>
          (case manager_get (cr_name req) mgr of
             Some s \<Rightarrow> Inr ((s, False), mgr)
           | None \<Rightarrow> Inl (NotFound (cr_name req))))"

text \<open>
  \<open>setup_session\<close>: the messages sent, the outcome (new or not, and the client's channel), the registry.
  When the resize fails the guard of the client is dropped and nothing is sent. The source releases the lock
  of the registry between connecting and resizing; here both are one step, so what another request for the
  same session does in between is not covered.
\<close>

definition setup_session :: "(u16 \<Rightarrow> u16 \<Rightarrow> spawn_request \<Rightarrow> 'x + u32 option) \<Rightarrow> 'p \<Rightarrow> ('x \<Rightarrow> rtext) \<Rightarrow> 'x option
    \<Rightarrow> connect_request \<Rightarrow> 'p manager \<Rightarrow> (server_msg list \<times> ('x session_error + bool \<times> nat)) \<times> 'p manager" where
  "setup_session spawn_pty parser sh pr req mgr =
     (case acquire_session spawn_pty parser req mgr of
        Inl e \<Rightarrow> (([ErrorMsg (error_text sh e)], Inl e), mgr)
      | Inr ((s, is_new), mgr) \<Rightarrow>
          let (rx, s) = session_connect s in
          if is_new then (([], Inr (True, rx)), AList.update (cr_name req) s mgr)
          else (case resize_or_sigwinch pr (cr_cols req) (cr_rows req) (se_dims s) s of
                  Inl e \<Rightarrow> (([], Inl (ResizeFailed (cr_name req))), AList.update (cr_name req) (guard_drop rx s) mgr)
                | Inr s \<Rightarrow> (([], Inr (False, rx)), AList.update (cr_name req) s mgr)))"

subsection \<open>The initial state of a client\<close>

definition prepend_passthrough :: "u8 list list \<Rightarrow> u8 list \<Rightarrow> u8 list" where
  "prepend_passthrough passthrough render_data =
     (if passthrough = [] then render_data else concat passthrough @ render_data)"

definition BINCODE_LINE_OVERHEAD :: usize where
  "BINCODE_LINE_OVERHEAD = 16"

definition history_limit_bytes :: usize where
  "history_limit_bytes = MAX_FRAME_SIZE div 2"

text \<open>The loop that packs history lines into messages.\<close>

fun pack_history :: "u8 list list \<Rightarrow> u8 list list \<Rightarrow> usize \<Rightarrow> u8 list list list" where
  "pack_history [] chunk chunk_size = (if chunk \<noteq> [] then [chunk] else [])"
| "pack_history (line # lines) chunk chunk_size =
     (let line_size = length line + BINCODE_LINE_OVERHEAD in
      if chunk_size + line_size > history_limit_bytes \<and> chunk \<noteq> []
      then chunk # pack_history lines [line] line_size
      else pack_history lines (chunk @ [line]) (chunk_size + line_size))"

text \<open>
  The part under the first lock of the screen: the history, and the bytes of the first update. Queued
  notifications come first, then, when there is history, the cursor is put on the last row and the rows
  are scrolled off, then the screen is drawn.
\<close>

definition initial_snapshot :: "(row \<Rightarrow> nat) \<Rightarrow> perf \<Rightarrow> ((u8 list list \<times> u8 list) \<times> perf \<times> render_cache) option" where
  "initial_snapshot hash p =
     (let hist = (if ss_alt (pf_state p) then [] else get_history p);
          (notifications, p) = take_queued_notifications p;
          flush = (if hist = [] then []
                   else [ESC] @ bytes ''['' @ write_u16 [] (rows_of p) @ bytes '';1H''
                     @ replicate (u16_sat_sub (rows_of p) 1) 10)
      in map_option (\<lambda>(out, cache). ((hist, concat notifications @ flush @ out), p, cache))
           (render_screen hash (pf_grid p) (ss_title (pf_state p)) True cache_new))"

text \<open>
  The part under the second lock. Between the two, the reader thread can run.
\<close>

definition drain_stale :: "perf \<Rightarrow> perf" where
  "drain_stale p = snd (take_passthrough (snd (take_pending_scrollback p)))"

definition initial_messages :: "rtext \<Rightarrow> bool \<Rightarrow> u8 list list \<times> u8 list \<Rightarrow> server_msg list" where
  "initial_messages name is_new snapshot =
     [Connected name is_new] @ map History (pack_history (fst snapshot) [] 0) @ [ScreenUpdate (snd snapshot)]"

definition upd_perf :: "perf \<Rightarrow> 'p session \<Rightarrow> 'p session" where
  "upd_perf p s = s\<lparr>se_screen := (se_screen s)\<lparr>sc_perf := p\<rparr>\<rparr>"

text \<open>\<open>send_initial_state\<close>, with what the reader does in between as the parameter \<open>between\<close>.\<close>

definition send_initial_state :: "(row \<Rightarrow> nat) \<Rightarrow> ('p session \<Rightarrow> 'p session) \<Rightarrow> bool \<Rightarrow> 'p session
    \<Rightarrow> (server_msg list \<times> ('x session_error + render_cache) \<times> 'p session) option" where
  "send_initial_state hash between is_new s =
     (if se_poisoned s then Some ([Connected (se_name s) is_new], Inl (MutexPoisoned (bytes ''screen'')), s)
      else do {
        (snapshot, p, cache) \<leftarrow> initial_snapshot hash (sc_perf (se_screen s));
        let msgs = initial_messages (se_name s) is_new snapshot;
        let s = between (upd_perf p s);
        if se_poisoned s then Some (msgs, Inl (MutexPoisoned (bytes ''screen'')), s)
        else Some (msgs, Inr cache, upd_perf (drain_stale (sc_perf (se_screen s))) s) })"

subsection \<open>From the screen to the client\<close>

text \<open>
  \<open>screen_to_client\<close> waits for one of these events (\<open>select!\<close>); the throttle is only polled while a
  render is pending. The state is the session, the render cache and whether a render is pending.
\<close>

datatype relay_event = ScreenNotified | ThrottleElapsed | RefreshNotified | Evicted | SenderDropped

record 'p relay_state =
  ry_session :: "'p session"
  ry_cache :: render_cache
  ry_pending :: bool

definition relay_update :: "(row \<Rightarrow> nat) \<Rightarrow> 'p relay_state \<Rightarrow> (u8 list \<times> 'p relay_state) option" where
  "relay_update hash r =
     map_option (\<lambda>((out, passthrough), p, cache).
         (prepend_passthrough passthrough out,
          r\<lparr>ry_session := upd_perf p (ry_session r), ry_cache := cache\<rparr>))
       (take_and_render hash (sc_perf (se_screen (ry_session r))) (ry_cache r))"

definition render_and_send :: "(row \<Rightarrow> nat) \<Rightarrow> bool \<Rightarrow> 'p relay_state \<Rightarrow> (server_msg list \<times> 'p relay_state) option" where
  "render_and_send hash full r =
     (let p = sc_perf (se_screen (ry_session r)) in
      map_option (\<lambda>(out, cache). ([ScreenUpdate out], r\<lparr>ry_cache := cache\<rparr>))
        (render_screen hash (pf_grid p) (ss_title (pf_state p)) full (ry_cache r)))"

text \<open>One round: the messages sent, whether the loop goes on (an error of a poisoned screen ends it).\<close>

definition relay_step :: "(row \<Rightarrow> nat) \<Rightarrow> relay_event \<Rightarrow> 'p relay_state
    \<Rightarrow> (server_msg list \<times> ('x session_error + bool) \<times> 'p relay_state) option" where
  "relay_step hash ev r =
     (let poisoned = se_poisoned (ry_session r); failed = Inl (MutexPoisoned (bytes ''screen'')) in
      case ev of
        ScreenNotified \<Rightarrow>
          let r = r\<lparr>ry_session := (ry_session r)\<lparr>se_notify := False\<rparr>\<rparr> in
          if se_reader_alive (ry_session r) then Some ([], Inr True, r\<lparr>ry_pending := True\<rparr>)
          else if poisoned then Some ([], failed, r)
          else map_option (\<lambda>(update, r). ([ScreenUpdate update, SessionEnded], Inr False, r)) (relay_update hash r)
      | ThrottleElapsed \<Rightarrow>
          if \<not> ry_pending r then Some ([], Inr True, r)
          else if poisoned then Some ([], failed, r)
          else map_option (\<lambda>(update, r). (if update = [] then [] else [ScreenUpdate update], Inr True,
                 r\<lparr>ry_pending := False\<rparr>)) (relay_update hash r)
      | RefreshNotified \<Rightarrow>
          if poisoned then Some ([], failed, r)
          else map_option (\<lambda>(msgs, r). (msgs, Inr True, r)) (render_and_send hash True r)
      | Evicted \<Rightarrow> Some ([ErrorMsg (bytes ''evicted by new client'')], Inr False, r)
      | SenderDropped \<Rightarrow> Some ([SessionEnded], Inr False, r))"

text \<open>The check before the loop.\<close>

definition relay_start :: "(row \<Rightarrow> nat) \<Rightarrow> 'p relay_state
    \<Rightarrow> (server_msg list \<times> ('x session_error + bool) \<times> 'p relay_state) option" where
  "relay_start hash r =
     (if se_reader_alive (ry_session r) then Some ([], Inr True, r)
      else if se_poisoned (ry_session r) then Some ([], Inl (MutexPoisoned (bytes ''screen'')), r)
      else map_option (\<lambda>(msgs, r). (msgs @ [SessionEnded], Inr False, r)) (render_and_send hash True r))"

subsection \<open>From the client to the pseudo-terminal\<close>

text \<open>
  The body of the loop of \<open>client_to_pty\<close>: the state is the session and the permit of
  \<open>refresh_notify\<close> (\<open>Notify\<close> keeps at most one). \<open>prs\<close> gives the outcome of each resize.
  Writing to the pseudo-terminal is taken to succeed: the error of the write, and of a lock that is poisoned,
  which end the relay, are left out.
\<close>

definition pty_body :: "(u16 \<times> u16 \<Rightarrow> 'x option) \<Rightarrow> client_msg \<Rightarrow> 'p session \<times> bool
    \<Rightarrow> (('c + 'x session_error) + bool) \<times> 'p session \<times> bool" where
  "pty_body prs msg st =
     (let (s, refresh) = st in
      case msg of
        Input input \<Rightarrow> (Inr True, s\<lparr>se_pty_in := se_pty_in s @ input\<rparr>, refresh)
      | Resize cols rows \<Rightarrow>
          (case resize_session (prs (cols, rows)) cols rows s of
             Inl e \<Rightarrow> (Inl (Inr e), s, refresh)
           | Inr s \<Rightarrow> (Inr True, s, refresh))
      | RefreshScreen \<Rightarrow> (Inr True, s, True)
      | Detach \<Rightarrow> (Inr False, s, refresh)
      | Connect _ _ _ _ _ _ \<Rightarrow> (Inr True, s, refresh)
      | ListSessions \<Rightarrow> (Inr True, s, refresh)
      | KillSession _ \<Rightarrow> (Inr True, s, refresh))"

definition client_to_pty :: "(u8 list \<Rightarrow> 'e + client_msg) \<Rightarrow> (u16 \<times> u16 \<Rightarrow> 'x option)
    \<Rightarrow> ('i io_error + u8 list) list \<Rightarrow> u8 list \<Rightarrow> 'p session \<times> bool
    \<Rightarrow> (((('e, 'i) protocol_error + 'x session_error) + unit) outcome \<times> frame_reader \<times> 'p session \<times> bool) option" where
  "client_to_pty de prs rds leftover st =
     relay (lift_errors fill_from) (\<lambda>f. lift_error (decode_next de f)) (pty_body prs) rds (with_leftover leftover) st"

subsection \<open>The first message of a connection\<close>

text \<open>\<open>Session::drop\<close>; \<open>child_free\<close>: \<open>try_lock\<close> on the child succeeds.\<close>

definition session_drop :: "bool \<Rightarrow> 'p session \<Rightarrow> 'p session" where
  "session_drop child_free s =
     (if child_free
      then (let s = s\<lparr>se_child_alive := False\<rparr> in
            case se_evict s of
              Some tx \<Rightarrow> s\<lparr>se_evict := None, se_chans := (se_chans s)[tx := False]\<rparr>
            | None \<Rightarrow> s)
      else s\<lparr>se_evict := None\<rparr>)"

text \<open>
  What a first message comes to: the messages sent, the request handed to \<open>handle_session\<close> if it was
  \<open>Connect\<close>, the registry, and the sessions dropped.
\<close>

definition first_request :: "('x \<Rightarrow> rtext) \<Rightarrow> client_msg \<Rightarrow> u8 list \<Rightarrow> 'p manager
    \<Rightarrow> (server_msg list \<times> connect_request option) \<times> 'p manager \<times> 'p session list" where
  "first_request sh msg leftover mgr =
     (case msg of
        Connect name history cols rows mode spawn \<Rightarrow>
          (case validate_session_name name of
             Inl e \<Rightarrow> (([ErrorMsg (error_text sh e)], None), mgr, [])
           | Inr _ \<Rightarrow> (([], Some \<lparr>cr_name = name, cr_history = history, cr_cols = cols, cr_rows = rows,
               cr_leftover = leftover, cr_mode = mode, cr_spawn = spawn\<rparr>), mgr, []))
      | ListSessions \<Rightarrow> (([SessionList (manager_list mgr)], None), mgr, [])
      | KillSession name \<Rightarrow>
          (case validate_session_name name of
             Inl e \<Rightarrow> (([ErrorMsg (error_text sh e)], None), mgr, [])
           | Inr _ \<Rightarrow>
               (case manager_remove name mgr of
                  (Some s, mgr) \<Rightarrow> (([SessionKilled name], None), mgr, [session_disconnect s])
                | (None, mgr) \<Rightarrow> (([ErrorMsg (quoted name @ bytes '' not found'')], None), mgr, [])))
      | _ \<Rightarrow> (([ErrorMsg (bytes ''expected Connect, ListSessions, or KillSession'')], None), mgr, []))"

text \<open>The loop that waits for it; the deadline may pass instead of a read.\<close>

fun first_message :: "(u8 list \<Rightarrow> 'e + client_msg) \<Rightarrow> 'i timed_read list \<Rightarrow> frame_reader
    \<Rightarrow> (('e, 'i) protocol_error + (client_msg \<times> u8 list) option) outcome option" where
  "first_message de [] f = Some Waiting"
| "first_message de (TimedOut # _) f = Some (Done (Inr None))"
| "first_message de (ReadInTime rd # rds) f = do {
     (r, f) \<leftarrow> fill_from rd f;
     (case r of
        Inl e \<Rightarrow> Some (Done (Inl e))
      | Inr False \<Rightarrow> Some (Done (Inr None))
      | Inr True \<Rightarrow> do {
          (r, f) \<leftarrow> decode_next de f;
          (case r of
             Inl e \<Rightarrow> Some (Done (Inl e))
           | Inr None \<Rightarrow> first_message de rds f
           | Inr (Some msg) \<Rightarrow> map_option (\<lambda>leftover. Done (Inr (Some (msg, leftover)))) (into_leftover f)) }) }"

definition handle_client :: "('x \<Rightarrow> rtext) \<Rightarrow> (u8 list \<Rightarrow> 'e + client_msg) \<Rightarrow> 'i timed_read list \<Rightarrow> 'p manager
    \<Rightarrow> ((('e, 'i) protocol_error + server_msg list \<times> connect_request option) outcome
        \<times> 'p manager \<times> 'p session list) option" where
  "handle_client sh de rds mgr = do {
     r \<leftarrow> first_message de rds reader_new;
     (case r of
        Waiting \<Rightarrow> Some (Waiting, mgr, [])
      | Done (Inl e) \<Rightarrow> Some (Done (Inl e), mgr, [])
      | Done (Inr None) \<Rightarrow> Some (Done (Inr ([], None)), mgr, [])
      | Done (Inr (Some (msg, leftover))) \<Rightarrow>
          (let (out, mgr, dropped) = first_request sh msg leftover mgr in Some (Done (Inr out), mgr, dropped))) }"

end
