(* ===== verification/Session_Props.thy ===== *)
theory Session_Props
  imports Server Screen_Props
begin

section \<open>Properties of sessions and of their registry\<close>

text \<open>
  Names, the registry, the presence of a client (with its race), and the reader thread.
\<close>

subsection \<open>Names\<close>

lemma utf8_ascii: "\<forall>c\<in>set s. c < 128 \<Longrightarrow> utf8 s = s"
  by (induction s) (simp_all add: utf8_def encode_utf8_def)

lemma name_char_ascii: "name_char c \<Longrightarrow> c < 128"
  by (auto simp: name_char_def)

lemma find_none: "find P xs = None \<longleftrightarrow> (\<forall>x\<in>set xs. \<not> P x)"
  by (induction xs) auto

text \<open>A name as the server accepts it.\<close>

definition valid_name :: "rtext \<Rightarrow> bool" where
  "valid_name name \<longleftrightarrow> name \<noteq> [] \<and> length name \<le> 128 \<and> (\<forall>c\<in>set name. name_char c)"

lemma validate_iff: "validate_session_name name = Inr () \<longleftrightarrow> valid_name name"
proof (cases "\<forall>c\<in>set name. name_char c")
  case True
  then have "utf8 name = name" by (intro utf8_ascii) (auto dest: name_char_ascii)
  moreover have "find (\<lambda>c. \<not> name_char c) name = None" using True by (simp add: find_none)
  ultimately show ?thesis
    using True by (simp add: validate_session_name_def valid_name_def MAX_SESSION_NAME_LEN_def)
next
  case False
  then obtain c where "find (\<lambda>c. \<not> name_char c) name = Some c" using find_none [of "\<lambda>c. \<not> name_char c" name] by auto
  then show ?thesis using False by (auto simp: validate_session_name_def valid_name_def)
qed

lemma validate_valid [simp]: "valid_name name \<Longrightarrow> validate_session_name name = Inr ()"
  by (simp add: validate_iff)

lemma validate_invalid:
  fixes name :: rtext
  assumes "\<not> valid_name name"
  shows "\<exists>e. (validate_session_name name :: 'x session_error + unit) = Inl e"
proof -
  have "(validate_session_name name :: 'x session_error + unit) \<noteq> Inr ()" using assms validate_iff by blast
  then show ?thesis by (metis sum.exhaust old.unit.exhaust)
qed

lemma validate_case:
  fixes x :: 'a and r :: "'x session_error + 'a"
  shows "(case validate_session_name name of Inl e \<Rightarrow> Inl e | Inr _ \<Rightarrow> r) = Inr x \<longleftrightarrow> valid_name name \<and> r = Inr x"
proof (cases "valid_name name")
  case False
  then obtain e where "(validate_session_name name :: 'x session_error + unit) = Inl e"
    using validate_invalid by blast
  then show ?thesis using False by simp
qed simp

subsection \<open>The registry\<close>

definition manager_ok :: "'p manager \<Rightarrow> bool" where
  "manager_ok mgr \<longleftrightarrow> distinct (map fst mgr) \<and> (\<forall>(name, s)\<in>set mgr. valid_name name \<and> se_name s = name)"

lemma manager_okD:
  "manager_ok mgr \<Longrightarrow> map_of mgr name = Some s \<Longrightarrow> valid_name name \<and> se_name s = name"
  by (auto simp: manager_ok_def dest: map_of_SomeD)

lemma set_update: "set (AList.update k v xs) \<subseteq> insert (k, v) (set xs)"
  by (induction xs) auto

lemma manager_ok_update:
  assumes "manager_ok mgr" "valid_name name" "se_name s = name"
  shows "manager_ok (AList.update name s mgr)"
proof -
  have "distinct (map fst (AList.update name s mgr))"
    using assms(1) by (simp add: manager_ok_def distinct_update)
  moreover have "valid_name n \<and> se_name t = n" if "(n, t) \<in> set (AList.update name s mgr)" for n t
    using that set_update [of name s mgr] assms by (auto simp: manager_ok_def)
  ultimately show ?thesis by (auto simp: manager_ok_def)
qed

lemma manager_ok_delete: "manager_ok mgr \<Longrightarrow> manager_ok (AList.delete name mgr)"
  unfolding manager_ok_def using distinct_delete [of mgr name] by (auto simp: AList.delete_eq)

lemma session_new_name: "session_new sp parser name c r h spn = Inr s \<Longrightarrow> se_name s = name"
  by (auto simp: session_new_def split: sum.splits)

lemma create_spec:
  "manager_create sp parser name cols rows h spn mgr = Inr mgr' \<longleftrightarrow>
   valid_name name \<and> map_of mgr name = None \<and>
   (\<exists>s. session_new sp parser name (or_default cols DEFAULT_COLS) (or_default rows DEFAULT_ROWS) h spn = Inr s
      \<and> mgr' = AList.update name s mgr)"
  unfolding manager_create_def validate_case by (auto split: sum.splits)

lemma get_or_create_spec:
  "manager_get_or_create sp parser name cols rows h spn mgr = Inr ((s, is_new), mgr') \<longleftrightarrow>
   valid_name name \<and>
   (if is_new then map_of mgr name = None \<and> mgr' = AList.update name s mgr \<and>
      session_new sp parser name (or_default cols DEFAULT_COLS) (or_default rows DEFAULT_ROWS) h spn = Inr s
    else map_of mgr name = Some s \<and> mgr' = mgr)"
  unfolding manager_get_or_create_def validate_case by (auto split: sum.splits option.splits)

text \<open>What a successful acquisition is: a new session under an unused valid name, or the registered one.\<close>

lemma acquire_cases:
  assumes "acquire_session sp parser req mgr = Inr ((s, is_new), mgr')"
  shows "if is_new then valid_name (cr_name req) \<and> cr_mode req \<noteq> AttachOnly
      \<and> map_of mgr (cr_name req) = None \<and> mgr' = AList.update (cr_name req) s mgr
      \<and> session_new sp parser (cr_name req) (or_default (cr_cols req) DEFAULT_COLS)
          (or_default (cr_rows req) DEFAULT_ROWS) (cr_history req) (cr_spawn req) = Inr s
    else cr_mode req \<noteq> CreateOnly \<and> map_of mgr (cr_name req) = Some s \<and> mgr' = mgr"
proof (cases "cr_mode req")
  case CreateOrAttach
  with assms have "manager_get_or_create sp parser (cr_name req) (cr_cols req) (cr_rows req) (cr_history req)
      (cr_spawn req) mgr = Inr ((s, is_new), mgr')"
    by (simp add: acquire_session_def)
  then show ?thesis unfolding get_or_create_spec using CreateOrAttach by (simp split: if_splits)
next
  case CreateOnly
  then have none: "map_of mgr (cr_name req) = None"
    using assms by (auto simp: acquire_session_def manager_get_def split: if_splits)
  obtain m where m: "manager_create sp parser (cr_name req) (cr_cols req) (cr_rows req) (cr_history req)
      (cr_spawn req) mgr = Inr m"
    using assms CreateOnly none by (auto simp: acquire_session_def manager_get_def split: sum.splits)
  then have "is_new" "map_of m (cr_name req) = Some s" "mgr' = m"
    using assms CreateOnly none by (auto simp: acquire_session_def manager_get_def split: option.splits)
  then show ?thesis using m CreateOnly by (auto simp: create_spec update_conv')
next
  case AttachOnly
  then show ?thesis
    using assms by (auto simp: acquire_session_def manager_get_def split: option.splits)
qed

lemma acquire_ok:
  assumes "acquire_session sp parser req mgr = Inr ((s, is_new), mgr')" "manager_ok mgr"
  shows "manager_ok mgr'" "map_of mgr' (cr_name req) = Some s" "se_name s = cr_name req" "valid_name (cr_name req)"
  using acquire_cases [OF assms(1)] assms(2) manager_okD [OF assms(2), of "cr_name req" s]
  by (auto simp: manager_ok_update update_conv' session_new_name split: if_splits)

lemma acquire_error:
  assumes "acquire_session sp parser req mgr = Inl e"
  shows "setup_session sp parser sh pr req mgr = (([ErrorMsg (error_text sh e)], Inl e), mgr)"
  using assms by (simp add: setup_session_def)

lemma session_connect_fields:
  assumes "session_connect s = (rx, s')"
  shows "se_name s' = se_name s" "se_has_client s'" "se_evict s' = Some rx" "rx = length (se_chans s)"
    "length (se_chans s') = Suc rx" "se_chans s' ! rx" "se_screen s' = se_screen s" "se_dims s' = se_dims s"
    "se_poisoned s' = se_poisoned s" "se_pty_size s' = se_pty_size s"
  using assms by (auto simp: session_connect_def Let_def nth_append split: option.splits)

lemma guard_drop_fields [simp]:
  "se_name (guard_drop rx s) = se_name s" "se_chans (guard_drop rx s) = se_chans s"
  "se_evict (guard_drop rx s) = se_evict s"
  by (simp_all add: guard_drop_def guard_store_def)

lemma resize_or_sigwinch_fields:
  assumes "resize_or_sigwinch pr cols rows cur s = Inr s'"
  shows "se_name s' = se_name s" "se_has_client s' = se_has_client s" "se_evict s' = se_evict s"
    "se_chans s' = se_chans s" "pr = None"
  using assms
  by (auto simp: resize_or_sigwinch_def resize_session_def resize_pty_def Let_def
      split: if_splits option.splits sum.splits prod.splits)

text \<open>C18. Connecting keeps the registry well formed (one entry per name, every name valid, every session
  under its own name) and leaves every other session alone. A connection that succeeds sends nothing
  yet, says that the session is new exactly when the name was unused, and leaves under that name a
  session whose attached client is this one. One that fails before the session is acquired sends the
  error and changes nothing.\<close>

theorem setup_session_contract:
  assumes "manager_ok mgr" "setup_session sp parser sh pr req mgr = ((msgs, out), mgr')"
  shows "manager_ok mgr' \<and> (\<forall>n. n \<noteq> cr_name req \<longrightarrow> map_of mgr' n = map_of mgr n)
    \<and> (case out of
         Inr (is_new, rx) \<Rightarrow> msgs = [] \<and> (is_new \<longleftrightarrow> map_of mgr (cr_name req) = None)
           \<and> (is_new \<longrightarrow> cr_mode req \<noteq> AttachOnly) \<and> (\<not> is_new \<longrightarrow> cr_mode req \<noteq> CreateOnly)
           \<and> (\<exists>s. map_of mgr' (cr_name req) = Some s \<and> se_has_client s \<and> se_evict s = Some rx \<and> se_chans s ! rx)
       | Inl e \<Rightarrow> e = ResizeFailed (cr_name req) \<or> msgs = [ErrorMsg (error_text sh e)] \<and> mgr' = mgr)"
proof (cases "acquire_session sp parser req mgr")
  case (Inl e)
  then show ?thesis using assms by (auto simp: acquire_error)
next
  case (Inr a)
  obtain s is_new m where a: "a = ((s, is_new), m)" by (metis prod.collapse)
  obtain rx t where c: "session_connect s = (rx, t)" by fastforce
  note acq = acquire_ok [OF Inr [unfolded a] assms(1)] and how = acquire_cases [OF Inr [unfolded a]]
    and [simp] = session_connect_fields(1-3,5-) [OF c]
  have others: "map_of m n = map_of mgr n" if "n \<noteq> cr_name req" for n
    using how that by (auto simp: update_conv' split: if_splits)
  have ok: "manager_ok (AList.update (cr_name req) u m)" if "se_name u = cr_name req" for u
    using acq(1,4) that by (simp add: manager_ok_update)
  consider (new) "is_new" | (resized) u where "\<not> is_new" "resize_or_sigwinch pr (cr_cols req) (cr_rows req) (se_dims t) t = Inr u"
    | (failed) e where "\<not> is_new" "resize_or_sigwinch pr (cr_cols req) (cr_rows req) (se_dims t) t = Inl e"
    by (cases is_new; cases "resize_or_sigwinch pr (cr_cols req) (cr_rows req) (se_dims t) t") auto
  then show ?thesis
  proof cases
    case new
    then show ?thesis
      using assms(2) Inr a c how acq(3) ok others by (auto simp: setup_session_def update_conv')
  next
    case (resized u)
    note f = resize_or_sigwinch_fields [OF resized(2)]
    have "se_name u = cr_name req" using f(1) c acq(3) by simp
    then show ?thesis
      using assms(2) Inr a c how ok others f resized by (auto simp: setup_session_def update_conv')
  next
    case failed
    then show ?thesis
      using assms(2) Inr a c acq(3) ok others by (auto simp: setup_session_def update_conv')
  qed
qed

definition demo_request :: connect_request where
  "demo_request = \<lparr>cr_name = bytes ''work'', cr_history = 10, cr_cols = 4, cr_rows = 2, cr_leftover = [],
     cr_mode = CreateOrAttach, cr_spawn = spawn_default\<rparr>"

lemma demo_name: "valid_name (cr_name demo_request)"
  by (simp add: demo_request_def valid_name_def name_char_def)

theorem setup_session_contract_witness:
  "manager_ok (snd (setup_session (\<lambda>_ _ _. Inr (Some 7)) () (\<lambda>e. e) None demo_request []))"
proof -
  have empty: "manager_ok []" by (simp add: manager_ok_def)
  obtain msgs out mgr where eq: "setup_session (\<lambda>_ _ _. Inr (Some 7)) () (\<lambda>e. e) None demo_request [] = ((msgs, out), mgr)"
    by (metis surj_pair)
  from setup_session_contract [OF empty eq] show ?thesis unfolding eq by simp
qed

lemma take_dead_fold:
  assumes "distinct (map fst mgr)" "distinct ns"
  shows "fold (\<lambda>name (out, mgr).
           let (removed, mgr) = manager_remove name mgr
           in (out @ (case removed of Some s \<Rightarrow> [s] | None \<Rightarrow> []), mgr)) ns (out, mgr)
    = (out @ concat (map (\<lambda>n. case map_of mgr n of Some s \<Rightarrow> [s] | None \<Rightarrow> []) ns),
       filter (\<lambda>(n, _). n \<notin> set ns) mgr)"
  using assms
proof (induction ns arbitrary: out mgr)
  case (Cons n ns)
  have d: "distinct (map fst (AList.delete n mgr))" using Cons.prems(1) by (rule distinct_delete)
  have "concat (map (\<lambda>m. case map_of (AList.delete n mgr) m of Some s \<Rightarrow> [s] | None \<Rightarrow> []) ns)
      = concat (map (\<lambda>m. case map_of mgr m of Some s \<Rightarrow> [s] | None \<Rightarrow> []) ns)"
    using Cons.prems(2) by (intro arg_cong [where f = concat] map_cong) (auto simp: delete_conv')
  moreover have "filter (\<lambda>(m, _). m \<notin> set ns) (AList.delete n mgr) = filter (\<lambda>(m, _). m \<notin> set (n # ns)) mgr"
    by (auto simp: AList.delete_eq intro: filter_cong)
  ultimately show ?case
    using Cons.IH [OF d] Cons.prems(2) by (simp add: manager_remove_def)
qed (simp add: filter_id_conv)

lemma lookup_some: "\<forall>e\<in>set xs. map_of mgr (fst e) = Some (snd e) \<Longrightarrow>
   concat (map (\<lambda>n. case map_of mgr n of Some s \<Rightarrow> [s] | None \<Rightarrow> []) (map fst xs)) = map snd xs"
  by (induction xs) auto

lemma lookup_dead:
  assumes "distinct (map fst mgr)"
  shows "concat (map (\<lambda>n. case map_of mgr n of Some s \<Rightarrow> [s] | None \<Rightarrow> []) (map fst (filter P mgr)))
    = map snd (filter P mgr)"
proof (rule lookup_some, rule ballI)
  fix e assume "e \<in> set (filter P mgr)"
  then have "(fst e, snd e) \<in> set mgr" by simp
  with assms show "map_of mgr (fst e) = Some (snd e)" by (rule map_of_is_SomeI)
qed

text \<open>The cleanup takes every dead session (its reader has ended, or its child has exited) out of the
  registry and returns it, in the registry's order; every other session stays, and the registry stays
  well formed.\<close>

theorem cleanup_partitions:
  assumes "manager_ok mgr" "take_dead_sessions mgr = (dead, mgr')"
  shows "dead = filter (\<lambda>s. \<not> is_alive s) (map snd mgr) \<and> mgr' = filter (\<lambda>(_, s). is_alive s) mgr
    \<and> manager_ok mgr'"
proof -
  let ?dead = "filter (\<lambda>(_, s). \<not> is_alive s) mgr"
  have d: "distinct (map fst mgr)" using assms(1) by (simp add: manager_ok_def)
  then have "distinct (map fst ?dead)" by (simp add: distinct_map_filter)
  from take_dead_fold [OF d this, of "[]"]
  have dead: "dead = map snd ?dead" and m: "mgr' = filter (\<lambda>(n, _). n \<notin> set (map fst ?dead)) mgr"
    using assms(2) unfolding take_dead_sessions_def Let_def lookup_dead [OF d] by simp_all
  have "n \<notin> set (map fst ?dead) \<longleftrightarrow> is_alive s" if m: "(n, s) \<in> set mgr" for n s
  proof -
    have "n \<in> set (map fst ?dead) \<longleftrightarrow> (\<exists>t. (n, t) \<in> set mgr \<and> \<not> is_alive t)" by (auto simp: image_iff)
    then show ?thesis using m eq_key_imp_eq_value [OF d m] by metis
  qed
  then have mgr': "mgr' = filter (\<lambda>(_, s). is_alive s) mgr"
    unfolding m by (intro filter_cong refl) (simp only: split_beta prod.collapse)
  have "map snd ?dead = filter (\<lambda>s. \<not> is_alive s) (map snd mgr)" by (induction mgr) auto
  moreover have "manager_ok (filter (\<lambda>(_, s). is_alive s) mgr)"
    using assms(1) by (auto simp: manager_ok_def distinct_map_filter)
  ultimately show ?thesis unfolding mgr' dead by blast
qed

definition demo_session :: "rtext \<Rightarrow> bool \<Rightarrow> unit session" where
  "demo_session name alive = \<lparr>se_name = name, se_pid = None, se_child_alive = alive, se_pty_size = (4, 2),
     se_pty_in = [], se_screen = screen_new 4 2 10 (), se_poisoned = False, se_dims = (4, 2), se_evict = None,
     se_chans = [], se_notify = False, se_has_client = False, se_reader_alive = True,
     se_reader_running = True, se_deferred = []\<rparr>"

lemma demo_alive: "is_alive (demo_session name alive) = alive"
  by (simp add: is_alive_def demo_session_def)

theorem cleanup_partitions_witness:
  "take_dead_sessions [(bytes ''a'', demo_session (bytes ''a'') False), (bytes ''b'', demo_session (bytes ''b'') True)]
   = ([demo_session (bytes ''a'') False], [(bytes ''b'', demo_session (bytes ''b'') True)])"
proof -
  let ?mgr = "[(bytes ''a'', demo_session (bytes ''a'') False), (bytes ''b'', demo_session (bytes ''b'') True)]"
  have ok: "manager_ok ?mgr" by (simp add: manager_ok_def valid_name_def name_char_def demo_session_def)
  obtain dead mgr' where eq: "take_dead_sessions ?mgr = (dead, mgr')" by fastforce
  from cleanup_partitions [OF ok eq] show ?thesis unfolding eq by (simp add: demo_alive)
qed

subsection \<open>The presence of a client\<close>

text \<open>No client has connected yet.\<close>

definition fresh_session :: "'p session \<Rightarrow> bool" where
  "fresh_session s \<longleftrightarrow> \<not> se_has_client s \<and> se_chans s = [] \<and> se_evict s = None"

lemma session_new_fresh: "session_new sp parser name cols rows h spn = Inr s \<Longrightarrow> fresh_session s"
  by (auto simp: session_new_def fresh_session_def split: sum.splits)

text \<open>
  The history of one session as its clients see it: \<open>presence s G killed\<close> has the guards \<open>G\<close> of clients
  still running, and \<open>killed\<close> after \<open>KillSession\<close> has taken it out of the registry, when no client can
  connect any more. A guard's drop is one step here; everything else a session does keeps the three
  fields involved.
\<close>

inductive presence :: "'p session \<Rightarrow> nat set \<Rightarrow> bool \<Rightarrow> bool" where
  created: "fresh_session s \<Longrightarrow> presence s {} False"
| connected: "presence s G False \<Longrightarrow> session_connect s = (rx, s') \<Longrightarrow> presence s' (insert rx G) False"
| dropped: "presence s G k \<Longrightarrow> rx \<in> G \<Longrightarrow> presence (guard_drop rx s) (G - {rx}) k"
| killed: "presence s G False \<Longrightarrow> presence (session_disconnect s) G True"
| other: "presence s G k \<Longrightarrow> se_has_client t = se_has_client s \<Longrightarrow> se_chans t = se_chans s \<Longrightarrow>
    se_evict t = se_evict s \<Longrightarrow> presence t G k"

text \<open>The last channel is the only one not evicted.\<close>

definition presence_ok :: "'p session \<Rightarrow> nat set \<Rightarrow> bool \<Rightarrow> bool" where
  "presence_ok s G k \<longleftrightarrow> (let n = length (se_chans s) in
     G \<subseteq> {..<n} \<and> (\<forall>i<n. se_chans s ! i \<longleftrightarrow> Suc i = n)
     \<and> (\<not> k \<longrightarrow> se_evict s = (if n = 0 then None else Some (n - 1)))
     \<and> (se_has_client s \<longleftrightarrow> (\<exists>i\<in>G. Suc i = n)))"

lemma session_connect_eq:
  "session_connect s = (length (se_chans s), s\<lparr>se_has_client := True,
     se_chans := (case se_evict s of None \<Rightarrow> se_chans s | Some old \<Rightarrow> (se_chans s)[old := False]) @ [True],
     se_evict := Some (length (se_chans s))\<rparr>)"
  by (cases "se_evict s") (simp_all add: session_connect_def Let_def)

lemma presence_ok_connect:
  assumes ok: "presence_ok s G False" and c: "session_connect s = (rx, s')"
  shows "presence_ok s' (insert rx G) False"
proof -
  let ?n = "length (se_chans s)"
  let ?cs = "case se_evict s of None \<Rightarrow> se_chans s | Some old \<Rightarrow> (se_chans s)[old := False]"
  have s: "G \<subseteq> {..<?n}" "\<forall>i<?n. se_chans s ! i \<longleftrightarrow> Suc i = ?n"
    "se_evict s = (if ?n = 0 then None else Some (?n - 1))"
    using ok by (simp_all add: presence_ok_def Let_def)
  have len: "length ?cs = ?n" by (simp split: option.split)
  have off: "\<not> ?cs ! i" if "i < ?n" for i
  proof -
    have "?cs = (se_chans s)[?n - 1 := False]" using that s(3) by simp
    then show ?thesis using that s(2) by (cases "i = ?n - 1") auto
  qed
  have vals: "(?cs @ [True]) ! i \<longleftrightarrow> i = ?n" if "i < Suc ?n" for i
    using that off [of i] len by (cases "i = ?n") (simp_all add: nth_append)
  have s': "rx = ?n" "se_chans s' = ?cs @ [True]" "se_evict s' = Some ?n" "se_has_client s'"
    using c by (auto simp: session_connect_eq)
  then have "length (se_chans s') = Suc ?n" using len by simp
  moreover have "insert rx G \<subseteq> {..<Suc ?n}" using s(1) s'(1) by (auto intro: less_SucI)
  moreover have "\<forall>i<Suc ?n. se_chans s' ! i \<longleftrightarrow> Suc i = Suc ?n" using vals unfolding s' by blast
  ultimately show ?thesis using s' unfolding presence_ok_def Let_def by simp
qed

lemma presence_inv: "presence s G k \<Longrightarrow> presence_ok s G k"
proof (induction rule: presence.induct)
  case (created s)
  then show ?case by (auto simp: presence_ok_def fresh_session_def)
next
  case (connected s G rx s')
  then show ?case by (intro presence_ok_connect)
next
  case (dropped s G k rx)
  then show ?case by (auto simp: presence_ok_def guard_drop_def guard_test_def guard_store_def Let_def)
next
  case (killed s G)
  then show ?case by (simp add: presence_ok_def session_disconnect_def Let_def)
next
  case (other s G k t)
  then show ?case by (simp add: presence_ok_def)
qed

text \<open>C0. While guards are dropped in one step, the flag \<open>has_client\<close> of a session says exactly whether the
  client that connected last is still attached: an evicted client that goes away does not clear the flag
  of its successor, and only the newest client's channel is not evicted.\<close>

theorem has_client_iff_last_attached:
  assumes "presence s G killed"
  shows "(se_has_client s \<longleftrightarrow> se_chans s \<noteq> [] \<and> length (se_chans s) - 1 \<in> G)
    \<and> (\<forall>rx\<in>G. guard_test rx s \<longleftrightarrow> rx = length (se_chans s) - 1)"
proof -
  let ?n = "length (se_chans s)"
  have ok: "G \<subseteq> {..<?n}" "\<forall>i<?n. se_chans s ! i \<longleftrightarrow> Suc i = ?n" "se_has_client s \<longleftrightarrow> (\<exists>i\<in>G. Suc i = ?n)"
    using presence_inv [OF assms] by (simp_all add: presence_ok_def Let_def)
  have last: "Suc i = ?n \<longleftrightarrow> ?n > 0 \<and> i = ?n - 1" for i by linarith
  have "guard_test rx s \<longleftrightarrow> rx = ?n - 1" if "rx \<in> G" for rx
  proof -
    from that ok(1) have "rx < ?n" by blast
    then show ?thesis using ok(2) last [of rx] by (auto simp: guard_test_def)
  qed
  then show ?thesis unfolding ok(3) last by auto
qed

text \<open>
  The same with the two steps of a drop apart: \<open>T\<close> are the guards that have read their channel and are
  about to clear the flag.
\<close>

inductive presence_race :: "'p session \<Rightarrow> nat set \<Rightarrow> nat set \<Rightarrow> bool" where
  race_created: "fresh_session s \<Longrightarrow> presence_race s {} {}"
| race_connected: "presence_race s G T \<Longrightarrow> session_connect s = (rx, s') \<Longrightarrow> presence_race s' (insert rx G) T"
| race_tested: "presence_race s G T \<Longrightarrow> rx \<in> G \<Longrightarrow>
    presence_race s (G - {rx}) (if guard_test rx s then insert rx T else T)"
| race_stored: "presence_race s G T \<Longrightarrow> rx \<in> T \<Longrightarrow> presence_race (guard_store s) G (T - {rx})"

text \<open>A client can be attached to a session whose flag says that there is none: a guard that is being
  dropped reads that it is not evicted, the next client connects and sets the flag, and the guard then
  clears it. The reader thread then discards what the attached client should be sent.\<close>

theorem guard_drop_race:
  "\<exists>(s :: unit session) rx. presence_race s {rx} {} \<and> se_evict s = Some rx \<and> se_chans s ! rx \<and> \<not> se_has_client s"
proof -
  let ?s = "demo_session (bytes ''a'') True"
  let ?s1 = "?s\<lparr>se_has_client := True, se_chans := [True], se_evict := Some 0\<rparr>"
  let ?s2 = "?s\<lparr>se_has_client := True, se_chans := [False, True], se_evict := Some 1\<rparr>"
  have c: "session_connect ?s = (0, ?s1)" "session_connect ?s1 = (1, ?s2)"
    by (simp_all add: session_connect_eq demo_session_def)
  have "presence_race ?s {} {}" by (rule race_created) (simp add: fresh_session_def demo_session_def)
  from race_connected [OF this c(1)] have "presence_race ?s1 {0} {}" .
  from race_tested [OF this, of 0] have "presence_race ?s1 {} {0}" by (simp add: guard_test_def)
  from race_connected [OF this c(2)] have "presence_race ?s2 {1} {0}" .
  from race_stored [OF this, of 0] have "presence_race (guard_store ?s2) {1} {}" by simp
  moreover have "se_evict (guard_store ?s2) = Some 1" "se_chans (guard_store ?s2) ! 1"
    "\<not> se_has_client (guard_store ?s2)"
    by (simp_all add: guard_store_def)
  ultimately show ?thesis by blast
qed

theorem has_client_iff_last_attached_witness:
  "se_has_client (snd (session_connect (demo_session (bytes ''a'') True)))"
proof -
  let ?s = "demo_session (bytes ''a'') True" and ?s' = "snd (session_connect (demo_session (bytes ''a'') True))"
  have "presence ?s {} False" by (rule created) (simp add: fresh_session_def demo_session_def)
  moreover have "session_connect ?s = (0, ?s')" by (simp add: session_connect_eq demo_session_def)
  ultimately have "presence ?s' (insert 0 {}) False" by (rule connected)
  moreover have "length (se_chans ?s') = 1" by (simp add: session_connect_eq demo_session_def)
  ultimately show ?thesis using has_client_iff_last_attached by fastforce
qed

subsection \<open>The reader thread\<close>

lemma push_deferred_fold:
  assumes "length q \<le> MAX_DEFERRED"
  shows "fold push_deferred rs q = drop (length q + length rs - MAX_DEFERRED) (q @ rs)"
  using assms
proof (induction rs arbitrary: q)
  case (Cons r rs)
  show ?case
  proof (cases "length q < MAX_DEFERRED")
    case True
    then show ?thesis using Cons.IH [of "q @ [r]"] by (simp add: push_deferred_def)
  next
    case False
    then have full: "length q = MAX_DEFERRED" using Cons.prems by simp
    then have "push_deferred r q = drop 1 (q @ [r])" by (simp add: push_deferred_def MAX_DEFERRED_def)
    then show ?thesis
      using Cons.IH [of "drop 1 (q @ [r])"] full
      by (simp add: MAX_DEFERRED_def drop_append)
  qed
qed simp

lemma take_responses_fields [simp]:
  "fst (take_responses p) = ss_responses (pf_state p)" "pf_grid (snd (take_responses p)) = pf_grid p"
  "ss_responses (pf_state (snd (take_responses p))) = []"
  by (simp_all add: take_responses_def sset_def)

lemma drain_stale_fields [simp]:
  "ss_passthrough (pf_state (drain_stale p)) = []" "fst (take_pending_scrollback (drain_stale p)) = []"
  "ss_responses (pf_state (drain_stale p)) = ss_responses (pf_state p)"
  by (auto simp: drain_stale_def take_passthrough_def take_pending_scrollback_def Let_def sset_def gset_def
      pending_scrollback_count_def u16_simps)

lemma reachable_drain: "reachable wd p \<Longrightarrow> reachable wd (drain_stale p)"
  unfolding drain_stale_def by (intro reach_passthrough reach_scrollback)

text \<open>What is owed to the child: what it has been sent, and the responses still deferred.\<close>

definition owed :: "'p session \<Rightarrow> u8 list" where
  "owed s = se_pty_in s @ concat (se_deferred s)"

text \<open>A round of the reader thread on a reachable screen leaves a reachable screen with no response
  queued and, when no client is attached, with no row and no passthrough queued either, so that an
  unattended session uses bounded memory; at most 64 responses are deferred. The responses reach the
  terminal in order and none is lost, unless more than 64 wait or a write fails.\<close>

theorem reader_round:
  assumes "reachable wd (sc_perf (se_screen s))" "length (se_deferred s) \<le> MAX_DEFERRED"
    and "process adv wd bs (se_screen s) = Some scr"
  shows "\<exists>s'. reader_step adv wd bs lock s = Some s'
    \<and> reachable wd (sc_perf (se_screen s')) \<and> ss_responses (pf_state (sc_perf (se_screen s'))) = []
    \<and> (se_has_client s \<or> fst (take_pending_scrollback (sc_perf (se_screen s'))) = []
         \<and> ss_passthrough (pf_state (sc_perf (se_screen s'))) = [])
    \<and> length (se_deferred s') \<le> MAX_DEFERRED
    \<and> (let rs = ss_responses (pf_state (sc_perf scr)); n = length (se_deferred s) + length rs in
       (case lock of None \<Rightarrow> n \<le> MAX_DEFERRED | Some k \<Rightarrow> n \<le> k) \<longrightarrow> owed s' = owed s @ concat rs)
    \<and> se_notify s'"
proof -
  let ?p = "snd (take_responses (sc_perf scr))"
  let ?q = "if se_has_client s then ?p else drain_stale ?p"
  let ?rs = "se_deferred s @ ss_responses (pf_state (sc_perf scr))"
  have "reachable wd (sc_perf scr)"
    using assms(3) reachable_run [OF assms(1), of "fst (parse adv bs (sc_parser (se_screen s)))"]
    by (auto simp: process_parse)
  then have "reachable wd ?p" by (rule reach_responses)
  then have q: "reachable wd ?q" by (simp add: reachable_drain)
  have fold: "fold push_deferred ?rs [] = drop (length ?rs - MAX_DEFERRED) ?rs"
    using push_deferred_fold [of "[]" ?rs] by simp
  define s1 where "s1 = s\<lparr>se_screen := scr\<lparr>sc_perf := ?q\<rparr>, se_deferred := []\<rparr>"
  define s2 where "s2 = (if ?rs = [] then s1 else case lock of
      Some n \<Rightarrow> s1\<lparr>se_pty_in := se_pty_in s @ concat (take n ?rs)\<rparr>
    | None \<Rightarrow> s1\<lparr>se_deferred := drop (length ?rs - MAX_DEFERRED) ?rs\<rparr>)"
  have "reader_step adv wd bs lock s = Some (s2\<lparr>se_notify := True\<rparr>)"
    using fold
    by (simp add: reader_step_def assms(3) s2_def s1_def Let_def split_beta drain_stale_def del: fold_append split: option.split)
  moreover have "se_screen s2 = scr\<lparr>sc_perf := ?q\<rparr>" by (simp add: s2_def s1_def split: option.split)
  moreover have "length (se_deferred s2) \<le> MAX_DEFERRED" by (auto simp: s2_def s1_def split: option.split)
  moreover have "owed s2 = owed s @ concat (ss_responses (pf_state (sc_perf scr)))"
    if "case lock of None \<Rightarrow> length ?rs \<le> MAX_DEFERRED | Some k \<Rightarrow> length ?rs \<le> k"
    using that by (auto simp: owed_def s2_def s1_def split: option.splits)
  ultimately show ?thesis
    using q by (auto simp: Let_def owed_def split: option.splits)
qed

text \<open>When the emulator panics on what a child writes, the reader thread dies with the screen's lock
  poisoned and without storing that it has ended: the session still counts as alive, so that the cleanup
  never takes it, and no later event of the thread changes it, while every client that attaches to it
  fails on the poisoned lock.\<close>

theorem reader_panic_leaves_zombie:
  assumes "reachable wd (sc_perf (se_screen s))" "is_alive s" "se_reader_running s" "\<not> se_poisoned s"
    and "ev \<in> set (fst (parse adv bs (sc_parser (se_screen s))))" "title_panics ev"
  shows "let s' = reader_event adv wd (ReadData bs lock) s in
    is_alive s' \<and> se_poisoned s' \<and> reader_event adv wd ev' s' = s'
    \<and> send_initial_state hash between is_new s'
      = Some ([Connected (se_name s) is_new], Inl (MutexPoisoned (bytes ''screen'')), s')"
proof -
  have "process adv wd bs (se_screen s) = None" using assms(1,5,6) by (rule process_none)
  then have "reader_step adv wd bs lock s = None" by (simp add: reader_step_def)
  then have "reader_event adv wd (ReadData bs lock) s = s\<lparr>se_poisoned := True, se_reader_running := False\<rparr>"
    using assms(3,4) by (simp add: reader_event_def)
  then show ?thesis
    using assms(2) by (simp add: Let_def is_alive_def reader_event_def send_initial_state_def)
qed

definition title_parser :: "unit \<Rightarrow> u8 \<Rightarrow> unit \<times> event list" where
  "title_parser q b = ((), [Osc [bytes ''2'', long_title] True])"

theorem reader_panic_leaves_zombie_witness:
  "is_alive (reader_event title_parser (\<lambda>_. Some 1) (ReadData [7] None) (demo_session (bytes ''a'') True))"
proof -
  let ?s = "demo_session (bytes ''a'') True" and ?ev = "Osc [bytes ''2'', long_title] True"
  have r: "reachable (\<lambda>_. Some 1) (sc_perf (se_screen ?s))"
    by (simp add: demo_session_def screen_new_def reach_new u16_max_def)
  have a: "is_alive ?s" "se_reader_running ?s" "\<not> se_poisoned ?s" by (simp_all add: demo_session_def is_alive_def)
  have e: "?ev \<in> set (fst (parse title_parser [7] (sc_parser (se_screen ?s))))"
    by (simp add: title_parser_def)
  show ?thesis
    by (rule reader_panic_leaves_zombie [where lock = None, OF r a e long_title_event, unfolded Let_def, THEN conjunct1])
qed

theorem reader_round_witness:
  "\<exists>s'. reader_step print_parser (\<lambda>_. Some 1) [65, 66] (Some 0) (demo_session (bytes ''a'') True) = Some s'
     \<and> ss_responses (pf_state (sc_perf (se_screen s'))) = [] \<and> se_notify s'"
proof -
  let ?s = "demo_session (bytes ''a'') True"
  have r: "reachable (\<lambda>_. Some 1) (sc_perf (se_screen ?s))"
    by (simp add: demo_session_def screen_new_def reach_new u16_max_def)
  have "\<forall>ev\<in>set (fst (parse print_parser [65, 66] (sc_parser (se_screen ?s)))). \<not> title_panics ev"
    by (simp add: print_parser_def title_panics_def)
  from process_some [OF r this]
  obtain scr where "process print_parser (\<lambda>_. Some 1) [65, 66] (se_screen ?s) = Some scr" .
  from reader_round [OF r _ this, of "Some 0"] show ?thesis by (auto simp: demo_session_def Let_def)
qed

end
