(* ===== verification/End_To_End.thy ===== *)
theory End_To_End
  imports Client Session_Props
begin

section \<open>From the keyboard to the pseudo-terminal, and back\<close>

text \<open>
  The filter of typed input is equivalent to a reference scanner of the whole input, whatever the reads
  are; with the codec and the server's relay this gives what the session's child receives for what is
  typed. In the other direction, what an attaching client writes to its terminal.
\<close>

subsection \<open>The input filter scans the whole input\<close>

text \<open>
  The reference scanner: every byte (\<open>Inl\<close>) and every focus event (\<open>Inr ()\<close>) of the input, and the
  bytes of an escape sequence that is not complete.
\<close>

fun scan :: "u8 list \<Rightarrow> (u8 + unit) list \<times> u8 list" where
  "scan [] = ([], [])"
| "scan (b # bs) =
     (if b \<noteq> ESC then (let (out, c) = scan bs in (Inl b # out, c))
      else case bs of
        [] \<Rightarrow> ([], [b])
      | b1 # rest \<Rightarrow>
          if b1 \<noteq> 91 then (let (out, c) = scan rest in (Inl b # Inl b1 # out, c))
          else (case rest of
            [] \<Rightarrow> ([], [b, b1])
          | b2 # rest' \<Rightarrow>
              if b2 = FOCUS_IN then (let (out, c) = scan rest' in (Inr () # out, c))
              else if b2 = FOCUS_OUT then scan rest'
              else (let (out, c) = scan bs in (Inl b # out, c))))"

fun items :: "filter_action list \<Rightarrow> (u8 + unit) list" where
  "items [] = []"
| "items (Forward data # as) = map Inl data @ items as"
| "items (FocusIn # as) = Inr () # items as"
| "items (DetachKey # as) = items as"

lemma items_append [simp]: "items (as @ bs) = items as @ items bs"
  by (induction as rule: items.induct) auto

lemma items_flush [simp]: "items (flush_filtered as fs) = items as @ map Inl fs"
  by (simp add: flush_filtered_def)

text \<open>The shapes the input takes for the filter, as an induction rule and as equations.\<close>

lemma input_induct [case_names nil byte esc pair csi focus_in focus_out other]:
  assumes "P []" "\<And>b bs. b \<noteq> ESC \<Longrightarrow> P bs \<Longrightarrow> P (b # bs)" "P [ESC]"
    and "\<And>b bs. b \<noteq> 91 \<Longrightarrow> P bs \<Longrightarrow> P (ESC # b # bs)" "P [ESC, 91]"
    and "\<And>bs. P bs \<Longrightarrow> P (ESC # 91 # FOCUS_IN # bs)" "\<And>bs. P bs \<Longrightarrow> P (ESC # 91 # FOCUS_OUT # bs)"
    and "\<And>b bs. b \<noteq> FOCUS_IN \<Longrightarrow> b \<noteq> FOCUS_OUT \<Longrightarrow> P (91 # b # bs) \<Longrightarrow> P (ESC # 91 # b # bs)"
  shows "P bs"
proof (induction bs rule: measure_induct_rule [where f = length])
  case (less bs)
  show ?case
  proof (cases bs)
    case (Cons b bs1)
    show ?thesis
    proof (cases "b = ESC")
      case True
      show ?thesis
      proof (cases bs1)
        case Cons1: (Cons b1 bs2)
        show ?thesis
        proof (cases "b1 = 91")
          case esc: True
          show ?thesis
            using less Cons Cons1 True esc assms(5-8)
            by (cases bs2) (metis length_Cons less_Suc_eq)+
        qed (use less Cons Cons1 True assms(4) in simp)
      qed (use Cons True assms(3) in simp)
    qed (use less Cons assms(2) in simp)
  qed (use assms(1) in simp)
qed

lemma scan_shapes [simp]:
  "b \<noteq> ESC \<Longrightarrow> scan (b # bs) = (Inl b # fst (scan bs), snd (scan bs))"
  "scan [ESC] = ([], [ESC])"
  "b \<noteq> 91 \<Longrightarrow> scan (ESC # b # bs) = (Inl ESC # Inl b # fst (scan bs), snd (scan bs))"
  "scan [ESC, 91] = ([], [ESC, 91])"
  "scan (ESC # 91 # FOCUS_IN # bs) = (Inr () # fst (scan bs), snd (scan bs))"
  "scan (ESC # 91 # FOCUS_OUT # bs) = scan bs"
  "b \<noteq> FOCUS_IN \<Longrightarrow> b \<noteq> FOCUS_OUT \<Longrightarrow>
     scan (ESC # 91 # b # bs) = (Inl ESC # fst (scan (91 # b # bs)), snd (scan (91 # b # bs)))"
  by (simp_all add: split_beta FOCUS_IN_def FOCUS_OUT_def)

lemma filter_shapes [simp]:
  "b \<noteq> ESC \<Longrightarrow> filter_loop (b # bs) as fs = filter_loop bs as (fs @ [b])"
  "filter_loop [ESC] as fs = (flush_filtered as fs, [ESC])"
  "b \<noteq> 91 \<Longrightarrow> filter_loop (ESC # b # bs) as fs = filter_loop bs as (fs @ [ESC, b])"
  "filter_loop [ESC, 91] as fs = (flush_filtered as fs, [ESC, 91])"
  "filter_loop (ESC # 91 # FOCUS_IN # bs) as fs = filter_loop bs (flush_filtered as fs @ [FocusIn]) []"
  "filter_loop (ESC # 91 # FOCUS_OUT # bs) as fs = filter_loop bs as fs"
  "b \<noteq> FOCUS_IN \<Longrightarrow> b \<noteq> FOCUS_OUT \<Longrightarrow>
     filter_loop (ESC # 91 # b # bs) as fs = filter_loop (91 # b # bs) as (fs @ [ESC])"
  by (simp_all add: FOCUS_IN_def FOCUS_OUT_def)

declare scan.simps(2) [simp del] filter_loop.simps(2) [simp del]

lemma filter_loop_scan:
  "items (fst (filter_loop bs as fs)) = items as @ map Inl fs @ fst (scan bs)
   \<and> snd (filter_loop bs as fs) = snd (scan bs)"
  by (induction bs arbitrary: as fs rule: input_induct) simp_all

lemma scan_append:
  "scan (bs @ cs) = (fst (scan bs) @ fst (scan (snd (scan bs) @ cs)), snd (scan (snd (scan bs) @ cs)))"
  by (induction bs rule: input_induct) simp_all

text \<open>The bytes carried over: at most the start of an escape sequence.\<close>

lemma scan_carry: "snd (scan bs) \<in> {[], [ESC], [ESC, 91]}"
  by (induction bs rule: input_induct) simp_all

subsection \<open>Standard input as messages\<close>

text \<open>The messages the client sends for what is typed, and what they stand for.\<close>

definition typed_msg :: "client_msg \<Rightarrow> bool" where
  "typed_msg m \<longleftrightarrow> m = RefreshScreen \<or> (\<exists>d. m = Input d \<and> length d \<le> 1026)"

fun msg_items :: "client_msg \<Rightarrow> (u8 + unit) list" where
  "msg_items (Input d) = map Inl d"
| "msg_items RefreshScreen = [Inr ()]"
| "msg_items _ = []"

lemma items_messages: "DetachKey \<notin> set as \<Longrightarrow> items as = concat (map (msg_items \<circ> action_message) as)"
  by (induction as rule: items.induct) auto

definition small_action :: "usize \<Rightarrow> filter_action \<Rightarrow> bool" where
  "small_action n a \<longleftrightarrow> (case a of Forward d \<Rightarrow> length d \<le> n | FocusIn \<Rightarrow> True | DetachKey \<Rightarrow> False)"

lemma small_action_simps [simp]:
  "small_action n (Forward d) \<longleftrightarrow> length d \<le> n" "small_action n FocusIn" "\<not> small_action n DetachKey"
  by (simp_all add: small_action_def)

lemma small_typed: "small_action 1026 a \<Longrightarrow> typed_msg (action_message a)"
  by (cases a) (simp_all add: typed_msg_def)

lemma flush_small: "list_all (small_action n) as \<Longrightarrow> length fs \<le> n \<Longrightarrow> list_all (small_action n) (flush_filtered as fs)"
  by (simp add: flush_filtered_def)

lemma filter_actions:
  "list_all (small_action n) as \<Longrightarrow> length fs + length bs \<le> n \<Longrightarrow>
   list_all (small_action n) (fst (filter_loop bs as fs))"
proof (induction bs arbitrary: as fs rule: input_induct)
  case (focus_in bs)
  then show ?case using flush_small [of n as fs] by simp
qed (simp_all add: flush_small)

lemma send_actions_frames:
  assumes "\<And>m. typed_msg m \<Longrightarrow> enc m = Inr (fr m)" "list_all (small_action 1026) as"
  shows "send_actions enc as sock = (Inr True, sock @ concat (map (fr \<circ> action_message) as))"
  using assms(2)
proof (induction as arbitrary: sock)
  case (Cons a as)
  then show ?case using assms(1) by (cases a) (auto simp: typed_msg_def)
qed simp

definition typed_reads :: "u8 list list \<Rightarrow> bool" where
  "typed_reads cs \<longleftrightarrow> (\<forall>c\<in>set cs. c \<noteq> [] \<and> length c \<le> 1024 \<and> DETACH_KEY \<notin> set c)"

lemma run_stdin_more:
  fixes run :: "('i + u8 list) list \<Rightarrow> u8 list \<Rightarrow> u8 list \<Rightarrow> ('x + 'i option) outcome \<times> u8 list"
  assumes run_def: "run = run_stdin enc" and enc: "\<And>m. typed_msg m \<Longrightarrow> enc m = Inr (fr m)"
    and "typed_reads cs" "scan carry = ([], carry)"
  shows "\<exists>ms. run (map Inr cs @ tail) carry sock
      = run tail (snd (scan (carry @ concat cs))) (sock @ concat (map fr ms))
    \<and> list_all typed_msg ms \<and> concat (map msg_items ms) = fst (scan (carry @ concat cs))"
  using assms(3-)
proof (induction cs arbitrary: carry sock)
  case Nil
  then show ?case by (intro exI [of _ "[]"]) simp
next
  case (Cons c cs)
  let ?raw = "carry @ c"
  let ?as = "fst (filter_loop ?raw [] [])" and ?carry = "snd (scan ?raw)"
  let ?ms = "map action_message ?as"
  have "carry \<in> {[], [ESC], [ESC, 91]}" using Cons.prems(2) scan_carry [of carry] by auto
  then have c: "c \<noteq> []" "length ?raw \<le> 1026" "DETACH_KEY \<notin> set ?raw" "typed_reads cs"
    using Cons.prems(1) by (auto simp: typed_reads_def DETACH_KEY_def ESC_def)
  have small: "list_all (small_action 1026) ?as" using c(2) by (intro filter_actions) simp_all
  then have typed: "list_all typed_msg ?ms"
    by (auto simp: list_all_iff intro: small_typed)
  have nodet: "DetachKey \<notin> set ?as" using small by (auto simp: list_all_iff)
  have fl: "items ?as = fst (scan ?raw)" "snd (filter_loop ?raw [] []) = ?carry"
    using filter_loop_scan [of ?raw "[]" "[]"] by simp_all
  have proc: "filter_process carry c = (?as, ?carry)"
    using c(3) fl(2) by (simp add: filter_process_def Let_def prod_eq_iff)
  have send: "send_actions enc ?as sock = (Inr True, sock @ concat (map fr ?ms))"
    using send_actions_frames [OF enc small] by (simp add: comp_def)
  have "scan ?carry = ([], ?carry)" using scan_carry [of ?raw] by auto
  from Cons.IH [OF c(4) this, of "sock @ concat (map fr ?ms)"]
  obtain ms where ms: "run (map Inr cs @ tail) ?carry (sock @ concat (map fr ?ms))
      = run tail (snd (scan (?carry @ concat cs))) ((sock @ concat (map fr ?ms)) @ concat (map fr ms))"
    "list_all typed_msg ms" "concat (map msg_items ms) = fst (scan (?carry @ concat cs))"
    by blast
  have "run (map Inr (c # cs) @ tail) carry sock = run (map Inr cs @ tail) ?carry (sock @ concat (map fr ?ms))"
    using c(1) by (simp add: run_def proc send)
  moreover have "concat (map msg_items ?ms) = fst (scan ?raw)"
    using fl(1) items_messages [OF nodet] by (simp add: comp_def)
  ultimately show ?case
    using ms typed scan_append [of ?raw "concat cs"] by (intro exI [of _ "?ms @ ms"]) simp
qed


subsection \<open>Messages to the pseudo-terminal\<close>

fun typed_bytes :: "(u8 + unit) list \<Rightarrow> u8 list" where
  "typed_bytes [] = []"
| "typed_bytes (Inl b # is) = b # typed_bytes is"
| "typed_bytes (Inr u # is) = typed_bytes is"

lemma typed_bytes_append [simp]: "typed_bytes (is @ js) = typed_bytes is @ typed_bytes js"
  by (induction "is" rule: typed_bytes.induct) auto

lemma typed_bytes_Inl [simp]: "typed_bytes (map Inl bs) = bs"
  by (induction bs) auto

lemma pty_body_typed:
  "list_all typed_msg ms \<Longrightarrow> run_msgs (pty_body prs) ms (s, r) = (Inr True,
     s\<lparr>se_pty_in := se_pty_in s @ typed_bytes (concat (map msg_items ms))\<rparr>,
     r \<or> Inr () \<in> set (concat (map msg_items ms)))"
proof (induction ms arbitrary: s r)
  case (Cons m ms)
  then show ?case by (auto simp: typed_msg_def pty_body_def)
qed simp


text \<open>A serialiser for the witness: a tag and the bytes.\<close>

definition demo_ser :: "client_msg \<Rightarrow> unit + u8 list" where
  "demo_ser m = (case m of Input d \<Rightarrow> (if length d \<le> 1026 then Inr (0 # d) else Inl ())
     | RefreshScreen \<Rightarrow> Inr [1] | Detach \<Rightarrow> Inr [2] | _ \<Rightarrow> Inl ())"

definition demo_de :: "u8 list \<Rightarrow> unit + client_msg" where
  "demo_de bs = (case bs of [] \<Rightarrow> Inl () | t # d \<Rightarrow>
     if t = 0 then Inr (Input d) else if t = 1 then Inr RefreshScreen else Inr Detach)"

lemma demo_codec_ok: "typed_msg m \<or> m = Detach \<Longrightarrow> codec_ok demo_ser demo_de m"
  by (auto simp: typed_msg_def codec_ok_def demo_ser_def demo_de_def MAX_FRAME_SIZE_def)


lemma filter_detach:
  assumes "DETACH_KEY \<notin> set (carry @ before)"
  shows "filter_process carry (before @ DETACH_KEY # after) =
    ((if carry @ before = [] then [] else [Forward (carry @ before)]) @ [DetachKey], [])"
proof -
  have "takeWhile (\<lambda>b. b \<noteq> DETACH_KEY) (carry @ before @ DETACH_KEY # after) = carry @ before"
    using assms by (induction carry) (induction before, auto)+
  then show ?thesis using assms by (auto simp: filter_process_def Let_def)
qed

lemma run_msgs_detach:
  assumes "list_all typed_msg ms"
  shows "run_msgs (pty_body prs) (ms @ [Detach]) (s, r) = (Inr False,
     s\<lparr>se_pty_in := se_pty_in s @ typed_bytes (concat (map msg_items ms))\<rparr>,
     r \<or> Inr () \<in> set (concat (map msg_items ms)))"
  unfolding run_msgs_append pty_body_typed [OF assms] by (simp add: pty_body_def)

text \<open>The detach key detaches. Whatever was typed before, the read that holds the key makes the client
  send what is left of the input before it and then the detach, and end; the server has then written
  what was typed to the pseudo-terminal and ends its relay. What precedes the key in its own read is
  sent as it is: focus sequences in it are not taken out.\<close>

theorem detach_key_detaches:
  fixes r :: "(('e, 'j) protocol_error + 'k option) outcome"
  assumes "typed_reads cs" "DETACH_KEY \<notin> set before" "length before \<le> 1024"
    and "\<forall>m. typed_msg m \<or> m = Detach \<longrightarrow> codec_ok ser de m"
    and "run_stdin_to_socket (encode ser) (map Inr cs @ Inr (before @ DETACH_KEY # after) # later) = (r, sock)"
    and "concat ds = sock" "list_all (\<lambda>d. d \<noteq> [] \<and> length d \<le> READ_BUF_SIZE) ds"
    and "scan (concat cs) = (out, rest)"
  shows "r = Done (Inr None) \<and>
    (\<exists>f. client_to_pty de prs (map Inr ds) [] (s, False) = Some (Done (Inr ()), f,
       s\<lparr>se_pty_in := se_pty_in s @ typed_bytes out @ rest @ before\<rparr>, Inr () \<in> set out))"
proof -
  let ?enc = "encode ser :: client_msg \<Rightarrow> ('e, 'j) protocol_error + u8 list"
  have enc: "?enc m = Inr (wire_frame ser m)" if "typed_msg m" for m
    using assms(4) that encode_frame [of ser de] by blast
  have encd: "?enc Detach = Inr (wire_frame ser Detach)" using assms(4) encode_frame [of ser de] by blast
  let ?tail = "Inr (before @ DETACH_KEY # after) # later :: ('k + u8 list) list"
  have "\<exists>ms. run_stdin ?enc (map Inr cs @ ?tail) [] []
      = run_stdin ?enc ?tail (snd (scan ([] @ concat cs))) ([] @ concat (map (wire_frame ser) ms))
    \<and> list_all typed_msg ms \<and> concat (map msg_items ms) = fst (scan ([] @ concat cs))"
    by (rule run_stdin_more [OF refl]) (simp_all add: enc assms(1))
  then obtain ms0 where ms0: "run_stdin ?enc ?tail rest (concat (map (wire_frame ser) ms0)) = (r, sock)"
    "list_all typed_msg ms0" "concat (map msg_items ms0) = out"
    using assms(5,8) by (auto simp: run_stdin_to_socket_def)
  define ms where "ms = ms0 @ (if rest @ before = [] then [] else [Input (rest @ before)])"
  have carry: "rest \<in> {[], [ESC], [ESC, 91]}" using scan_carry [of "concat cs"] assms(8) by simp
  then have last: "typed_msg (Input (rest @ before))" using assms(3) by (auto simp: typed_msg_def)
  have "filter_process rest (before @ DETACH_KEY # after)
      = ((if rest @ before = [] then [] else [Forward (rest @ before)]) @ [DetachKey], [])"
    using carry assms(2) by (intro filter_detach) (auto simp: DETACH_KEY_def ESC_def)
  then have ms: "r = Done (Inr None)" "sock = concat (map (wire_frame ser) (ms @ [Detach]))" "list_all typed_msg ms"
    "concat (map msg_items ms) = out @ map Inl (rest @ before)"
    using ms0 last by (auto simp: ms_def enc encd split: if_splits)
  have ok: "\<forall>m\<in>set (ms @ [Detach]). codec_ok ser de m" using ms(3) assms(4) by (auto simp: list_all_iff)
  have ds: "ds \<noteq> []"
    using assms(6) ms(2) frame_nonempty [of ser de Detach] assms(4) by auto
  have "\<exists>f. client_to_pty de prs (map Inr ds) [] (s, False) = Some (Done (Inr ()), f,
       s\<lparr>se_pty_in := se_pty_in s @ typed_bytes out @ rest @ before\<rparr>, Inr () \<in> set out)"
    unfolding client_to_pty_def
    by (rule relay_frames_stop [OF ok _ assms(7) ds])
      (simp add: assms(6) ms(2), subst run_msgs_detach [OF ms(3)], auto simp: ms(4))
  then show ?thesis using ms(1) by blast
qed

text \<open>A focus-in event and the detach key in one read: the event reaches the child.\<close>

theorem detach_key_detaches_witness:
  "\<exists>f. client_to_pty demo_de (\<lambda>_. None :: unit option)
      (map Inr [[0, 0, 0, 4, 0, ESC, 91, FOCUS_IN, 0, 0, 0, 1, 2]] :: (unit io_error + u8 list) list) []
      (demo_session (bytes ''a'') True, False)
    = Some (Done (Inr ()), f, (demo_session (bytes ''a'') True)\<lparr>se_pty_in := [ESC, 91, FOCUS_IN]\<rparr>, False)"
proof -
  let ?enc = "encode demo_ser :: client_msg \<Rightarrow> (unit, unit) protocol_error + u8 list"
  let ?before = "[ESC, 91, FOCUS_IN]" and ?ds = "[[0, 0, 0, 4, 0, ESC, 91, FOCUS_IN, 0, 0, 0, 1, 2]]"
  have before: "DETACH_KEY \<notin> set ?before" "length ?before \<le> 1024" by (simp_all add: DETACH_KEY_def ESC_def FOCUS_IN_def)
  have typed: "typed_reads []" by (simp add: typed_reads_def)
  have ok: "\<forall>m. typed_msg m \<or> m = Detach \<longrightarrow> codec_ok demo_ser demo_de m" using demo_codec_ok by blast
  have "filter_process [] (?before @ DETACH_KEY # []) = ([Forward ?before, DetachKey], [])"
    using filter_detach [of "[]" ?before "[]"] before(1) by simp
  then have run: "run_stdin_to_socket ?enc (map Inr [] @ Inr (?before @ DETACH_KEY # []) # [] :: (unit + u8 list) list)
      = (Done (Inr None), concat ?ds)"
    by (simp add: run_stdin_to_socket_def encode_def demo_ser_def u32_to_be_bytes_def)
  have ds: "list_all (\<lambda>d. d \<noteq> [] \<and> length d \<le> READ_BUF_SIZE) ?ds" by (simp add: READ_BUF_SIZE_def)
  have scan: "scan (concat []) = ([], [])" by simp
  show ?thesis
    using detach_key_detaches [OF typed before ok run refl ds scan, of "\<lambda>_. None" "demo_session (bytes ''a'') True"]
    by (simp add: demo_session_def)
qed

subsection \<open>History in messages\<close>

definition line_bytes :: "u8 list \<Rightarrow> usize" where
  "line_bytes line = length line + BINCODE_LINE_OVERHEAD"

definition packed :: "u8 list list \<Rightarrow> bool" where
  "packed chunk \<longleftrightarrow> chunk \<noteq> [] \<and> (sum_list (map line_bytes chunk) \<le> history_limit_bytes \<or> length chunk = 1)"

lemma pack_history_eq:
  assumes "sz = sum_list (map line_bytes chunk)" "chunk = [] \<or> packed chunk"
  shows "concat (pack_history lines chunk sz) = chunk @ lines \<and> list_all packed (pack_history lines chunk sz)"
  using assms
proof (induction lines chunk sz rule: pack_history.induct)
  case (2 line lines chunk sz)
  show ?case
  proof (cases "sz + line_bytes line > history_limit_bytes \<and> chunk \<noteq> []")
    case True
    moreover have "packed [line]" by (simp add: packed_def)
    ultimately show ?thesis
      using 2 by (simp add: line_bytes_def [symmetric] Let_def)
  next
    case False
    then have "packed (chunk @ [line])" using 2(3) by (auto simp: packed_def)
    then show ?thesis
      using 2 False by (auto simp: line_bytes_def [symmetric] Let_def)
  qed
qed auto

text \<open>C27. The history sent to a client that attaches is all the lines, in order, cut into messages that are
  never empty and whose lines, each counted with 16 bytes of framing, take at most half of the largest
  frame, unless a message is one single line.\<close>

theorem pack_history_lossless:
  "concat (pack_history lines [] 0) = lines \<and>
   (\<forall>chunk\<in>set (pack_history lines [] 0). chunk \<noteq> []
     \<and> (sum_list (map (\<lambda>line. length line + 16) chunk) \<le> 8 * 1024 * 1024 \<or> length chunk = 1))"
  using pack_history_eq [of 0 "[]" lines]
  by (auto simp: list_all_iff packed_def line_bytes_def [abs_def] BINCODE_LINE_OVERHEAD_def history_limit_bytes_def
      MAX_FRAME_SIZE_def)

theorem pack_history_lossless_witness:
  "pack_history [[65], [], [66, 67]] [] 0 = [[[65], [], [66, 67]]]
   \<and> concat (pack_history [[65], [], [66, 67]] [] 0) = [[65], [], [66, 67]]"
  using pack_history_lossless [of "[[65], [], [66, 67]]"]
  by (simp add: Let_def BINCODE_LINE_OVERHEAD_def history_limit_bytes_def MAX_FRAME_SIZE_def)

subsection \<open>What an attaching client writes\<close>

fun msg_out :: "server_msg \<Rightarrow> u8 list" where
  "msg_out (ScreenUpdate d) = d"
| "msg_out (Passthrough d) = d"
| "msg_out (History lines) = concat (map (\<lambda>l. l @ [13, 10]) lines)"
| "msg_out _ = []"

lemma write_history_eq: "write_history lines out = out @ concat (map (\<lambda>l. l @ [13, 10]) lines)"
  by (induction lines arbitrary: out) simp_all

lemma run_dispatch:
  "\<forall>m\<in>set ms. m \<noteq> SessionEnded \<and> (\<forall>e. m \<noteq> ErrorMsg e) \<Longrightarrow>
   run_msgs dispatch_server_msg ms out = (Inr True, out @ concat (map msg_out ms))"
proof (induction ms arbitrary: out)
  case (Cons m ms)
  then show ?case by (cases m) (simp_all add: dispatch_server_msg_def write_history_eq)
qed simp

text \<open>The relay of server messages: whole frames in the leftover, the rest in any chunks.\<close>

lemma run_socket_frames:
  fixes de :: "u8 list \<Rightarrow> 'e + server_msg"
  assumes "\<forall>m\<in>set ms. codec_ok ser de m \<and> m \<noteq> SessionEnded \<and> (\<forall>e. m \<noteq> ErrorMsg e)"
    and "leftover @ concat cs = concat (map (wire_frame ser) ms)"
    and "list_all (\<lambda>c. c \<noteq> [] \<and> length c \<le> READ_BUF_SIZE) cs"
  shows "\<exists>f. run_socket_to_stdout de (map Inr cs :: ('i io_error + u8 list) list) leftover
    = Some (Waiting, f, concat (map msg_out ms))"
proof -
  let ?f = "with_leftover leftover" and ?nx = "next_frame de :: u8 list \<Rightarrow> ('e, 'i) protocol_error + _"
  have f: "reader_ok ?f" "unread ?f = leftover" by (simp_all add: reader_ok_def unread_def with_leftover_def)
  obtain ms1 e1 rest1 where p1: "parse_stream ?nx (unread ?f) = (ms1, e1, rest1)" by (metis prod_cases3)
  have all: "parse_stream ?nx (leftover @ concat cs) = (ms, None, [])"
    using assms(1) by (simp add: assms(2) parse_frames_all)
  have "parse_stream ?nx (leftover @ concat cs) = (let (ms, e, rest) = parse_stream ?nx leftover in
      case e of Some x \<Rightarrow> (ms, Some x, rest @ concat cs)
      | None \<Rightarrow> let (ms', e', rest') = parse_stream ?nx (rest @ concat cs) in (ms @ ms', e', rest'))"
    by (rule retach_reader.parse_append)
  then obtain ms2 where ms2: "e1 = None" "ms = ms1 @ ms2" "parse_stream ?nx (rest1 @ concat cs) = (ms2, None, [])"
    using p1 f(2) all by (auto split: option.splits prod.splits)
  have run: "run_msgs dispatch_server_msg ms1 [] = (Inr True :: ('e, 'i) protocol_error + bool, concat (map msg_out ms1))"
    "run_msgs dispatch_server_msg ms2 (concat (map msg_out ms1))
      = (Inr True :: ('e, 'i) protocol_error + bool, concat (map msg_out ms))"
    using assms(1) by (simp_all add: ms2(2) run_dispatch)
  from retach_reader.while_msgs_eq [OF f(1) p1, of dispatch_server_msg "[]"] obtain f1 where f1:
    "while_msgs (decode_next de) dispatch_server_msg ?f []
       = Some (Inr True :: ('e, 'i) protocol_error + bool, f1, concat (map msg_out ms1))"
    "reader_ok f1" "unread f1 = rest1"
    by (auto simp: run(1) ms2(1) stream_result_def)
  have "?nx rest1 = Inr None" using retach_reader.parse_rest [OF p1] by (simp add: ms2(1))
  then have small: "length (unread f1) + READ_BUF_SIZE \<le> MAX_FRAME_SIZE * 2 + 8"
    using next_frame_short by (fastforce simp: f1(3) READ_BUF_SIZE_def MAX_FRAME_SIZE_def)
  show ?thesis
  proof (cases "cs = []")
    case True
    then have "ms2 = []" using ms2(3) \<open>?nx rest1 = Inr None\<close> by (simp add: retach_reader.parse_stop)
    then show ?thesis using True f1(1) ms2(2) by (simp add: run_socket_to_stdout_def)
  next
    case False
    have "stream_result (run_msgs dispatch_server_msg ms2 (concat (map msg_out ms1))) None
        = (Inr True :: ('e, 'i) protocol_error + bool, concat (map msg_out ms))"
      by (simp add: run(2) stream_result_def)
    from retach_reader.relay_eq [OF f1(2) assms(3) False small ms2(3) [folded f1(3)] this]
    show ?thesis using f1(1) by (auto simp: run_socket_to_stdout_def relay_map)
  qed
qed

text \<open>The handshake finds the first frame, whatever the chunks, and leaves the rest of the stream.\<close>

lemma await_first_frame:
  fixes de :: "u8 list \<Rightarrow> 'e + server_msg"
  assumes "codec_ok ser de (Connected name b)" "reader_ok f"
    and "unread f @ concat cs = wire_frame ser (Connected name b) @ rest"
    and "length (unread f) < length (wire_frame ser (Connected name b))"
    and "list_all (\<lambda>c. c \<noteq> [] \<and> length c \<le> READ_BUF_SIZE) cs"
  shows "\<exists>leftover k. await_connected de (map Inr cs :: ('i io_error + u8 list) list) f
      = Some (Done (Inr (name, b, leftover, map Inr (drop k cs)))) \<and> leftover @ concat (drop k cs) = rest"
  using assms(2-5)
proof (induction cs arbitrary: f)
  case (Cons c cs)
  let ?fr = "wire_frame ser (Connected name b)" and ?nx = "next_frame de :: u8 list \<Rightarrow> ('e, 'i) protocol_error + _"
  have max: "length ?fr \<le> MAX_FRAME_SIZE + 4"
    using assms(1) by (auto simp: codec_ok_def wire_frame_def u32_to_be_bytes_def split: sum.splits)
  then have "length (unread f) + length c \<le> MAX_FRAME_SIZE * 2 + 8"
    using Cons.prems(3,4) by (simp add: READ_BUF_SIZE_def MAX_FRAME_SIZE_def)
  then obtain f1 where f1: "fill_from (Inr c :: 'i io_error + u8 list) f
      = Some (Inr True :: ('e, 'i) protocol_error + bool, f1)" "reader_ok f1" "unread f1 = unread f @ c"
    using fill_from_unread [of f c] Cons.prems(1,4) by auto
  have whole: "?nx (?fr @ rest) = Inr (Some (Connected name b, length ?fr))"
    using assms(1) by (rule next_frame_frame)
  have stream: "unread f1 @ concat cs = ?fr @ rest" using Cons.prems(2) by (simp add: f1(3))
  show ?case
  proof (cases "length (unread f1) < length ?fr")
    case True
    have "?nx (unread f1) = Inr None"
    proof (rule ccontr)
      assume "?nx (unread f1) \<noteq> Inr None"
      then have "?nx (unread f1) = Inr (Some (Connected name b, length ?fr))"
        using next_frame_extend [of de "unread f1" "concat cs"] whole stream by metis
      then show False using next_frame_progress True by fastforce
    qed
    then have "decode_next de f1 = Some (Inr None :: ('e, 'i) protocol_error + _, f1)"
      by (simp add: decode_next_eq [OF f1(2)])
    moreover obtain leftover k where "await_connected de (map Inr cs :: ('i io_error + u8 list) list) f1
        = Some (Done (Inr (name, b, leftover, map Inr (drop k cs))))" "leftover @ concat (drop k cs) = rest"
      using Cons.IH [OF f1(2) stream True] Cons.prems(4) by auto
    ultimately show ?thesis using f1(1) by (intro exI [of _ leftover] exI [of _ "Suc k"]) simp
  next
    case False
    then obtain l where l: "unread f1 = ?fr @ l" "l @ concat cs = rest"
      using stream that [of "drop (length ?fr) (unread f1)"]
      by (simp add: append_eq_append_conv_if split: if_splits) (metis append_take_drop_id)
    let ?f2 = "f1\<lparr>fr_offset := fr_offset f1 + length ?fr\<rparr>"
    have "?nx (unread f1) = Inr (Some (Connected name b, length ?fr))"
      unfolding l(1) using assms(1) by (rule next_frame_frame)
    then have "decode_next de f1 = Some (Inr (Some (Connected name b)) :: ('e, 'i) protocol_error + _, ?f2)"
      by (simp add: decode_next_eq [OF f1(2)])
    moreover have "into_leftover ?f2 = Some l"
    proof -
      have "fr_offset f1 + length ?fr \<le> length (fr_buf f1)"
        using f1(2) arg_cong [OF l(1), of length] by (simp add: reader_ok_def unread_def)
      moreover have "drop (length ?fr) (unread f1) = l" by (simp add: l(1))
      ultimately show ?thesis by (simp add: into_leftover_def slice_from_def unread_def add.commute)
    qed
    ultimately show ?thesis using f1(1) l(2) by (intro exI [of _ l] exI [of _ "Suc 0"]) simp
  qed
qed simp

lemma pack_history_nonempty: "list_all packed (pack_history lines [] 0)" "concat (pack_history lines [] 0) = lines"
  using pack_history_eq [of 0 "[]" lines] by simp_all

text \<open>C14. A client that attaches sees the history and then the screen. For every serialiser that round-trips
  the messages sent and any chunks in which the client reads them, the handshake succeeds with the
  session's name and whether it is new, and the client has then written to its terminal the history
  lines in order, each ended by CR LF (none while the alternate screen is shown), followed by exactly
  the bytes of the server's first update: the queued notifications, the scrolling away of the history
  and a full draw.\<close>

theorem attaching_client_shows_session:
  assumes "send_initial_state hash between is_new s = Some (msgs, Inr cache, s')"
    and "\<forall>m\<in>set msgs. codec_ok ser de m"
    and "concat cs = concat (map (wire_frame ser) msgs)"
    and "list_all (\<lambda>c. c \<noteq> [] \<and> length c \<le> READ_BUF_SIZE) cs"
  shows "\<exists>hist screen p leftover k f.
    initial_snapshot hash (sc_perf (se_screen s)) = Some ((hist, screen), p, cache)
    \<and> hist = (if ss_alt (pf_state (sc_perf (se_screen s))) then [] else get_history (sc_perf (se_screen s)))
    \<and> await_connected de (map Inr cs :: ('i io_error + u8 list) list) reader_new
        = Some (Done (Inr (se_name s, is_new, leftover, map Inr (drop k cs))))
    \<and> run_socket_to_stdout de (map Inr (drop k cs) :: ('i io_error + u8 list) list) leftover
        = Some (Waiting, f, concat (map (\<lambda>l. l @ [13, 10]) hist) @ screen)"
proof -
  let ?p = "sc_perf (se_screen s)"
  obtain hist screen p where snap: "initial_snapshot hash ?p = Some ((hist, screen), p, cache)"
    and msgs: "msgs = initial_messages (se_name s) is_new (hist, screen)"
    using assms(1) by (auto simp: send_initial_state_def Let_def split: if_splits Option.bind_splits prod.splits)
  have hist: "hist = (if ss_alt (pf_state ?p) then [] else get_history ?p)"
    using snap by (auto simp: initial_snapshot_def Let_def split: prod.splits)
  define ms where "ms = map History (pack_history hist [] 0) @ [ScreenUpdate screen]"
  have m: "msgs = Connected (se_name s) is_new # ms" by (simp add: msgs initial_messages_def ms_def)
  have first: "codec_ok ser de (Connected (se_name s) is_new)" using assms(2) m by simp
  have r: "reader_ok reader_new" "unread reader_new = []" by (simp_all add: reader_new_def reader_ok_def unread_def)
  have "\<exists>leftover k. await_connected de (map Inr cs :: ('i io_error + u8 list) list) reader_new
      = Some (Done (Inr (se_name s, is_new, leftover, map Inr (drop k cs))))
      \<and> leftover @ concat (drop k cs) = concat (map (wire_frame ser) ms)"
    using frame_nonempty [OF first] assms(3)
    by (intro await_first_frame [OF first r(1) _ _ assms(4)]) (simp_all add: r(2) m)
  then obtain leftover k where hs: "await_connected de (map Inr cs :: ('i io_error + u8 list) list) reader_new
      = Some (Done (Inr (se_name s, is_new, leftover, map Inr (drop k cs))))"
    "leftover @ concat (drop k cs) = concat (map (wire_frame ser) ms)" by blast
  have "concat (map msg_out (map History chunks)) = concat (map (\<lambda>l. l @ [13, 10]) (concat chunks))" for chunks
    by (induction chunks) simp_all
  then have out: "concat (map msg_out ms) = concat (map (\<lambda>l. l @ [13, 10]) hist) @ screen"
    by (simp add: ms_def pack_history_nonempty(2))
  have "\<exists>f. run_socket_to_stdout de (map Inr (drop k cs) :: ('i io_error + u8 list) list) leftover
      = Some (Waiting, f, concat (map msg_out ms))"
    using assms(2,4) by (intro run_socket_frames [OF _ hs(2)]) (auto simp: m ms_def list_all_iff dest: in_set_dropD)
  then show ?thesis using snap hist hs(1) out by auto
qed

lemma initial_snapshot_some:
  assumes "perf_inv p"
  obtains hist screen q cache where "initial_snapshot hash p = Some ((hist, screen), q, cache)"
    "pf_grid q = pf_grid p" "hist = (if ss_alt (pf_state p) then [] else get_history p)"
    "ss_passthrough (pf_state q) = ss_passthrough (pf_state p)"
proof -
  let ?q = "snd (take_queued_notifications p)"
  have q: "perf_inv ?q" "pf_grid ?q = pf_grid p" "ss_passthrough (pf_state ?q) = ss_passthrough (pf_state p)"
    using assms by (simp_all add: perf_inv_drain) (simp_all add: take_queued_notifications_def sset_def)
  obtain out c where "render_screen hash (pf_grid ?q) (ss_title (pf_state ?q)) True cache_new = Some (out, c)"
    using render_cache_after [OF perf_inv_grid [OF q(1)], of hash "ss_title (pf_state ?q)" "[]" True cache_new]
    by (auto simp: render_screen_def)
  then show ?thesis using that q(2,3) by (simp add: initial_snapshot_def split_beta Let_def)
qed

text \<open>What a session's child does while a client attaches is lost to that client. The messages sent
  are made from the state under the first lock of the screen; whatever the reader thread queues after it
  (rows that scroll off, bells, titles, clipboard and notification sequences) is thrown away under the
  second lock: the messages do not depend on it, and the queues end empty.\<close>

theorem attach_discards_meanwhile:
  assumes "initial_snapshot hash (sc_perf (se_screen s)) = Some (snapshot, p, cache)"
    and "\<not> se_poisoned s" "\<not> se_poisoned (between (upd_perf p s))"
  shows "\<exists>s'. send_initial_state hash between is_new s
      = Some (initial_messages (se_name s) is_new snapshot, Inr cache, s')
    \<and> fst (take_pending_scrollback (sc_perf (se_screen s'))) = []
    \<and> ss_passthrough (pf_state (sc_perf (se_screen s'))) = []"
  using assms by (simp add: send_initial_state_def upd_perf_def Let_def)

text \<open>A child that rings the bell at that moment.\<close>

definition bell_parser :: "unit \<Rightarrow> u8 \<Rightarrow> unit \<times> event list" where
  "bell_parser q b = ((), [Execute 7])"

lemma demo_perf: "perf_inv (sc_perf (se_screen (demo_session name alive)))"
  by (simp add: demo_session_def screen_new_def perf_new_inv u16_max_def)

theorem attach_discards_meanwhile_witness:
  "\<exists>p msgs cache s'. let s = (demo_session (bytes ''a'') True)\<lparr>se_has_client := True\<rparr>;
       ring = reader_event bell_parser (\<lambda>_. Some 1) (ReadData [7] None) in
     ss_passthrough (pf_state (sc_perf (se_screen (ring (upd_perf p s))))) = [[7]]
     \<and> send_initial_state (\<lambda>_. 0) ring True s
         = Some (msgs, Inr cache :: unit session_error + _, s')
     \<and> ss_passthrough (pf_state (sc_perf (se_screen s'))) = []"
proof -
  let ?s = "(demo_session (bytes ''a'') True)\<lparr>se_has_client := True\<rparr>"
  let ?ring = "reader_event bell_parser (\<lambda>_. Some 1) (ReadData [7] None)"
  have inv: "perf_inv (sc_perf (se_screen ?s))" using demo_perf by simp
  obtain hist screen p cache where snap: "initial_snapshot (\<lambda>_. 0) (sc_perf (se_screen ?s)) = Some ((hist, screen), p, cache)"
    "ss_passthrough (pf_state p) = ss_passthrough (pf_state (sc_perf (se_screen ?s)))"
    by (rule initial_snapshot_some [OF inv])
  have empty: "ss_passthrough (pf_state (sc_perf (se_screen ?s))) = []"
    by (simp add: demo_session_def screen_new_def perf_new_def state_default_def)
  obtain t where t: "reader_step bell_parser (\<lambda>_. Some 1) [7] None (upd_perf p ?s) = Some t"
    "ss_passthrough (pf_state (sc_perf (se_screen t))) = [[7]]" "se_poisoned t = False"
    using snap(2) [unfolded empty]
    by (simp add: reader_step_def process_def process_byte_def bell_parser_def execute_def upd_perf_def demo_session_def
        take_responses_def sset_def push_passthrough_def MAX_PENDING_def Let_def split_beta)
  have ring: "?ring (upd_perf p ?s) = t" using t(1) by (simp add: reader_event_def upd_perf_def demo_session_def)
  from attach_discards_meanwhile [OF snap(1), of ?ring True] t ring
  show ?thesis by (auto simp: Let_def demo_session_def)
qed

text \<open>The server's relay does not look at what came with the request until the client sends more: with
  no further read it waits, and when the client then closes the connection it ends, with every whole
  message in the leftover unhandled and the session unchanged. (The client's own relay handles the
  leftover first.)\<close>

theorem leftover_requests_wait:
  "client_to_pty de prs [] leftover st = Some (Waiting, with_leftover leftover, st)
   \<and> (\<exists>f. client_to_pty de prs [Inr []] leftover st = Some (Done (Inr ()), f, st))"
  by (simp add: client_to_pty_def lift_errors_def lift_error_def fill_from_def with_leftover_def Let_def)

text \<open>A serialiser for any given messages: the position of a message in their list.\<close>

fun index_of :: "'m list \<Rightarrow> 'm \<Rightarrow> nat" where
  "index_of [] m = 0"
| "index_of (x # xs) m = (if x = m then 0 else Suc (index_of xs m))"

lemma index_codec:
  "\<exists>(ser :: 'm \<Rightarrow> unit + u8 list) de. \<forall>m\<in>set ms. codec_ok ser de m \<and> length (wire_frame ser m) \<le> READ_BUF_SIZE"
proof -
  let ?ser = "\<lambda>m. Inr [index_of ms m] :: unit + u8 list" and ?de = "\<lambda>b. Inr (ms ! hd b) :: unit + 'm"
  have i: "m \<in> set ms \<Longrightarrow> ms ! index_of ms m = m" for m by (induction ms) auto
  have "\<forall>m\<in>set ms. codec_ok ?ser ?de m \<and> length (wire_frame ?ser m) \<le> READ_BUF_SIZE"
    using i by (auto simp: codec_ok_def wire_frame_def u32_to_be_bytes_def READ_BUF_SIZE_def MAX_FRAME_SIZE_def)
  then show ?thesis by blast
qed

theorem attaching_client_shows_session_witness:
  "\<exists>de cs hist screen p cache leftover k f. let s = demo_session (bytes ''a'') True in
    initial_snapshot (\<lambda>_. 0) (sc_perf (se_screen s)) = Some ((hist, screen), p, cache)
    \<and> await_connected de (map Inr cs :: (unit io_error + u8 list) list) reader_new
        = Some (Done (Inr (se_name s, True, leftover, map Inr (drop k cs))) :: (((unit, unit) protocol_error + _) + _) outcome)
    \<and> run_socket_to_stdout de (map Inr (drop k cs) :: (unit io_error + u8 list) list) leftover
        = Some (Waiting, f, concat (map (\<lambda>l. l @ [13, 10]) hist) @ screen)"
proof -
  let ?s = "demo_session (bytes ''a'') True"
  obtain hist screen p cache where snap: "initial_snapshot (\<lambda>_. 0) (sc_perf (se_screen ?s)) = Some ((hist, screen), p, cache)"
    by (rule initial_snapshot_some [OF demo_perf])
  define msgs where "msgs = initial_messages (se_name ?s) True (hist, screen)"
  obtain ser :: "server_msg \<Rightarrow> unit + u8 list" and de where
    ok': "\<forall>m\<in>set msgs. codec_ok ser de m \<and> length (wire_frame ser m) \<le> READ_BUF_SIZE"
    using index_codec [of msgs] by blast
  then have ok: "\<forall>m\<in>set msgs. codec_ok ser de m" by blast
  obtain s' where sent: "send_initial_state (\<lambda>_. 0) (\<lambda>s. s) True ?s = Some (msgs, Inr cache :: unit session_error + _, s')"
    using snap by (auto simp: send_initial_state_def upd_perf_def demo_session_def Let_def msgs_def)
  define cs where "cs = map (wire_frame ser) msgs"
  have chunks: "list_all (\<lambda>c. c \<noteq> [] \<and> length c \<le> READ_BUF_SIZE) cs"
    using ok' frame_nonempty by (fastforce simp: cs_def list_all_iff)
  have "concat cs = concat (map (wire_frame ser) msgs)" by (simp add: cs_def)
  from attaching_client_shows_session [OF sent ok this chunks] show ?thesis
    unfolding Let_def by blast
qed

end
