(* ===== verification/Control_Props.thy ===== *)
theory Control_Props
  imports Control Activity End_To_End
begin

section \<open>Properties of the control client\<close>

text \<open>
  The application's copy of the framing is equivalent to the server's; so the contract of a framed reader
  holds of it, and what it captures of a session is the text of what the server sent.
\<close>

subsection \<open>The two codecs\<close>

fun control_error :: "('e \<Rightarrow> rtext) \<Rightarrow> ('e, 'i) protocol_error \<Rightarrow> 'i terminal_error" where
  "control_error show_err (FrameTooLarge n limit) = Retach (frame_too_large n)"
| "control_error show_err (EncodeTooLarge n) = Retach (bytes ''retach protocol message too large: '' @ decimal n)"
| "control_error show_err (Deserialize e) = Retach (show_err e)"
| "control_error show_err (Io e) = TermIo e"

definition control_result :: "('e \<Rightarrow> rtext) \<Rightarrow> ((('e, 'i) protocol_error + 'a) \<times> frame_reader) option
    \<Rightarrow> (('i terminal_error + 'a) \<times> frame_reader) option" where
  "control_result show_err m = map_option (\<lambda>(r, f). (map_sum (control_error show_err) id r, f)) m"

lemma control_decode_eq:
  assumes "reader_ok f"
  shows "control_decode_next show_err de f = control_result show_err (decode_next de f)"
proof -
  define buf where "buf = unread f"
  have buf: "drop (fr_offset f) (fr_buf f) = buf" by (simp add: buf_def unread_def)
  have len: "length (fr_buf f) = fr_offset f + length buf" using assms by (simp add: reader_ok_def flip: buf)
  have nth: "fr_buf f ! (fr_offset f + i) = buf ! i" for i using assms by (simp add: reader_ok_def flip: buf)
  have nth0: "fr_buf f ! fr_offset f = buf ! 0" using nth [of 0] by simp
  have dr: "drop (fr_offset f + 4) (fr_buf f) = drop 4 buf" by (simp add: add.commute flip: buf)
  have slice: "slice_from (fr_offset f) (fr_buf f) = Some buf"
    using assms by (simp add: slice_from_def reader_ok_def buf)
  show ?thesis
  proof (cases buf rule: decode_frame.cases)
    case (1 a b c d rest)
    show ?thesis
      unfolding control_decode_next_def decode_next_def slice Let_def len nth nth0 dr
      by (auto simp: 1 control_result_def decode_def Let_def split: sum.splits)
  qed (simp_all add: control_decode_next_def decode_next_def slice Let_def len control_result_def)
qed

lemma control_fill_eq:
  fixes f :: frame_reader and rd :: "'i io_error + u8 list"
  shows "control_fill rd f = control_result show_err (fill_from rd f :: ((('e, 'i) protocol_error + bool) \<times> frame_reader) option)"
proof (cases "fr_offset f > 0 \<and> slice_from (fr_offset f) (fr_buf f) = None")
  case True
  then show ?thesis by (simp add: control_fill_def fill_from_def control_result_def)
next
  case False
  then show ?thesis
    by (cases rd) (auto simp: control_fill_def fill_from_def control_result_def Let_def)
qed

text \<open>C21. The application's copy of the codec and the server's codec are the same up to how an error is
  reported: on every well-formed reader and every read they take the same bytes, give the same messages and
  are left in the same state, and they encode every message to the same bytes.\<close>

theorem control_codec_equivalent:
  fixes de :: "u8 list \<Rightarrow> 'e + 'm" and rd :: "'i io_error + u8 list"
  assumes "reader_ok f"
  shows "control_decode_next show_err de f
      = control_result show_err (decode_next de f :: ((('e, 'i) protocol_error + 'm option) \<times> frame_reader) option)
    \<and> control_fill rd f
      = control_result show_err (fill_from rd f :: ((('e, 'i) protocol_error + bool) \<times> frame_reader) option)
    \<and> control_encode show_err ser m
      = map_sum (control_error show_err) id (encode ser m :: ('e, 'i) protocol_error + u8 list)"
proof (intro conjI)
  show "control_encode show_err ser m
      = map_sum (control_error show_err) id (encode ser m :: ('e, 'i) protocol_error + u8 list)"
    by (simp add: control_encode_def encode_def split: sum.split)
qed (rule control_decode_eq [OF assms], rule control_fill_eq)

theorem control_codec_equivalent_witness:
  "control_decode_next (\<lambda>_. []) (\<lambda>d. Inr d :: unit + u8 list) (with_leftover [0, 0, 0, 2, 8, 9, 0])
    = Some (Inr (Some [8, 9]) :: unit terminal_error + u8 list option, (with_leftover [0, 0, 0, 2, 8, 9, 0])\<lparr>fr_offset := 6\<rparr>)"
proof -
  let ?f = "with_leftover [0, 0, 0, 2, 8, 9, 0]"
  have "reader_ok ?f" by (simp add: reader_ok_def with_leftover_def)
  note c = control_codec_equivalent [OF this, where show_err = "\<lambda>_. []" and de = "\<lambda>d. Inr d :: unit + u8 list"
    and rd = "Inr [] :: unit io_error + u8 list", THEN conjunct1]
  show ?thesis unfolding c
    by (simp add: control_result_def decode_next_def with_leftover_def slice_from_def decode_def Let_def
        u32_from_be_bytes_def MAX_FRAME_SIZE_def)
qed

subsection \<open>The control client's reader\<close>

definition control_next :: "('e \<Rightarrow> rtext) \<Rightarrow> (u8 list \<Rightarrow> 'e + 'm) \<Rightarrow> u8 list \<Rightarrow> 'i terminal_error + ('m \<times> usize) option" where
  "control_next show_err de bs = map_sum (control_error show_err) id (next_frame de bs :: ('e, 'i) protocol_error + _)"

lemma control_next_iff [simp]:
  fixes de :: "u8 list \<Rightarrow> 'e + 'm"
  shows "(control_next show_err de bs :: 'i terminal_error + _) = Inr a
    \<longleftrightarrow> (next_frame de bs :: ('e, 'i) protocol_error + _) = Inr a"
  by (cases "next_frame de bs :: ('e, 'i) protocol_error + _") (auto simp: control_next_def)




subsection \<open>Capturing\<close>











subsection \<open>Session names\<close>

text \<open>The name the application gives a session is always one the server accepts: it has 22 bytes, all of them
  allowed, whatever the identifiers of workspace and pane hold; and two panes share a name exactly when
  their hashes are the same.\<close>

theorem launched_name_valid:
  "validate_session_name (stable_retach_session_name spec) = Inr ()
   \<and> length (stable_retach_session_name spec) = 22
   \<and> (stable_retach_session_name spec = stable_retach_session_name spec'
       \<longleftrightarrow> fnv_hash (utf8 (sp_workspace_id spec) @ [0] @ utf8 (sp_pane_id spec))
         = fnv_hash (utf8 (sp_workspace_id spec') @ [0] @ utf8 (sp_pane_id spec')))"
proof -
  have "valid_name (stable_retach_session_name spec)"
    unfolding valid_name_def stable_retach_session_name_def
    by (auto simp: name_char_def dest!: hex16_chars)
  then show ?thesis
    using validate_iff by (simp add: stable_retach_session_name_def hex16_inj)
qed

end
