(* ===== verification/Layout.thy ===== *)
theory Layout
  imports Core_Types "HOL-Library.AList" "HOL-Library.List_Lexorder" Complex_Main
begin

section \<open>Workspace layouts (\<open>octty-core/src/layout.rs\<close>)\<close>

text \<open>
  A snapshot of a workspace's panes and columns, and the operations on it. A \<open>BTreeMap\<close> keyed by text is
  the list of its entries sorted by key (text is ordered by its characters, as its UTF-8 bytes are).
  \<open>f64\<close> numbers are rationals: rounding is not modelled (the widths are integers, the heights are equal
  fractions). The clock is the parameter \<open>now\<close> of an operation and the global counter of identifiers is
  passed through. A list index out of range is the panic \<open>None\<close>.
\<close>

type_synonym f64 = rat

type_synonym 'v btree = "(rtext \<times> 'v) list"

fun btree_insert :: "rtext \<Rightarrow> 'v \<Rightarrow> 'v btree \<Rightarrow> 'v btree" where
  "btree_insert k v [] = [(k, v)]"
| "btree_insert k v ((k', v') # es) =
     (if k < k' then (k, v) # (k', v') # es
      else if k = k' then (k, v) # es
      else (k', v') # btree_insert k v es)"

definition btree_remove :: "rtext \<Rightarrow> 'v btree \<Rightarrow> 'v btree" where
  "btree_remove k t = filter (\<lambda>(k', _). k' \<noteq> k) t"

subsection \<open>Snapshots\<close>

datatype sidebar_target = SidebarLeft | SidebarRight

record workspace_column =
  wc_id :: rtext
  wc_pane_ids :: "rtext list"
  wc_width :: f64
  wc_heights :: "f64 list"
  wc_pinned :: "sidebar_target option"

record workspace_snapshot =
  wn_version :: u32
  wn_workspace_id :: rtext
  wn_active :: "rtext option"
  wn_panes :: "f64 pane_state btree"
  wn_columns :: "workspace_column btree"
  wn_center :: "rtext list"
  wn_pinned_left :: "rtext option"
  wn_pinned_right :: "rtext option"
  wn_updated_at :: i64

datatype layout_error = MissingPane rtext

definition LAYOUT_VERSION :: u32 where "LAYOUT_VERSION = 2"

definition create_default_snapshot :: "i64 \<Rightarrow> rtext \<Rightarrow> workspace_snapshot" where
  "create_default_snapshot now workspace_id =
     \<lparr>wn_version = LAYOUT_VERSION, wn_workspace_id = workspace_id, wn_active = None, wn_panes = [],
      wn_columns = [], wn_center = [], wn_pinned_left = None, wn_pinned_right = None, wn_updated_at = now\<rparr>"

subsection \<open>Identifiers\<close>

definition decimal_int :: "int \<Rightarrow> rtext" where
  "decimal_int n = (if n < 0 then 45 # decimal (nat (- n)) else decimal (nat n))"

text \<open>\<open>next_id\<close>: the identifier and the counter after it.\<close>

definition next_id :: "rtext \<Rightarrow> i64 \<Rightarrow> nat \<Rightarrow> rtext \<times> nat" where
  "next_id prefix now n = (prefix @ [45] @ decimal_int now @ [45] @ decimal n, (n + 1) mod 2 ^ 64)"

subsection \<open>Panes\<close>

fun terminal_title :: "terminal_kind \<Rightarrow> rtext" where
  "terminal_title KShell = bytes ''Shell''"
| "terminal_title KCodex = bytes ''Codex''"
| "terminal_title KPi = bytes ''PI''"
| "terminal_title KNvim = bytes ''Nvim''"
| "terminal_title KJjui = bytes ''JJ UI''"

fun terminal_command :: "terminal_kind \<Rightarrow> rtext" where
  "terminal_command KShell = []"
| "terminal_command KCodex = bytes ''codex''"
| "terminal_command KPi = bytes ''pi''"
| "terminal_command KNvim = bytes ''nvim''"
| "terminal_command KJjui = bytes ''jjui''"

definition terminal_payload :: "terminal_kind \<Rightarrow> rtext \<Rightarrow> f64 pane_payload" where
  "terminal_payload kind cwd = TerminalPayload
     \<lparr>tp_kind = kind, tp_shell_type = default_shell_type_name, tp_handler = NoHandler,
      tp_inner_session_id = None, tp_session_id = None, tp_session_state = Stopped, tp_cwd = cwd,
      tp_command = terminal_command kind, tp_parameters = [], tp_on_exit = CloseOnExit,
      tp_width_chars = DEFAULT_TERMINAL_WIDTH_CHARS, tp_exit_code = None, tp_auto_start = True,
      tp_restored_buffer = [], tp_embedded = None, tp_correlation_id = None, tp_attention = None\<rparr>"

definition create_pane_state :: "i64 \<Rightarrow> nat \<Rightarrow> pane_type \<Rightarrow> rtext \<Rightarrow> terminal_kind option \<Rightarrow> f64 pane_state \<times> nat" where
  "create_pane_state now n pane_type workspace_path kind =
     (let (pane_id, n) = next_id (bytes ''pane'') now n;
          (title, payload) =
            (case pane_type of
               PaneShell \<Rightarrow>
                 (let k = (case kind of Some k \<Rightarrow> k | None \<Rightarrow> KShell)
                  in (terminal_title k, terminal_payload k workspace_path))
             | PaneAgentShell \<Rightarrow>
                 (let k = (case kind of Some k \<Rightarrow> k | None \<Rightarrow> KCodex)
                  in (terminal_title k, terminal_payload k workspace_path))
             | PaneNote \<Rightarrow> (bytes ''Note'', NotePayload \<lparr>np_note_path = None\<rparr>)
             | PaneBrowser \<Rightarrow> (bytes ''Browser'', BrowserPayload
                 \<lparr>bp_url = bytes ''about:blank'', bp_title = bytes ''Browser'', bp_zoom = 1, bp_popup = None\<rparr>)
             | PaneDiff \<Rightarrow> (bytes ''Diff'', DiffPayload \<lparr>dp_pinned = False\<rparr>))
      in (\<lparr>ps_id = pane_id, ps_type = pane_type, ps_title = title, ps_payload = payload\<rparr>, n))"

definition default_column_width_px :: "f64 pane_state \<Rightarrow> f64" where
  "default_column_width_px pane =
     (case ps_payload pane of
        TerminalPayload payload \<Rightarrow>
          if tp_width_chars payload > 0 then of_nat (tp_width_chars payload) * 8 + 24
          else (case ps_type pane of PaneShell \<Rightarrow> 720 | PaneAgentShell \<Rightarrow> 840 | PaneNote \<Rightarrow> 420
                  | PaneBrowser \<Rightarrow> 960 | PaneDiff \<Rightarrow> 900)
      | _ \<Rightarrow> (case ps_type pane of PaneShell \<Rightarrow> 720 | PaneAgentShell \<Rightarrow> 840 | PaneNote \<Rightarrow> 420
                  | PaneBrowser \<Rightarrow> 960 | PaneDiff \<Rightarrow> 900))"

subsection \<open>Adding and removing panes\<close>

definition add_pane :: "i64 \<Rightarrow> nat \<Rightarrow> workspace_snapshot \<Rightarrow> f64 pane_state \<Rightarrow> workspace_snapshot \<times> nat" where
  "add_pane now n w pane =
     (let pane_id = ps_id pane;
          (column_id, n) = next_id (bytes ''column'') now n;
          width = default_column_width_px pane;
          w = w\<lparr>wn_panes := btree_insert pane_id pane (wn_panes w)\<rparr>;
          w = w\<lparr>wn_columns := btree_insert column_id
                 \<lparr>wc_id = column_id, wc_pane_ids = [pane_id], wc_width = width, wc_heights = [1], wc_pinned = None\<rparr>
                 (wn_columns w)\<rparr>
      in (w\<lparr>wn_center := wn_center w @ [column_id], wn_active := Some pane_id, wn_updated_at := now\<rparr>, n))"

definition normalize_heights :: "workspace_column \<Rightarrow> workspace_column" where
  "normalize_heights c =
     (if length (wc_heights c) \<noteq> length (wc_pane_ids c) \<or> wc_heights c = []
      then c\<lparr>wc_heights := replicate (length (wc_pane_ids c)) (1 / of_nat (length (wc_pane_ids c)))\<rparr>
      else c)"

text \<open>The first position of an element (\<open>iter().position\<close>), and \<open>Vec::remove\<close>.\<close>

fun position :: "'a \<Rightarrow> 'a list \<Rightarrow> nat option" where
  "position x [] = None"
| "position x (y # ys) = (if y = x then Some 0 else map_option Suc (position x ys))"

definition vec_remove :: "nat \<Rightarrow> 'a list \<Rightarrow> 'a list option" where
  "vec_remove i xs = (if i < length xs then Some (remove_at i xs) else None)"

text \<open>One column of the loop in \<open>remove_pane\<close>: the column after it; empty columns are collected.\<close>

definition remove_from_column :: "rtext \<Rightarrow> workspace_column \<Rightarrow> workspace_column option" where
  "remove_from_column pane_id c = do {
     c \<leftarrow> (case position pane_id (wc_pane_ids c) of
             None \<Rightarrow> Some c
           | Some i \<Rightarrow> do {
               ids \<leftarrow> vec_remove i (wc_pane_ids c);
               heights \<leftarrow> vec_remove i (wc_heights c);
               Some (c\<lparr>wc_pane_ids := ids, wc_heights := heights\<rparr>) });
     Some (if wc_pane_ids c = [] then c else normalize_heights c) }"

fun remove_from_columns :: "rtext \<Rightarrow> workspace_column btree \<Rightarrow> rtext list
    \<Rightarrow> (workspace_column btree \<times> rtext list) option" where
  "remove_from_columns pane_id [] empties = Some ([], empties)"
| "remove_from_columns pane_id ((k, c) # cs) empties = do {
     c \<leftarrow> remove_from_column pane_id c;
     (cs, empties) \<leftarrow> remove_from_columns pane_id cs (if wc_pane_ids c = [] then empties @ [k] else empties);
     Some ((k, c) # cs, empties) }"

definition drop_column :: "rtext \<Rightarrow> workspace_snapshot \<Rightarrow> workspace_snapshot" where
  "drop_column column_id w =
     (let w = w\<lparr>wn_columns := btree_remove column_id (wn_columns w),
                wn_center := filter (\<lambda>i. i \<noteq> column_id) (wn_center w)\<rparr>;
          w = (if wn_pinned_left w = Some column_id then w\<lparr>wn_pinned_left := None\<rparr> else w)
      in (if wn_pinned_right w = Some column_id then w\<lparr>wn_pinned_right := None\<rparr> else w))"

definition first_center_pane :: "workspace_snapshot \<Rightarrow> rtext option" where
  "first_center_pane w =
     (case concat (map wc_pane_ids (List.map_filter (\<lambda>k. map_of (wn_columns w) k) (wn_center w))) of
        [] \<Rightarrow> None | p # _ \<Rightarrow> Some p)"

definition remove_pane :: "i64 \<Rightarrow> workspace_snapshot \<Rightarrow> rtext \<Rightarrow> (layout_error + workspace_snapshot) option" where
  "remove_pane now w pane_id =
     (if map_of (wn_panes w) pane_id = None then Some (Inl (MissingPane pane_id))
      else do {
        let w = w\<lparr>wn_panes := btree_remove pane_id (wn_panes w)\<rparr>;
        (columns, empties) \<leftarrow> remove_from_columns pane_id (wn_columns w) [];
        let w = fold drop_column empties (w\<lparr>wn_columns := columns\<rparr>);
        let w = (if wn_active w = Some pane_id then w\<lparr>wn_active := first_center_pane w\<rparr> else w);
        Some (Inr (w\<lparr>wn_updated_at := now\<rparr>)) })"

subsection \<open>Shortcuts (\<open>octty-core/src/shortcuts.rs\<close>)\<close>

record workspace_shortcut_target =
  st_workspace_id :: rtext
  st_label :: rtext

definition shortcut_digit :: "nat \<Rightarrow> rtext" where
  "shortcut_digit index = (if index < 9 then [49 + index] else bytes ''0'')"

definition workspace_shortcut_targets :: "workspace_summary list \<Rightarrow> workspace_shortcut_target list" where
  "workspace_shortcut_targets workspaces =
     map (\<lambda>(index, w). \<lparr>st_workspace_id = wm_id w, st_label = bytes ''Ctrl+Shift+'' @ shortcut_digit index\<rparr>)
       (enumerate 0 (take 10 workspaces))"

end
