(* ===== verification/Layout_Props.thy ===== *)
theory Layout_Props
  imports Layout "HOL-Library.Multiset"
begin

section \<open>Properties of workspace layouts\<close>

text \<open>
  The well-formedness of a layout, which adding and removing panes keep; removing never panics on a
  well-formed layout and undoes adding; identifiers are distinct.
\<close>

subsection \<open>Sorted maps\<close>

abbreviation keys :: "'v btree \<Rightarrow> rtext set" where
  "keys t \<equiv> fst ` set t"

definition btree_ok :: "'v btree \<Rightarrow> bool" where
  "btree_ok t \<longleftrightarrow> sorted_wrt (<) (map fst t)"

lemma btree_ok_distinct: "btree_ok t \<Longrightarrow> distinct (map fst t)"
  unfolding btree_ok_def using strict_sorted_iff by blast

lemma set_btree_insert: "set (btree_insert k v t) \<subseteq> insert (k, v) (set t)"
  by (induction k v t rule: btree_insert.induct) auto

lemma keys_btree_insert [simp]: "keys (btree_insert k v t) = insert k (keys t)"
  by (induction k v t rule: btree_insert.induct) auto

lemma btree_ok_insert [simp]: "btree_ok t \<Longrightarrow> btree_ok (btree_insert k v t)"
proof (induction k v t rule: btree_insert.induct)
  case (2 k v k' v' es)
  have "\<forall>x\<in>keys (btree_insert k v es). k' < x" if "\<not> k < k'" "k \<noteq> k'"
    using that 2(2) by (auto simp: btree_ok_def)
  then show ?case using 2 by (auto simp: btree_ok_def)
qed (simp add: btree_ok_def)

lemma btree_ok_remove [simp]: "btree_ok t \<Longrightarrow> btree_ok (btree_remove k t)"
  unfolding btree_ok_def btree_remove_def by (induction t) auto

lemma keys_btree_remove [simp]: "keys (btree_remove k t) = keys t - {k}"
  by (auto simp: btree_remove_def)

lemma btree_ok_filter [simp]: "btree_ok t \<Longrightarrow> btree_ok (filter P t)"
  unfolding btree_ok_def by (induction t) auto

lemma remove_insert: "btree_ok t \<Longrightarrow> k \<notin> keys t \<Longrightarrow> btree_remove k (btree_insert k v t) = t"
proof (induction k v t rule: btree_insert.induct)
  case (2 k v k' v' es)
  have "btree_remove k es = es" using 2(3) by (force simp: btree_remove_def filter_id_conv)
  then show ?case using 2 by (auto simp: btree_remove_def btree_ok_def)
qed (simp add: btree_remove_def)

lemma concat_insert:
  assumes "f v = [x]" "k \<notin> keys t"
  shows "mset (concat (map (f \<circ> snd) (btree_insert k v t))) = add_mset x (mset (concat (map (f \<circ> snd) t)))"
  using assms by (induction k v t rule: btree_insert.induct) auto

subsection \<open>Well-formed layouts\<close>

definition column_ok :: "workspace_column \<Rightarrow> bool" where
  "column_ok c \<longleftrightarrow> wc_pane_ids c \<noteq> [] \<and> length (wc_heights c) = length (wc_pane_ids c)"

definition column_panes :: "workspace_column btree \<Rightarrow> rtext list" where
  "column_panes cs = concat (map (wc_pane_ids \<circ> snd) cs)"

definition layout_ok :: "workspace_snapshot \<Rightarrow> bool" where
  "layout_ok w \<longleftrightarrow> btree_ok (wn_panes w) \<and> btree_ok (wn_columns w)
     \<and> (\<forall>(k, p)\<in>set (wn_panes w). ps_id p = k)
     \<and> (\<forall>(k, c)\<in>set (wn_columns w). wc_id c = k \<and> column_ok c)
     \<and> distinct (column_panes (wn_columns w)) \<and> set (column_panes (wn_columns w)) = keys (wn_panes w)
     \<and> distinct (wn_center w) \<and> set (wn_center w) \<subseteq> keys (wn_columns w)
     \<and> set_option (wn_pinned_left w) \<subseteq> keys (wn_columns w)
     \<and> set_option (wn_pinned_right w) \<subseteq> keys (wn_columns w)
     \<and> set_option (wn_active w) \<subseteq> keys (wn_panes w)"

lemma layout_ok_default: "layout_ok (create_default_snapshot now ws)"
  by (simp add: layout_ok_def create_default_snapshot_def btree_ok_def column_panes_def)

lemma add_pane_fields:
  fixes now n w pane
  defines "k \<equiv> fst (next_id (bytes ''column'') now n)" and "w' \<equiv> fst (add_pane now n w pane)"
  shows "wn_panes w' = btree_insert (ps_id pane) pane (wn_panes w)"
    "wn_columns w' = btree_insert k \<lparr>wc_id = k, wc_pane_ids = [ps_id pane],
       wc_width = default_column_width_px pane, wc_heights = [1], wc_pinned = None\<rparr> (wn_columns w)"
    "wn_center w' = wn_center w @ [k]" "wn_active w' = Some (ps_id pane)"
    "wn_pinned_left w' = wn_pinned_left w" "wn_pinned_right w' = wn_pinned_right w"
    "wn_version w' = wn_version w" "wn_workspace_id w' = wn_workspace_id w" "wn_updated_at w' = now"
  unfolding k_def w'_def by (simp_all add: add_pane_def Let_def split_beta)

lemma layout_okD:
  assumes "layout_ok w"
  shows "btree_ok (wn_panes w)" "btree_ok (wn_columns w)" "\<forall>(k, p)\<in>set (wn_panes w). ps_id p = k"
    "\<forall>(k, c)\<in>set (wn_columns w). wc_id c = k \<and> column_ok c" "distinct (column_panes (wn_columns w))"
    "set (column_panes (wn_columns w)) = keys (wn_panes w)" "distinct (wn_center w)"
    "set (wn_center w) \<subseteq> keys (wn_columns w)" "set_option (wn_pinned_left w) \<subseteq> keys (wn_columns w)"
    "set_option (wn_pinned_right w) \<subseteq> keys (wn_columns w)" "set_option (wn_active w) \<subseteq> keys (wn_panes w)"
  using assms unfolding layout_ok_def by simp_all

lemma btree_insert_all:
  assumes "P k v" "\<forall>(k, v)\<in>set t. P k v"
  shows "\<forall>(k, v)\<in>set (btree_insert k v t). P k v"
  using assms set_btree_insert [of k v t] by blast

lemma layout_ok_add:
  assumes ok: "layout_ok w" and new: "ps_id pane \<notin> keys (wn_panes w)" "fst (next_id (bytes ''column'') now n) \<notin> keys (wn_columns w)"
  shows "layout_ok (fst (add_pane now n w pane))"
proof -
  note d = layout_okD [OF ok]
  let ?k = "fst (next_id (bytes ''column'') now n)"
  let ?c = "\<lparr>wc_id = ?k, wc_pane_ids = [ps_id pane], wc_width = default_column_width_px pane, wc_heights = [1],
    wc_pinned = None\<rparr>"
  have "mset (column_panes (btree_insert ?k ?c (wn_columns w))) = add_mset (ps_id pane) (mset (column_panes (wn_columns w)))"
    unfolding column_panes_def using new(2) by (intro concat_insert) simp_all
  then have m: "mset (column_panes (btree_insert ?k ?c (wn_columns w))) = mset (ps_id pane # column_panes (wn_columns w))" by simp
  have "distinct (column_panes (btree_insert ?k ?c (wn_columns w)))"
    using mset_eq_imp_distinct_iff [OF m] d(5,6) new(1) by simp
  moreover have "set (column_panes (btree_insert ?k ?c (wn_columns w))) = insert (ps_id pane) (keys (wn_panes w))"
    using mset_eq_setD [OF m] d(6) by simp
  moreover have "column_ok ?c" by (simp add: column_ok_def)
  then have "\<forall>(k, c)\<in>set (btree_insert ?k ?c (wn_columns w)). wc_id c = k \<and> column_ok c"
    by (intro btree_insert_all d(4)) simp
  moreover have "\<forall>(k, p)\<in>set (btree_insert (ps_id pane) pane (wn_panes w)). ps_id p = k"
    by (intro btree_insert_all d(3)) simp
  moreover have "distinct (wn_center w @ [?k])" using d(7,8) new(2) by auto
  moreover have "set (wn_center w @ [?k]) \<subseteq> insert ?k (keys (wn_columns w))" using d(8) by auto
  ultimately show ?thesis unfolding layout_ok_def add_pane_fields using d by (simp add: subset_insertI2)
qed

subsection \<open>Removing a pane\<close>

lemma position_remove:
  "position x xs = None \<longleftrightarrow> x \<notin> set xs"
  "position x xs = Some i \<Longrightarrow> i < length xs \<and> remove_at i xs = remove1 x xs"
  by (induction xs arbitrary: i) (auto simp: remove_at_def)

definition strip :: "rtext \<Rightarrow> workspace_column \<Rightarrow> workspace_column" where
  "strip pane_id c = the (remove_from_column pane_id c)"

lemma remove_from_column_ok:
  assumes "column_ok c"
  shows "remove_from_column pane_id c = Some (strip pane_id c)" "wc_id (strip pane_id c) = wc_id c"
    "wc_pane_ids (strip pane_id c) = remove1 pane_id (wc_pane_ids c)"
    "wc_pane_ids (strip pane_id c) \<noteq> [] \<Longrightarrow> column_ok (strip pane_id c)"
proof -
  have "\<exists>c'. remove_from_column pane_id c = Some c' \<and> wc_id c' = wc_id c \<and> wc_pane_ids c' = remove1 pane_id (wc_pane_ids c)
    \<and> (wc_pane_ids c' \<noteq> [] \<longrightarrow> column_ok c')"
  proof (cases "position pane_id (wc_pane_ids c)")
    case None
    then have "pane_id \<notin> set (wc_pane_ids c)" by (simp add: position_remove)
    then show ?thesis using None assms
      by (simp add: remove_from_column_def column_ok_def normalize_heights_def remove1_idem)
  next
    case (Some i)
    note i = position_remove(2) [OF Some]
    then have "length (remove_at i (wc_heights c)) = length (remove1 pane_id (wc_pane_ids c))"
      using assms by (metis column_ok_def length_remove_at)
    then show ?thesis using Some i assms
      by (auto simp: remove_from_column_def column_ok_def normalize_heights_def vec_remove_def)
  qed
  then show "remove_from_column pane_id c = Some (strip pane_id c)" "wc_id (strip pane_id c) = wc_id c"
    "wc_pane_ids (strip pane_id c) = remove1 pane_id (wc_pane_ids c)"
    "wc_pane_ids (strip pane_id c) \<noteq> [] \<Longrightarrow> column_ok (strip pane_id c)"
    by (auto simp: strip_def)
qed

definition stripped :: "rtext \<Rightarrow> workspace_column btree \<Rightarrow> workspace_column btree" where
  "stripped pane_id cs = map (\<lambda>(k, c). (k, strip pane_id c)) cs"

definition emptied :: "rtext \<Rightarrow> workspace_column btree \<Rightarrow> rtext list" where
  "emptied pane_id cs = map fst (filter (\<lambda>(k, c). wc_pane_ids c = []) (stripped pane_id cs))"

lemma remove_from_columns_eq:
  assumes "\<forall>(k, c)\<in>set cs. column_ok c"
  shows "remove_from_columns pane_id cs es = Some (stripped pane_id cs, es @ emptied pane_id cs)"
  using assms
  by (induction pane_id cs es rule: remove_from_columns.induct)
    (auto simp: stripped_def emptied_def remove_from_column_ok(1))

lemma drop_column_fields [simp]:
  "wn_columns (drop_column k w) = filter (\<lambda>e. fst e \<noteq> k) (wn_columns w)"
  "wn_center (drop_column k w) = filter (\<lambda>i. i \<noteq> k) (wn_center w)"
  "wn_pinned_left (drop_column k w) = (if wn_pinned_left w = Some k then None else wn_pinned_left w)"
  "wn_pinned_right (drop_column k w) = (if wn_pinned_right w = Some k then None else wn_pinned_right w)"
  "wn_panes (drop_column k w) = wn_panes w" "wn_active (drop_column k w) = wn_active w"
  "wn_version (drop_column k w) = wn_version w" "wn_workspace_id (drop_column k w) = wn_workspace_id w"
  "wn_updated_at (drop_column k w) = wn_updated_at w"
  by (simp_all add: drop_column_def Let_def btree_remove_def case_prod_beta')

lemma fold_drop_column:
  "wn_columns (fold drop_column es w) = filter (\<lambda>e. fst e \<notin> set es) (wn_columns w)"
  "wn_center (fold drop_column es w) = filter (\<lambda>k. k \<notin> set es) (wn_center w)"
  "wn_panes (fold drop_column es w) = wn_panes w" "wn_active (fold drop_column es w) = wn_active w"
  "wn_version (fold drop_column es w) = wn_version w" "wn_workspace_id (fold drop_column es w) = wn_workspace_id w"
  "wn_updated_at (fold drop_column es w) = wn_updated_at w"
  by (induction es arbitrary: w) (simp_all add: conj_commute)

lemma fold_drop_pinned:
  "wn_pinned_left (fold drop_column es w) = (if wn_pinned_left w \<in> Some ` set es then None else wn_pinned_left w)"
  "wn_pinned_right (fold drop_column es w) = (if wn_pinned_right w \<in> Some ` set es then None else wn_pinned_right w)"
proof (induction es arbitrary: w)
  case (Cons e es)
  { case 1 show ?case using Cons(1) [of "drop_column e w"] by auto }
  { case 2 show ?case using Cons(2) [of "drop_column e w"] by auto }
qed simp_all

text \<open>The columns that are left after a pane is removed.\<close>

definition left_columns :: "rtext \<Rightarrow> workspace_column btree \<Rightarrow> workspace_column btree" where
  "left_columns pane_id cs = filter (\<lambda>(k, c). wc_pane_ids c \<noteq> []) (stripped pane_id cs)"

lemma keys_stripped [simp]: "map fst (stripped pane_id cs) = map fst cs"
  by (simp add: stripped_def comp_def case_prod_beta)

lemma not_emptied:
  assumes "btree_ok cs"
  shows "filter (\<lambda>e. fst e \<notin> set (emptied pane_id cs)) (stripped pane_id cs) = left_columns pane_id cs"
proof -
  have d: "distinct (map fst (stripped pane_id cs))" using btree_ok_distinct [OF assms] by simp
  have mem: "k \<in> set (emptied pane_id cs) \<longleftrightarrow> (\<exists>c. (k, c) \<in> set (stripped pane_id cs) \<and> wc_pane_ids c = [])" for k
    by (auto simp: emptied_def image_iff Bex_def)
  have "(k \<notin> set (emptied pane_id cs)) = (wc_pane_ids c \<noteq> [])" if c: "(k, c) \<in> set (stripped pane_id cs)" for k c
    unfolding mem using c eq_key_imp_eq_value [OF d c] by blast
  then show ?thesis unfolding left_columns_def by (intro filter_cong) auto
qed

lemma column_panes_left:
  assumes "\<forall>(k, c)\<in>set cs. column_ok c" "distinct (column_panes cs)"
  shows "column_panes (left_columns pane_id cs) = remove1 pane_id (column_panes cs)"
  using assms
proof (induction cs)
  case (Cons e cs)
  obtain k c where e: "e = (k, c)" by force
  have ids: "wc_pane_ids (strip pane_id c) = remove1 pane_id (wc_pane_ids c)"
    using Cons.prems by (auto simp: e remove_from_column_ok)
  have IH: "column_panes (left_columns pane_id cs) = remove1 pane_id (column_panes cs)"
    using Cons by (simp add: column_panes_def)
  have "column_panes (left_columns pane_id (e # cs)) = remove1 pane_id (wc_pane_ids c) @ column_panes (left_columns pane_id cs)"
    by (simp add: left_columns_def stripped_def column_panes_def e ids)
  moreover have "pane_id \<in> set (wc_pane_ids c) \<Longrightarrow> pane_id \<notin> set (column_panes cs)"
    using Cons.prems(2) by (auto simp: column_panes_def e)
  ultimately show ?case
    using IH by (auto simp: e column_panes_def remove1_append remove1_idem)
qed (simp add: column_panes_def left_columns_def stripped_def)

lemma first_center_pane_mem:
  assumes "first_center_pane w = Some p"
  shows "p \<in> set (column_panes (wn_columns w))"
proof -
  let ?ps = "concat (map wc_pane_ids (List.map_filter (\<lambda>k. map_of (wn_columns w) k) (wn_center w)))"
  obtain ps where e: "?ps = p # ps" using assms by (auto simp: first_center_pane_def split: list.splits)
  have "p \<in> set ?ps" unfolding e by simp
  then obtain k c where "map_of (wn_columns w) k = Some c" "p \<in> set (wc_pane_ids c)"
    by (auto simp: List.map_filter_def)
  then show ?thesis by (force simp: column_panes_def dest: map_of_SomeD)
qed

text \<open>A layout without one of its panes.\<close>

definition without_pane :: "rtext \<Rightarrow> workspace_snapshot \<Rightarrow> workspace_snapshot" where
  "without_pane pane_id w = fold drop_column (emptied pane_id (wn_columns w))
     (w\<lparr>wn_panes := btree_remove pane_id (wn_panes w), wn_columns := stripped pane_id (wn_columns w)\<rparr>)"

lemma remove_pane_eq:
  assumes "layout_ok w"
  shows "remove_pane now w pane_id =
    (if pane_id \<notin> keys (wn_panes w) then Some (Inl (MissingPane pane_id))
     else Some (Inr ((if wn_active w = Some pane_id
       then (without_pane pane_id w)\<lparr>wn_active := first_center_pane (without_pane pane_id w)\<rparr>
       else without_pane pane_id w)\<lparr>wn_updated_at := now\<rparr>)))"
proof -
  have "\<forall>(k, c)\<in>set (wn_columns w). column_ok c" using layout_okD(4) [OF assms] by auto
  then show ?thesis
    by (simp add: remove_pane_def map_of_eq_None_iff remove_from_columns_eq without_pane_def Let_def fold_drop_column)
qed

lemma without_pane_fields:
  assumes "layout_ok w"
  shows "wn_columns (without_pane pane_id w) = left_columns pane_id (wn_columns w)"
    "wn_panes (without_pane pane_id w) = btree_remove pane_id (wn_panes w)"
    "wn_active (without_pane pane_id w) = wn_active w"
    "wn_center (without_pane pane_id w) = filter (\<lambda>k. k \<notin> set (emptied pane_id (wn_columns w))) (wn_center w)"
  using not_emptied [OF layout_okD(2) [OF assms]] by (simp_all add: without_pane_def fold_drop_column)

lemma keys_left:
  assumes "btree_ok cs"
  shows "keys (left_columns pane_id cs) = keys cs - set (emptied pane_id cs)"
proof -
  have "keys (left_columns pane_id cs) = {k \<in> keys (stripped pane_id cs). k \<notin> set (emptied pane_id cs)}"
    unfolding not_emptied [OF assms, symmetric] by auto
  also have "keys (stripped pane_id cs) = keys cs" using keys_stripped [of pane_id cs] by (metis set_map)
  finally show ?thesis by auto
qed

lemma layout_ok_without:
  assumes ok: "layout_ok w" and active: "wn_active w' = wn_active w \<and> wn_active w \<noteq> Some pane_id \<or> wn_active w' = first_center_pane w'"
    and w': "w' = (without_pane pane_id w)\<lparr>wn_active := wn_active w', wn_updated_at := wn_updated_at w'\<rparr>"
  shows "layout_ok w'"
proof -
  note d = layout_okD [OF ok]
  note f = without_pane_fields [OF ok, of pane_id]
  have cols: "\<forall>(k, c)\<in>set (wn_columns w). column_ok c" using d(4) by auto
  have P: "wn_panes w' = btree_remove pane_id (wn_panes w)" "wn_columns w' = left_columns pane_id (wn_columns w)"
    "wn_center w' = filter (\<lambda>k. k \<notin> set (emptied pane_id (wn_columns w))) (wn_center w)"
    by (subst w', simp add: f)+
  have pins: "wn_pinned_left w' = (if wn_pinned_left w \<in> Some ` set (emptied pane_id (wn_columns w)) then None else wn_pinned_left w)"
    "wn_pinned_right w' = (if wn_pinned_right w \<in> Some ` set (emptied pane_id (wn_columns w)) then None else wn_pinned_right w)"
    by (subst w', simp add: without_pane_def fold_drop_pinned)+
  have panes: "column_panes (wn_columns w') = remove1 pane_id (column_panes (wn_columns w))"
    unfolding P using column_panes_left [OF cols d(5)] .
  then have set: "set (column_panes (wn_columns w')) = keys (wn_panes w')" "distinct (column_panes (wn_columns w'))"
    using d(5,6) by (simp_all add: P set_remove1_eq)
  note k = keys_left [OF d(2), of pane_id]
  have "btree_ok (wn_columns w')" unfolding P left_columns_def
    using d(2) by (intro btree_ok_filter) (simp add: btree_ok_def)
  moreover have "\<forall>(k, p)\<in>set (wn_panes w'). ps_id p = k" using d(3) by (auto simp: P btree_remove_def)
  moreover have "\<forall>(k, c)\<in>set (wn_columns w'). wc_id c = k \<and> column_ok c"
    using d(4) remove_from_column_ok(2,4) by (fastforce simp: P left_columns_def stripped_def)
  moreover have "distinct (wn_center w')" "set (wn_center w') \<subseteq> keys (wn_columns w')"
    using d(7,8) unfolding P k by auto
  moreover have "set_option (wn_pinned_left w') \<subseteq> keys (wn_columns w')" "set_option (wn_pinned_right w') \<subseteq> keys (wn_columns w')"
    using d(9,10) unfolding P k pins by auto
  moreover have "set_option (wn_active w') \<subseteq> keys (wn_panes w')"
    using active
  proof
    assume "wn_active w' = wn_active w \<and> wn_active w \<noteq> Some pane_id"
    then show ?thesis using d(11) unfolding P by auto
  next
    assume "wn_active w' = first_center_pane w'"
    then show ?thesis using first_center_pane_mem [of w'] set(1) by (cases "wn_active w'") auto
  qed
  moreover have "btree_ok (wn_panes w')" using d(1) unfolding P by simp
  ultimately show ?thesis unfolding layout_ok_def using set by blast
qed

subsection \<open>Identifiers\<close>

definition id_from :: "rtext \<Rightarrow> nat \<Rightarrow> bool" where
  "id_from i n \<longleftrightarrow> (\<exists>pre. i = pre @ 45 # decimal n)"

lemma id_from_next [simp]: "id_from (fst (next_id prefix now n)) n"
  unfolding id_from_def next_id_def by (rule exI [of _ "prefix @ [45] @ decimal_int now"]) simp

lemma id_from_unique:
  assumes "id_from i n" "id_from i m"
  shows "n = m"
proof -
  have tail: "takeWhile (\<lambda>d. d \<noteq> 45) (rev (pre @ 45 # decimal k)) = rev (decimal k)" for pre k
  proof -
    have "\<forall>d\<in>set (rev (decimal k)). d \<noteq> 45" using decimal_digits [of k] by (auto simp: list_all_iff)
    then show ?thesis by (simp, subst takeWhile_append2) auto
  qed
  obtain p q where "i = p @ 45 # decimal n" "i = q @ 45 # decimal m"
    using assms unfolding id_from_def by blast
  then have "rev (decimal n) = rev (decimal m)" using tail [of p n] tail [of q m] by simp
  then show ?thesis by (simp add: decimal_inj)
qed

text \<open>
  The layouts that the operations reach: \<open>n\<close> is the next number of the global counter, from which other
  layouts take identifiers as well (\<open>others\<close>); it does not wrap.
\<close>

inductive layout_history :: "workspace_snapshot \<Rightarrow> nat \<Rightarrow> bool" where
  fresh: "layout_history (create_default_snapshot now ws) n"
| others: "layout_history w n \<Longrightarrow> n \<le> m \<Longrightarrow> layout_history w m"
| add: "layout_history w n \<Longrightarrow> create_pane_state now n ty path kind = (pane, n1)
    \<Longrightarrow> n1 \<le> n2 \<Longrightarrow> add_pane now' n2 w pane = (w', n3) \<Longrightarrow> n + 1 < 2 ^ 64 \<Longrightarrow> n2 + 1 < 2 ^ 64 \<Longrightarrow> layout_history w' n3"
| remove: "layout_history w n \<Longrightarrow> remove_pane now w pane_id = Some (Inr w') \<Longrightarrow> layout_history w' n"

definition ids_below :: "workspace_snapshot \<Rightarrow> nat \<Rightarrow> bool" where
  "ids_below w n \<longleftrightarrow> (\<forall>i\<in>keys (wn_panes w) \<union> keys (wn_columns w). \<exists>m<n. id_from i m)"

lemma layout_ok_remove:
  assumes ok: "layout_ok w" and r: "remove_pane now w pane_id = Some (Inr w')"
  shows "layout_ok w'" "wn_panes w' = btree_remove pane_id (wn_panes w)"
    "wn_columns w' = left_columns pane_id (wn_columns w)"
    "wn_active w' = (if wn_active w = Some pane_id then first_center_pane w' else wn_active w)"
proof -
  have fc: "first_center_pane (v\<lparr>wn_active := a, wn_updated_at := u\<rparr>) = first_center_pane v" for v a u
    by (simp add: first_center_pane_def)
  have w': "w' = (if wn_active w = Some pane_id
       then (without_pane pane_id w)\<lparr>wn_active := first_center_pane (without_pane pane_id w)\<rparr>
       else without_pane pane_id w)\<lparr>wn_updated_at := now\<rparr>"
    using r unfolding remove_pane_eq [OF ok] by (simp split: if_splits)
  note f = without_pane_fields [OF ok, of pane_id]
  show a: "wn_active w' = (if wn_active w = Some pane_id then first_center_pane w' else wn_active w)"
    unfolding w' by (simp add: f fc)
  show "layout_ok w'"
  proof (rule layout_ok_without [OF ok])
    show "wn_active w' = wn_active w \<and> wn_active w \<noteq> Some pane_id \<or> wn_active w' = first_center_pane w'"
      using a by presburger
    show "w' = (without_pane pane_id w)\<lparr>wn_active := wn_active w', wn_updated_at := wn_updated_at w'\<rparr>"
      by (subst w', simp add: w')
  qed
  show "wn_panes w' = btree_remove pane_id (wn_panes w)" "wn_columns w' = left_columns pane_id (wn_columns w)"
    unfolding w' by (simp_all add: f)
qed

lemma create_pane_state_id:
  "create_pane_state now n ty path kind = (pane, n1) \<Longrightarrow> id_from (ps_id pane) n \<and> n1 = (n + 1) mod 2 ^ 64"
  using id_from_next [of "bytes ''pane''" now n]
  by (auto simp: create_pane_state_def next_id_def Let_def split: prod.splits pane_type.splits)

lemma ids_below_fresh: "ids_below w n \<Longrightarrow> id_from i m \<Longrightarrow> n \<le> m \<Longrightarrow> i \<notin> keys (wn_panes w) \<and> i \<notin> keys (wn_columns w)"
proof -
  assume ids: "ids_below w n" and i: "id_from i m" and le: "n \<le> m"
  have "i \<notin> keys (wn_panes w) \<union> keys (wn_columns w)"
  proof
    assume "i \<in> keys (wn_panes w) \<union> keys (wn_columns w)"
    then obtain m' where "m' < n" "id_from i m'" using ids unfolding ids_below_def by blast
    then show False using id_from_unique [OF i] le by fastforce
  qed
  then show ?thesis by blast
qed

lemma ids_below_mono: "ids_below w n \<Longrightarrow> n \<le> m \<Longrightarrow> ids_below w m"
  unfolding ids_below_def by (meson less_le_trans)

lemma layout_history_inv:
  assumes "layout_history w n"
  shows "layout_ok w \<and> ids_below w n"
  using assms
proof induction
  case (fresh now ws n)
  then show ?case using layout_ok_default by (simp add: ids_below_def create_default_snapshot_def)
next
  case (others w n m)
  then show ?case by (blast intro: ids_below_mono)
next
  case (add w n now ty path kind pane n1 n2 now' w' n3)
  have pane: "id_from (ps_id pane) n" "n1 = n + 1" using create_pane_state_id [OF add.hyps(2)] add.hyps by simp_all
  let ?k = "fst (next_id (bytes ''column'') now' n2)"
  have w': "w' = fst (add_pane now' n2 w pane)" "n3 = n2 + 1"
    using add.hyps(4,6) by (auto simp: add_pane_def next_id_def Let_def)
  have fresh: "ps_id pane \<notin> keys (wn_panes w)" "?k \<notin> keys (wn_columns w)"
    using ids_below_fresh [OF _ pane(1), of w n] ids_below_fresh [OF _ id_from_next, of w n n2] pane(2) add.hyps(3) add.IH
    by simp_all
  have "layout_ok w'" unfolding w' using add.IH fresh by (intro layout_ok_add) auto
  moreover have "ids_below w' n3"
  proof -
    have "ids_below w n3" using add.IH ids_below_mono [of w n n3] pane(2) w'(2) add.hyps(3) by simp
    moreover have "\<exists>m<n3. id_from (ps_id pane) m" "\<exists>m<n3. id_from ?k m"
      using pane w'(2) add.hyps(3) id_from_next by (auto intro: exI [of _ n] exI [of _ n2])
    ultimately show ?thesis unfolding ids_below_def w'(1) add_pane_fields keys_btree_insert by blast
  qed
  ultimately show ?case by simp
next
  case (remove w n now pane_id w')
  then have ok: "layout_ok w" and ids: "ids_below w n" by auto
  note r = layout_ok_remove [OF ok remove.hyps(2)]
  have "keys (wn_columns w') \<subseteq> keys (wn_columns w)"
    unfolding r(3) using keys_left [OF layout_okD(2) [OF ok]] by auto
  moreover have "keys (wn_panes w') \<subseteq> keys (wn_panes w)" unfolding r(2) by auto
  ultimately have "ids_below w' n" using ids unfolding ids_below_def by blast
  then show ?case using r(1) by simp
qed

subsection \<open>Contracts\<close>

text \<open>C25. Every layout reached from the default one by adding panes the program creates and by removing
  panes is well formed: each pane is in exactly one column, no column is empty, every column has one
  height per pane, the centre list has no duplicate and names, like the pinned and active fields, only
  what exists. Identifiers come from one global counter and never clash.\<close>

theorem layout_reachable_ok:
  assumes "layout_history w n"
  shows "layout_ok w"
  using layout_history_inv [OF assms] by simp

text \<open>C26. Removing a pane from a well-formed layout never panics. A pane that does not exist is the error that
  names it; otherwise the layout stays well formed, exactly that pane is gone from the panes and from the
  columns, and when it was active the first pane of the centre columns becomes active.\<close>

theorem remove_pane_contract:
  assumes "layout_ok w"
  shows "case remove_pane now w pane_id of
     None \<Rightarrow> False
   | Some (Inl e) \<Rightarrow> pane_id \<notin> keys (wn_panes w) \<and> e = MissingPane pane_id
   | Some (Inr w') \<Rightarrow> pane_id \<in> keys (wn_panes w) \<and> layout_ok w'
       \<and> wn_panes w' = btree_remove pane_id (wn_panes w)
       \<and> column_panes (wn_columns w') = remove1 pane_id (column_panes (wn_columns w))
       \<and> wn_active w' = (if wn_active w = Some pane_id then first_center_pane w' else wn_active w)"
proof (cases "pane_id \<in> keys (wn_panes w)")
  case False
  then show ?thesis by (simp add: remove_pane_eq [OF assms])
next
  case True
  then obtain w' where r: "remove_pane now w pane_id = Some (Inr w')" by (simp add: remove_pane_eq [OF assms])
  have cols: "\<forall>(k, c)\<in>set (wn_columns w). column_ok c" using layout_okD(4) [OF assms] by auto
  note f = layout_ok_remove [OF assms r]
  have "column_panes (wn_columns w') = remove1 pane_id (column_panes (wn_columns w))"
    unfolding f(3) by (rule column_panes_left [OF cols layout_okD(5) [OF assms]])
  then show ?thesis using True f(1,2,4) by (simp add: r)
qed

subsection \<open>Removing undoes adding\<close>

lemma strip_other:
  assumes "column_ok c" "pane_id \<notin> set (wc_pane_ids c)"
  shows "strip pane_id c = c"
proof -
  have "position pane_id (wc_pane_ids c) = None" using assms(2) by (simp add: position_remove)
  moreover have "wc_heights c \<noteq> []" using assms(1) by (auto simp: column_ok_def)
  ultimately show ?thesis using assms(1) by (simp add: strip_def remove_from_column_def normalize_heights_def column_ok_def)
qed

lemma left_columns_add:
  assumes "\<forall>(k, c)\<in>set cs. column_ok c \<and> pane_id \<notin> set (wc_pane_ids c)" "k \<notin> keys cs"
    and c: "column_ok c" "wc_pane_ids c = [pane_id]"
  shows "left_columns pane_id (btree_insert k c cs) = cs \<and> emptied pane_id (btree_insert k c cs) = [k]"
proof -
  have s: "wc_pane_ids (strip pane_id c) = []" using remove_from_column_ok(3) [OF c(1), of pane_id] c(2) by simp
  have o: "left_columns pane_id cs = cs \<and> emptied pane_id cs = []"
    if "\<forall>(k, c)\<in>set cs. column_ok c \<and> pane_id \<notin> set (wc_pane_ids c)" for cs
    using that
    by (induction cs) (auto simp: left_columns_def emptied_def stripped_def strip_other column_ok_def)
  show ?thesis
    using assms(1,2) s
  proof (induction k c cs rule: btree_insert.induct)
    case (2 k v k' v' es)
    have v': "strip pane_id v' = v'" "wc_pane_ids v' \<noteq> []" using 2(2) by (auto simp: strip_other column_ok_def)
    show ?case
    proof (cases "k < k'")
      case True
      then show ?thesis using 2(4) o [OF 2(2)] by (simp add: left_columns_def emptied_def stripped_def)
    next
      case False
      then have "left_columns pane_id (btree_insert k v es) = es \<and> emptied pane_id (btree_insert k v es) = [k]"
        using 2 by auto
      then show ?thesis using False v' 2(3) by (simp add: left_columns_def emptied_def stripped_def)
    qed
  qed (simp add: left_columns_def emptied_def stripped_def)
qed

text \<open>Adding a new pane and removing it gives the layout back, but for the active pane, which is the first
  of the centre columns, and the time of the update.\<close>

theorem remove_undoes_add:
  assumes ok: "layout_ok w" and new: "ps_id pane \<notin> keys (wn_panes w)" "fst (next_id (bytes ''column'') now n) \<notin> keys (wn_columns w)"
  shows "remove_pane later (fst (add_pane now n w pane)) (ps_id pane)
    = Some (Inr (w\<lparr>wn_active := first_center_pane w, wn_updated_at := later\<rparr>))"
proof -
  note d = layout_okD [OF ok]
  let ?w = "fst (add_pane now n w pane)" and ?k = "fst (next_id (bytes ''column'') now n)"
  have ok': "layout_ok ?w" by (rule layout_ok_add [OF ok new])
  have "\<forall>(k, c)\<in>set (wn_columns w). column_ok c \<and> ps_id pane \<notin> set (wc_pane_ids c)"
  proof clarify
    fix k c assume kc: "(k, c) \<in> set (wn_columns w)"
    then have "set (wc_pane_ids c) \<subseteq> set (column_panes (wn_columns w))" by (force simp: column_panes_def)
    then show "column_ok c \<and> ps_id pane \<notin> set (wc_pane_ids c)" using kc d(4) new(1) unfolding d(6) by blast
  qed
  then have L: "left_columns (ps_id pane) (wn_columns ?w) = wn_columns w \<and> emptied (ps_id pane) (wn_columns ?w) = [?k]"
    unfolding add_pane_fields by (rule left_columns_add [OF _ new(2)]) (simp_all add: column_ok_def)
  have center: "filter (\<lambda>k. k \<noteq> ?k) (wn_center w) = wn_center w"
    using d(8) new(2) by (auto simp: filter_id_conv)
  have pins: "wn_pinned_left w \<noteq> Some ?k" "wn_pinned_right w \<noteq> Some ?k" using d(9,10) new(2) by auto
  define V where "V = without_pane (ps_id pane) ?w"
  note f = without_pane_fields [OF ok', of "ps_id pane", folded V_def]
  have V: "wn_columns V = wn_columns w" "wn_center V = wn_center w" "wn_panes V = wn_panes w"
    using f L center by (simp_all add: add_pane_fields(1,3) remove_insert [OF d(1) new(1)])
  have V': "wn_pinned_left V = wn_pinned_left w" "wn_pinned_right V = wn_pinned_right w"
    using L pins by (simp_all add: V_def without_pane_def fold_drop_pinned add_pane_fields(5,6))
  have V'': "wn_version V = wn_version w" "wn_workspace_id V = wn_workspace_id w"
    by (simp_all add: V_def without_pane_def fold_drop_column add_pane_fields(7,8))
  have W: "V\<lparr>wn_active := x, wn_updated_at := u\<rparr> = w\<lparr>wn_active := x, wn_updated_at := u\<rparr>" for x u
    by (rule workspace_snapshot.equality) (simp_all add: V V' V'')
  have fc: "first_center_pane V = first_center_pane w" by (simp add: first_center_pane_def V)
  have "ps_id pane \<in> keys (wn_panes ?w)" by (simp add: add_pane_fields)
  then show ?thesis unfolding remove_pane_eq [OF ok'] V_def [symmetric] by (simp add: fc W add_pane_fields(4))
qed

definition demo_pane :: "f64 pane_state" where
  "demo_pane = fst (create_pane_state 6 1 PaneShell (bytes ''/tmp'') None)"

definition demo_layout :: workspace_snapshot where
  "demo_layout = fst (add_pane 7 2 (create_default_snapshot 5 (bytes ''ws'')) demo_pane)"

lemma demo_history: "layout_history demo_layout 3"
proof (rule layout_history.add [OF layout_history.fresh [of 5 "bytes ''ws''" 1]])
  show "create_pane_state 6 1 PaneShell (bytes ''/tmp'') None = (demo_pane, 2)"
    by (rule prod_eqI) (simp_all add: demo_pane_def create_pane_state_def next_id_def Let_def)
  show "add_pane 7 2 (create_default_snapshot 5 (bytes ''ws'')) demo_pane = (demo_layout, 3)"
    by (rule prod_eqI) (simp_all add: demo_layout_def add_pane_def next_id_def Let_def)
qed simp_all

theorem layout_reachable_ok_witness: "layout_ok demo_layout"
  by (rule layout_reachable_ok [OF demo_history])

lemma demo_pane_id: "ps_id demo_pane \<in> keys (wn_panes demo_layout)"
  by (simp add: demo_layout_def add_pane_fields)

theorem remove_pane_contract_witness:
  "\<exists>w'. remove_pane 9 demo_layout (ps_id demo_pane) = Some (Inr w') \<and> layout_ok w' \<and> wn_panes w' = []"
  using remove_pane_contract [where w = demo_layout and now = 9 and pane_id = "ps_id demo_pane"] layout_history_inv [OF demo_history] demo_pane_id
  by (auto split: option.splits sum.splits
      simp: demo_layout_def add_pane_fields create_default_snapshot_def btree_remove_def)

theorem remove_undoes_add_witness:
  "remove_pane 9 demo_layout (ps_id demo_pane)
    = Some (Inr ((create_default_snapshot 5 (bytes ''ws''))\<lparr>wn_active := None, wn_updated_at := 9\<rparr>))"
  using remove_undoes_add [OF layout_ok_default, of demo_pane 5 "bytes ''ws''" 7 2 9]
  by (simp add: demo_layout_def create_default_snapshot_def first_center_pane_def)

end
