(* ===== verification/Live_Snapshot.thy ===== *)
theory Live_Snapshot
  imports Rust_Text
begin

section \<open>Snapshots of a live terminal (\<open>octty-term/src/live_types.rs\<close>, \<open>live_snapshot.rs\<close>)\<close>

text \<open>
  A live terminal's thread keeps a terminal of the library \<open>libghostty_vt\<close>. \<open>snapshot\<close> copies its
  rendered cells and finds the rows that differ from the last copy by comparing hashes of the rows. What
  the library renders is a \<open>render_frame\<close>, and the row hash (\<open>DefaultHasher\<close>, whose algorithm the standard
  library leaves open) is a parameter. Times are nanoseconds of a monotonic clock.
\<close>

type_synonym u64 = nat
type_synonym instant = nat
type_synonym duration = nat

definition as_u32 :: "nat \<Rightarrow> u32" where
  "as_u32 n = n mod 4294967296"

definition u32_sat_add :: "u32 \<Rightarrow> u32 \<Rightarrow> u32" where
  "u32_sat_add a b = min (a + b) 4294967295"

definition u32_sat_mul :: "u32 \<Rightarrow> u32 \<Rightarrow> u32" where
  "u32_sat_mul a b = min (a * b) 4294967295"

definition u64_sat_add :: "u64 \<Rightarrow> u64 \<Rightarrow> u64" where
  "u64_sat_add a b = min (a + b) 18446744073709551615"

definition usize_sat_mul :: "usize \<Rightarrow> usize \<Rightarrow> usize" where
  "usize_sat_mul a b = min (a * b) 18446744073709551615"

definition from_millis :: "nat \<Rightarrow> duration" where
  "from_millis n = n * 1000000"

text \<open>\<open>saturating_duration_since\<close> and \<open>Duration::saturating_sub\<close>.\<close>

definition saturating_duration_since :: "instant \<Rightarrow> instant \<Rightarrow> duration" where
  "saturating_duration_since later earlier = (if earlier \<le> later then later - earlier else 0)"

definition duration_saturating_sub :: "duration \<Rightarrow> duration \<Rightarrow> duration" where
  "duration_saturating_sub a b = (if b \<le> a then a - b else 0)"

definition micros_since :: "instant \<Rightarrow> instant \<Rightarrow> u64" where
  "micros_since start stop = min (saturating_duration_since stop start div 1000) 18446744073709551615"

subsection \<open>The data\<close>

record terminal_rgb =
  rgb_r :: u8
  rgb_g :: u8
  rgb_b :: u8

record cell_snapshot =
  cs_text :: rtext
  cs_width :: u8
  cs_fg :: "terminal_rgb option"
  cs_bg :: "terminal_rgb option"
  cs_bold :: bool
  cs_italic :: bool
  cs_faint :: bool
  cs_blink :: bool
  cs_underline :: bool
  cs_inverse :: bool
  cs_invisible :: bool
  cs_strikethrough :: bool
  cs_overline :: bool

record row_snapshot =
  rs_cells :: "cell_snapshot list"

record cursor_snapshot =
  cu_col :: u16
  cu_row :: u16
  cu_visible :: bool

record scroll_snapshot =
  so_total :: u64
  so_offset :: u64
  so_len :: u64

record damage_snapshot =
  dm_full :: bool
  dm_rows :: "u16 list"
  dm_cells :: u32

record snapshot_timing =
  ti_pty_to_snapshot :: "u64 option"
  ti_vt_write :: u64
  ti_pty_bytes :: u64
  ti_update :: u64
  ti_extract :: u64
  ti_build :: u64
  ti_cells :: u32
  ti_text_cells :: u32
  ti_dirty_rows :: u32
  ti_dirty_cells :: u32

record grid_snapshot =
  gs_session_id :: rtext
  gs_cols :: u16
  gs_rows :: u16
  gs_scroll :: scroll_snapshot
  gs_default_fg :: terminal_rgb
  gs_default_bg :: terminal_rgb
  gs_cursor :: "cursor_snapshot option"
  gs_damage :: damage_snapshot
  gs_rows_data :: "row_snapshot list"
  gs_plain_text :: rtext
  gs_timing :: snapshot_timing

subsection \<open>What the library renders\<close>

datatype cell_wide = CellNarrow | CellWideCell | SpacerTail | SpacerHead

record render_cell =
  rc_graphemes :: "rchar list"
  rc_wide :: cell_wide
  rc_fg :: "terminal_rgb option"
  rc_bg :: "terminal_rgb option"
  rc_bold :: bool
  rc_italic :: bool
  rc_faint :: bool
  rc_blink :: bool
  rc_underlined :: bool
  rc_inverse :: bool
  rc_invisible :: bool
  rc_strikethrough :: bool
  rc_overline :: bool

record render_frame =
  rf_fg :: terminal_rgb
  rf_bg :: terminal_rgb
  rf_cursor_visible :: bool
  rf_cursor_viewport :: "(u16 \<times> u16) option"
  rf_cols :: u16
  rf_rows :: u16
  rf_scrollbar :: scroll_snapshot
  rf_cells :: "render_cell list list"

subsection \<open>Extracting a snapshot\<close>

record extractor =
  ex_row_hashes :: "u64 list"
  ex_size :: "(u16 \<times> u16) option"

definition extractor_new :: extractor where
  "extractor_new = \<lparr>ex_row_hashes = [], ex_size = None\<rparr>"

definition cell_width :: "cell_wide \<Rightarrow> u8" where
  "cell_width w = (case w of CellNarrow \<Rightarrow> 1 | CellWideCell \<Rightarrow> 2 | SpacerTail \<Rightarrow> 0 | SpacerHead \<Rightarrow> 0)"

definition extract_cell :: "render_cell \<Rightarrow> cell_snapshot" where
  "extract_cell c =
     \<lparr>cs_text = rc_graphemes c, cs_width = cell_width (rc_wide c), cs_fg = rc_fg c, cs_bg = rc_bg c,
      cs_bold = rc_bold c, cs_italic = rc_italic c, cs_faint = rc_faint c, cs_blink = rc_blink c,
      cs_underline = rc_underlined c, cs_inverse = rc_inverse c, cs_invisible = rc_invisible c,
      cs_strikethrough = rc_strikethrough c, cs_overline = rc_overline c\<rparr>"

text \<open>What the loops over the rows and cells gather.\<close>

record extraction =
  xt_rows :: "row_snapshot list"
  xt_plain :: rtext
  xt_cells :: u32
  xt_text_cells :: u32
  xt_dirty :: "u16 list"
  xt_hashes :: "u64 list"

definition extraction_start :: extraction where
  "extraction_start = \<lparr>xt_rows = [], xt_plain = [], xt_cells = 0, xt_text_cells = 0, xt_dirty = [], xt_hashes = []\<rparr>"

fun count_cells :: "render_cell list \<Rightarrow> u32 \<times> u32 \<Rightarrow> u32 \<times> u32" where
  "count_cells [] n = n"
| "count_cells (c # cs) (cells, texts) =
     count_cells cs (u32_sat_add cells 1, if rc_graphemes c = [] then texts else u32_sat_add texts 1)"

definition row_text :: "render_cell list \<Rightarrow> rtext" where
  "row_text cs = concat (map (\<lambda>c. if rc_graphemes c = [] then [32] else rc_graphemes c) cs)"

fun extract_rows ::
  "(cell_snapshot list \<Rightarrow> u64) \<Rightarrow> u64 list \<Rightarrow> bool \<Rightarrow> u16 \<Rightarrow> render_cell list list \<Rightarrow> extraction \<Rightarrow> extraction" where
  "extract_rows row_hash previous size_changed row_index [] x = x"
| "extract_rows row_hash previous size_changed row_index (r # rs) x =
     (let cells = map extract_cell r;
          counts = count_cells r (xt_cells x, xt_text_cells x);
          hash = row_hash cells;
          row_changed = (size_changed \<or> row_index \<ge> length previous \<or> previous ! row_index \<noteq> hash)
      in extract_rows row_hash previous size_changed (u16_sat_add row_index 1) rs
           \<lparr>xt_rows = xt_rows x @ [\<lparr>rs_cells = cells\<rparr>], xt_plain = xt_plain x @ trim_end (row_text r) @ [10],
            xt_cells = fst counts, xt_text_cells = snd counts,
            xt_dirty = (if row_changed then xt_dirty x @ [row_index] else xt_dirty x),
            xt_hashes = xt_hashes x @ [hash]\<rparr>)"

text \<open>
  The two durations are what the clock measures. A failing call of the library ends the function with its
  error before anything is kept, so the frame is the one the library gives when every call succeeds.
\<close>

definition snapshot ::
  "(cell_snapshot list \<Rightarrow> u64) \<Rightarrow> u64 \<Rightarrow> u64 \<Rightarrow> rtext \<Rightarrow> render_frame \<Rightarrow> extractor \<Rightarrow> grid_snapshot \<times> extractor" where
  "snapshot row_hash update_micros extract_micros session_id f ex =
     (let size_changed = (ex_size ex \<noteq> Some (rf_cols f, rf_rows f));
          x = extract_rows row_hash (ex_row_hashes ex) size_changed 0 (rf_cells f) extraction_start;
          dirty = remdups_adj (sort (xt_dirty x));
          dirty_count = as_u32 (length dirty);
          dirty_cells = u32_sat_mul dirty_count (rf_cols f)
      in (\<lparr>gs_session_id = session_id, gs_cols = rf_cols f, gs_rows = rf_rows f, gs_scroll = rf_scrollbar f,
           gs_default_fg = rf_fg f, gs_default_bg = rf_bg f,
           gs_cursor = (if rf_cursor_visible f
                        then map_option (\<lambda>(x, y). \<lparr>cu_col = x, cu_row = y, cu_visible = True\<rparr>) (rf_cursor_viewport f)
                        else None),
           gs_damage = \<lparr>dm_full = (dirty_count = rf_rows f), dm_rows = dirty, dm_cells = dirty_cells\<rparr>,
           gs_rows_data = xt_rows x, gs_plain_text = xt_plain x,
           gs_timing = \<lparr>ti_pty_to_snapshot = None, ti_vt_write = 0, ti_pty_bytes = 0, ti_update = update_micros,
             ti_extract = extract_micros, ti_build = 0, ti_cells = xt_cells x, ti_text_cells = xt_text_cells x,
             ti_dirty_rows = dirty_count, ti_dirty_cells = dirty_cells\<rparr>\<rparr>,
          \<lparr>ex_row_hashes = xt_hashes x, ex_size = Some (rf_cols f, rf_rows f)\<rparr>))"

subsection \<open>What a snapshot holds\<close>

lemma extract_rows_data:
  "xt_rows (extract_rows h p sc i rs x) = xt_rows x @ map (\<lambda>r. \<lparr>rs_cells = map extract_cell r\<rparr>) rs"
  by (induction rs arbitrary: i x) (simp_all add: Let_def)

lemma extract_rows_hashes:
  "xt_hashes (extract_rows h p sc i rs x) = xt_hashes x @ map (\<lambda>r. h (map extract_cell r)) rs"
  by (induction rs arbitrary: i x) (simp_all add: Let_def)

text \<open>\<open>row_differs\<close>: what the comparison of hashes finds at a row.\<close>

definition row_differs :: "(cell_snapshot list \<Rightarrow> u64) \<Rightarrow> u64 list \<Rightarrow> bool \<Rightarrow> render_cell list list \<Rightarrow> nat \<Rightarrow> bool" where
  "row_differs h p sc rs j \<longleftrightarrow> sc \<or> j \<ge> length p \<or> p ! j \<noteq> h (map extract_cell (rs ! j))"

lemma extract_rows_dirty:
  "i + length rs < 65536 \<Longrightarrow>
   xt_dirty (extract_rows h p sc i rs x) =
     xt_dirty x @ filter (\<lambda>j. sc \<or> j \<ge> length p \<or> p ! j \<noteq> h (map extract_cell (rs ! (j - i)))) [i..<i + length rs]"
proof (induction rs arbitrary: i x)
  case (Cons r rs)
  let ?P = "\<lambda>j. sc \<or> j \<ge> length p \<or> p ! j \<noteq> h (map extract_cell ((r # rs) ! (j - i)))"
  have step: "u16_sat_add i 1 = Suc i" using Cons.prems by (simp add: u16_sat_add_def u16_max_def)
  have upt: "[i..<i + length (r # rs)] = i # [Suc i..<Suc i + length rs]"
    using upt_conv_Cons [of i "i + length (r # rs)"] by simp
  have rest: "filter (\<lambda>j. sc \<or> j \<ge> length p \<or> p ! j \<noteq> h (map extract_cell (rs ! (j - Suc i)))) [Suc i..<Suc i + length rs]
      = filter ?P [Suc i..<Suc i + length rs]"
  proof (rule filter_cong [OF refl])
    fix j
    assume "j \<in> set [Suc i..<Suc i + length rs]"
    then have "j - i = Suc (j - Suc i)" by simp arith
    then show "(sc \<or> j \<ge> length p \<or> p ! j \<noteq> h (map extract_cell (rs ! (j - Suc i)))) = ?P j"
      by (simp only: nth_Cons_Suc)
  qed
  have pre: "Suc i + length rs < 65536" using Cons.prems by simp
  show ?case
    by (simp only: extract_rows.simps Let_def step Cons.IH [OF pre] rest upt filter.simps) simp
qed simp

lemma extract_dirty:
  assumes "length rs < 65536"
  shows "xt_dirty (extract_rows h p sc 0 rs extraction_start) = filter (row_differs h p sc rs) [0..<length rs]"
  using extract_rows_dirty [of 0 rs h p sc extraction_start] assms
  by (simp add: extraction_start_def row_differs_def [abs_def])

lemma sorted_distinct_normal: "sorted xs \<Longrightarrow> distinct xs \<Longrightarrow> remdups_adj (sort xs) = (xs :: nat list)"
  by (simp add: sorted_sort_id remdups_adj_distinct)

end
