(* ===== verification/Osc_Filter.thy ===== *)
theory Osc_Filter
  imports Rust_Text
begin

section \<open>Operating-system commands of a live terminal (\<open>octty-term/src/live_notifications.rs\<close>)\<close>

text \<open>
  The output of a live terminal goes through a parser that turns notification sequences into
  notifications, and through a filter that takes the shell-integration sequences (133 and 633) out of it.
  Both keep their state between reads. A map collected from an iterator keeps the last of equal keys.
\<close>

definition OSC_MAX_NOTIFICATION_BYTES :: usize where "OSC_MAX_NOTIFICATION_BYTES = 4096"
definition OSC_ESCAPE :: u8 where "OSC_ESCAPE = 27"
definition OSC_BEL :: u8 where "OSC_BEL = 7"

datatype osc_state = Ground | Escape | Osc | OscEscape

record notification =
  no_title :: rtext
  no_body :: rtext

subsection \<open>What a sequence says\<close>

definition sanitize_text :: "rtext \<Rightarrow> rtext" where
  "sanitize_text s = trim (filter (\<lambda>c. \<not> is_control c \<or> c = 10 \<or> c = 9) s)"

definition notification_from_parts :: "rtext \<Rightarrow> rtext \<Rightarrow> notification option" where
  "notification_from_parts title body =
     (let title = sanitize_text title; body = sanitize_text body in
      if title = [] \<and> body = [] then None
      else Some \<lparr>no_title = (if title = [] then bytes ''Terminal'' else title), no_body = body\<rparr>)"

definition metadata_fields :: "rtext \<Rightarrow> rtext \<Rightarrow> rtext option" where
  "metadata_fields metadata = map_of (rev (List.map_filter (split_once 61) (split_on 59 metadata)))"

definition command_exit_status :: "(rtext \<Rightarrow> rtext option) \<Rightarrow> rtext option" where
  "command_exit_status fs =
     (case fs (bytes ''status'') of Some s \<Rightarrow> Some s
      | None \<Rightarrow> (case fs (bytes ''exit_code'') of Some s \<Rightarrow> Some s | None \<Rightarrow> fs (bytes ''exitcode'')))"

definition command_end_notification :: "rtext \<Rightarrow> notification option" where
  "command_end_notification metadata =
     (let metadata = trim metadata; fs = metadata_fields metadata in
      if metadata = [] \<or> metadata = bytes ''0'' \<or> map to_ascii_lowercase metadata = bytes ''success''
         \<or> contains (bytes ''exit=success'') metadata \<or> command_exit_status fs = Some (bytes ''0'')
      then notification_from_parts (bytes ''Command finished'') (bytes ''Command completed.'')
      else let status = (case command_exit_status fs of Some s \<Rightarrow> Some s
                         | None \<Rightarrow> (if parse_i32 metadata \<noteq> None then Some metadata else None));
               signal = fs (bytes ''signal'');
               body = (case (status, signal) of
                   (Some st, Some sg) \<Rightarrow> bytes ''Exited with status '' @ st @ bytes '' ('' @ sg @ bytes '').''
                 | (Some st, None) \<Rightarrow> bytes ''Exited with status '' @ st @ bytes ''.''
                 | (None, Some sg) \<Rightarrow> bytes ''Exited with signal '' @ sg @ bytes ''.''
                 | (None, None) \<Rightarrow> bytes ''Command exited unsuccessfully.'')
           in notification_from_parts (bytes ''Command needs attention'') body)"

definition command_end_metadata :: "rtext \<Rightarrow> rtext option" where
  "command_end_metadata command =
     (if command = bytes ''133;D'' \<or> command = bytes ''633;D'' then Some []
      else case strip_prefix (bytes ''133;D;'') command of Some m \<Rightarrow> Some m
           | None \<Rightarrow> strip_prefix (bytes ''633;D;'') command)"

definition parse_osc_notification :: "u8 list \<Rightarrow> notification option" where
  "parse_osc_notification data =
     (let command = from_utf8_lossy data in
      case strip_prefix (bytes ''9;'') command of
        Some message \<Rightarrow>
          (if message = bytes ''4'' \<or> prefix (bytes ''4;'') message then None
           else notification_from_parts (bytes ''Terminal'') message)
      | None \<Rightarrow>
         (case command_end_metadata command of
            Some metadata \<Rightarrow> command_end_notification metadata
          | None \<Rightarrow>
             (case splitn 4 59 command of
                code # action # rest \<Rightarrow>
                  if code = bytes ''777'' \<and> action = bytes ''notify''
                  then notification_from_parts
                         (case rest of title # _ \<Rightarrow> title | [] \<Rightarrow> bytes ''Terminal'')
                         (case rest of _ # body # _ \<Rightarrow> body | _ \<Rightarrow> [])
                  else None
              | _ \<Rightarrow> None)))"

definition should_strip_osc :: "u8 list \<Rightarrow> bool" where
  "should_strip_osc data \<longleftrightarrow>
     (let command = from_utf8_lossy data in prefix (bytes ''133;'') command \<or> prefix (bytes ''633;'') command)"

subsection \<open>The notification parser\<close>

record osc_parser =
  op_state :: osc_state
  op_data :: "u8 list"

definition parser_new :: osc_parser where
  "parser_new = \<lparr>op_state = Ground, op_data = []\<rparr>"

definition parser_push_osc_byte :: "u8 \<Rightarrow> osc_parser \<Rightarrow> osc_parser" where
  "parser_push_osc_byte b p =
     (if length (op_data p) \<ge> OSC_MAX_NOTIFICATION_BYTES then p\<lparr>op_state := Ground, op_data := []\<rparr>
      else p\<lparr>op_data := op_data p @ [b]\<rparr>)"

definition parser_finish :: "osc_parser \<Rightarrow> notification option \<times> osc_parser" where
  "parser_finish p = (parse_osc_notification (op_data p), p\<lparr>op_state := Ground, op_data := []\<rparr>)"

definition parser_push_byte :: "u8 \<Rightarrow> osc_parser \<Rightarrow> notification option \<times> osc_parser" where
  "parser_push_byte b p =
     (case op_state p of
        Ground \<Rightarrow> (None, if b = OSC_ESCAPE then p\<lparr>op_state := Escape\<rparr> else p)
      | Escape \<Rightarrow>
          (None, if b = 93 then p\<lparr>op_data := [], op_state := Osc\<rparr>
                 else if b \<noteq> OSC_ESCAPE then p\<lparr>op_state := Ground\<rparr> else p)
      | Osc \<Rightarrow>
          (if b = OSC_BEL then parser_finish p
           else if b = OSC_ESCAPE then (None, p\<lparr>op_state := OscEscape\<rparr>)
           else (None, parser_push_osc_byte b p))
      | OscEscape \<Rightarrow>
          (if b = 92 then parser_finish p
           else let p = parser_push_osc_byte OSC_ESCAPE p in
                (None, if b = OSC_ESCAPE then p\<lparr>op_state := OscEscape\<rparr>
                       else (parser_push_osc_byte b p)\<lparr>op_state := Osc\<rparr>)))"

fun parser_push :: "u8 list \<Rightarrow> osc_parser \<Rightarrow> notification list \<times> osc_parser" where
  "parser_push [] p = ([], p)"
| "parser_push (b # bs) p =
     (let (n, p) = parser_push_byte b p; (ns, p) = parser_push bs p
      in ((case n of Some n \<Rightarrow> n # ns | None \<Rightarrow> ns), p))"

subsection \<open>The filter\<close>

record osc_filter =
  of_state :: osc_state
  of_data :: "u8 list"
  of_sequence :: "u8 list"

definition filter_new :: osc_filter where
  "filter_new = \<lparr>of_state = Ground, of_data = [], of_sequence = []\<rparr>"

definition filter_reset :: "osc_filter \<Rightarrow> osc_filter" where
  "filter_reset f = f\<lparr>of_state := Ground, of_data := [], of_sequence := []\<rparr>"

text \<open>Every operation returns the bytes it appends to the output.\<close>

definition filter_finish :: "osc_filter \<Rightarrow> u8 list \<times> osc_filter" where
  "filter_finish f = (if \<not> should_strip_osc (of_data f) then of_sequence f else [], filter_reset f)"

definition filter_push_osc_byte :: "u8 \<Rightarrow> osc_filter \<Rightarrow> u8 list \<times> osc_filter" where
  "filter_push_osc_byte b f =
     (if length (of_data f) \<ge> OSC_MAX_NOTIFICATION_BYTES then (of_sequence f, filter_reset f)
      else ([], f\<lparr>of_sequence := of_sequence f @ [b], of_data := of_data f @ [b]\<rparr>))"

definition filter_push_byte :: "u8 \<Rightarrow> osc_filter \<Rightarrow> u8 list \<times> osc_filter" where
  "filter_push_byte b f =
     (case of_state f of
        Ground \<Rightarrow>
          (if b = OSC_ESCAPE then ([], f\<lparr>of_sequence := [b], of_state := Escape\<rparr>) else ([b], f))
      | Escape \<Rightarrow>
          (let f = f\<lparr>of_sequence := of_sequence f @ [b]\<rparr> in
           if b = 93 then ([], f\<lparr>of_data := [], of_state := Osc\<rparr>)
           else (of_sequence f, filter_reset f))
      | Osc \<Rightarrow>
          (if b = OSC_BEL then filter_finish (f\<lparr>of_sequence := of_sequence f @ [b]\<rparr>)
           else if b = OSC_ESCAPE then ([], f\<lparr>of_sequence := of_sequence f @ [b], of_state := OscEscape\<rparr>)
           else filter_push_osc_byte b f)
      | OscEscape \<Rightarrow>
          (let f = f\<lparr>of_sequence := of_sequence f @ [b]\<rparr> in
           if b = 92 then filter_finish f
           else if length (of_data f) + 2 \<ge> OSC_MAX_NOTIFICATION_BYTES then (of_sequence f, filter_reset f)
           else ([], f\<lparr>of_data := of_data f @ [OSC_ESCAPE, b], of_state := Osc\<rparr>)))"

fun filter_push :: "u8 list \<Rightarrow> osc_filter \<Rightarrow> u8 list \<times> osc_filter" where
  "filter_push [] f = ([], f)"
| "filter_push (b # bs) f =
     (let (out, f) = filter_push_byte b f; (outs, f) = filter_push bs f in (out @ outs, f))"

end
