(* ===== verification/Live_Runtime.thy ===== *)
theory Live_Runtime
  imports Live_Snapshot Osc_Filter
begin

section \<open>The thread of a live terminal (\<open>live_runtime.rs\<close>, \<open>live_input.rs\<close>, \<open>live_types.rs\<close>)\<close>

text \<open>
  The thread waits for a wake-up or a timeout, drains commands and output within bounds, writes input and
  responses to the pseudo-terminal, feeds the output through the two OSC machines to the terminal of the
  library, and sends a snapshot when one is due. The library's terminal is a type \<open>'t\<close> with the operations
  \<open>vt_ops\<close>; what its callbacks do is \<open>apply_event\<close>. One turn of the loop is \<open>tick\<close>, whose environment says
  what the clock, the pseudo-terminal and the child do. The recorder (a debugging aid, off by default)
  is left out.
\<close>

definition DEFAULT_CELL_WIDTH :: u16 where "DEFAULT_CELL_WIDTH = 8"
definition DEFAULT_CELL_HEIGHT :: u16 where "DEFAULT_CELL_HEIGHT = 18"
definition MAX_CONTROL_COMMANDS_PER_TICK :: usize where "MAX_CONTROL_COMMANDS_PER_TICK = 128"
definition MAX_PTY_OUTPUT_CHUNKS_PER_TICK :: usize where "MAX_PTY_OUTPUT_CHUNKS_PER_TICK = 256"
definition MAX_PTY_OUTPUT_BYTES_PER_TICK :: usize where "MAX_PTY_OUTPUT_BYTES_PER_TICK = 256 * 1024"
definition MAX_INITIAL_SNAPSHOTS :: usize where "MAX_INITIAL_SNAPSHOTS = 2"
definition LIVE_TERMINAL_IDLE_TIMEOUT :: duration where "LIVE_TERMINAL_IDLE_TIMEOUT = from_millis 100"
definition LIVE_TERMINAL_SNAPSHOT_INTERVAL :: duration where "LIVE_TERMINAL_SNAPSHOT_INTERVAL = from_millis 33"
definition LIVE_TERMINAL_INTERACTIVE_OUTPUT_WINDOW :: duration where
  "LIVE_TERMINAL_INTERACTIVE_OUTPUT_WINDOW = from_millis 150"

subsection \<open>Keys\<close>

datatype live_key =
    CharacterKey rchar | EnterKey | BackspaceKey | DeleteKey | TabKey | EscapeKey | ArrowLeftKey | ArrowRightKey
  | ArrowUpKey | ArrowDownKey | HomeKey | EndKey | PageUpKey | PageDownKey | InsertKey | SpaceKey | FKey u8

record live_modifiers =
  lm_shift :: bool
  lm_alt :: bool
  lm_control :: bool
  lm_platform :: bool

record key_input =
  ki_key :: live_key
  ki_text :: "rtext option"
  ki_modifiers :: live_modifiers
  ki_unshifted :: rchar

text \<open>The library's keys by the names the source uses: a letter or digit, or a named key.\<close>

datatype vt_key = VkLetter rchar | VkDigit nat | VkNamed string | VkF nat | VkUnidentified

definition punctuation_keys :: "(rchar \<times> string) list" where
  "punctuation_keys = [(45, ''Minus''), (61, ''Equal''), (91, ''BracketLeft''), (93, ''BracketRight''), (92, ''Backslash''),
     (59, ''Semicolon''), (39, ''Quote''), (44, ''Comma''), (46, ''Period''), (47, ''Slash''), (96, ''Backquote''), (32, ''Space'')]"

definition key_from_live_key :: "live_key \<Rightarrow> vt_key" where
  "key_from_live_key k =
     (case k of
        CharacterKey c \<Rightarrow>
          if 97 \<le> c \<and> c \<le> 122 then VkLetter (c - 32)
          else if 65 \<le> c \<and> c \<le> 90 then VkLetter c
          else if 48 \<le> c \<and> c \<le> 57 then VkDigit (c - 48)
          else (case map_of punctuation_keys c of Some n \<Rightarrow> VkNamed n | None \<Rightarrow> VkUnidentified)
      | SpaceKey \<Rightarrow> VkNamed ''Space'' | EnterKey \<Rightarrow> VkNamed ''Enter'' | BackspaceKey \<Rightarrow> VkNamed ''Backspace''
      | DeleteKey \<Rightarrow> VkNamed ''Delete'' | TabKey \<Rightarrow> VkNamed ''Tab'' | EscapeKey \<Rightarrow> VkNamed ''Escape''
      | ArrowLeftKey \<Rightarrow> VkNamed ''ArrowLeft'' | ArrowRightKey \<Rightarrow> VkNamed ''ArrowRight'' | ArrowUpKey \<Rightarrow> VkNamed ''ArrowUp''
      | ArrowDownKey \<Rightarrow> VkNamed ''ArrowDown'' | HomeKey \<Rightarrow> VkNamed ''Home'' | EndKey \<Rightarrow> VkNamed ''End''
      | PageUpKey \<Rightarrow> VkNamed ''PageUp'' | PageDownKey \<Rightarrow> VkNamed ''PageDown'' | InsertKey \<Rightarrow> VkNamed ''Insert''
      | FKey n \<Rightarrow> if 1 \<le> n \<and> n \<le> 12 then VkF n else VkUnidentified)"

record key_event =
  ke_key :: vt_key
  ke_shift :: bool
  ke_alt :: bool
  ke_control :: bool
  ke_super :: bool
  ke_consumed_shift :: bool
  ke_unshifted :: rchar
  ke_text :: "rtext option"

definition key_event_of :: "key_input \<Rightarrow> key_event" where
  "key_event_of i =
     \<lparr>ke_key = key_from_live_key (ki_key i), ke_shift = lm_shift (ki_modifiers i), ke_alt = lm_alt (ki_modifiers i),
      ke_control = lm_control (ki_modifiers i), ke_super = lm_platform (ki_modifiers i),
      ke_consumed_shift = (ki_text i \<noteq> None \<and> lm_shift (ki_modifiers i)), ke_unshifted = ki_unshifted i, ke_text = ki_text i\<rparr>"

subsection \<open>Commands and the library's terminal\<close>

record terminal_resize =
  tr_cols :: u16
  tr_rows :: u16
  tr_pixel_width :: u16
  tr_pixel_height :: u16

datatype live_command = CmdKey key_input | CmdBytes "u8 list" | CmdResize terminal_resize | CmdScroll int | CmdShutdown

datatype vt_event = PtyWrite "u8 list" | Bell

text \<open>
  \<open>vo_write\<close> and \<open>vo_resize\<close> call back with events, and ask for the size of the grid; every fallible
  operation gives an error of type \<open>'e\<close> or its result.
\<close>

record ('t, 'e) vt_ops =
  vo_write :: "u16 \<times> u16 \<Rightarrow> u8 list \<Rightarrow> 't \<Rightarrow> 't \<times> vt_event list"
  vo_resize :: "u16 \<Rightarrow> u16 \<Rightarrow> u16 \<times> u16 \<Rightarrow> 't \<Rightarrow> 'e + 't \<times> vt_event list"
  vo_scroll :: "int \<Rightarrow> 't \<Rightarrow> 't"
  vo_encode :: "'t \<Rightarrow> key_event \<Rightarrow> 'e + u8 list"
  vo_frame :: "'t \<Rightarrow> 'e + render_frame"
  vo_mark_clean :: "'t \<Rightarrow> 'e option"

datatype wake_result = Woken | WaitTimedOut | WakeClosed

record 'e tick_env =
  te_wake :: wake_result
  te_command_at :: "nat \<Rightarrow> instant"
  te_output_at :: instant
  te_due_at :: instant
  te_snapshot_at :: instant
  te_finished_at :: instant
  te_vt_micros :: u64
  te_update_micros :: u64
  te_extract_micros :: u64
  te_write_error :: "'e option"
  te_resize_error :: "'e option"
  te_exit_code :: "nat option"

record live_exit =
  le_session_id :: rtext
  le_exit_code :: "int option"

datatype 'e run_end = RunDone | RunExited live_exit | RunFailed 'e

text \<open>
  The state of the thread. \<open>rt_written\<close>, \<open>rt_notifications\<close>, \<open>rt_snapshots\<close> and \<open>rt_pty_size\<close> are what it has
  sent.
\<close>

record 't runtime =
  rt_session_id :: rtext
  rt_terminal :: 't
  rt_grid_size :: "u16 \<times> u16"
  rt_responses :: "u8 list list"
  rt_extractor :: extractor
  rt_parser :: osc_parser
  rt_filter :: osc_filter
  rt_startup :: "u8 list option"
  rt_commands :: "live_command list"
  rt_output :: "u8 list list"
  rt_changed :: bool
  rt_force :: bool
  rt_emitted :: usize
  rt_last_snapshot :: "instant option"
  rt_last_output :: "instant option"
  rt_interactive_until :: "instant option"
  rt_vt_micros :: u64
  rt_output_bytes :: u64
  rt_written :: "u8 list"
  rt_notifications :: "notification list"
  rt_snapshots :: "grid_snapshot list"
  rt_pty_size :: "(u16 \<times> u16 \<times> u16 \<times> u16) option"

definition runtime_start :: "rtext \<Rightarrow> u16 \<Rightarrow> u16 \<Rightarrow> u8 list option \<Rightarrow> 't \<Rightarrow> 't runtime" where
  "runtime_start sid cols rows startup t =
     \<lparr>rt_session_id = sid, rt_terminal = t, rt_grid_size = (cols, rows), rt_responses = [], rt_extractor = extractor_new,
      rt_parser = parser_new, rt_filter = filter_new, rt_startup = startup, rt_commands = [], rt_output = [],
      rt_changed = True, rt_force = True, rt_emitted = 0, rt_last_snapshot = None, rt_last_output = None,
      rt_interactive_until = None, rt_vt_micros = 0, rt_output_bytes = 0, rt_written = [], rt_notifications = [],
      rt_snapshots = [], rt_pty_size = None\<rparr>"

subsection \<open>When a snapshot is due\<close>

definition terminal_command_wait_timeout :: "bool \<Rightarrow> bool \<Rightarrow> usize \<Rightarrow> instant option \<Rightarrow> instant \<Rightarrow> duration" where
  "terminal_command_wait_timeout changed force emitted last_snapshot now =
     (if \<not> changed then LIVE_TERMINAL_IDLE_TIMEOUT
      else if force \<or> emitted < MAX_INITIAL_SNAPSHOTS then 0
      else (case last_snapshot of
              Some t \<Rightarrow> duration_saturating_sub LIVE_TERMINAL_SNAPSHOT_INTERVAL (saturating_duration_since now t)
            | None \<Rightarrow> 0))"

definition terminal_snapshot_due :: "bool \<Rightarrow> bool \<Rightarrow> usize \<Rightarrow> instant option \<Rightarrow> instant \<Rightarrow> bool" where
  "terminal_snapshot_due changed force emitted last_snapshot now \<longleftrightarrow>
     changed \<and> terminal_command_wait_timeout changed force emitted last_snapshot now = 0"

subsection \<open>Draining the channels\<close>

definition drain_commands :: "live_command list \<Rightarrow> live_command list \<times> live_command list" where
  "drain_commands q = (take MAX_CONTROL_COMMANDS_PER_TICK q, drop MAX_CONTROL_COMMANDS_PER_TICK q)"

fun drain_output :: "usize \<Rightarrow> u8 list \<Rightarrow> u8 list list \<Rightarrow> u8 list \<times> u8 list list" where
  "drain_output chunks out [] = (out, [])"
| "drain_output chunks out (c # q) =
     (if chunks < MAX_PTY_OUTPUT_CHUNKS_PER_TICK
      then (let out = out @ c in
            if length out \<ge> MAX_PTY_OUTPUT_BYTES_PER_TICK then (out, q) else drain_output (chunks + 1) out q)
      else (out, c # q))"

subsection \<open>What the library calls back\<close>

definition terminal_pty_response_is_xtversion :: "u8 list \<Rightarrow> bool" where
  "terminal_pty_response_is_xtversion d \<longleftrightarrow> prefix [27, 80, 62, 124] d \<and> suffix [27, 92] d"

definition bell_notification :: notification where
  "bell_notification = \<lparr>no_title = bytes ''Terminal needs attention'', no_body = bytes ''A terminal emitted a bell.''\<rparr>"

definition apply_event :: "vt_event \<Rightarrow> 't runtime \<Rightarrow> 't runtime" where
  "apply_event ev r =
     (case ev of
        PtyWrite d \<Rightarrow> if terminal_pty_response_is_xtversion d then r else r\<lparr>rt_responses := rt_responses r @ [d]\<rparr>
      | Bell \<Rightarrow> r\<lparr>rt_notifications := rt_notifications r @ [bell_notification]\<rparr>)"

definition pty_write :: "'e tick_env \<Rightarrow> u8 list \<Rightarrow> 't runtime \<Rightarrow> 'e run_end + 't runtime" where
  "pty_write E bs r =
     (case te_write_error E of Some e \<Rightarrow> Inl (RunFailed e) | None \<Rightarrow> Inr (r\<lparr>rt_written := rt_written r @ bs\<rparr>))"

definition drain_pty_responses :: "'e tick_env \<Rightarrow> 't runtime \<Rightarrow> 'e run_end + 't runtime" where
  "drain_pty_responses E r = pty_write E (concat (rt_responses r)) (r\<lparr>rt_responses := []\<rparr>)"

subsection \<open>Commands and output\<close>

record command_effect =
  ce_changed :: bool
  ce_force :: bool
  ce_shutdown :: bool
  ce_vt_micros :: u64
  ce_output_bytes :: u64

definition effect_changed_with_vt_write :: "u64 \<Rightarrow> u64 \<Rightarrow> command_effect" where
  "effect_changed_with_vt_write micros n =
     \<lparr>ce_changed = True, ce_force = False, ce_shutdown = False, ce_vt_micros = micros, ce_output_bytes = n\<rparr>"

definition effect_changed_now :: command_effect where
  "effect_changed_now = \<lparr>ce_changed = True, ce_force = True, ce_shutdown = False, ce_vt_micros = 0, ce_output_bytes = 0\<rparr>"

definition effect_unchanged :: command_effect where
  "effect_unchanged = \<lparr>ce_changed = False, ce_force = False, ce_shutdown = False, ce_vt_micros = 0, ce_output_bytes = 0\<rparr>"

definition handle_command ::
  "('t, 'e) vt_ops \<Rightarrow> 'e tick_env \<Rightarrow> live_command \<Rightarrow> 't runtime \<Rightarrow> 'e run_end + command_effect \<times> 't runtime" where
  "handle_command V E cmd r =
     (case cmd of
        CmdKey k \<Rightarrow>
          (case vo_encode V (rt_terminal r) (key_event_of k) of
             Inl e \<Rightarrow> Inl (RunFailed e)
           | Inr bs \<Rightarrow> if bs \<noteq> [] then and_then (pty_write E bs r) (\<lambda>r. Inr (effect_unchanged, r)) else Inr (effect_unchanged, r))
      | CmdBytes bs \<Rightarrow> and_then (pty_write E bs r) (\<lambda>r. Inr (effect_unchanged, r))
      | CmdResize t \<Rightarrow>
          (let cols = max (tr_cols t) 1; rows = max (tr_rows t) 1; r = r\<lparr>rt_grid_size := (cols, rows)\<rparr> in
           case vo_resize V cols rows (cols, rows) (rt_terminal r) of
             Inl e \<Rightarrow> Inl (RunFailed e)
           | Inr (terminal, evs) \<Rightarrow>
               (let r = fold apply_event evs (r\<lparr>rt_terminal := terminal\<rparr>) in
                case te_resize_error E of
                  Some e \<Rightarrow> Inl (RunFailed e)
                | None \<Rightarrow> Inr (effect_changed_now,
                    r\<lparr>rt_pty_size := Some (cols, rows, tr_pixel_width t, tr_pixel_height t)\<rparr>)))
      | CmdScroll n \<Rightarrow> Inr (effect_changed_now, r\<lparr>rt_terminal := vo_scroll V n (rt_terminal r)\<rparr>)
      | CmdShutdown \<Rightarrow> Inr (effect_unchanged\<lparr>ce_shutdown := True\<rparr>, r))"

definition is_interactive_input :: "live_command \<Rightarrow> bool" where
  "is_interactive_input cmd = (case cmd of CmdKey _ \<Rightarrow> True | CmdBytes _ \<Rightarrow> True | _ \<Rightarrow> False)"

definition add_effect_micros :: "command_effect \<Rightarrow> 't runtime \<Rightarrow> 't runtime" where
  "add_effect_micros ef r = r\<lparr>rt_vt_micros := u64_sat_add (rt_vt_micros r) (ce_vt_micros ef),
     rt_output_bytes := u64_sat_add (rt_output_bytes r) (ce_output_bytes ef)\<rparr>"

definition add_effect_flags :: "command_effect \<Rightarrow> 't runtime \<Rightarrow> 't runtime" where
  "add_effect_flags ef r = r\<lparr>rt_changed := rt_changed r \<or> ce_changed ef, rt_force := rt_force r \<or> ce_force ef\<rparr>"

fun run_commands ::
  "('t, 'e) vt_ops \<Rightarrow> 'e tick_env \<Rightarrow> nat \<Rightarrow> live_command list \<Rightarrow> 't runtime \<Rightarrow> 'e run_end + 't runtime" where
  "run_commands V E i [] r = Inr r"
| "run_commands V E i (cmd # cmds) r =
     and_then (handle_command V E cmd r) (\<lambda>(ef, r).
       if ce_shutdown ef then Inl RunDone
       else and_then (drain_pty_responses E (add_effect_micros ef r)) (\<lambda>r.
         let r = (if is_interactive_input cmd
                  then r\<lparr>rt_interactive_until := Some (te_command_at E i + LIVE_TERMINAL_INTERACTIVE_OUTPUT_WINDOW)\<rparr> else r)
         in run_commands V E (Suc i) cmds (add_effect_flags ef r)))"

definition startup_marker :: "u8 list" where
  "startup_marker = bytes ''[retach: new session''"

definition handle_pty_output ::
  "('t, 'e) vt_ops \<Rightarrow> 'e tick_env \<Rightarrow> u8 list \<Rightarrow> 't runtime \<Rightarrow> 'e run_end + command_effect \<times> 't runtime" where
  "handle_pty_output V E bs r =
     (let (ns, parser) = parser_push bs (rt_parser r);
          (vt_bytes, flt) = filter_push bs (rt_filter r);
          r = r\<lparr>rt_parser := parser, rt_notifications := rt_notifications r @ ns, rt_filter := flt\<rparr>
      in and_then
           (case rt_startup r of
              Some command \<Rightarrow>
                if contains startup_marker bs then pty_write E command (r\<lparr>rt_startup := None\<rparr>) else Inr r
            | None \<Rightarrow> Inr r)
           (\<lambda>r. let (terminal, evs) = vo_write V (rt_grid_size r) vt_bytes (rt_terminal r) in
                Inr (effect_changed_with_vt_write (te_vt_micros E) (length bs),
                     fold apply_event evs (r\<lparr>rt_terminal := terminal\<rparr>))))"

definition run_output :: "('t, 'e) vt_ops \<Rightarrow> 'e tick_env \<Rightarrow> u8 list \<Rightarrow> 't runtime \<Rightarrow> 'e run_end + 't runtime" where
  "run_output V E bs r =
     (if bs = [] then Inr r
      else and_then (handle_pty_output V E bs r) (\<lambda>(ef, r).
        and_then (drain_pty_responses E (add_effect_micros ef r)) (\<lambda>r.
          let r = r\<lparr>rt_last_output := Some (case rt_last_output r of Some t \<Rightarrow> t | None \<Rightarrow> te_output_at E)\<rparr>;
              r = (case rt_interactive_until r of
                     Some deadline \<Rightarrow> if te_output_at E \<le> deadline then r\<lparr>rt_force := True\<rparr> else r
                   | None \<Rightarrow> r)
          in Inr (add_effect_flags ef r))))"

subsection \<open>The snapshot and one turn of the loop\<close>

definition send_snapshot ::
  "('t, 'e) vt_ops \<Rightarrow> (cell_snapshot list \<Rightarrow> u64) \<Rightarrow> 'e tick_env \<Rightarrow> 't runtime \<Rightarrow> 'e run_end + 't runtime" where
  "send_snapshot V h E r =
     (case vo_frame V (rt_terminal r) of
        Inl e \<Rightarrow> Inl (RunFailed e)
      | Inr f \<Rightarrow>
          (let (s, ex) = snapshot h (te_update_micros E) (te_extract_micros E) (rt_session_id r) f (rt_extractor r);
               timing = (gs_timing s)\<lparr>
                 ti_pty_to_snapshot := map_option (\<lambda>t. micros_since t (te_snapshot_at E)) (rt_last_output r),
                 ti_vt_write := rt_vt_micros r, ti_pty_bytes := rt_output_bytes r,
                 ti_build := micros_since (te_snapshot_at E) (te_finished_at E)\<rparr>;
               r = r\<lparr>rt_extractor := ex, rt_snapshots := rt_snapshots r @ [s\<lparr>gs_timing := timing\<rparr>],
                     rt_changed := False, rt_force := False, rt_last_output := None, rt_vt_micros := 0, rt_output_bytes := 0,
                     rt_last_snapshot := Some (te_snapshot_at E), rt_emitted := rt_emitted r + 1\<rparr>
           in if rt_emitted r \<ge> MAX_INITIAL_SNAPSHOTS
              then (case vo_mark_clean V (rt_terminal r) of Some e \<Rightarrow> Inl (RunFailed e) | None \<Rightarrow> Inr r)
              else Inr r))"

definition maybe_snapshot ::
  "('t, 'e) vt_ops \<Rightarrow> (cell_snapshot list \<Rightarrow> u64) \<Rightarrow> 'e tick_env \<Rightarrow> 't runtime \<Rightarrow> 'e run_end + 't runtime" where
  "maybe_snapshot V h E r =
     (if terminal_snapshot_due (rt_changed r) (rt_force r) (rt_emitted r) (rt_last_snapshot r) (te_due_at E)
      then send_snapshot V h E r else Inr r)"

text \<open>When the child has exited the thread ends with that message.\<close>

definition tick ::
  "('t, 'e) vt_ops \<Rightarrow> (cell_snapshot list \<Rightarrow> u64) \<Rightarrow> 'e tick_env \<Rightarrow> 't runtime \<Rightarrow> 'e run_end + 't runtime" where
  "tick V h E r =
     (if te_wake E = WakeClosed then Inl RunDone
      else let (commands, later) = drain_commands (rt_commands r);
               (out, later_out) = drain_output 0 [] (rt_output r);
               r = r\<lparr>rt_commands := later, rt_output := later_out\<rparr>
           in and_then (run_commands V E 0 commands r) (\<lambda>r.
              and_then (run_output V E out r) (\<lambda>r.
              and_then (maybe_snapshot V h E r) (\<lambda>r.
              case te_exit_code E of
                Some code \<Rightarrow> Inl (RunExited \<lparr>le_session_id = rt_session_id r, le_exit_code = Some (int code)\<rparr>)
              | None \<Rightarrow> Inr r))))"

end
