(* ===== verification/Osc_Props.thy ===== *)
theory Osc_Props
  imports Osc_Filter
begin

section \<open>Properties of the parser and the filter of operating-system commands\<close>

text \<open>
  On streams of whole items both do what they are for; the lemmas after that show where they lose or
  make up bytes when a sequence is longer than their bound.
\<close>

subsection \<open>Streams of items\<close>

datatype terminator = Bel | St

datatype item = Plain u8 | EscPair u8 | OscItem "u8 list" terminator

fun item_ok :: "item \<Rightarrow> bool" where
  "item_ok (Plain b) = (b \<noteq> OSC_ESCAPE)"
| "item_ok (EscPair b) = (b \<noteq> OSC_ESCAPE \<and> b \<noteq> 93)"
| "item_ok (OscItem data t) = (OSC_ESCAPE \<notin> set data \<and> OSC_BEL \<notin> set data \<and> length data \<le> 4096)"

fun terminator_bytes :: "terminator \<Rightarrow> u8 list" where
  "terminator_bytes Bel = [7]"
| "terminator_bytes St = [27, 92]"

fun item_bytes :: "item \<Rightarrow> u8 list" where
  "item_bytes (Plain b) = [b]"
| "item_bytes (EscPair b) = [27, b]"
| "item_bytes (OscItem data t) = [27, 93] @ data @ terminator_bytes t"

fun item_stripped :: "item \<Rightarrow> bool" where
  "item_stripped (OscItem data t) = should_strip_osc data"
| "item_stripped _ = False"

fun item_notification :: "item \<Rightarrow> notification option" where
  "item_notification (OscItem data t) = parse_osc_notification data"
| "item_notification _ = None"

lemma filter_push_append:
  "filter_push (xs @ ys) f =
    (let (out, f') = filter_push xs f; (out', f'') = filter_push ys f' in (out @ out', f''))"
  by (induction xs arbitrary: f) (auto simp: Let_def split: prod.splits)

lemma parser_push_append:
  "parser_push (xs @ ys) p =
    (let (ns, p') = parser_push xs p; (ns', p'') = parser_push ys p' in (ns @ ns', p''))"
  by (induction xs arbitrary: p) (auto simp: Let_def split: prod.splits option.splits)

lemma filter_push_data:
  assumes "OSC_ESCAPE \<notin> set ds" "OSC_BEL \<notin> set ds" "length d + length ds \<le> 4096"
  shows "filter_push ds \<lparr>of_state = Osc, of_data = d, of_sequence = q\<rparr>
    = ([], \<lparr>of_state = Osc, of_data = d @ ds, of_sequence = q @ ds\<rparr>)"
  using assms
proof (induction ds arbitrary: d q)
  case (Cons b ds)
  then have "b \<noteq> OSC_ESCAPE" "b \<noteq> OSC_BEL" "length d < 4096" by auto
  then have "filter_push_byte b \<lparr>of_state = Osc, of_data = d, of_sequence = q\<rparr>
      = ([], \<lparr>of_state = Osc, of_data = d @ [b], of_sequence = q @ [b]\<rparr>)"
    by (simp add: filter_push_byte_def filter_push_osc_byte_def OSC_MAX_NOTIFICATION_BYTES_def)
  then show ?case using Cons.IH [of "d @ [b]" "q @ [b]"] Cons.prems by simp
qed simp

lemma parser_push_data:
  assumes "OSC_ESCAPE \<notin> set ds" "OSC_BEL \<notin> set ds" "length d + length ds \<le> 4096"
  shows "parser_push ds \<lparr>op_state = Osc, op_data = d\<rparr> = ([], \<lparr>op_state = Osc, op_data = d @ ds\<rparr>)"
  using assms
proof (induction ds arbitrary: d)
  case (Cons b ds)
  then have "b \<noteq> OSC_ESCAPE" "b \<noteq> OSC_BEL" "length d < 4096" by auto
  then have "parser_push_byte b \<lparr>op_state = Osc, op_data = d\<rparr> = (None, \<lparr>op_state = Osc, op_data = d @ [b]\<rparr>)"
    by (simp add: parser_push_byte_def parser_push_osc_byte_def OSC_MAX_NOTIFICATION_BYTES_def)
  then show ?case using Cons.IH [of "d @ [b]"] Cons.prems by simp
qed simp

lemma filter_item:
  assumes "item_ok i"
  shows "filter_push (item_bytes i) filter_new = (if item_stripped i then [] else item_bytes i, filter_new)"
proof (cases i)
  case (OscItem data t)
  then show ?thesis
    using assms filter_push_data [of data "[]" "[27, 93]"]
    by (cases t) (simp_all add: filter_push_append filter_push_byte_def filter_new_def filter_finish_def filter_reset_def
      OSC_ESCAPE_def OSC_BEL_def Let_def)
qed (use assms in \<open>simp_all add: filter_push_byte_def filter_new_def filter_reset_def OSC_ESCAPE_def\<close>)

lemma parser_item:
  assumes "item_ok i"
  shows "parser_push (item_bytes i) parser_new =
    ((case item_notification i of Some n \<Rightarrow> [n] | None \<Rightarrow> []), parser_new)"
proof (cases i)
  case (OscItem data t)
  then show ?thesis
    using assms parser_push_data [of data "[]"]
    by (cases t) (simp_all add: parser_push_append parser_push_byte_def parser_new_def parser_finish_def
      OSC_ESCAPE_def OSC_BEL_def Let_def split: option.splits)
qed (use assms in \<open>simp_all add: parser_push_byte_def parser_new_def OSC_ESCAPE_def\<close>)

text \<open>Several reads.\<close>

fun filter_reads :: "u8 list list \<Rightarrow> osc_filter \<Rightarrow> u8 list \<times> osc_filter" where
  "filter_reads [] f = ([], f)"
| "filter_reads (r # rs) f = (let (out, f) = filter_push r f; (outs, f) = filter_reads rs f in (out @ outs, f))"

fun parser_reads :: "u8 list list \<Rightarrow> osc_parser \<Rightarrow> notification list \<times> osc_parser" where
  "parser_reads [] p = ([], p)"
| "parser_reads (r # rs) p = (let (ns, p) = parser_push r p; (nss, p) = parser_reads rs p in (ns @ nss, p))"

lemma filter_reads_eq: "filter_reads rs f = filter_push (concat rs) f"
  by (induction rs arbitrary: f) (simp_all add: filter_push_append)

lemma parser_reads_eq: "parser_reads rs p = parser_push (concat rs) p"
  by (induction rs arbitrary: p) (simp_all add: parser_push_append)

text \<open>C24. On a stream of plain bytes, escape pairs and whole operating-system commands of at most 4096 bytes,
  however it is cut into reads, the filter takes out exactly the shell-integration commands, the parser
  reports exactly the notifications of the commands, in order, and both are then in their first state.\<close>

theorem osc_items:
  assumes "list_all item_ok items" "concat rs = concat (map item_bytes items)"
  shows "filter_reads rs filter_new
      = (concat (map item_bytes (filter (\<lambda>i. \<not> item_stripped i) items)), filter_new)
    \<and> parser_reads rs parser_new = (List.map_filter item_notification items, parser_new)"
proof -
  have "filter_push (concat (map item_bytes items)) filter_new
      = (concat (map item_bytes (filter (\<lambda>i. \<not> item_stripped i) items)), filter_new)"
    using assms(1) by (induction items) (simp_all add: filter_push_append filter_item)
  moreover have "parser_push (concat (map item_bytes items)) parser_new = (List.map_filter item_notification items, parser_new)"
    using assms(1)
    by (induction items) (auto simp: parser_push_append parser_item List.map_filter_simps split: option.splits)
  ultimately show ?thesis by (simp add: filter_reads_eq parser_reads_eq assms(2))
qed

theorem osc_items_witness:
  "filter_reads [[97, 27], [93] @ bytes ''133;A'', [7, 98, 27, 93, 57, 59, 104], [105, 27], [92]] filter_new
     = ([97, 98, 27, 93, 57, 59, 104, 105, 27, 92], filter_new)"
proof -
  let ?items = "[Plain 97, OscItem (bytes ''133;A'') Bel, Plain 98, OscItem (bytes ''9;hi'') St]"
  have "concat [[97, 27], [93] @ bytes ''133;A'', [7, 98, 27, 93, 57, 59, 104], [105, 27], [92]] = concat (map item_bytes ?items)"
    by simp
  moreover have "list_all item_ok ?items" by (simp add: OSC_ESCAPE_def OSC_BEL_def)
  moreover have "should_strip_osc (bytes ''133;A'')" "\<not> should_strip_osc (bytes ''9;hi'')"
    by (simp_all add: should_strip_osc_def Let_def)
  ultimately show ?thesis using osc_items [of ?items] by (simp del: filter_reads.simps filter_push.simps)
qed

subsection \<open>Beyond the bound\<close>

text \<open>The filter loses a byte of every command that is longer than its bound: a command of more than 4096
  bytes (a clipboard sequence, for instance) is passed on without the byte at position 4096.\<close>

theorem filter_loses_byte:
  assumes "OSC_ESCAPE \<notin> set data" "OSC_BEL \<notin> set data" "length data > 4096"
  shows "filter_push ([27, 93] @ data @ [7]) filter_new
    = ([27, 93] @ take 4096 data @ drop 4097 data @ [7], filter_new)"
proof -
  have data: "data = take 4096 data @ data ! 4096 # drop 4097 data"
    using id_take_nth_drop [OF assms(3)] by simp
  have start: "filter_push [27, 93] filter_new = ([], \<lparr>of_state = Osc, of_data = [], of_sequence = [27, 93]\<rparr>)"
    by (simp add: filter_push_byte_def filter_new_def OSC_ESCAPE_def)
  have "filter_push (take 4096 data) \<lparr>of_state = Osc, of_data = [], of_sequence = [27, 93]\<rparr>
      = ([], \<lparr>of_state = Osc, of_data = take 4096 data, of_sequence = [27, 93] @ take 4096 data\<rparr>)"
    using filter_push_data [of "take 4096 data" "[]" "[27, 93]"] assms(1,2) by (auto dest: in_set_takeD)
  moreover have "data ! 4096 \<noteq> OSC_ESCAPE" "data ! 4096 \<noteq> OSC_BEL" using assms(1,2) nth_mem [OF assms(3)] by metis+
  then have "filter_push_byte (data ! 4096) \<lparr>of_state = Osc, of_data = take 4096 data, of_sequence = [27, 93] @ take 4096 data\<rparr>
      = ([27, 93] @ take 4096 data, filter_new)"
    using assms(3)
    by (simp add: filter_push_byte_def filter_push_osc_byte_def OSC_MAX_NOTIFICATION_BYTES_def filter_reset_def filter_new_def)
  moreover have "filter_push bs filter_new = (bs, filter_new)" if "OSC_ESCAPE \<notin> set bs" for bs
    using that by (induction bs) (auto simp: filter_push_byte_def filter_new_def)
  moreover have "filter_push_byte 7 filter_new = ([7], filter_new)"
    by (simp add: filter_push_byte_def filter_new_def OSC_ESCAPE_def)
  moreover have "OSC_ESCAPE \<notin> set (drop 4097 data @ [7])"
    using assms(1) by (auto dest: in_set_dropD simp: OSC_ESCAPE_def)
  ultimately have "filter_push ([27, 93] @ (take 4096 data @ data ! 4096 # drop 4097 data) @ [7]) filter_new
    = ([27, 93] @ take 4096 data @ drop 4097 data @ [7], filter_new)"
    unfolding append_assoc filter_push_append [of "[27, 93]"] start by (simp add: filter_push_append Let_def)
  then show ?thesis unfolding data [symmetric] .
qed

theorem filter_loses_byte_witness:
  "filter_push ([27, 93] @ (replicate 4096 97 @ [98, 99]) @ [7]) filter_new
    = ([27, 93] @ replicate 4096 97 @ [99] @ [7], filter_new)"
  using filter_loses_byte [of "replicate 4096 97 @ [98, 99]"] by (simp add: OSC_ESCAPE_def OSC_BEL_def)

text \<open>The parser makes up notifications: when the bound is reached at an escape inside a command, the data
  so far is dropped but the command is not left, so that what follows the escape is read as a command of
  its own. The text after an escape inside a long command can thus pose as any notification.\<close>

theorem parser_forges_notification:
  assumes "OSC_ESCAPE \<notin> set data" "OSC_BEL \<notin> set data" "length data = 4096"
    and "OSC_ESCAPE \<notin> set msg" "OSC_BEL \<notin> set msg" "length msg \<le> 4096" "msg \<noteq> []" "hd msg \<noteq> 92"
  shows "parser_push ([27, 93] @ data @ [27] @ msg @ [7]) parser_new
    = ((case parse_osc_notification msg of Some n \<Rightarrow> [n] | None \<Rightarrow> []), parser_new)"
proof -
  obtain b bs where msg: "msg = b # bs" using assms(7) by (cases msg) auto
  have "parser_push data \<lparr>op_state = Osc, op_data = []\<rparr> = ([], \<lparr>op_state = Osc, op_data = data\<rparr>)"
    using parser_push_data [of data "[]"] assms(1-3) by simp
  moreover have "parser_push_byte b \<lparr>op_state = OscEscape, op_data = data\<rparr> = (None, \<lparr>op_state = Osc, op_data = [b]\<rparr>)"
    using assms(3,4,8)
    by (simp add: parser_push_byte_def parser_push_osc_byte_def OSC_MAX_NOTIFICATION_BYTES_def msg Let_def)
  moreover have "parser_push bs \<lparr>op_state = Osc, op_data = [b]\<rparr> = ([], \<lparr>op_state = Osc, op_data = msg\<rparr>)"
    using parser_push_data [of bs "[b]"] assms(4-6) by (simp add: msg)
  ultimately show ?thesis
    by (simp add: parser_push_append msg parser_push_byte_def [of 27] parser_push_byte_def [of 93] parser_push_byte_def [of 7]
      parser_new_def parser_finish_def OSC_ESCAPE_def OSC_BEL_def Let_def split: option.splits)
qed

theorem parser_forges_notification_witness:
  "parser_push ([27, 93] @ replicate 4096 97 @ [27] @ bytes ''9;hi'' @ [7]) parser_new
    = ([\<lparr>no_title = bytes ''Terminal'', no_body = bytes ''hi''\<rparr>], parser_new)"
  using parser_forges_notification [of "replicate 4096 97" "bytes ''9;hi''"]
  by (simp add: OSC_ESCAPE_def OSC_BEL_def parse_osc_notification_def strip_prefix_def notification_from_parts_def
      sanitize_text_def is_control_def trim_def trim_start_def trim_end_def is_whitespace_def Let_def)

end
