(* ===== verification/Live_Pane.thy ===== *)
theory Live_Pane
  imports Live_Snapshot
begin

section \<open>Live terminals of the application (\<open>octty-app/src/terminal_state.rs\<close>, \<open>app_live_terminals.rs\<close>)\<close>

text \<open>
  The application drains the snapshots of every live terminal, coalesces them into one, and presents it:
  at once in the selected pane, at most every 100 ms in another one. A \<open>BTreeSet\<close> is the set of its
  elements, read in ascending order.
\<close>

definition TERMINAL_FOCUSED_FRAME_INTERVAL :: duration where
  "TERMINAL_FOCUSED_FRAME_INTERVAL = from_millis 8"
definition TERMINAL_BACKGROUND_FRAME_INTERVAL :: duration where
  "TERMINAL_BACKGROUND_FRAME_INTERVAL = from_millis 100"
definition TERMINAL_INTERACTIVE_SNAPSHOT_WINDOW :: duration where
  "TERMINAL_INTERACTIVE_SNAPSHOT_WINDOW = from_millis 150"
definition TERMINAL_LATENCY_SAMPLE_LIMIT :: usize where
  "TERMINAL_LATENCY_SAMPLE_LIMIT = 256"

subsection \<open>Latency samples\<close>

definition push_latency_sample :: "u64 \<Rightarrow> u64 list \<Rightarrow> u64 list" where
  "push_latency_sample m samples =
     (if length samples = TERMINAL_LATENCY_SAMPLE_LIMIT then drop 1 samples else samples) @ [m]"

definition duration_micros :: "duration \<Rightarrow> u64" where
  "duration_micros d = min (d div 1000) 18446744073709551615"

record latency_stats =
  la_key :: "u64 list"
  la_pty :: "u64 list"
  la_pty_bytes :: "u64 list"
  la_vt_write :: "u64 list"
  la_update :: "u64 list"
  la_extract :: "u64 list"
  la_build :: "u64 list"
  la_dirty_rows :: "u64 list"
  la_dirty_cells :: "u64 list"

definition latency_default :: latency_stats where
  "latency_default = \<lparr>la_key = [], la_pty = [], la_pty_bytes = [], la_vt_write = [], la_update = [],
     la_extract = [], la_build = [], la_dirty_rows = [], la_dirty_cells = []\<rparr>"

definition record_key_to_snapshot :: "duration \<Rightarrow> latency_stats \<Rightarrow> latency_stats" where
  "record_key_to_snapshot d l = l\<lparr>la_key := push_latency_sample (duration_micros d) (la_key l)\<rparr>"

definition record_pty_to_snapshot :: "u64 option \<Rightarrow> latency_stats \<Rightarrow> latency_stats" where
  "record_pty_to_snapshot m l =
     (case m of None \<Rightarrow> l | Some m \<Rightarrow> l\<lparr>la_pty := push_latency_sample m (la_pty l)\<rparr>)"

definition record_snapshot_timing :: "snapshot_timing \<Rightarrow> latency_stats \<Rightarrow> latency_stats" where
  "record_snapshot_timing t l =
     (let l = record_pty_to_snapshot (ti_pty_to_snapshot t) l in
      l\<lparr>la_pty_bytes := push_latency_sample (ti_pty_bytes t) (la_pty_bytes l),
        la_vt_write := push_latency_sample (ti_vt_write t) (la_vt_write l),
        la_update := push_latency_sample (ti_update t) (la_update l),
        la_extract := push_latency_sample (ti_extract t) (la_extract l),
        la_build := push_latency_sample (ti_build t) (la_build l),
        la_dirty_rows := push_latency_sample (ti_dirty_rows t) (la_dirty_rows l),
        la_dirty_cells := push_latency_sample (ti_dirty_cells t) (la_dirty_cells l)\<rparr>)"

subsection \<open>Selections and the state of a live terminal\<close>

record grid_point =
  gp_row :: u16
  gp_col :: u16

record selection_mode =
  sm_rectangular :: bool
  sm_filter_indent :: bool

record selection =
  sl_anchor :: grid_point
  sl_active :: grid_point
  sl_mode :: selection_mode

record selection_drag =
  sd_anchor :: grid_point

record selection_run =
  sr_row :: u16
  sr_start_col :: u16
  sr_end_col :: u16

text \<open>\<open>lp_queue\<close> is what waits in the handle's channel of snapshots.\<close>

record live_pane =
  lp_queue :: "grid_snapshot list"
  lp_latest :: "grid_snapshot option"
  lp_pending :: "grid_snapshot option"
  lp_last_presented :: "instant option"
  lp_last_resize :: "(u16 \<times> u16) option"
  lp_last_input :: "instant option"
  lp_latency :: latency_stats
  lp_selection :: "selection option"
  lp_drag :: "selection_drag option"

definition live_pane_new :: live_pane where
  "live_pane_new = \<lparr>lp_queue = [], lp_latest = None, lp_pending = None, lp_last_presented = None,
     lp_last_resize = None, lp_last_input = None, lp_latency = latency_default, lp_selection = None, lp_drag = None\<rparr>"

definition live_terminal_key :: "rtext \<Rightarrow> rtext \<Rightarrow> rtext" where
  "live_terminal_key workspace_id pane_id = workspace_id @ [58] @ pane_id"

definition split_live_terminal_key :: "rtext \<Rightarrow> (rtext \<times> rtext) option" where
  "split_live_terminal_key key = split_once 58 key"

subsection \<open>Coalescing\<close>

definition set_damage :: "damage_snapshot \<Rightarrow> grid_snapshot \<Rightarrow> grid_snapshot" where
  "set_damage d s = s\<lparr>gs_damage := d,
     gs_timing := (gs_timing s)\<lparr>ti_dirty_rows := as_u32 (length (dm_rows d)), ti_dirty_cells := dm_cells d\<rparr>\<rparr>"

definition mark_full_damage :: "grid_snapshot \<Rightarrow> grid_snapshot" where
  "mark_full_damage s = set_damage
     \<lparr>dm_full = True, dm_rows = [0..<gs_rows s],
      dm_cells = as_u32 (usize_sat_mul (length [0..<gs_rows s]) (gs_cols s))\<rparr> s"

record coalescing =
  co_latest :: grid_snapshot
  co_dirty :: "u16 set"
  co_force_full :: bool
  co_session_id :: rtext
  co_size :: "u16 \<times> u16"

definition coalesce_step :: "grid_snapshot \<Rightarrow> coalescing \<Rightarrow> coalescing" where
  "coalesce_step s c =
     \<lparr>co_latest = s, co_dirty = co_dirty c \<union> set (dm_rows (gs_damage s)),
      co_force_full = (if dm_full (gs_damage s) \<or> gs_session_id s \<noteq> co_session_id c \<or> (gs_cols s, gs_rows s) \<noteq> co_size c
                       then True else co_force_full c),
      co_session_id = gs_session_id s, co_size = (gs_cols s, gs_rows s)\<rparr>"

definition coalesce_start :: "grid_snapshot \<Rightarrow> coalescing" where
  "coalesce_start s = \<lparr>co_latest = s, co_dirty = set (dm_rows (gs_damage s)), co_force_full = dm_full (gs_damage s),
     co_session_id = gs_session_id s, co_size = (gs_cols s, gs_rows s)\<rparr>"

definition coalesce_finish :: "coalescing \<Rightarrow> grid_snapshot" where
  "coalesce_finish c =
     (let s = co_latest c in
      if co_force_full c then mark_full_damage s
      else let rows = filter (\<lambda>r. r < gs_rows s) (sorted_list_of_set (co_dirty c)) in
           set_damage \<lparr>dm_full = (length rows = gs_rows s), dm_rows = rows,
             dm_cells = as_u32 (usize_sat_mul (length rows) (gs_cols s))\<rparr> s)"

definition coalesce_snapshots :: "grid_snapshot list \<Rightarrow> grid_snapshot option" where
  "coalesce_snapshots ss =
     (case ss of [] \<Rightarrow> None | s # rest \<Rightarrow> Some (coalesce_finish (fold coalesce_step rest (coalesce_start s))))"

subsection \<open>When a snapshot is presented\<close>

definition presentation_delay_for_state :: "bool \<Rightarrow> instant option \<Rightarrow> bool \<Rightarrow> instant \<Rightarrow> duration option" where
  "presentation_delay_for_state has_pending last_presented focused now =
     (if \<not> has_pending \<or> focused then None
      else case last_presented of None \<Rightarrow> None
         | Some t \<Rightarrow> (let elapsed = saturating_duration_since now t in
             if elapsed \<ge> TERMINAL_BACKGROUND_FRAME_INTERVAL then None
             else Some (TERMINAL_BACKGROUND_FRAME_INTERVAL - elapsed)))"

definition presentation_delay :: "live_pane \<Rightarrow> bool \<Rightarrow> instant \<Rightarrow> duration option" where
  "presentation_delay p focused now =
     presentation_delay_for_state (lp_pending p \<noteq> None) (lp_last_presented p) focused now"

definition take_presentable :: "live_pane \<Rightarrow> bool \<Rightarrow> instant \<Rightarrow> grid_snapshot option \<times> live_pane" where
  "take_presentable p focused now =
     (if presentation_delay p focused now \<noteq> None then (None, p)
      else (lp_pending p, p\<lparr>lp_pending := None\<rparr>))"

definition remaining_frame_delay :: "instant option \<Rightarrow> instant \<Rightarrow> duration" where
  "remaining_frame_delay notified now =
     (case notified of None \<Rightarrow> 0
      | Some t \<Rightarrow> duration_saturating_sub TERMINAL_FOCUSED_FRAME_INTERVAL (saturating_duration_since now t))"

definition snapshot_coalesce_interval :: "bool \<Rightarrow> bool \<Rightarrow> instant option \<Rightarrow> instant \<Rightarrow> duration" where
  "snapshot_coalesce_interval window_active recent_input notified now =
     (if window_active \<and> recent_input then remaining_frame_delay notified now
      else if window_active then TERMINAL_FOCUSED_FRAME_INTERVAL
      else TERMINAL_BACKGROUND_FRAME_INTERVAL)"

definition has_recent_terminal_input :: "instant \<Rightarrow> live_pane list \<Rightarrow> bool" where
  "has_recent_terminal_input now panes =
     list_ex (\<lambda>p. case lp_last_input p of None \<Rightarrow> False
       | Some t \<Rightarrow> saturating_duration_since now t \<le> TERMINAL_INTERACTIVE_SNAPSHOT_WINDOW) panes"

definition defer_for :: "duration option \<Rightarrow> duration \<Rightarrow> duration option" where
  "defer_for current delay = Some (case current of None \<Rightarrow> delay | Some c \<Rightarrow> min c delay)"

subsection \<open>Draining one live terminal\<close>

text \<open>
  The body of the loop of \<open>drain_live_terminal_snapshots\<close> for one terminal, from the coalescing on:
  \<open>perf\<close> says whether latencies are recorded and \<open>clock\<close> is the time at which they are. The results are
  the presented snapshot and the delay asked for.
\<close>

definition record_latencies :: "bool \<Rightarrow> instant \<Rightarrow> instant option \<Rightarrow> grid_snapshot \<Rightarrow> latency_stats \<Rightarrow> latency_stats" where
  "record_latencies perf clock input_at s l =
     (if perf then
        record_snapshot_timing (gs_timing s)
          (case input_at of None \<Rightarrow> l | Some t \<Rightarrow> record_key_to_snapshot (saturating_duration_since clock t) l)
      else l)"

definition receive_snapshots :: "bool \<Rightarrow> instant \<Rightarrow> live_pane \<Rightarrow> live_pane" where
  "receive_snapshots perf clock p =
     (let drained = p\<lparr>lp_queue := []\<rparr> in
      case coalesce_snapshots (lp_queue p) of
        None \<Rightarrow> drained
      | Some s \<Rightarrow> drained\<lparr>lp_last_input := None,
            lp_latency := record_latencies perf clock (lp_last_input p) s (lp_latency p),
            lp_pending := Some s\<rparr>)"

definition in_other_workspace :: "rtext \<Rightarrow> rtext \<Rightarrow> bool" where
  "in_other_workspace active_workspace_id key =
     (case split_live_terminal_key key of None \<Rightarrow> True | Some (workspace_id, _) \<Rightarrow> workspace_id \<noteq> active_workspace_id)"

definition drain_live ::
  "bool \<Rightarrow> instant \<Rightarrow> rtext \<Rightarrow> rtext \<Rightarrow> bool \<Rightarrow> instant \<Rightarrow> live_pane \<Rightarrow> live_pane \<times> grid_snapshot option \<times> duration option" where
  "drain_live perf clock active_workspace_id key selected now p =
     (let p = receive_snapshots perf clock p in
      case take_presentable p selected now of
        (Some s, p) \<Rightarrow>
          (let s = (if in_other_workspace active_workspace_id key then mark_full_damage s else s) in
           (p\<lparr>lp_latest := Some s, lp_last_presented := Some now\<rparr>, Some s, None))
      | (None, p) \<Rightarrow> (p, None, if lp_pending p \<noteq> None then presentation_delay p selected now else None))"

text \<open>The loop of \<open>sync_active_workspace_terminal_snapshots\<close> for a terminal of the active workspace.\<close>

definition sync_live :: "instant \<Rightarrow> live_pane \<Rightarrow> live_pane \<times> grid_snapshot option" where
  "sync_live now p =
     (let p = (case coalesce_snapshots (lp_queue p) of
                 None \<Rightarrow> p\<lparr>lp_queue := []\<rparr>
               | Some s \<Rightarrow> p\<lparr>lp_queue := [], lp_pending := Some (mark_full_damage s)\<rparr>)
      in case lp_pending p of
           Some s \<Rightarrow> (let s = mark_full_damage s in
             (p\<lparr>lp_pending := None, lp_latest := Some s, lp_last_presented := Some now\<rparr>, Some s))
         | None \<Rightarrow> (case lp_latest p of
              None \<Rightarrow> (p, None)
            | Some s \<Rightarrow> (let s = mark_full_damage s in (p\<lparr>lp_latest := Some s\<rparr>, Some s))))"

end
