(* ===== verification/Terminal_Paint.thy ===== *)
theory Terminal_Paint
  imports Live_Pane
begin

section \<open>Painting a terminal (\<open>terminal_render_grid.rs\<close>, \<open>terminal_render_paint.rs\<close>, \<open>terminal_render_types.rs\<close>)\<close>

text \<open>
  A terminal is painted by one view per row, which keeps what it paints until it is told otherwise. The
  input of a painting is put together from a cache of painted rows: a row is built again only where the
  snapshot says that it changed. Colours are a type \<open>'c\<close> (\<open>Rgba\<close>, components of type \<open>f32\<close>) with the
  conversions of \<open>metrics.rs\<close> and the one to \<open>Hsla\<close> (type \<open>'h\<close>) as \<open>paint_ops\<close>. A row view is an entity
  of the user-interface library; its state is the model of it. Indexing is in the option monad.
\<close>

record ('c, 'h) paint_ops =
  po_rgba :: "terminal_rgb \<Rightarrow> 'c"
  po_dim :: "'c \<Rightarrow> 'c \<Rightarrow> 'c"
  po_hsla :: "'c \<Rightarrow> 'h"

definition at_index :: "'a list \<Rightarrow> usize \<Rightarrow> 'a option" where
  "at_index xs i = (if i < length xs then Some (xs ! i) else None)"

subsection \<open>The data\<close>

record 'c background_run =
  bg_start_col :: usize
  bg_cell_count :: usize
  bg_color :: 'c

record 'c paint_row =
  pr_default_bg :: 'c
  pr_runs :: "'c background_run list"

record 'h glyph_cell =
  gl_row :: usize
  gl_col :: usize
  gl_text :: rtext
  gl_width :: u8
  gl_color :: 'h
  gl_bold :: bool
  gl_italic :: bool
  gl_underline :: bool
  gl_strikethrough :: bool
  gl_overline :: bool

record ('c, 'h) cached_row =
  ca_row :: "'c paint_row"
  ca_glyphs :: "'h glyph_cell list"

record ('c, 'h) paint_cursor =
  pc_row :: usize
  pc_col :: usize
  pc_width :: u8
  pc_background :: 'c
  pc_glyph :: "'h glyph_cell option"

record ('c, 'h) row_view =
  rv_cols :: u16
  rv_row :: "'c paint_row"
  rv_glyphs :: "'h glyph_cell list"

record ('c, 'h) grid_cache =
  gc_cols :: u16
  gc_rows :: u16
  gc_fg :: 'c
  gc_bg :: 'c
  gc_rows_data :: "('c, 'h) cached_row option list"
  gc_views :: "('c, 'h) row_view option list"

record ('c, 'h) paint_input =
  pi_session_id :: rtext
  pi_cols :: u16
  pi_rows :: u16
  pi_default_bg :: 'c
  pi_rows_data :: "'c paint_row list"
  pi_glyphs :: "'h glyph_cell list"
  pi_cursor :: "('c, 'h) paint_cursor option"
  pi_dirty_rows :: usize
  pi_dirty_cells :: usize
  pi_rebuilt_rows :: usize
  pi_reused_rows :: usize
  pi_repaint_backgrounds :: usize
  pi_flags :: "bool list"

type_synonym ('c, 'h) render_cache = "rtext \<Rightarrow> ('c, 'h) grid_cache option"

subsection \<open>A row\<close>

definition effective_cell_colors :: "('c, 'h) paint_ops \<Rightarrow> cell_snapshot \<Rightarrow> grid_snapshot \<Rightarrow> 'c \<times> 'c" where
  "effective_cell_colors P cell s =
     (let fg = (case cs_fg cell of Some c \<Rightarrow> po_rgba P c | None \<Rightarrow> po_rgba P (gs_default_fg s));
          bg = (case cs_bg cell of Some c \<Rightarrow> po_rgba P c | None \<Rightarrow> po_rgba P (gs_default_bg s));
          (fg, bg) = (if cs_inverse cell then (bg, fg) else (fg, bg));
          fg = (if cs_faint cell then po_dim P fg bg else fg)
      in (fg, bg))"

fun background_loop ::
  "('c, 'h) paint_ops \<Rightarrow> grid_snapshot \<Rightarrow> 'c \<Rightarrow> usize \<Rightarrow> cell_snapshot list
     \<Rightarrow> 'c background_run list \<Rightarrow> 'c background_run option \<Rightarrow> 'c background_run list" where
  "background_loop P s default_bg col [] runs active =
     (case active of Some run \<Rightarrow> runs @ [run] | None \<Rightarrow> runs)"
| "background_loop P s default_bg col (cell # cells) runs active =
     (let bg = snd (effective_cell_colors P cell s);
          fresh = \<lparr>bg_start_col = col, bg_cell_count = 1, bg_color = bg\<rparr>;
          (runs, active) =
            (case active of
               Some run \<Rightarrow>
                 if bg = default_bg then (runs @ [run], None)
                 else if bg_color run = bg \<and> bg_start_col run + bg_cell_count run = col
                   then (runs, Some (run\<lparr>bg_cell_count := bg_cell_count run + 1\<rparr>))
                 else (runs @ [run], Some fresh)
             | None \<Rightarrow> if bg = default_bg then (runs, None) else (runs, Some fresh))
      in background_loop P s default_bg (col + 1) cells runs active)"

definition background_runs :: "('c, 'h) paint_ops \<Rightarrow> row_snapshot \<Rightarrow> grid_snapshot \<Rightarrow> 'c \<Rightarrow> 'c background_run list" where
  "background_runs P row s default_bg = background_loop P s default_bg 0 (rs_cells row) [] None"

definition shows_glyph :: "cell_snapshot \<Rightarrow> bool" where
  "shows_glyph cell \<longleftrightarrow> cs_width cell > 0 \<and> \<not> cs_invisible cell \<and> cs_text cell \<noteq> [] \<and> cs_text cell \<noteq> [32]"

definition glyph_of :: "usize \<Rightarrow> usize \<Rightarrow> 'h \<Rightarrow> cell_snapshot \<Rightarrow> 'h glyph_cell" where
  "glyph_of row col color cell =
     \<lparr>gl_row = row, gl_col = col, gl_text = cs_text cell, gl_width = cs_width cell, gl_color = color,
      gl_bold = cs_bold cell, gl_italic = cs_italic cell, gl_underline = cs_underline cell,
      gl_strikethrough = cs_strikethrough cell, gl_overline = cs_overline cell\<rparr>"

definition cached_paint_row :: "('c, 'h) paint_ops \<Rightarrow> usize \<Rightarrow> row_snapshot \<Rightarrow> grid_snapshot \<Rightarrow> 'c \<Rightarrow> ('c, 'h) cached_row" where
  "cached_paint_row P row_index row s default_bg =
     \<lparr>ca_row = \<lparr>pr_default_bg = default_bg, pr_runs = background_runs P row s default_bg\<rparr>,
      ca_glyphs = List.map_filter (\<lambda>(col, cell). if shows_glyph cell
          then Some (glyph_of row_index col (po_hsla P (fst (effective_cell_colors P cell s))) cell) else None)
        (enumerate 0 (rs_cells row))\<rparr>"

definition paint_cursor_of :: "('c, 'h) paint_ops \<Rightarrow> grid_snapshot \<Rightarrow> 'c \<Rightarrow> 'c \<Rightarrow> ('c, 'h) paint_cursor option" where
  "paint_cursor_of P s default_fg default_bg =
     (case gs_cursor s of
        None \<Rightarrow> None
      | Some cu \<Rightarrow>
          if \<not> (cu_visible cu \<and> cu_row cu < gs_rows s \<and> cu_col cu < gs_cols s) then None
          else do {
            row \<leftarrow> at_index (gs_rows_data s) (cu_row cu);
            cell \<leftarrow> at_index (rs_cells row) (cu_col cu);
            Some \<lparr>pc_row = cu_row cu, pc_col = cu_col cu, pc_width = max (cs_width cell) 1, pc_background = default_fg,
              pc_glyph = (if shows_glyph cell then Some (glyph_of (cu_row cu) (cu_col cu) (po_hsla P default_bg) cell) else None)\<rparr>
          })"

subsection \<open>The input of a painting\<close>

definition cache_entry :: "grid_snapshot \<Rightarrow> 'c \<Rightarrow> 'c \<Rightarrow> ('c, 'h) grid_cache option \<Rightarrow> ('c, 'h) grid_cache" where
  "cache_entry s fg bg e =
     (case e of Some c \<Rightarrow> c
      | None \<Rightarrow> \<lparr>gc_cols = gs_cols s, gc_rows = gs_rows s, gc_fg = fg, gc_bg = bg, gc_rows_data = [], gc_views = []\<rparr>)"

definition cache_invalid :: "grid_snapshot \<Rightarrow> 'c \<Rightarrow> 'c \<Rightarrow> ('c, 'h) grid_cache \<Rightarrow> bool" where
  "cache_invalid s fg bg c \<longleftrightarrow> gc_cols c \<noteq> gs_cols s \<or> gc_rows c \<noteq> gs_rows s \<or> gc_fg c \<noteq> fg \<or> gc_bg c \<noteq> bg
     \<or> length (gc_rows_data c) \<noteq> length (gs_rows_data s)"

definition reset_cache :: "grid_snapshot \<Rightarrow> 'c \<Rightarrow> 'c \<Rightarrow> ('c, 'h) grid_cache \<Rightarrow> ('c, 'h) grid_cache" where
  "reset_cache s fg bg c =
     (if cache_invalid s fg bg c
      then \<lparr>gc_cols = gs_cols s, gc_rows = gs_rows s, gc_fg = fg, gc_bg = bg,
            gc_rows_data = replicate (length (gs_rows_data s)) None, gc_views = replicate (length (gs_rows_data s)) None\<rparr>
      else c)"

definition dirty_row_flags :: "bool \<Rightarrow> grid_snapshot \<Rightarrow> bool list" where
  "dirty_row_flags invalid s =
     fold (\<lambda>r flags. if r < length flags then flags[r := True] else flags) (dm_rows (gs_damage s))
       (replicate (length (gs_rows_data s)) (invalid \<or> dm_full (gs_damage s)))"

record ('c, 'h) building =
  bu_cache_rows :: "('c, 'h) cached_row option list"
  bu_rows :: "'c paint_row list"
  bu_glyphs :: "'h glyph_cell list"
  bu_rebuilt :: usize
  bu_reused :: usize
  bu_backgrounds :: usize

definition background_submission_count :: "'c paint_row \<Rightarrow> usize" where
  "background_submission_count row = length (pr_runs row) + 1"

definition build_row ::
  "('c, 'h) paint_ops \<Rightarrow> grid_snapshot \<Rightarrow> 'c \<Rightarrow> bool list \<Rightarrow> usize \<times> row_snapshot \<Rightarrow> ('c, 'h) building
     \<Rightarrow> ('c, 'h) building option" where
  "build_row P s default_bg flags ir b =
     (let (row_index, row) = ir in do {
        flag \<leftarrow> at_index flags row_index;
        entry \<leftarrow> at_index (bu_cache_rows b) row_index;
        (if flag \<or> entry = None
         then let cached = cached_paint_row P row_index row s default_bg in
              Some (b\<lparr>bu_cache_rows := (bu_cache_rows b)[row_index := Some cached],
                     bu_rows := bu_rows b @ [ca_row cached], bu_glyphs := bu_glyphs b @ ca_glyphs cached,
                     bu_rebuilt := bu_rebuilt b + 1,
                     bu_backgrounds := bu_backgrounds b + background_submission_count (ca_row cached)\<rparr>)
         else case entry of
                None \<Rightarrow> None
              | Some cached \<Rightarrow> Some (b\<lparr>bu_rows := bu_rows b @ [ca_row cached], bu_reused := bu_reused b + 1\<rparr>))
      })"

definition terminal_paint_input ::
  "('c, 'h) paint_ops \<Rightarrow> grid_snapshot \<Rightarrow> 'c \<Rightarrow> 'c \<Rightarrow> ('c, 'h) render_cache
     \<Rightarrow> (('c, 'h) paint_input \<times> ('c, 'h) render_cache) option" where
  "terminal_paint_input P s default_fg default_bg cache =
     (let e = cache_entry s default_fg default_bg (cache (gs_session_id s));
          invalid = cache_invalid s default_fg default_bg e;
          c = reset_cache s default_fg default_bg e;
          flags = dirty_row_flags invalid s
      in do {
        b \<leftarrow> for_m (enumerate 0 (gs_rows_data s)) (build_row P s default_bg flags)
              \<lparr>bu_cache_rows = gc_rows_data c, bu_rows = [], bu_glyphs = [], bu_rebuilt = 0, bu_reused = 0, bu_backgrounds = 0\<rparr>;
        Some (\<lparr>pi_session_id = gs_session_id s, pi_cols = gs_cols s, pi_rows = gs_rows s, pi_default_bg = default_bg,
               pi_rows_data = bu_rows b, pi_glyphs = bu_glyphs b,
               pi_cursor = paint_cursor_of P s default_fg default_bg,
               pi_dirty_rows = length (dm_rows (gs_damage s)), pi_dirty_cells = dm_cells (gs_damage s),
               pi_rebuilt_rows = bu_rebuilt b, pi_reused_rows = bu_reused b,
               pi_repaint_backgrounds = bu_backgrounds b, pi_flags = flags\<rparr>,
              cache(gs_session_id s \<mapsto> c\<lparr>gc_rows_data := bu_cache_rows b\<rparr>))
      })"

subsection \<open>The views of the rows\<close>

definition row_view_payload :: "('c, 'h) paint_input \<Rightarrow> ('c, 'h) grid_cache \<Rightarrow> usize \<Rightarrow> ('c, 'h) cached_row option" where
  "row_view_payload input c i =
     (case Option.bind (at_index (gc_rows_data c) i) id of
        Some row \<Rightarrow> Some row
      | None \<Rightarrow> do {
          row \<leftarrow> at_index (pi_rows_data input) i;
          Some \<lparr>ca_row = row, ca_glyphs = filter (\<lambda>g. gl_row g = i) (pi_glyphs input)\<rparr>
        })"

definition view_of :: "u16 \<Rightarrow> ('c, 'h) cached_row \<Rightarrow> ('c, 'h) row_view" where
  "view_of cols row = \<lparr>rv_cols = cols, rv_row = ca_row row, rv_glyphs = ca_glyphs row\<rparr>"

definition update_view :: "('c, 'h) paint_input \<Rightarrow> usize \<Rightarrow> ('c, 'h) grid_cache \<Rightarrow> ('c, 'h) grid_cache option" where
  "update_view input i c = do {
     row \<leftarrow> row_view_payload input c i;
     entry \<leftarrow> at_index (gc_views c) i;
     (case entry of
        Some view \<Rightarrow>
          if (case at_index (pi_flags input) i of Some flag \<Rightarrow> flag | None \<Rightarrow> True)
          then Some (c\<lparr>gc_views := (gc_views c)[i := Some (view_of (pi_cols input) row)]\<rparr>)
          else Some c
      | None \<Rightarrow> Some (c\<lparr>gc_views := (gc_views c)[i := Some (view_of (pi_cols input) row)]\<rparr>))
   }"

definition row_views_for_input ::
  "('c, 'h) paint_input \<Rightarrow> ('c, 'h) render_cache \<Rightarrow> (('c, 'h) row_view option list \<times> ('c, 'h) render_cache) option" where
  "row_views_for_input input cache =
     (case cache (pi_session_id input) of
        None \<Rightarrow> Some ([], cache)
      | Some c \<Rightarrow>
          (let c = (if length (gc_views c) \<noteq> length (pi_rows_data input)
                    then c\<lparr>gc_views := replicate (length (pi_rows_data input)) None\<rparr> else c)
           in do {
             c \<leftarrow> for_m [0..<length (pi_rows_data input)] (update_view input) c;
             Some (gc_views c, cache(pi_session_id input \<mapsto> c))
           }))"

text \<open>
  \<open>terminal_prefers_full_canvas\<close> is always false. The views of the rows and the cursor overlay are what is
  painted.
\<close>

definition terminal_prefers_full_canvas :: "('c, 'h) paint_input \<Rightarrow> bool" where
  "terminal_prefers_full_canvas input = False"

definition render_terminal_grid ::
  "('c, 'h) paint_ops \<Rightarrow> grid_snapshot \<Rightarrow> 'c \<Rightarrow> 'c \<Rightarrow> ('c, 'h) render_cache
     \<Rightarrow> (('c, 'h) row_view option list \<times> ('c, 'h) paint_cursor option \<times> ('c, 'h) render_cache) option" where
  "render_terminal_grid P s default_fg default_bg cache = do {
     (input, cache) \<leftarrow> terminal_paint_input P s default_fg default_bg cache;
     (views, cache) \<leftarrow> row_views_for_input input cache;
     Some (views, pi_cursor input, cache)
   }"

text \<open>\<open>render_terminal_surface\<close> takes the default colours from the snapshot.\<close>

definition render_surface ::
  "('c, 'h) paint_ops \<Rightarrow> grid_snapshot \<Rightarrow> ('c, 'h) render_cache
     \<Rightarrow> (('c, 'h) row_view option list \<times> ('c, 'h) paint_cursor option \<times> ('c, 'h) render_cache) option" where
  "render_surface P s cache = render_terminal_grid P s (po_rgba P (gs_default_fg s)) (po_rgba P (gs_default_bg s)) cache"

end
