(* ===== verification/Paint_Props.thy ===== *)
theory Paint_Props
  imports Terminal_Paint
begin

section \<open>A painted terminal shows the last snapshot\<close>

text \<open>
  The damage of a snapshot is sound with respect to the one before it, coalescing keeps that, and a painting
  from the cache then shows what a painting from scratch would. The run of a live terminal interleaves
  frames of its thread, drains, switches to its workspace and paintings.
\<close>

subsection \<open>A painting from scratch\<close>

definition fresh_row :: "('c, 'h) paint_ops \<Rightarrow> grid_snapshot \<Rightarrow> nat \<Rightarrow> ('c, 'h) cached_row" where
  "fresh_row P s i = cached_paint_row P i (gs_rows_data s ! i) s (po_rgba P (gs_default_bg s))"

definition fresh_view :: "('c, 'h) paint_ops \<Rightarrow> grid_snapshot \<Rightarrow> nat \<Rightarrow> ('c, 'h) row_view" where
  "fresh_view P s i = view_of (gs_cols s) (fresh_row P s i)"

definition fresh_views :: "('c, 'h) paint_ops \<Rightarrow> grid_snapshot \<Rightarrow> ('c, 'h) row_view option list" where
  "fresh_views P s = map (\<lambda>i. Some (fresh_view P s i)) [0..<length (gs_rows_data s)]"

text \<open>The cache after \<open>s\<close> was painted.\<close>

definition in_sync :: "('c, 'h) paint_ops \<Rightarrow> grid_snapshot \<Rightarrow> ('c, 'h) grid_cache \<Rightarrow> bool" where
  "in_sync P s c \<longleftrightarrow> gc_cols c = gs_cols s \<and> gc_rows c = gs_rows s \<and> gc_fg c = po_rgba P (gs_default_fg s)
     \<and> gc_bg c = po_rgba P (gs_default_bg s)
     \<and> gc_rows_data c = map (\<lambda>i. Some (fresh_row P s i)) [0..<length (gs_rows_data s)]
     \<and> gc_views c = fresh_views P s"

definition damage_covers :: "grid_snapshot \<Rightarrow> grid_snapshot \<Rightarrow> bool" where
  "damage_covers s0 s \<longleftrightarrow> ((gs_cols s0, gs_rows s0) = (gs_cols s, gs_rows s) \<longrightarrow>
     dm_full (gs_damage s)
     \<or> (\<forall>i<length (gs_rows_data s). i \<notin> set (dm_rows (gs_damage s)) \<longrightarrow> gs_rows_data s0 ! i = gs_rows_data s ! i))"

definition snapshot_ok :: "grid_snapshot \<Rightarrow> bool" where
  "snapshot_ok s \<longleftrightarrow> length (gs_rows_data s) = gs_rows s \<and> gs_rows s < 65536"

lemma cached_row_cong:
  assumes "po_rgba P (gs_default_fg s) = po_rgba P (gs_default_fg s')" "po_rgba P (gs_default_bg s) = po_rgba P (gs_default_bg s')"
  shows "cached_paint_row P i row s bg = cached_paint_row P i row s' bg"
proof -
  have colors: "effective_cell_colors P cell s = effective_cell_colors P cell s'" for cell
    unfolding effective_cell_colors_def assms ..
  have "background_loop P s bg col cells runs active = background_loop P s' bg col cells runs active" for col cells runs active
  proof (induction cells arbitrary: col runs active)
    case (Cons cell cells)
    show ?case unfolding background_loop.simps Let_def colors Cons.IH ..
  qed simp
  then show ?thesis unfolding cached_paint_row_def background_runs_def colors by simp
qed

lemma length_flags [simp]: "length (dirty_row_flags b s) = length (gs_rows_data s)"
proof -
  have "length (fold (\<lambda>r flags. if r < length flags then flags[r := True] else flags) rs flags) = length flags" for rs flags
    by (induction rs arbitrary: flags) simp_all
  then show ?thesis by (simp add: dirty_row_flags_def)
qed

lemma flags_nth:
  assumes "i < length (gs_rows_data s)"
  shows "dirty_row_flags b s ! i \<longleftrightarrow> b \<or> dm_full (gs_damage s) \<or> i \<in> set (dm_rows (gs_damage s))"
proof -
  have "i < length flags \<Longrightarrow>
      fold (\<lambda>r flags. if r < length flags then flags[r := True] else flags) rs flags ! i \<longleftrightarrow> flags ! i \<or> i \<in> set rs" for rs flags
    by (induction rs arbitrary: flags) (auto simp: nth_list_update)
  from this [of "replicate (length (gs_rows_data s)) (b \<or> dm_full (gs_damage s))"] show ?thesis
    using assms by (auto simp: dirty_row_flags_def)
qed

subsection \<open>The loops\<close>

lemma build_rows:
  assumes "length flags = n" "length (bu_cache_rows b) = n" "k + length rows = n"
    and "\<forall>i<k. bu_cache_rows b ! i = Some (F i)"
    and "\<forall>i<n. k \<le> i \<longrightarrow> (if flags ! i \<or> bu_cache_rows b ! i = None then F i = cached_paint_row P i (rows ! (i - k)) s bg
           else bu_cache_rows b ! i = Some (F i))"
    and "bu_rows b = map (ca_row \<circ> F) [0..<k]"
  shows "ok (\<lambda>b'. bu_cache_rows b' = map (\<lambda>i. Some (F i)) [0..<n] \<and> bu_rows b' = map (ca_row \<circ> F) [0..<n])
           (for_m (enumerate k rows) (build_row P s bg flags) b)"
  using assms
proof (induction rows arbitrary: k b)
  case Nil
  then show ?case by (auto intro: nth_equalityI)
next
  case (Cons row rows)
  have k: "k < n" using Cons.prems(3) by simp
  obtain b' where b': "build_row P s bg flags (k, row) b = Some b'" "length (bu_cache_rows b') = n"
     "bu_cache_rows b' = (bu_cache_rows b)[k := Some (F k)]" "bu_rows b' = bu_rows b @ [ca_row (F k)]"
  proof (cases "flags ! k \<or> bu_cache_rows b ! k = None")
    case True
    then have "F k = cached_paint_row P k row s bg" using Cons.prems(5) k by auto
    then show ?thesis using that True k Cons.prems(1,2) by (auto simp: build_row_def at_index_def Let_def)
  next
    case False
    then have "bu_cache_rows b ! k = Some (F k)" using Cons.prems(5) k by auto
    moreover from this have "(bu_cache_rows b)[k := Some (F k)] = bu_cache_rows b" by (metis list_update_id)
    ultimately show ?thesis using that False k Cons.prems(1,2) by (auto simp: build_row_def at_index_def Let_def)
  qed
  have "ok (\<lambda>b'. bu_cache_rows b' = map (\<lambda>i. Some (F i)) [0..<n] \<and> bu_rows b' = map (ca_row \<circ> F) [0..<n])
           (for_m (enumerate (Suc k) rows) (build_row P s bg flags) b')"
  proof (rule Cons.IH)
    show "\<forall>i<Suc k. bu_cache_rows b' ! i = Some (F i)"
      using Cons.prems(2,4) k by (auto simp: b'(3) less_Suc_eq nth_list_update)
    show "\<forall>i<n. Suc k \<le> i \<longrightarrow> (if flags ! i \<or> bu_cache_rows b' ! i = None
           then F i = cached_paint_row P i (rows ! (i - Suc k)) s bg else bu_cache_rows b' ! i = Some (F i))"
    proof (intro allI impI)
      fix i
      assume i: "i < n" "Suc k \<le> i"
      then have "(row # rows) ! (i - k) = rows ! (i - Suc k)" "bu_cache_rows b' ! i = bu_cache_rows b ! i"
        by (simp_all add: b'(3) nth_Cons')
      then show "if flags ! i \<or> bu_cache_rows b' ! i = None
           then F i = cached_paint_row P i (rows ! (i - Suc k)) s bg else bu_cache_rows b' ! i = Some (F i)"
        using Cons.prems(5) i by (metis Suc_leD)
    qed
  qed (use Cons.prems b' in auto)
  then show ?case using b'(1) by (simp add: o_def)
qed

lemma update_views:
  assumes "length (gc_views c) = n" "length (pi_flags input) = n" "n = length (pi_rows_data input)"
    and "gc_rows_data c = map (\<lambda>i. Some (F i)) [0..<n]" "m \<le> n"
    and "\<forall>i<n. \<not> pi_flags input ! i \<longrightarrow> gc_views c ! i = None \<or> gc_views c ! i = Some (view_of (pi_cols input) (F i))"
  shows "ok (\<lambda>c'. c' = c\<lparr>gc_views := map (\<lambda>i. Some (view_of (pi_cols input) (F i))) [0..<m] @ drop m (gc_views c)\<rparr>)
           (for_m [0..<m] (update_view input) c)"
  using assms(5)
proof (induction m)
  case (Suc m)
  let ?V = "\<lambda>i. Some (view_of (pi_cols input) (F i))"
  let ?c = "c\<lparr>gc_views := map ?V [0..<m] @ drop m (gc_views c)\<rparr>"
  have m: "m < n" using Suc.prems by simp
  have IH: "for_m [0..<m] (update_view input) c = Some ?c" using Suc by (simp add: ok_ex)
  have payload: "row_view_payload input ?c m = Some (F m)"
    using m assms(4) by (simp add: row_view_payload_def at_index_def)
  have drop: "drop m (gc_views c) = gc_views c ! m # drop (Suc m) (gc_views c)" using m assms(1) by (simp add: Cons_nth_drop_Suc)
  have nth: "gc_views ?c ! m = gc_views c ! m" using drop by (simp add: nth_append)
  have upd: "(gc_views ?c)[m := ?V m] = map ?V [0..<Suc m] @ drop (Suc m) (gc_views c)"
    by (simp add: drop list_update_append)
  have same: "gc_views c ! m = ?V m \<Longrightarrow> gc_views ?c = map ?V [0..<Suc m] @ drop (Suc m) (gc_views c)"
    using drop by simp
  have len: "m < length (gc_views ?c)" using m assms(1) by simp
  have "update_view input m ?c = Some (c\<lparr>gc_views := map ?V [0..<Suc m] @ drop (Suc m) (gc_views c)\<rparr>)"
  proof (cases "gc_views c ! m")
    case None
    show ?thesis unfolding update_view_def payload using len None upd nth by (simp add: at_index_def)
  next
    case (Some view)
    show ?thesis
    proof (cases "pi_flags input ! m")
      case True
      show ?thesis unfolding update_view_def payload using len Some upd nth True m assms(2) by (simp add: at_index_def)
    next
      case False
      then have "gc_views c ! m = ?V m" using assms(6) m Some by auto
      then show ?thesis unfolding update_view_def payload using len Some same nth False m assms(2) by (simp add: at_index_def)
    qed
  qed
  then show ?case by (simp add: IH)
qed simp

subsection \<open>One painting\<close>

text \<open>What is known of the cache entry before a painting of \<open>s\<close>: there is none, or it is the one after \<open>s0\<close>.\<close>

definition entry_ok :: "('c, 'h) paint_ops \<Rightarrow> grid_snapshot option \<Rightarrow> ('c, 'h) grid_cache option \<Rightarrow> bool" where
  "entry_ok P before e = (case before of None \<Rightarrow> e = None | Some s0 \<Rightarrow> (case e of None \<Rightarrow> False | Some c \<Rightarrow> in_sync P s0 c))"

definition covers_since :: "grid_snapshot option \<Rightarrow> grid_snapshot \<Rightarrow> bool" where
  "covers_since before s = (case before of None \<Rightarrow> True | Some s0 \<Rightarrow> damage_covers s0 s)"

lemma valid_entry_fresh:
  assumes "in_sync P s0 c" "\<not> cache_invalid s (po_rgba P (gs_default_fg s)) (po_rgba P (gs_default_bg s)) c"
    and "damage_covers s0 s" "i < length (gs_rows_data s)" "\<not> dirty_row_flags False s ! i"
  shows "gc_rows_data c ! i = Some (fresh_row P s i)" "gc_views c ! i = Some (fresh_view P s i)"
proof -
  have len: "length (gs_rows_data s0) = length (gs_rows_data s)"
    and size: "gs_cols s0 = gs_cols s" "gs_rows s0 = gs_rows s"
    and col: "po_rgba P (gs_default_fg s0) = po_rgba P (gs_default_fg s)" "po_rgba P (gs_default_bg s0) = po_rgba P (gs_default_bg s)"
    using assms(1,2) by (auto simp: in_sync_def cache_invalid_def)
  have row: "gs_rows_data s0 ! i = gs_rows_data s ! i"
    using assms(3,4,5) size flags_nth [of i s False] by (auto simp: damage_covers_def)
  have fresh: "fresh_row P s0 i = fresh_row P s i"
    unfolding fresh_row_def row col(2) by (rule cached_row_cong [OF col])
  show "gc_rows_data c ! i = Some (fresh_row P s i)" "gc_views c ! i = Some (fresh_view P s i)"
    using assms(1,4) len fresh size by (simp_all add: in_sync_def fresh_views_def fresh_view_def)
qed

text \<open>The entry after the reset, and the rows that are not built again.\<close>

lemma reset_entry:
  fixes P :: "('c, 'h) paint_ops" and s :: grid_snapshot
  defines "fg \<equiv> po_rgba P (gs_default_fg s)" and "bg \<equiv> po_rgba P (gs_default_bg s)"
  assumes "entry_ok P before e" "covers_since before s"
  defines "c0 \<equiv> cache_entry s fg bg e"
  defines "c \<equiv> reset_cache s fg bg c0" and "flags \<equiv> dirty_row_flags (cache_invalid s fg bg c0) s"
  shows "gc_cols c = gs_cols s" "gc_rows c = gs_rows s" "gc_fg c = fg" "gc_bg c = bg"
    and "length (gc_rows_data c) = length (gs_rows_data s)" "length (gc_views c) = length (gs_rows_data s)"
    and "\<forall>i<length (gs_rows_data s). \<not> flags ! i \<longrightarrow>
          gc_rows_data c ! i = Some (fresh_row P s i) \<and> gc_views c ! i = Some (fresh_view P s i)"
proof -
  show "gc_cols c = gs_cols s" "gc_rows c = gs_rows s" "gc_fg c = fg" "gc_bg c = bg"
    "length (gc_rows_data c) = length (gs_rows_data s)"
    by (auto simp: c_def reset_cache_def cache_invalid_def)
  show "length (gc_views c) = length (gs_rows_data s)"
  proof (cases "cache_invalid s fg bg c0")
    case False
    then show ?thesis using assms(3)
      by (auto simp: c_def reset_cache_def c0_def cache_entry_def cache_invalid_def entry_ok_def in_sync_def fresh_views_def
          split: option.splits)
  qed (simp add: c_def reset_cache_def)
  show "\<forall>i<length (gs_rows_data s). \<not> flags ! i \<longrightarrow>
          gc_rows_data c ! i = Some (fresh_row P s i) \<and> gc_views c ! i = Some (fresh_view P s i)"
  proof (intro allI impI)
    fix i
    assume i: "i < length (gs_rows_data s)" and flag: "\<not> flags ! i"
    then have valid: "\<not> cache_invalid s fg bg c0" using flags_nth [OF i, of "cache_invalid s fg bg c0"] by (simp add: flags_def)
    then have c: "c = c0" by (simp add: c_def reset_cache_def)
    have "before \<noteq> None"
    proof
      assume "before = None"
      then have "c0 = \<lparr>gc_cols = gs_cols s, gc_rows = gs_rows s, gc_fg = fg, gc_bg = bg, gc_rows_data = [], gc_views = []\<rparr>"
        using assms(3) by (simp add: entry_ok_def c0_def cache_entry_def)
      then show False using valid i by (simp add: cache_invalid_def)
    qed
    then obtain s0 c1 where e: "before = Some s0" "e = Some c1" "in_sync P s0 c1"
      using assms(3) by (auto simp: entry_ok_def split: option.splits)
    then have c1: "c0 = c1" by (simp add: c0_def cache_entry_def)
    have cov: "damage_covers s0 s" using assms(4) e(1) by (simp add: covers_since_def)
    have fl: "\<not> dirty_row_flags False s ! i" using flag valid by (simp add: flags_def)
    show "gc_rows_data c ! i = Some (fresh_row P s i) \<and> gc_views c ! i = Some (fresh_view P s i)"
      using valid_entry_fresh [OF e(3) _ cov i fl] valid by (simp add: c c1 fg_def bg_def)
  qed
qed

text \<open>A painting when it is known which row is shown at every index: a fresh one where the flag is set, the cached one elsewhere.\<close>

lemma render_with:
  fixes P :: "('c, 'h) paint_ops" and s :: grid_snapshot and cache :: "('c, 'h) render_cache"
  defines "fg \<equiv> po_rgba P (gs_default_fg s)" and "bg \<equiv> po_rgba P (gs_default_bg s)" and "n \<equiv> length (gs_rows_data s)"
  defines "c0 \<equiv> cache_entry s fg bg (cache (gs_session_id s))"
  defines "c \<equiv> reset_cache s fg bg c0" and "flags \<equiv> dirty_row_flags (cache_invalid s fg bg c0) s"
  assumes len: "length (gc_rows_data c) = n" "length (gc_views c) = n"
    and F: "\<forall>i<n. if flags ! i then F i = fresh_row P s i
                else gc_rows_data c ! i = Some (F i) \<and> gc_views c ! i = Some (view_of (gs_cols s) (F i))"
  defines "views \<equiv> map (\<lambda>i. Some (view_of (gs_cols s) (F i))) [0..<n]"
  shows "render_surface P s cache = Some (views, paint_cursor_of P s fg bg,
     cache(gs_session_id s \<mapsto> c\<lparr>gc_rows_data := map (\<lambda>i. Some (F i)) [0..<n], gc_views := views\<rparr>))"
proof -
  have fl: "length flags = n" by (simp add: flags_def n_def)
  let ?b = "\<lparr>bu_cache_rows = gc_rows_data c, bu_rows = [], bu_glyphs = [], bu_rebuilt = 0, bu_reused = 0, bu_backgrounds = 0\<rparr>
    :: ('c, 'h) building"
  have rows: "\<forall>i<n. 0 \<le> i \<longrightarrow> (if flags ! i \<or> bu_cache_rows ?b ! i = None
      then F i = cached_paint_row P i (gs_rows_data s ! (i - 0)) s bg else bu_cache_rows ?b ! i = Some (F i))"
  proof (intro allI impI)
    fix i
    assume "i < n"
    then show "if flags ! i \<or> bu_cache_rows ?b ! i = None
      then F i = cached_paint_row P i (gs_rows_data s ! (i - 0)) s bg else bu_cache_rows ?b ! i = Some (F i)"
      using F by (cases "flags ! i") (auto simp: fresh_row_def bg_def)
  qed
  have "ok (\<lambda>b'. bu_cache_rows b' = map (\<lambda>i. Some (F i)) [0..<n] \<and> bu_rows b' = map (ca_row \<circ> F) [0..<n])
     (for_m (enumerate 0 (gs_rows_data s)) (build_row P s bg flags) ?b)"
    by (rule build_rows [OF fl _ _ _ rows]) (use len in \<open>simp_all add: n_def\<close>)
  then obtain b where b: "for_m (enumerate 0 (gs_rows_data s)) (build_row P s bg flags) ?b = Some b"
     "bu_cache_rows b = map (\<lambda>i. Some (F i)) [0..<n]" "bu_rows b = map (ca_row \<circ> F) [0..<n]"
    by (auto simp: ok_ex)
  define input where "input = \<lparr>pi_session_id = gs_session_id s, pi_cols = gs_cols s, pi_rows = gs_rows s, pi_default_bg = bg,
       pi_rows_data = bu_rows b, pi_glyphs = bu_glyphs b, pi_cursor = paint_cursor_of P s fg bg,
       pi_dirty_rows = length (dm_rows (gs_damage s)), pi_dirty_cells = dm_cells (gs_damage s),
       pi_rebuilt_rows = bu_rebuilt b, pi_reused_rows = bu_reused b, pi_repaint_backgrounds = bu_backgrounds b, pi_flags = flags\<rparr>"
  define c1 where "c1 = c\<lparr>gc_rows_data := bu_cache_rows b\<rparr>"
  have paint: "terminal_paint_input P s fg bg cache = Some (input, cache(gs_session_id s \<mapsto> c1))"
    unfolding terminal_paint_input_def Let_def c0_def [symmetric] c_def [symmetric] flags_def [symmetric] b(1)
    by (simp add: input_def c1_def)
  have nrows: "length (pi_rows_data input) = n" by (simp add: input_def b(3))
  have c1: "length (gc_views c1) = n" "gc_views c1 = gc_views c" "gc_rows_data c1 = map (\<lambda>i. Some (F i)) [0..<n]"
    using len by (simp_all add: c1_def b(2))
  have "ok (\<lambda>c'. c' = c1\<lparr>gc_views := map (\<lambda>i. Some (view_of (pi_cols input) (F i))) [0..<n] @ drop n (gc_views c1)\<rparr>)
           (for_m [0..<n] (update_view input) c1)"
    by (rule update_views [OF c1(1) _ nrows [symmetric] c1(3)]) (use F fl in \<open>auto simp: input_def c1(2)\<close>)
  then have upd: "for_m [0..<n] (update_view input) c1 = Some (c1\<lparr>gc_views := views\<rparr>)"
    using c1(1) by (simp add: ok_ex views_def input_def)
  have "row_views_for_input input (cache(gs_session_id s \<mapsto> c1)) = Some (views, cache(gs_session_id s \<mapsto> c1\<lparr>gc_views := views\<rparr>))"
    unfolding row_views_for_input_def nrows using c1(1) upd by (simp add: input_def)
  then show ?thesis
    by (simp add: render_surface_def render_terminal_grid_def fg_def [symmetric] bg_def [symmetric] paint)
      (simp add: input_def c1_def b(2))
qed

lemma render_fresh:
  assumes "entry_ok P before (cache (gs_session_id s))" "covers_since before s"
  shows "\<exists>c. in_sync P s c \<and>
     render_surface P s cache = Some (fresh_views P s,
       paint_cursor_of P s (po_rgba P (gs_default_fg s)) (po_rgba P (gs_default_bg s)), cache(gs_session_id s \<mapsto> c))"
proof -
  note entry = reset_entry [OF assms]
  note r = render_with [of s P cache "fresh_row P s", OF entry(5,6)]
  show ?thesis
    by (rule exI, rule conjI [rotated], subst r) (use entry in \<open>auto simp: in_sync_def fresh_views_def fresh_view_def\<close>)
qed

text \<open>A valid entry: rows without the flag keep what was painted for \<open>s0\<close>.\<close>

lemma render_kept:
  assumes "cache (gs_session_id s) = Some c" "in_sync P s0 c"
    and "gs_cols s0 = gs_cols s" "gs_rows s0 = gs_rows s" "length (gs_rows_data s0) = length (gs_rows_data s)"
    and "gs_default_fg s0 = gs_default_fg s" "gs_default_bg s0 = gs_default_bg s"
  shows "\<exists>r. render_surface P s cache = Some r \<and>
    fst r = map (\<lambda>i. Some (if dm_full (gs_damage s) \<or> i \<in> set (dm_rows (gs_damage s)) then fresh_view P s i else fresh_view P s0 i))
      [0..<length (gs_rows_data s)]"
proof -
  let ?n = "length (gs_rows_data s)"
  let ?dirty = "\<lambda>i. dm_full (gs_damage s) \<or> i \<in> set (dm_rows (gs_damage s))"
  let ?F = "\<lambda>i. if ?dirty i then fresh_row P s i else fresh_row P s0 i"
  let ?fg = "po_rgba P (gs_default_fg s)" and ?bg = "po_rgba P (gs_default_bg s)"
  have c0: "cache_entry s ?fg ?bg (Some c) = c" by (simp add: cache_entry_def)
  have valid: "\<not> cache_invalid s ?fg ?bg c" using assms by (simp add: cache_invalid_def in_sync_def)
  then have reset: "reset_cache s ?fg ?bg c = c" by (simp add: reset_cache_def)
  have "render_surface P s cache = Some (map (\<lambda>i. Some (view_of (gs_cols s) (?F i))) [0..<?n], paint_cursor_of P s ?fg ?bg,
     cache(gs_session_id s \<mapsto> reset_cache s ?fg ?bg (cache_entry s ?fg ?bg (cache (gs_session_id s)))
        \<lparr>gc_rows_data := map (\<lambda>i. Some (?F i)) [0..<?n], gc_views := map (\<lambda>i. Some (view_of (gs_cols s) (?F i))) [0..<?n]\<rparr>))"
    by (rule render_with) (use assms valid in \<open>auto simp: c0 reset in_sync_def flags_nth fresh_views_def fresh_view_def\<close>)
  then show ?thesis by (auto simp: fresh_view_def assms(3))
qed

end
