(* ===== verification/Live_View.thy ===== *)
theory Live_View
  imports Paint_Props
begin

section \<open>From the frames of a live terminal to what its pane shows\<close>

text \<open>
  Frames are extracted into snapshots, which wait in a channel, are drained and coalesced, presented and
  painted. \<open>live_run\<close> is the run of one terminal of the active workspace.
\<close>

subsection \<open>The damage of a coalesced snapshot\<close>

fun damage_chain :: "grid_snapshot option \<Rightarrow> grid_snapshot list \<Rightarrow> bool" where
  "damage_chain before [] = True"
| "damage_chain before (s # ss) = (covers_since before s \<and> damage_chain (Some s) ss)"

fun final_snapshot :: "grid_snapshot option \<Rightarrow> grid_snapshot list \<Rightarrow> grid_snapshot option" where
  "final_snapshot before [] = before"
| "final_snapshot before (s # ss) = final_snapshot (Some s) ss"

lemma damage_chain_append [simp]:
  "damage_chain before (ss @ ts) \<longleftrightarrow> damage_chain before ss \<and> damage_chain (final_snapshot before ss) ts"
  by (induction before ss rule: damage_chain.induct) auto

lemma final_snapshot_append [simp]: "final_snapshot before (ss @ ts) = final_snapshot (final_snapshot before ss) ts"
  by (induction before ss rule: final_snapshot.induct) auto

text \<open>Two snapshots with the same picture: they differ at most in their damage and timing.\<close>

definition same_picture :: "grid_snapshot \<Rightarrow> grid_snapshot \<Rightarrow> bool" where
  "same_picture s t \<longleftrightarrow> gs_session_id s = gs_session_id t \<and> gs_cols s = gs_cols t \<and> gs_rows s = gs_rows t
     \<and> gs_default_fg s = gs_default_fg t \<and> gs_default_bg s = gs_default_bg t \<and> gs_cursor s = gs_cursor t
     \<and> gs_rows_data s = gs_rows_data t"

lemma same_picture_refl [simp]: "same_picture s s"
  by (simp add: same_picture_def)

lemma same_picture_trans: "same_picture s t \<Longrightarrow> same_picture t u \<Longrightarrow> same_picture s u"
  by (simp add: same_picture_def)

lemma same_picture_sym: "same_picture s t \<Longrightarrow> same_picture t s"
  by (simp add: same_picture_def)

lemma same_picture_damage [simp]: "same_picture (set_damage d s) s" "same_picture (mark_full_damage s) s"
  by (simp_all add: same_picture_def set_damage_def mark_full_damage_def)

lemma damage_covers_picture: "same_picture s t \<Longrightarrow> damage_covers s u = damage_covers t u"
  by (simp add: same_picture_def damage_covers_def)

lemma snapshot_ok_picture: "same_picture s t \<Longrightarrow> snapshot_ok s = snapshot_ok t"
  by (simp add: same_picture_def snapshot_ok_def)

lemma mark_full_covers [simp]: "damage_covers s0 (mark_full_damage s)" "covers_since before (mark_full_damage s)"
  by (simp_all add: damage_covers_def covers_since_def mark_full_damage_def set_damage_def split: option.split)

lemma coalesce_latest: "co_latest (fold coalesce_step ss c) = (case ss of [] \<Rightarrow> co_latest c | _ \<Rightarrow> last ss)"
  by (induction ss arbitrary: c) (auto simp: coalesce_step_def split: list.split)

text \<open>What the loop of the coalescing keeps: unless full damage is forced, all sizes agree and the rows outside the set are unchanged since \<open>s0\<close>.\<close>

definition coalescing_ok :: "grid_snapshot \<Rightarrow> coalescing \<Rightarrow> bool" where
  "coalescing_ok s0 c \<longleftrightarrow> co_size c = (gs_cols (co_latest c), gs_rows (co_latest c))
     \<and> (\<not> co_force_full c \<longrightarrow> (gs_cols s0, gs_rows s0) = co_size c \<longrightarrow>
         (\<forall>i<gs_rows (co_latest c). i \<notin> co_dirty c \<longrightarrow> gs_rows_data s0 ! i = gs_rows_data (co_latest c) ! i))"

lemma coalesce_step_ok:
  assumes "coalescing_ok s0 c" "damage_covers (co_latest c) s" "snapshot_ok s"
  shows "coalescing_ok s0 (coalesce_step s c)"
  using assms by (auto simp: coalescing_ok_def coalesce_step_def damage_covers_def snapshot_ok_def)

lemma coalesce_fold_ok:
  assumes "coalescing_ok s0 c" "damage_chain (Some (co_latest c)) ss" "\<forall>s\<in>set ss. snapshot_ok s"
  shows "coalescing_ok s0 (fold coalesce_step ss c)"
  using assms
proof (induction ss arbitrary: c)
  case (Cons s ss)
  have "co_latest (coalesce_step s c) = s" by (simp add: coalesce_step_def)
  then show ?case using Cons coalesce_step_ok [of s0 c s] by (simp add: covers_since_def)
qed simp

lemma coalesce_finish_covers:
  assumes "coalescing_ok s0 c" "finite (co_dirty c)" "snapshot_ok (co_latest c)"
  shows "damage_covers s0 (coalesce_finish c)"
proof (cases "co_force_full c")
  case False
  then show ?thesis using assms
    by (auto simp: coalesce_finish_def damage_covers_def set_damage_def coalescing_ok_def snapshot_ok_def Let_def)
qed (simp add: coalesce_finish_def)

lemma coalesce_finite: "finite (co_dirty c) \<Longrightarrow> finite (co_dirty (fold coalesce_step ss c))"
  by (induction ss arbitrary: c) (simp_all add: coalesce_step_def)

lemma coalesce_picture:
  assumes "coalesce_snapshots (s # ss) = Some t"
  shows "same_picture t (last (s # ss))"
proof -
  let ?c = "fold coalesce_step ss (coalesce_start s)"
  have "same_picture (coalesce_finish ?c) (co_latest ?c)"
    by (simp add: coalesce_finish_def Let_def)
  moreover have "co_latest ?c = last (s # ss)"
    by (simp add: coalesce_latest coalesce_start_def split: list.split)
  moreover have "t = coalesce_finish ?c" using assms by (simp add: coalesce_snapshots_def)
  ultimately show ?thesis by (simp only:)
qed

lemma coalesce_covers:
  assumes "damage_chain before ss" "\<forall>s\<in>set ss. snapshot_ok s" "coalesce_snapshots ss = Some t"
  shows "covers_since before t"
proof (cases before)
  case (Some s0)
  obtain s rest where ss: "ss = s # rest" using assms(3) by (cases ss) (auto simp: coalesce_snapshots_def)
  have first: "coalescing_ok s0 (coalesce_start s)"
    using assms(1,2) by (auto simp: coalescing_ok_def coalesce_start_def ss Some covers_since_def damage_covers_def snapshot_ok_def)
  have "coalescing_ok s0 (fold coalesce_step rest (coalesce_start s))"
    by (rule coalesce_fold_ok [OF first]) (use assms(1,2) in \<open>simp_all add: ss coalesce_start_def\<close>)
  moreover have "finite (co_dirty (fold coalesce_step rest (coalesce_start s)))"
    by (rule coalesce_finite) (simp add: coalesce_start_def)
  moreover have "snapshot_ok (co_latest (fold coalesce_step rest (coalesce_start s)))"
    using assms(2) by (auto simp: coalesce_latest coalesce_start_def ss split: list.split)
  ultimately have "damage_covers s0 (coalesce_finish (fold coalesce_step rest (coalesce_start s)))"
    by (rule coalesce_finish_covers)
  then show ?thesis using assms(3) by (simp add: coalesce_snapshots_def ss Some covers_since_def)
qed (simp add: covers_since_def)

subsection \<open>The damage of an extracted snapshot\<close>

definition frame_ok :: "render_frame \<Rightarrow> bool" where
  "frame_ok f \<longleftrightarrow> length (rf_cells f) = rf_rows f \<and> rf_rows f < 65536"

definition frame_rows :: "render_frame \<Rightarrow> cell_snapshot list list" where
  "frame_rows f = map (map extract_cell) (rf_cells f)"

text \<open>The extractor after the frame whose snapshot is \<open>s0\<close>.\<close>

definition extractor_after :: "(cell_snapshot list \<Rightarrow> u64) \<Rightarrow> grid_snapshot option \<Rightarrow> extractor \<Rightarrow> bool" where
  "extractor_after h before ex = (case before of None \<Rightarrow> ex = extractor_new
     | Some s0 \<Rightarrow> ex_size ex = Some (gs_cols s0, gs_rows s0) \<and> ex_row_hashes ex = map (h \<circ> rs_cells) (gs_rows_data s0))"

text \<open>No changed row has the hash of the row it replaces.\<close>

definition hash_tells :: "(cell_snapshot list \<Rightarrow> u64) \<Rightarrow> grid_snapshot option \<Rightarrow> render_frame \<Rightarrow> bool" where
  "hash_tells h before f = (case before of None \<Rightarrow> True | Some s0 \<Rightarrow>
     (\<forall>i<length (frame_rows f). i < length (gs_rows_data s0) \<longrightarrow>
        h (rs_cells (gs_rows_data s0 ! i)) = h (frame_rows f ! i) \<longrightarrow> rs_cells (gs_rows_data s0 ! i) = frame_rows f ! i))"

lemma snapshot_rows: "gs_rows_data (fst (snapshot h u x sid f ex)) = map (\<lambda>cells. \<lparr>rs_cells = cells\<rparr>) (frame_rows f)"
  by (simp add: snapshot_def Let_def extract_rows_data extraction_start_def frame_rows_def)

lemma snapshot_header:
  "gs_session_id (fst (snapshot h u x sid f ex)) = sid" "gs_cols (fst (snapshot h u x sid f ex)) = rf_cols f"
  "gs_rows (fst (snapshot h u x sid f ex)) = rf_rows f"
  by (simp_all add: snapshot_def Let_def)

lemma snapshot_is_ok: "frame_ok f \<Longrightarrow> snapshot_ok (fst (snapshot h u x sid f ex))"
  by (simp add: snapshot_ok_def snapshot_rows snapshot_header frame_ok_def frame_rows_def)

lemma snapshot_extractor: "extractor_after h (Some (fst (snapshot h u x sid f ex))) (snd (snapshot h u x sid f ex))"
  by (simp add: extractor_after_def snapshot_header snapshot_rows)
    (simp add: snapshot_def Let_def extract_rows_hashes extraction_start_def frame_rows_def)

lemma snapshot_damage_rows:
  assumes "frame_ok f" "i < rf_rows f"
  shows "i \<in> set (dm_rows (gs_damage (fst (snapshot h u x sid f ex)))) \<longleftrightarrow>
    row_differs h (ex_row_hashes ex) (ex_size ex \<noteq> Some (rf_cols f, rf_rows f)) (rf_cells f) i"
  using assms by (simp add: snapshot_def Let_def extract_dirty frame_ok_def)

lemma snapshot_covers:
  assumes "extractor_after h before ex" "frame_ok f" "hash_tells h before f"
  shows "covers_since before (fst (snapshot h u x sid f ex))"
proof (cases before)
  case (Some s0)
  let ?s = "fst (snapshot h u x sid f ex)"
  have "damage_covers s0 ?s"
    unfolding damage_covers_def
  proof (intro impI disjI2 allI)
    fix i
    assume i: "i < length (gs_rows_data ?s)" and clean: "i \<notin> set (dm_rows (gs_damage ?s))"
    have n: "i < rf_rows f" "i < length (rf_cells f)" using i assms(2) by (simp_all add: snapshot_rows frame_ok_def frame_rows_def)
    have "\<not> row_differs h (ex_row_hashes ex) (ex_size ex \<noteq> Some (rf_cols f, rf_rows f)) (rf_cells f) i"
      using clean snapshot_damage_rows [OF assms(2) n(1)] by blast
    then have "i < length (gs_rows_data s0)" "h (rs_cells (gs_rows_data s0 ! i)) = h (frame_rows f ! i)"
      using assms(1) n by (auto simp: row_differs_def extractor_after_def Some frame_rows_def)
    then have "rs_cells (gs_rows_data s0 ! i) = frame_rows f ! i"
      using assms(3) n by (auto simp: hash_tells_def Some frame_rows_def)
    then show "gs_rows_data s0 ! i = gs_rows_data ?s ! i"
      using n by (cases "gs_rows_data s0 ! i") (simp add: snapshot_rows frame_rows_def)
  qed
  then show ?thesis by (simp add: covers_since_def Some)
qed (simp add: covers_since_def)

subsection \<open>The run of a live terminal\<close>

definition opt_list :: "'a option \<Rightarrow> 'a list" where
  "opt_list x = (case x of None \<Rightarrow> [] | Some a \<Rightarrow> [a])"

lemma opt_list_simps [simp]: "opt_list None = []" "opt_list (Some a) = [a]"
  by (simp_all add: opt_list_def)

text \<open>
  \<open>lv_last\<close> (the snapshot of the last frame), \<open>lv_painted\<close> (the last painted one) and \<open>lv_current\<close> (the
  presented snapshot has been painted) only record the history.
\<close>

record ('c, 'h) live_view =
  lv_extractor :: extractor
  lv_pane :: live_pane
  lv_cache :: "('c, 'h) render_cache"
  lv_shown :: "('c, 'h) row_view option list"
  lv_cursor :: "('c, 'h) paint_cursor option"
  lv_last :: "grid_snapshot option"
  lv_painted :: "grid_snapshot option"
  lv_current :: bool

definition live_view_start :: "('c, 'h) live_view" where
  "live_view_start = \<lparr>lv_extractor = extractor_new, lv_pane = live_pane_new, lv_cache = (\<lambda>_. None), lv_shown = [],
     lv_cursor = None, lv_last = None, lv_painted = None, lv_current = True\<rparr>"

definition add_frame ::
  "(cell_snapshot list \<Rightarrow> u64) \<Rightarrow> u64 \<Rightarrow> u64 \<Rightarrow> snapshot_timing \<Rightarrow> rtext \<Rightarrow> render_frame \<Rightarrow> ('c, 'h) live_view \<Rightarrow> ('c, 'h) live_view" where
  "add_frame h u x timing sid f v =
     (let (s, ex) = snapshot h u x sid f (lv_extractor v) in
      v\<lparr>lv_extractor := ex, lv_last := Some s,
        lv_pane := (lv_pane v)\<lparr>lp_queue := lp_queue (lv_pane v) @ [s\<lparr>gs_timing := timing\<rparr>]\<rparr>\<rparr>)"

definition present :: "live_pane \<times> grid_snapshot option \<Rightarrow> ('c, 'h) live_view \<Rightarrow> ('c, 'h) live_view" where
  "present r v = v\<lparr>lv_pane := fst r, lv_current := (snd r = None \<and> lv_current v)\<rparr>"

definition painted ::
  "grid_snapshot \<Rightarrow> ('c, 'h) row_view option list \<times> ('c, 'h) paint_cursor option \<times> ('c, 'h) render_cache
     \<Rightarrow> ('c, 'h) live_view \<Rightarrow> ('c, 'h) live_view" where
  "painted s r v = v\<lparr>lv_shown := fst r, lv_cursor := fst (snd r), lv_cache := snd (snd r), lv_painted := Some s, lv_current := True\<rparr>"

text \<open>
  A drain that receives snapshots finds none pending, and finds the presented one painted. A switch to the
  workspace may come at any time.
\<close>

inductive live_run ::
  "('c, 'h) paint_ops \<Rightarrow> (cell_snapshot list \<Rightarrow> u64) \<Rightarrow> rtext \<Rightarrow> rtext \<Rightarrow> rtext \<Rightarrow> ('c, 'h) live_view \<Rightarrow> bool"
  for P h sid workspace_id key where
  run_start: "live_run P h sid workspace_id key live_view_start"
| run_frame: "live_run P h sid workspace_id key v \<Longrightarrow> frame_ok f \<Longrightarrow> hash_tells h (lv_last v) f
    \<Longrightarrow> live_run P h sid workspace_id key (add_frame h u x timing sid f v)"
| run_drain: "live_run P h sid workspace_id key v \<Longrightarrow> lp_pending (lv_pane v) = None \<or> lp_queue (lv_pane v) = [] \<Longrightarrow> lv_current v
    \<Longrightarrow> drain_live perf clock workspace_id key selected now (lv_pane v) = (p, presented, delay)
    \<Longrightarrow> live_run P h sid workspace_id key (present (p, presented) v)"
| run_sync: "live_run P h sid workspace_id key v
    \<Longrightarrow> live_run P h sid workspace_id key (present (sync_live now (lv_pane v)) v)"
| run_paint: "live_run P h sid workspace_id key v \<Longrightarrow> lp_latest (lv_pane v) = Some s
    \<Longrightarrow> render_surface P s (lv_cache v) = Some r
    \<Longrightarrow> live_run P h sid workspace_id key (painted s r v)"
| run_other: "live_run P h sid workspace_id key v \<Longrightarrow> lp_queue p = lp_queue (lv_pane v) \<Longrightarrow> lp_pending p = lp_pending (lv_pane v)
    \<Longrightarrow> lp_latest p = lp_latest (lv_pane v)
    \<Longrightarrow> live_run P h sid workspace_id key (v\<lparr>lv_pane := p\<rparr>)"

definition waiting :: "('c, 'h) live_view \<Rightarrow> grid_snapshot list" where
  "waiting v = (if lv_current v then [] else opt_list (lp_latest (lv_pane v))) @ opt_list (lp_pending (lv_pane v))
     @ lp_queue (lv_pane v)"

definition picture_of :: "grid_snapshot option \<Rightarrow> grid_snapshot option \<Rightarrow> bool" where
  "picture_of a b = (case (a, b) of (None, None) \<Rightarrow> True | (Some s, Some t) \<Rightarrow> same_picture s t | _ \<Rightarrow> False)"

text \<open>The invariant: \<open>chain_ok\<close> of what waits, the cache and the views after the last painting.\<close>

definition chain_ok :: "rtext \<Rightarrow> grid_snapshot option \<Rightarrow> grid_snapshot list \<Rightarrow> grid_snapshot option \<Rightarrow> bool" where
  "chain_ok sid before ss final \<longleftrightarrow> damage_chain before ss \<and> (\<forall>s\<in>set ss. snapshot_ok s \<and> gs_session_id s = sid)
     \<and> picture_of (final_snapshot before ss) final"

definition shows_painted ::
  "('c, 'h) paint_ops \<Rightarrow> rtext \<Rightarrow> ('c, 'h) row_view option list \<Rightarrow> ('c, 'h) paint_cursor option \<Rightarrow> grid_snapshot option \<Rightarrow> bool" where
  "shows_painted P sid shown cursor before \<longleftrightarrow> (\<forall>s. before = Some s \<longrightarrow> snapshot_ok s \<and> gs_session_id s = sid
     \<and> shown = fresh_views P s \<and> cursor = paint_cursor_of P s (po_rgba P (gs_default_fg s)) (po_rgba P (gs_default_bg s)))"

lemma shows_painted_simps [simp]:
  "shows_painted P sid shown cursor None"
  "shows_painted P sid shown cursor (Some s) \<longleftrightarrow> snapshot_ok s \<and> gs_session_id s = sid
     \<and> shown = fresh_views P s \<and> cursor = paint_cursor_of P s (po_rgba P (gs_default_fg s)) (po_rgba P (gs_default_bg s))"
  by (auto simp: shows_painted_def)

definition view_ok :: "('c, 'h) paint_ops \<Rightarrow> rtext \<Rightarrow> ('c, 'h) live_view \<Rightarrow> bool" where
  "view_ok P sid v \<longleftrightarrow> entry_ok P (lv_painted v) (lv_cache v sid)
     \<and> shows_painted P sid (lv_shown v) (lv_cursor v) (lv_painted v)
     \<and> (lv_current v \<longrightarrow> lp_latest (lv_pane v) = lv_painted v)
     \<and> (\<not> lv_current v \<longrightarrow> lp_latest (lv_pane v) \<noteq> None)"

definition live_ok :: "('c, 'h) paint_ops \<Rightarrow> (cell_snapshot list \<Rightarrow> u64) \<Rightarrow> rtext \<Rightarrow> ('c, 'h) live_view \<Rightarrow> bool" where
  "live_ok P h sid v \<longleftrightarrow> extractor_after h (lv_last v) (lv_extractor v) \<and> chain_ok sid (lv_painted v) (waiting v) (lv_last v) \<and> view_ok P sid v"

lemma covers_since_picture: "picture_of a b \<Longrightarrow> covers_since a s = covers_since b s"
  by (auto simp: picture_of_def covers_since_def damage_covers_picture split: option.splits)

lemma covers_since_timing [simp]: "covers_since a (s\<lparr>gs_timing := t\<rparr>) = covers_since a s"
  by (simp add: covers_since_def damage_covers_def split: option.split)

lemma frame_step:
  assumes "live_ok P h sid v" "frame_ok f" "hash_tells h (lv_last v) f"
  shows "live_ok P h sid (add_frame h u x timing sid f v)"
proof -
  define s where "s = fst (snapshot h u x sid f (lv_extractor v))"
  define ex where "ex = snd (snapshot h u x sid f (lv_extractor v))"
  define v' where "v' = v\<lparr>lv_extractor := ex, lv_last := Some s,
        lv_pane := (lv_pane v)\<lparr>lp_queue := lp_queue (lv_pane v) @ [s\<lparr>gs_timing := timing\<rparr>]\<rparr>\<rparr>"
  have v': "add_frame h u x timing sid f v = v'"
    by (simp add: add_frame_def v'_def s_def ex_def case_prod_beta)
  have w: "waiting v' = waiting v @ [s\<lparr>gs_timing := timing\<rparr>]" by (simp add: v'_def waiting_def)
  have old: "extractor_after h (lv_last v) (lv_extractor v)" "chain_ok sid (lv_painted v) (waiting v) (lv_last v)" "view_ok P sid v"
    using assms(1) by (simp_all add: live_ok_def)
  have cov: "covers_since (lv_last v) s" unfolding s_def by (rule snapshot_covers [OF old(1) assms(2,3)])
  have "covers_since (final_snapshot (lv_painted v) (waiting v)) s"
    using old(2) cov covers_since_picture by (auto simp: chain_ok_def)
  moreover have "snapshot_ok s" "gs_session_id s = sid" by (simp_all add: s_def snapshot_is_ok assms(2) snapshot_header)
  moreover have proj: "lv_painted v' = lv_painted v" "lv_last v' = Some s" by (simp_all add: v'_def)
  ultimately have "chain_ok sid (lv_painted v') (waiting v') (lv_last v')"
    using old(2) unfolding chain_ok_def w proj by (auto simp: picture_of_def snapshot_ok_def same_picture_def)
  moreover have "extractor_after h (Some s) ex" unfolding s_def ex_def by (rule snapshot_extractor)
  then have "extractor_after h (lv_last v') (lv_extractor v')" by (simp add: v'_def)
  moreover have "view_ok P sid v'" using old(3) by (simp add: view_ok_def v'_def)
  ultimately show ?thesis by (simp add: live_ok_def v')
qed

text \<open>A coalesced end of the chain, and a full snapshot in place of it.\<close>

lemma chain_ok_coalesce:
  assumes "chain_ok sid before (ss @ ts) final" "coalesce_snapshots ts = Some t"
  shows "chain_ok sid before (ss @ [t]) final"
proof -
  obtain a as where ts: "ts = a # as" using assms(2) by (cases ts) (auto simp: coalesce_snapshots_def)
  have pic: "same_picture t (last ts)" using coalesce_picture assms(2) by (simp add: ts)
  have fin: "final_snapshot b ts = Some (last ts)" for b
    unfolding ts by (induction as arbitrary: a b) auto
  have "covers_since (final_snapshot before ss) t"
    by (rule coalesce_covers [OF _ _ assms(2)]) (use assms(1) in \<open>simp_all add: chain_ok_def\<close>)
  moreover have "last ts \<in> set ts" by (simp add: ts)
  then have "snapshot_ok t" "gs_session_id t = sid"
    using assms(1) pic snapshot_ok_picture [OF pic] by (auto simp: chain_ok_def same_picture_def)
  moreover have "picture_of (Some t) final"
    using assms(1) pic by (auto simp: chain_ok_def fin picture_of_def split: option.splits intro: same_picture_trans)
  ultimately show ?thesis using assms(1) by (simp add: chain_ok_def)
qed

lemma chain_ok_full:
  assumes "chain_ok sid before (ss @ [s]) final"
  shows "chain_ok sid before' [mark_full_damage s] final"
proof -
  have pic: "same_picture (mark_full_damage s) s" by simp
  show ?thesis using assms snapshot_ok_picture [OF pic] pic
    by (auto simp: chain_ok_def picture_of_def same_picture_def split: option.splits)
qed

lemma sync_step:
  assumes "live_ok P h sid v"
  shows "live_ok P h sid (present (sync_live now (lv_pane v)) v)"
proof -
  have old: "extractor_after h (lv_last v) (lv_extractor v)" "chain_ok sid (lv_painted v) (waiting v) (lv_last v)" "view_ok P sid v"
    using assms(1) by (simp_all add: live_ok_def)
  let ?p = "lv_pane v"
  let ?v = "present (sync_live now ?p) v"
  have full: "chain_ok sid (lv_painted v) [mark_full_damage (mark_full_damage s)] (lv_last v)"
    if "chain_ok sid (lv_painted v) (ss @ [s]) (lv_last v)" for ss s
    using chain_ok_full [OF that, of "lv_painted v"] chain_ok_full [of sid "lv_painted v" "[]" "mark_full_damage s" "lv_last v"] by simp
  have "chain_ok sid (lv_painted v) (waiting ?v) (lv_last v) \<and> view_ok P sid ?v"
  proof (cases "coalesce_snapshots (lp_queue ?p)")
    case (Some t)
    let ?ss = "(if lv_current v then [] else opt_list (lp_latest ?p)) @ opt_list (lp_pending ?p)"
    have "chain_ok sid (lv_painted v) (?ss @ lp_queue ?p) (lv_last v)" using old(2) by (simp add: waiting_def)
    from full [OF chain_ok_coalesce [OF this Some]] show ?thesis
      using old(3) Some by (simp add: sync_live_def Let_def present_def waiting_def view_ok_def)
  next
    case None
    then have q: "lp_queue ?p = []" by (cases "lp_queue ?p") (simp_all add: coalesce_snapshots_def)
    show ?thesis
    proof (cases "lp_pending ?p")
      case (Some s)
      let ?ss = "if lv_current v then [] else opt_list (lp_latest ?p)"
      have "chain_ok sid (lv_painted v) (?ss @ [s]) (lv_last v)" using old(2) q Some by (simp add: waiting_def)
      from chain_ok_full [OF this] show ?thesis
        using old(3) None Some q by (simp add: sync_live_def Let_def present_def waiting_def view_ok_def)
    next
      case pend: None
      show ?thesis
      proof (cases "lp_latest ?p")
        case Nothing: None
        then have "lv_current v" "lv_painted v = None" using old(3) by (auto simp: view_ok_def)
        then show ?thesis using old(2,3) None pend Nothing q
          by (simp add: sync_live_def Let_def present_def waiting_def view_ok_def)
      next
        case (Some s)
        have "chain_ok sid (lv_painted v) [mark_full_damage s] (lv_last v)"
        proof (cases "lv_current v")
          case False
          then have "chain_ok sid (lv_painted v) ([] @ [s]) (lv_last v)" using old(2) q pend Some by (simp add: waiting_def)
          then show ?thesis by (rule chain_ok_full)
        next
          case True
          then have "lv_painted v = Some s" using old(3) Some by (simp add: view_ok_def)
          then have "chain_ok sid None ([] @ [s]) (lv_last v)"
            using old(2,3) q pend True by (simp add: waiting_def chain_ok_def view_ok_def covers_since_def)
          then show ?thesis by (rule chain_ok_full)
        qed
        then show ?thesis using old(3) None pend Some q by (simp add: sync_live_def Let_def present_def waiting_def view_ok_def)
      qed
    qed
  qed
  then show ?thesis using old(1) by (simp add: live_ok_def present_def)
qed

lemma receive_step:
  assumes "live_ok P h sid v" "lp_pending (lv_pane v) = None \<or> lp_queue (lv_pane v) = []" "lv_current v"
  shows "live_ok P h sid (v\<lparr>lv_pane := receive_snapshots perf clock (lv_pane v)\<rparr>)"
proof (cases "coalesce_snapshots (lp_queue (lv_pane v))")
  case None
  then have "lp_queue (lv_pane v) = []" by (cases "lp_queue (lv_pane v)") (simp_all add: coalesce_snapshots_def)
  then show ?thesis using assms(1,3) None
    by (simp add: live_ok_def receive_snapshots_def waiting_def view_ok_def)
next
  case (Some t)
  then have "lp_queue (lv_pane v) \<noteq> []" by (auto simp: coalesce_snapshots_def)
  then have pend: "lp_pending (lv_pane v) = None" using assms(2) by simp
  have "chain_ok sid (lv_painted v) ([] @ lp_queue (lv_pane v)) (lv_last v)"
    using assms(1,3) pend by (simp add: live_ok_def waiting_def)
  from chain_ok_coalesce [OF this Some] show ?thesis
    using assms(1,3) Some by (simp add: live_ok_def receive_snapshots_def waiting_def view_ok_def)
qed

lemma drain_step:
  assumes "live_ok P h sid v" "lp_pending (lv_pane v) = None \<or> lp_queue (lv_pane v) = []" "lv_current v"
    and "drain_live perf clock workspace_id key selected now (lv_pane v) = (p, presented, delay)"
  shows "live_ok P h sid (present (p, presented) v)"
proof -
  let ?p = "receive_snapshots perf clock (lv_pane v)"
  let ?v = "v\<lparr>lv_pane := ?p\<rparr>"
  have ok: "live_ok P h sid ?v" by (rule receive_step [OF assms(1-3)])
  have q: "lp_queue ?p = []" by (simp add: receive_snapshots_def Let_def split: option.split)
  have same: "present r v = present r ?v" for r by (simp add: present_def)
  show ?thesis
  proof (cases "fst (take_presentable ?p selected now)")
    case None
    then have "take_presentable ?p selected now = (None, ?p)" by (auto simp: take_presentable_def split: if_splits)
    then have "p = ?p" "presented = None" using assms(4) by (simp_all add: drain_live_def Let_def)
    then show ?thesis using ok by (simp add: same) (simp add: present_def)
  next
    case (Some s)
    then have take: "take_presentable ?p selected now = (Some s, ?p\<lparr>lp_pending := None\<rparr>)" "lp_pending ?p = Some s"
      by (auto simp: take_presentable_def split: if_splits)
    define t where "t = (if in_other_workspace workspace_id key then mark_full_damage s else s)"
    have r: "p = ?p\<lparr>lp_pending := None, lp_latest := Some t, lp_last_presented := Some now\<rparr>" "presented = Some t"
      using assms(4) by (auto simp: drain_live_def Let_def take t_def split: if_splits)
    have "chain_ok sid (lv_painted v) ([] @ [s]) (lv_last v)"
      using ok assms(3) q take(2) by (simp add: live_ok_def waiting_def)
    then have "chain_ok sid (lv_painted v) [t] (lv_last v)"
      using chain_ok_full [of sid "lv_painted v" "[]" s "lv_last v" "lv_painted v"] by (simp add: t_def)
    then show ?thesis using ok q by (simp add: live_ok_def present_def waiting_def view_ok_def r)
  qed
qed

lemma paint_step:
  assumes "live_ok P h sid v" "lp_latest (lv_pane v) = Some s"
  shows "\<exists>r. render_surface P s (lv_cache v) = Some r \<and> live_ok P h sid (painted s r v)"
proof -
  let ?rest = "opt_list (lp_pending (lv_pane v)) @ lp_queue (lv_pane v)"
  have old: "extractor_after h (lv_last v) (lv_extractor v)" "chain_ok sid (lv_painted v) (waiting v) (lv_last v)" "view_ok P sid v"
    using assms(1) by (simp_all add: live_ok_def)
  have "covers_since (lv_painted v) s \<and> snapshot_ok s \<and> gs_session_id s = sid \<and> chain_ok sid (Some s) ?rest (lv_last v)"
  proof (cases "lv_current v")
    case True
    then have "lv_painted v = Some s" using old(3) assms(2) by (simp add: view_ok_def)
    then show ?thesis using old(2,3) True by (simp add: covers_since_def damage_covers_def view_ok_def waiting_def)
  next
    case False
    then show ?thesis using old(2) assms(2) by (simp add: waiting_def chain_ok_def)
  qed
  then have s: "covers_since (lv_painted v) s" "snapshot_ok s" "gs_session_id s = sid" "chain_ok sid (Some s) ?rest (lv_last v)"
    by blast+
  have "entry_ok P (lv_painted v) (lv_cache v (gs_session_id s))" using old(3) s(3) by (simp add: view_ok_def)
  from render_fresh [where P = P and s = s and cache = "lv_cache v" and before = "lv_painted v", OF this s(1)] obtain c where c: "in_sync P s c"
    "render_surface P s (lv_cache v) = Some (fresh_views P s,
       paint_cursor_of P s (po_rgba P (gs_default_fg s)) (po_rgba P (gs_default_bg s)), (lv_cache v)(gs_session_id s \<mapsto> c))"
    by blast
  moreover have "live_ok P h sid (painted s (fresh_views P s,
       paint_cursor_of P s (po_rgba P (gs_default_fg s)) (po_rgba P (gs_default_bg s)), (lv_cache v)(gs_session_id s \<mapsto> c)) v)"
    using old(1) s c(1) assms(2) by (simp add: live_ok_def painted_def waiting_def view_ok_def entry_ok_def)
  ultimately show ?thesis by blast
qed

lemma live_run_ok: "live_run P h sid workspace_id key v \<Longrightarrow> live_ok P h sid v"
proof (induction rule: live_run.induct)
  case run_start
  show ?case
    by (simp add: live_ok_def live_view_start_def extractor_after_def chain_ok_def waiting_def live_pane_new_def
        picture_of_def view_ok_def entry_ok_def)
next
  case (run_paint v s r)
  then show ?case using paint_step [of P h sid v s] by auto
next
  case (run_other v p)
  then show ?case by (cases "lv_current v") (simp_all add: live_ok_def waiting_def view_ok_def)
qed (auto intro: frame_step drain_step sync_step)

lemma fresh_views_picture:
  assumes "same_picture s t"
  shows "fresh_views P s = fresh_views P t" "paint_cursor_of P s fg bg = paint_cursor_of P t fg bg"
proof -
  have e: "gs_cursor s = gs_cursor t" "gs_cols s = gs_cols t" "gs_rows s = gs_rows t" "gs_rows_data s = gs_rows_data t"
    using assms by (simp_all add: same_picture_def)
  have "fresh_row P s i = fresh_row P t i" for i
    using assms cached_row_cong [of P s t] by (simp add: fresh_row_def same_picture_def)
  then show "fresh_views P s = fresh_views P t"
    using assms by (simp add: fresh_views_def fresh_view_def same_picture_def)
  show "paint_cursor_of P s fg bg = paint_cursor_of P t fg bg"
    unfolding paint_cursor_of_def e ..
qed

text \<open>One frame, drained and painted in the selected pane.\<close>

definition at_rest :: "('c, 'h) live_view \<Rightarrow> bool" where
  "at_rest v \<longleftrightarrow> lv_current v \<and> lp_pending (lv_pane v) = None \<and> lp_queue (lv_pane v) = []"

lemma selected_round:
  assumes run: "live_run P h sid workspace_id key v" and rest: "at_rest v" and f: "frame_ok f" "hash_tells h (lv_last v) f"
  shows "\<exists>v'. live_run P h sid workspace_id key v' \<and> at_rest v' \<and> lv_last v' = Some (fst (snapshot h u x sid f (lv_extractor v)))
     \<and> lv_extractor v' = snd (snapshot h u x sid f (lv_extractor v))"
proof -
  define s where "s = fst (snapshot h u x sid f (lv_extractor v))"
  define v1 where "v1 = add_frame h u x (gs_timing s) sid f v"
  have run1: "live_run P h sid workspace_id key v1" unfolding v1_def by (rule run_frame [OF run f])
  have v1: "lv_pane v1 = (lv_pane v)\<lparr>lp_queue := [s]\<rparr>" "lv_current v1" "lv_last v1 = Some s"
     "lv_extractor v1 = snd (snapshot h u x sid f (lv_extractor v))"
    using rest by (simp_all add: v1_def add_frame_def s_def at_rest_def case_prod_beta)
  have pend: "lp_pending (lv_pane v1) = None" using rest v1(1) by (simp add: at_rest_def)
  obtain p presented delay where d: "drain_live False 0 workspace_id key True 0 (lv_pane v1) = (p, presented, delay)"
    by (cases "drain_live False 0 workspace_id key True 0 (lv_pane v1)") auto
  have run2: "live_run P h sid workspace_id key (present (p, presented) v1)"
    by (rule run_drain [OF run1 _ v1(2) d]) (simp add: pend)
  have p: "lp_queue p = []" "lp_pending p = None" "lp_latest p \<noteq> None"
    using d by (auto simp: drain_live_def Let_def receive_snapshots_def v1(1) coalesce_snapshots_def take_presentable_def
        presentation_delay_def presentation_delay_for_state_def)
  then obtain t where t: "lp_latest (lv_pane (present (p, presented) v1)) = Some t" by (auto simp: present_def)
  then obtain r where r: "render_surface P t (lv_cache (present (p, presented) v1)) = Some r"
    using paint_step [OF live_run_ok [OF run2] t] by auto
  have "live_run P h sid workspace_id key (painted t r (present (p, presented) v1))" by (rule run_paint [OF run2 t r])
  moreover have "at_rest (painted t r (present (p, presented) v1))" using p by (simp add: at_rest_def painted_def present_def)
  ultimately show ?thesis using v1(3,4)
    by (intro exI [of _ "painted t r (present (p, presented) v1)"]) (simp add: painted_def present_def s_def)
qed

subsection \<open>A small terminal\<close>

definition demo_ops :: "(terminal_rgb, terminal_rgb) paint_ops" where
  "demo_ops = \<lparr>po_rgba = id, po_dim = (\<lambda>a b. a), po_hsla = id\<rparr>"

definition demo_hash :: "cell_snapshot list \<Rightarrow> u64" where
  "demo_hash cells = fold (\<lambda>c n. n * 256 + sum_list (cs_text c)) cells 0"

definition demo_cell :: "rchar \<Rightarrow> render_cell" where
  "demo_cell c = \<lparr>rc_graphemes = [c], rc_wide = CellNarrow, rc_fg = None, rc_bg = None, rc_bold = False, rc_italic = False,
     rc_faint = False, rc_blink = False, rc_underlined = False, rc_inverse = False, rc_invisible = False,
     rc_strikethrough = False, rc_overline = False\<rparr>"

definition demo_rgb :: "nat \<Rightarrow> terminal_rgb" where
  "demo_rgb n = \<lparr>rgb_r = n, rgb_g = n, rgb_b = n\<rparr>"

definition demo_frame :: "rchar \<Rightarrow> rchar \<Rightarrow> render_frame" where
  "demo_frame a b = \<lparr>rf_fg = demo_rgb 255, rf_bg = demo_rgb 0, rf_cursor_visible = True, rf_cursor_viewport = Some (0, 1),
     rf_cols = 1, rf_rows = 2, rf_scrollbar = \<lparr>so_total = 2, so_offset = 0, so_len = 2\<rparr>, rf_cells = [[demo_cell a], [demo_cell b]]\<rparr>"

text \<open>The snapshots of the frames \<open>ab\<close>, \<open>cb\<close>, \<open>cd\<close>, one after the other.\<close>

definition demo_s0 :: "grid_snapshot \<times> extractor" where
  "demo_s0 = snapshot demo_hash 0 0 (bytes ''s'') (demo_frame 97 98) extractor_new"
definition demo_s1 :: "grid_snapshot \<times> extractor" where
  "demo_s1 = snapshot demo_hash 0 0 (bytes ''s'') (demo_frame 99 98) (snd demo_s0)"
definition demo_s2 :: "grid_snapshot \<times> extractor" where
  "demo_s2 = snapshot demo_hash 0 0 (bytes ''s'') (demo_frame 99 100) (snd demo_s1)"

lemmas demo_defs = demo_s2_def demo_s1_def demo_s0_def demo_frame_def demo_cell_def demo_hash_def snapshot_def
  extraction_start_def extractor_new_def extract_cell_def cell_width_def row_text_def u16_sat_add_def u16_max_def
  u32_sat_add_def u32_sat_mul_def as_u32_def Let_def

lemma demo_snapshots:
  "gs_damage (fst demo_s0) = \<lparr>dm_full = True, dm_rows = [0, 1], dm_cells = 2\<rparr>"
  "gs_damage (fst demo_s1) = \<lparr>dm_full = False, dm_rows = [0], dm_cells = 1\<rparr>"
  "gs_damage (fst demo_s2) = \<lparr>dm_full = False, dm_rows = [1], dm_cells = 1\<rparr>"
  by (simp_all add: demo_defs)

text \<open>C13. In a run of a live terminal of the active workspace in which a drain that receives snapshots finds none
  pending and the presented one painted: painting never panics, and once nothing waits, the row views and
  the cursor are exactly those of a painting of the last frame from scratch, although the extractor marks
  only the rows whose hash changed, the coalescing merges any number of snapshots and the cache reuses all
  other rows. Each frame of the run is one whose changed rows have other hashes than the rows they replace;
  a snapshot that overwrites one that was deferred breaks this (\<open>deferred_damage_lost\<close>).\<close>

theorem painted_views_current:
  assumes run: "live_run P h sid workspace_id key v"
  shows "(\<forall>s. lp_latest (lv_pane v) = Some s \<longrightarrow> render_surface P s (lv_cache v) \<noteq> None)
    \<and> (lp_queue (lv_pane v) = [] \<and> lp_pending (lv_pane v) = None \<and> lv_current v \<longrightarrow>
       (\<forall>s. lv_last v = Some s \<longrightarrow> lv_shown v = fresh_views P s
          \<and> lv_cursor v = paint_cursor_of P s (po_rgba P (gs_default_fg s)) (po_rgba P (gs_default_bg s))))"
proof (intro conjI impI allI)
  have ok: "live_ok P h sid v" by (rule live_run_ok [OF run])
  show "render_surface P s (lv_cache v) \<noteq> None" if "lp_latest (lv_pane v) = Some s" for s
    using paint_step [OF ok that] by auto
  fix s
  assume quiet: "lp_queue (lv_pane v) = [] \<and> lp_pending (lv_pane v) = None \<and> lv_current v" and last: "lv_last v = Some s"
  then obtain t where t: "lv_painted v = Some t" "same_picture t s"
    using ok by (auto simp: live_ok_def chain_ok_def waiting_def picture_of_def split: option.splits)
  have "lv_shown v = fresh_views P t"
    "lv_cursor v = paint_cursor_of P t (po_rgba P (gs_default_fg t)) (po_rgba P (gs_default_bg t))"
    using ok t(1) by (simp_all add: live_ok_def view_ok_def)
  moreover have "gs_default_fg t = gs_default_fg s" "gs_default_bg t = gs_default_bg s" using t(2) by (simp_all add: same_picture_def)
  ultimately show "lv_shown v = fresh_views P s"
    "lv_cursor v = paint_cursor_of P s (po_rgba P (gs_default_fg s)) (po_rgba P (gs_default_bg s))"
    using fresh_views_picture [OF t(2)] by simp_all
qed

lemma painted_views_current_witness:
  "\<exists>v. live_run demo_ops demo_hash (bytes ''s'') (bytes ''w'') (bytes ''w:p'') v \<and> lv_last v = Some (fst demo_s1)
     \<and> lv_shown v = fresh_views demo_ops (fst demo_s1) \<and> dm_rows (gs_damage (fst demo_s1)) = [0]"
proof -
  let ?run = "live_run demo_ops demo_hash (bytes ''s'') (bytes ''w'') (bytes ''w:p'')"
  have start: "at_rest live_view_start" by (simp add: at_rest_def live_view_start_def live_pane_new_def)
  obtain v1 :: "(terminal_rgb, terminal_rgb) live_view" where v1: "?run v1" "at_rest v1" "lv_last v1 = Some (fst demo_s0)" "lv_extractor v1 = snd demo_s0"
  proof -
    have run: "?run live_view_start" by (rule run_start)
    have "frame_ok (demo_frame 97 98)" by (simp add: frame_ok_def demo_frame_def)
    moreover have "hash_tells demo_hash (lv_last (live_view_start :: (terminal_rgb, terminal_rgb) live_view)) (demo_frame 97 98)"
      by (simp add: hash_tells_def live_view_start_def)
    ultimately show ?thesis
      using selected_round [OF run start, where f = "demo_frame 97 98" and u = 0 and x = 0] that
      by (auto simp: live_view_start_def demo_s0_def)
  qed
  obtain v2 where v2: "?run v2" "at_rest v2" "lv_last v2 = Some (fst demo_s1)"
  proof -
    have "frame_ok (demo_frame 99 98)" by (simp add: frame_ok_def demo_frame_def)
    moreover have "hash_tells demo_hash (lv_last v1) (demo_frame 99 98)"
      by (simp add: v1(3) hash_tells_def frame_rows_def less_Suc_eq demo_defs)
    ultimately show ?thesis
      using selected_round [OF v1(1,2), where f = "demo_frame 99 98" and u = 0 and x = 0] that by (auto simp: v1(4) demo_s1_def)
  qed
  have "lv_shown v2 = fresh_views demo_ops (fst demo_s1)"
    using painted_views_current [OF v2(1)] v2(2,3) by (simp add: at_rest_def)
  then show ?thesis using v2 demo_snapshots(2) by auto
qed

subsection \<open>A deferred snapshot that is overwritten\<close>

lemma coalesce_single:
  "coalesce_snapshots [s] = Some (coalesce_finish (coalesce_start s))"
  by (simp add: coalesce_snapshots_def)

lemma coalesce_single_clean:
  assumes "\<not> dm_full (gs_damage s)" "i \<notin> set (dm_rows (gs_damage s))" "i < gs_rows s"
  shows "\<not> dm_full (gs_damage (coalesce_finish (coalesce_start s)))" "i \<notin> set (dm_rows (gs_damage (coalesce_finish (coalesce_start s))))"
proof -
  let ?rows = "filter (\<lambda>r. r < gs_rows s) (sorted_list_of_set (set (dm_rows (gs_damage s))))"
  have "set ?rows \<subseteq> {..<gs_rows s} - {i}" using assms(2) by auto
  then have "card (set ?rows) \<le> card ({..<gs_rows s} - {i})" by (intro card_mono) auto
  moreover have "length ?rows = card (set ?rows)" by (rule distinct_card [symmetric]) simp
  ultimately have "length ?rows < gs_rows s" using assms(3) by simp
  then show "\<not> dm_full (gs_damage (coalesce_finish (coalesce_start s)))"
    "i \<notin> set (dm_rows (gs_damage (coalesce_finish (coalesce_start s))))"
    using assms by (auto simp: coalesce_finish_def coalesce_start_def set_damage_def Let_def)
qed

text \<open>In a pane that is not selected a snapshot can wait for its turn to be presented. If another one arrives
  meanwhile it replaces the waiting one, and the rows that only the first marked as damaged are painted as
  before both: the pane shows an outdated row, and keeps showing it until the row changes again.\<close>

theorem deferred_damage_lost:
  assumes cache: "cache (gs_session_id s2) = Some c" "in_sync P s0 c"
    and same: "gs_cols s0 = gs_cols s2" "gs_rows s0 = gs_rows s2" "length (gs_rows_data s0) = length (gs_rows_data s2)"
      "gs_default_fg s0 = gs_default_fg s2" "gs_default_bg s0 = gs_default_bg s2"
    and i: "i < gs_rows s2" "i < length (gs_rows_data s2)" "\<not> dm_full (gs_damage s2)" "i \<notin> set (dm_rows (gs_damage s2))"
    and first: "lp_queue p = [s1]" "drain_live perf clock workspace_id key False now p = (p1, None, Some delay)"
    and second: "drain_live perf' clock' workspace_id key False now' (p1\<lparr>lp_queue := [s2]\<rparr>) = (p2, Some s, delay')"
    and active: "\<not> in_other_workspace workspace_id key"
  shows "same_picture s s2 \<and> (\<exists>views cursor cache'. render_surface P s cache = Some (views, cursor, cache')
    \<and> views ! i = Some (fresh_view P s0 i))"
proof -
  let ?t = "coalesce_finish (coalesce_start s2)"
  have s: "s = ?t"
    using second active
    by (auto simp: drain_live_def Let_def receive_snapshots_def coalesce_single take_presentable_def split: if_splits)
  have pic: "same_picture ?t s2" using coalesce_picture [OF coalesce_single] by simp
  have clean: "\<not> dm_full (gs_damage ?t)" "i \<notin> set (dm_rows (gs_damage ?t))" by (rule coalesce_single_clean [OF i(3,4,1)])+
  have "\<exists>r. render_surface P ?t cache = Some r \<and>
    fst r = map (\<lambda>i. Some (if dm_full (gs_damage ?t) \<or> i \<in> set (dm_rows (gs_damage ?t)) then fresh_view P ?t i else fresh_view P s0 i))
      [0..<length (gs_rows_data ?t)]"
    by (rule render_kept) (use pic cache same in \<open>simp_all add: same_picture_def\<close>)
  then obtain r where r: "render_surface P ?t cache = Some r" "fst r ! i = Some (fresh_view P s0 i)"
    using clean i(2) pic by (auto simp: same_picture_def)
  then show ?thesis using pic by (cases r) (auto simp: s)
qed

definition demo_cache :: "(terminal_rgb, terminal_rgb) grid_cache" where
  "demo_cache = \<lparr>gc_cols = 1, gc_rows = 2, gc_fg = demo_rgb 255, gc_bg = demo_rgb 0,
     gc_rows_data = map (\<lambda>i. Some (fresh_row demo_ops (fst demo_s0) i)) [0..<2], gc_views = fresh_views demo_ops (fst demo_s0)\<rparr>"

lemma deferred_damage_lost_witness:
  "\<exists>s views cursor cache'. render_surface demo_ops s [bytes ''s'' \<mapsto> demo_cache] = Some (views, cursor, cache')
     \<and> same_picture s (fst demo_s2) \<and> views ! 0 = Some (fresh_view demo_ops (fst demo_s0) 0)
     \<and> fresh_view demo_ops (fst demo_s0) 0 \<noteq> fresh_view demo_ops (fst demo_s2) 0"
proof -
  let ?p = "live_pane_new\<lparr>lp_queue := [fst demo_s1], lp_last_presented := Some 0\<rparr>"
  let ?w = "bytes ''w''" and ?key = "bytes ''w:p''"
  let ?p1 = "receive_snapshots False 0 ?p"
  have first: "drain_live False 0 ?w ?key False 50000000 ?p = (?p1, None, Some 50000000)"
    by (simp add: drain_live_def receive_snapshots_def coalesce_single take_presentable_def presentation_delay_def
        presentation_delay_for_state_def saturating_duration_since_def TERMINAL_BACKGROUND_FRAME_INTERVAL_def from_millis_def Let_def)
  have active: "\<not> in_other_workspace ?w ?key"
    by (simp add: in_other_workspace_def split_live_terminal_key_def split_once_def)
  obtain p2 s delay where second: "drain_live False 0 ?w ?key False 200000000 (?p1\<lparr>lp_queue := [fst demo_s2]\<rparr>) = (p2, Some s, delay)"
    by (simp add: drain_live_def receive_snapshots_def coalesce_single take_presentable_def presentation_delay_def
        presentation_delay_for_state_def saturating_duration_since_def TERMINAL_BACKGROUND_FRAME_INTERVAL_def from_millis_def Let_def)
  have header: "gs_session_id (fst demo_s2) = bytes ''s''" "gs_cols (fst demo_s0) = 1" "gs_cols (fst demo_s2) = 1" "gs_rows (fst demo_s0) = 2"
    "gs_rows (fst demo_s2) = 2" "length (gs_rows_data (fst demo_s0)) = 2" "length (gs_rows_data (fst demo_s2)) = 2"
    "gs_default_fg (fst demo_s0) = demo_rgb 255" "gs_default_fg (fst demo_s2) = demo_rgb 255"
    "gs_default_bg (fst demo_s0) = demo_rgb 0" "gs_default_bg (fst demo_s2) = demo_rgb 0"
    by (simp_all add: demo_defs)
  have sync: "in_sync demo_ops (fst demo_s0) demo_cache" by (simp add: in_sync_def demo_cache_def header) (simp add: demo_ops_def)
  have differ: "fresh_view demo_ops (fst demo_s0) 0 \<noteq> fresh_view demo_ops (fst demo_s2) 0"
    by (simp add: fresh_view_def view_of_def fresh_row_def cached_paint_row_def List.map_filter_def shows_glyph_def glyph_of_def demo_defs)
  have cache: "[bytes ''s'' \<mapsto> demo_cache] (gs_session_id (fst demo_s2)) = Some demo_cache" by (simp add: header)
  have "same_picture s (fst demo_s2) \<and> (\<exists>views cursor cache'. render_surface demo_ops s [bytes ''s'' \<mapsto> demo_cache] = Some (views, cursor, cache')
    \<and> views ! 0 = Some (fresh_view demo_ops (fst demo_s0) 0))"
    by (rule deferred_damage_lost [where i = 0 and p = ?p and ?s2.0 = "fst demo_s2" and cache = "[bytes ''s'' \<mapsto> demo_cache]", OF cache sync _ _ _ _ _ _ _ _ _ _ first second active])
      (simp_all add: header demo_snapshots)
  with differ show ?thesis by blast
qed

end
