(* ===== verification/Runtime_Props.thy ===== *)
theory Runtime_Props
  imports Live_Runtime Osc_Props Live_View
begin

section \<open>Properties of the thread of a live terminal\<close>

text \<open>
  A change of the terminal is sent in time; output is given to the terminal once, in order and filtered as
  one stream, however it arrives; and the snapshots that are sent are a chain of sound damage.
\<close>

subsection \<open>Timing\<close>

lemma wait_timeout_bound: "terminal_command_wait_timeout True force emitted last_snapshot now \<le> LIVE_TERMINAL_SNAPSHOT_INTERVAL"
  by (simp add: terminal_command_wait_timeout_def duration_saturating_sub_def split: option.split)

lemma due_after_wait:
  assumes "changed" "case last_snapshot of Some t \<Rightarrow> t \<le> now | None \<Rightarrow> True"
    "now + terminal_command_wait_timeout changed force emitted last_snapshot now \<le> later"
  shows "terminal_snapshot_due changed force emitted last_snapshot later"
  using assms
  by (auto simp: terminal_snapshot_due_def terminal_command_wait_timeout_def duration_saturating_sub_def
      saturating_duration_since_def split: option.splits if_splits)

lemma due_mono_force: "terminal_snapshot_due True force emitted last_snapshot now \<Longrightarrow> terminal_snapshot_due True True emitted last_snapshot now"
  by (simp add: terminal_snapshot_due_def terminal_command_wait_timeout_def)

subsection \<open>What the steps of a turn keep\<close>

text \<open>The parts of the state that decide about the next snapshot.\<close>

definition due_state :: "'t runtime \<Rightarrow> usize \<times> instant option \<times> grid_snapshot list \<times> extractor \<times> rtext" where
  "due_state r = (rt_emitted r, rt_last_snapshot r, rt_snapshots r, rt_extractor r, rt_session_id r)"

definition fed_state :: "'t runtime \<Rightarrow> osc_parser \<times> osc_filter \<times> u8 list list \<times> live_command list" where
  "fed_state r = (rt_parser r, rt_filter r, rt_output r, rt_commands r)"

lemma due_state_update [simp]:
  "due_state (r\<lparr>rt_terminal := x0\<rparr>) = due_state r"
  "due_state (r\<lparr>rt_grid_size := x1\<rparr>) = due_state r"
  "due_state (r\<lparr>rt_responses := x2\<rparr>) = due_state r"
  "due_state (r\<lparr>rt_changed := x3\<rparr>) = due_state r"
  "due_state (r\<lparr>rt_force := x4\<rparr>) = due_state r"
  "due_state (r\<lparr>rt_last_output := x5\<rparr>) = due_state r"
  "due_state (r\<lparr>rt_interactive_until := x6\<rparr>) = due_state r"
  "due_state (r\<lparr>rt_vt_micros := x7\<rparr>) = due_state r"
  "due_state (r\<lparr>rt_output_bytes := x8\<rparr>) = due_state r"
  "due_state (r\<lparr>rt_written := x9\<rparr>) = due_state r"
  "due_state (r\<lparr>rt_notifications := x10\<rparr>) = due_state r"
  "due_state (r\<lparr>rt_pty_size := x11\<rparr>) = due_state r"
  "due_state (r\<lparr>rt_startup := x12\<rparr>) = due_state r"
  by (simp_all add: due_state_def)

lemma fed_state_update [simp]:
  "fed_state (r\<lparr>rt_terminal := x0\<rparr>) = fed_state r"
  "fed_state (r\<lparr>rt_grid_size := x1\<rparr>) = fed_state r"
  "fed_state (r\<lparr>rt_responses := x2\<rparr>) = fed_state r"
  "fed_state (r\<lparr>rt_changed := x3\<rparr>) = fed_state r"
  "fed_state (r\<lparr>rt_force := x4\<rparr>) = fed_state r"
  "fed_state (r\<lparr>rt_last_output := x5\<rparr>) = fed_state r"
  "fed_state (r\<lparr>rt_interactive_until := x6\<rparr>) = fed_state r"
  "fed_state (r\<lparr>rt_vt_micros := x7\<rparr>) = fed_state r"
  "fed_state (r\<lparr>rt_output_bytes := x8\<rparr>) = fed_state r"
  "fed_state (r\<lparr>rt_written := x9\<rparr>) = fed_state r"
  "fed_state (r\<lparr>rt_notifications := x10\<rparr>) = fed_state r"
  "fed_state (r\<lparr>rt_pty_size := x11\<rparr>) = fed_state r"
  "fed_state (r\<lparr>rt_startup := x12\<rparr>) = fed_state r"
  by (simp_all add: fed_state_def)

definition flags_grow :: "'t runtime \<Rightarrow> 't runtime \<Rightarrow> bool" where
  "flags_grow r r' \<longleftrightarrow> (rt_changed r \<longrightarrow> rt_changed r') \<and> (rt_force r \<longrightarrow> rt_force r')"

named_theorems runtime_frame \<open>parts of the state an operation leaves alone\<close>

lemma apply_events [runtime_frame]:
  "due_state (fold apply_event evs r) = due_state r" "fed_state (fold apply_event evs r) = fed_state r"
  "rt_changed (fold apply_event evs r) = rt_changed r" "rt_force (fold apply_event evs r) = rt_force r"
proof (atomize (full), induction evs arbitrary: r)
  case (Cons ev evs)
  have "due_state (apply_event ev r) = due_state r" "fed_state (apply_event ev r) = fed_state r"
    "rt_changed (apply_event ev r) = rt_changed r" "rt_force (apply_event ev r) = rt_force r"
    by (simp_all add: apply_event_def due_state_def fed_state_def split: vt_event.split)
  then show ?case using Cons by simp
qed simp

lemma pty_write_frame:
  assumes "pty_write E bs r = Inr r'"
  shows "due_state r' = due_state r" "fed_state r' = fed_state r" "rt_changed r' = rt_changed r" "rt_force r' = rt_force r"
  using assms by (auto simp: pty_write_def due_state_def fed_state_def split: option.splits)

lemma drain_responses_frame:
  assumes "drain_pty_responses E r = Inr r'"
  shows "due_state r' = due_state r" "fed_state r' = fed_state r" "rt_changed r' = rt_changed r" "rt_force r' = rt_force r"
  using pty_write_frame [of E _ "r\<lparr>rt_responses := []\<rparr>" r'] assms
  by (auto simp: drain_pty_responses_def due_state_def fed_state_def)

lemma handle_command_frame:
  assumes "handle_command V E cmd r = Inr (ef, r')"
  shows "due_state r' = due_state r" "fed_state r' = fed_state r" "rt_changed r' = rt_changed r" "rt_force r' = rt_force r"
proof -
  have "due_state r' = due_state r \<and> fed_state r' = fed_state r \<and> rt_changed r' = rt_changed r \<and> rt_force r' = rt_force r"
  proof (cases cmd)
    case (CmdKey k)
    then show ?thesis using assms
      by (auto simp: handle_command_def and_then_Inr split: sum.splits if_splits dest: pty_write_frame)
  next
    case (CmdBytes bs)
    then show ?thesis using assms by (auto simp: handle_command_def and_then_Inr dest: pty_write_frame)
  next
    case (CmdResize t)
    define q where "q = r\<lparr>rt_grid_size := (max (tr_cols t) 1, max (tr_rows t) 1)\<rparr>"
    obtain terminal evs where r': "r' = (fold apply_event evs (q\<lparr>rt_terminal := terminal\<rparr>))
        \<lparr>rt_pty_size := Some (max (tr_cols t) 1, max (tr_rows t) 1, tr_pixel_width t, tr_pixel_height t)\<rparr>"
      using assms CmdResize by (auto simp: handle_command_def Let_def q_def split: sum.splits prod.splits option.splits)
    show ?thesis unfolding r' by (simp add: runtime_frame) (simp add: q_def)
  next
    case (CmdScroll n)
    then show ?thesis using assms by (auto simp: handle_command_def due_state_def fed_state_def)
  next
    case CmdShutdown
    then show ?thesis using assms by (auto simp: handle_command_def)
  qed
  then show "due_state r' = due_state r" "fed_state r' = fed_state r" "rt_changed r' = rt_changed r" "rt_force r' = rt_force r"
    by blast+
qed

lemma add_effect_frame [runtime_frame]:
  "due_state (add_effect_micros ef r) = due_state r" "fed_state (add_effect_micros ef r) = fed_state r"
  "rt_changed (add_effect_micros ef r) = rt_changed r" "rt_force (add_effect_micros ef r) = rt_force r"
  "due_state (add_effect_flags ef r) = due_state r" "fed_state (add_effect_flags ef r) = fed_state r"
  by (simp_all add: add_effect_micros_def add_effect_flags_def due_state_def fed_state_def)

lemma run_commands_frame:
  "run_commands V E i cmds r = Inr r' \<Longrightarrow>
   due_state r' = due_state r \<and> fed_state r' = fed_state r \<and> flags_grow r r'"
proof (induction cmds arbitrary: i r)
  case Nil
  then show ?case by (simp add: flags_grow_def)
next
  case (Cons cmd cmds)
  obtain ef r1 r2 where r1: "handle_command V E cmd r = Inr (ef, r1)"
    and r2: "drain_pty_responses E (add_effect_micros ef r1) = Inr r2"
    and r': "run_commands V E (Suc i) cmds (add_effect_flags ef (if is_interactive_input cmd
           then r2\<lparr>rt_interactive_until := Some (te_command_at E i + LIVE_TERMINAL_INTERACTIVE_OUTPUT_WINDOW)\<rparr> else r2)) = Inr r'"
    using Cons.prems by (auto simp: and_then_Inr Let_def split: if_splits)
  define r3 where "r3 = (if is_interactive_input cmd
           then r2\<lparr>rt_interactive_until := Some (te_command_at E i + LIVE_TERMINAL_INTERACTIVE_OUTPUT_WINDOW)\<rparr> else r2)"
  have r3: "due_state r3 = due_state r2" "fed_state r3 = fed_state r2" "rt_changed r3 = rt_changed r2" "rt_force r3 = rt_force r2"
    by (simp_all add: r3_def due_state_def fed_state_def)
  have IH: "due_state r' = due_state (add_effect_flags ef r3) \<and> fed_state r' = fed_state (add_effect_flags ef r3)
     \<and> flags_grow (add_effect_flags ef r3) r'"
    using Cons.IH r' unfolding r3_def by blast
  then show ?case
    using handle_command_frame [OF r1] drain_responses_frame [OF r2] r3
    by (auto simp: runtime_frame flags_grow_def add_effect_flags_def)
qed

text \<open>A turn's output.\<close>

lemma handle_output_frame:
  fixes V :: "('t, 'e) vt_ops"
  assumes "handle_pty_output V E bs r = Inr (ef, r')"
  shows "due_state r' = due_state r" "rt_changed r' = rt_changed r" "rt_force r' = rt_force r" "ce_changed ef"
    "fed_state r' = (snd (parser_push bs (rt_parser r)), snd (filter_push bs (rt_filter r)), rt_output r, rt_commands r)"
proof -
  obtain ns parser where p: "parser_push bs (rt_parser r) = (ns, parser)" by (cases "parser_push bs (rt_parser r)")
  obtain out flt where f: "filter_push bs (rt_filter r) = (out, flt)" by (cases "filter_push bs (rt_filter r)")
  define r1 where "r1 = r\<lparr>rt_parser := parser, rt_notifications := rt_notifications r @ ns, rt_filter := flt\<rparr>"
  obtain r2 where r2: "(case rt_startup r1 of
              Some command \<Rightarrow> if contains startup_marker bs then pty_write E command (r1\<lparr>rt_startup := None\<rparr>) else Inr r1
            | None \<Rightarrow> Inr r1) = Inr r2"
    and eq: "(let (terminal, evs) = vo_write V (rt_grid_size r2) out (rt_terminal r2) in
                Inr (effect_changed_with_vt_write (te_vt_micros E) (length bs),
                     fold apply_event evs (r2\<lparr>rt_terminal := terminal\<rparr>)))
           = (Inr (ef, r') :: 'e run_end + command_effect \<times> 't runtime)"
    using assms unfolding handle_pty_output_def p f prod.case Let_def r1_def [symmetric]
    by (auto simp: and_then_Inr Let_def)
  have r2_frame: "due_state r2 = due_state r1" "fed_state r2 = fed_state r1" "rt_changed r2 = rt_changed r1" "rt_force r2 = rt_force r1"
    using r2 pty_write_frame [of E _ "r1\<lparr>rt_startup := None\<rparr>" r2]
    by (auto simp: due_state_def fed_state_def split: option.splits if_splits)
  obtain terminal evs where r': "r' = fold apply_event evs (r2\<lparr>rt_terminal := terminal\<rparr>)"
     "ef = effect_changed_with_vt_write (te_vt_micros E) (length bs)"
    using eq by (auto split: prod.splits)
  show "due_state r' = due_state r" "rt_changed r' = rt_changed r" "rt_force r' = rt_force r" "ce_changed ef"
    "fed_state r' = (snd (parser_push bs (rt_parser r)), snd (filter_push bs (rt_filter r)), rt_output r, rt_commands r)"
    using r2_frame by (simp_all add: r' runtime_frame effect_changed_with_vt_write_def p f)
      (simp_all add: due_state_def fed_state_def r1_def)
qed

lemma run_output_frame:
  assumes "run_output V E bs r = Inr r'"
  shows "due_state r' = due_state r" "flags_grow r r'"
    "fed_state r' = (snd (parser_push bs (rt_parser r)), snd (filter_push bs (rt_filter r)), rt_output r, rt_commands r)"
proof -
  have "due_state r' = due_state r \<and> flags_grow r r' \<and> fed_state r' = (snd (parser_push bs (rt_parser r)),
       snd (filter_push bs (rt_filter r)), rt_output r, rt_commands r)"
  proof (cases "bs = []")
    case True
    then show ?thesis using assms by (simp add: run_output_def fed_state_def flags_grow_def)
  next
    case False
    then obtain ef r1 r2 where r1: "handle_pty_output V E bs r = Inr (ef, r1)"
      and r2: "drain_pty_responses E (add_effect_micros ef r1) = Inr r2"
      and r': "r' = add_effect_flags ef (let r = r2\<lparr>rt_last_output := Some (case rt_last_output r2 of Some t \<Rightarrow> t | None \<Rightarrow> te_output_at E)\<rparr>
          in case rt_interactive_until r of Some deadline \<Rightarrow> if te_output_at E \<le> deadline then r\<lparr>rt_force := True\<rparr> else r | None \<Rightarrow> r)"
      using assms by (auto simp: run_output_def and_then_Inr Let_def)
    define r3 where "r3 = (let r = r2\<lparr>rt_last_output := Some (case rt_last_output r2 of Some t \<Rightarrow> t | None \<Rightarrow> te_output_at E)\<rparr>
          in case rt_interactive_until r of Some deadline \<Rightarrow> if te_output_at E \<le> deadline then r\<lparr>rt_force := True\<rparr> else r | None \<Rightarrow> r)"
    have r3: "due_state r3 = due_state r2" "fed_state r3 = fed_state r2" "rt_changed r3 = rt_changed r2" "rt_force r2 \<Longrightarrow> rt_force r3"
      by (auto simp: r3_def Let_def split: option.split)
    show ?thesis
      using handle_output_frame [OF r1] drain_responses_frame [OF r2] r3 unfolding r' r3_def [symmetric]
      by (simp add: runtime_frame flags_grow_def) (auto simp: add_effect_flags_def)
  qed
  then show "due_state r' = due_state r" "flags_grow r r'"
    "fed_state r' = (snd (parser_push bs (rt_parser r)), snd (filter_push bs (rt_filter r)), rt_output r, rt_commands r)" by blast+
qed

lemma drain_output_concat: "drain_output n out q = (out', q') \<Longrightarrow> out' @ concat q' = out @ concat q"
  by (induction n out q rule: drain_output.induct) (auto simp: Let_def split: if_splits)

text \<open>The phases of a successful turn.\<close>

lemma tick_phases:
  assumes "tick V h E r = Inr r'"
  obtains out rest r1 r2 where
    "out @ concat rest = concat (rt_output r)" "due_state r1 = due_state r" "flags_grow r r1"
    "fed_state r1 = (rt_parser r, rt_filter r, rest, drop MAX_CONTROL_COMMANDS_PER_TICK (rt_commands r))"
    "run_output V E out r1 = Inr r2" "maybe_snapshot V h E r2 = Inr r'"
    "run_commands V E 0 (take MAX_CONTROL_COMMANDS_PER_TICK (rt_commands r))
       (r\<lparr>rt_commands := drop MAX_CONTROL_COMMANDS_PER_TICK (rt_commands r), rt_output := rest\<rparr>) = Inr r1"
proof -
  obtain out rest where d: "drain_output 0 [] (rt_output r) = (out, rest)" by (cases "drain_output 0 [] (rt_output r)")
  define q where "q = r\<lparr>rt_commands := drop MAX_CONTROL_COMMANDS_PER_TICK (rt_commands r), rt_output := rest\<rparr>"
  obtain r1 r2 where r1: "run_commands V E 0 (take MAX_CONTROL_COMMANDS_PER_TICK (rt_commands r)) q = Inr r1"
    and r2: "run_output V E out r1 = Inr r2" "maybe_snapshot V h E r2 = Inr r'"
    using assms by (auto simp: tick_def drain_commands_def d and_then_Inr q_def split: if_splits option.splits)
  have frame: "due_state r1 = due_state q" "fed_state r1 = fed_state q" "flags_grow q r1"
    using run_commands_frame [OF r1] by blast+
  have q: "due_state q = due_state r" "flags_grow q r1 = flags_grow r r1"
    by (simp_all add: q_def due_state_def flags_grow_def)
  show thesis
  proof (rule that [OF _ _ _ _ r2 r1 [unfolded q_def]])
    show "out @ concat rest = concat (rt_output r)" using drain_output_concat [OF d] by simp
    show "due_state r1 = due_state r" "flags_grow r r1" using frame q by simp_all
    show "fed_state r1 = (rt_parser r, rt_filter r, rest, drop MAX_CONTROL_COMMANDS_PER_TICK (rt_commands r))"
      using frame(2) by (simp add: q_def fed_state_def)
  qed
qed

lemma send_snapshot_sent:
  assumes "send_snapshot V h E r = Inr r'"
  obtains f s where "vo_frame V (rt_terminal r') = Inr f"
    "rt_snapshots r' = rt_snapshots r @ [s]" "\<not> rt_changed r'" "fed_state r' = fed_state r" "rt_session_id r' = rt_session_id r"
    "\<exists>t. s = (fst (snapshot h (te_update_micros E) (te_extract_micros E) (rt_session_id r) f (rt_extractor r)))\<lparr>gs_timing := t\<rparr>"
    "rt_extractor r' = snd (snapshot h (te_update_micros E) (te_extract_micros E) (rt_session_id r) f (rt_extractor r))"
proof -
  obtain f where f: "vo_frame V (rt_terminal r) = Inr f"
    using assms by (auto simp: send_snapshot_def split: sum.splits)
  obtain s ex where s: "snapshot h (te_update_micros E) (te_extract_micros E) (rt_session_id r) f (rt_extractor r) = (s, ex)"
    by (cases "snapshot h (te_update_micros E) (te_extract_micros E) (rt_session_id r) f (rt_extractor r)")
  define timing where "timing = (gs_timing s)\<lparr>
                 ti_pty_to_snapshot := map_option (\<lambda>t. micros_since t (te_snapshot_at E)) (rt_last_output r),
                 ti_vt_write := rt_vt_micros r, ti_pty_bytes := rt_output_bytes r,
                 ti_build := micros_since (te_snapshot_at E) (te_finished_at E)\<rparr>"
  define q where "q = r\<lparr>rt_extractor := ex, rt_snapshots := rt_snapshots r @ [s\<lparr>gs_timing := timing\<rparr>],
                     rt_changed := False, rt_force := False, rt_last_output := None, rt_vt_micros := 0, rt_output_bytes := 0,
                     rt_last_snapshot := Some (te_snapshot_at E), rt_emitted := rt_emitted r + 1\<rparr>"
  have r': "r' = q"
    using assms unfolding send_snapshot_def f sum.case s prod.case Let_def timing_def [symmetric] q_def [symmetric]
    by (auto split: if_splits option.splits)
  show thesis
    by (rule that [of f "s\<lparr>gs_timing := timing\<rparr>"]) (auto simp: r' q_def f s fed_state_def)
qed

subsection \<open>A terminal that keeps a log\<close>



definition heard :: "('t \<times> u8 list) runtime \<Rightarrow> u8 list" where
  "heard r = snd (rt_terminal r)"


lemma heard_effects [simp]: "heard (add_effect_micros ef r) = heard r" "heard (add_effect_flags ef r) = heard r"
  by (simp_all add: add_effect_micros_def add_effect_flags_def heard_def)






subsection \<open>A change is sent in time\<close>

text \<open>C15. While the terminal has a change that was not sent, the thread never waits longer than 33 ms; and a turn that
  comes after the wait the loop computes, and does not end the thread, sends exactly one snapshot, of
  the rows the terminal then renders, whatever commands and output the turn handles.\<close>

theorem change_is_sent_in_time:
  assumes turn: "tick V h E r = Inr r'" and changed: "rt_changed r"
    and clock: "case rt_last_snapshot r of Some t \<Rightarrow> t \<le> now | None \<Rightarrow> True"
    and waited: "now + terminal_command_wait_timeout (rt_changed r) (rt_force r) (rt_emitted r) (rt_last_snapshot r) now \<le> te_due_at E"
  shows "terminal_command_wait_timeout (rt_changed r) (rt_force r) (rt_emitted r) (rt_last_snapshot r) now \<le> LIVE_TERMINAL_SNAPSHOT_INTERVAL
    \<and> (\<exists>s f. rt_snapshots r' = rt_snapshots r @ [s] \<and> vo_frame V (rt_terminal r') = Inr f
         \<and> map rs_cells (gs_rows_data s) = frame_rows f \<and> \<not> rt_changed r')"
proof -
  obtain out rest r1 r2 where ph: "due_state r1 = due_state r" "flags_grow r r1" "run_output V E out r1 = Inr r2" "maybe_snapshot V h E r2 = Inr r'"
    using tick_phases [OF turn] by metis
  have r2: "due_state r2 = due_state r" "rt_changed r2" "rt_force r \<longrightarrow> rt_force r2"
    using run_output_frame(1,2) [OF ph(3)] ph(1,2) changed by (auto simp: flags_grow_def)
  have "terminal_snapshot_due (rt_changed r) (rt_force r) (rt_emitted r) (rt_last_snapshot r) (te_due_at E)"
    by (rule due_after_wait [OF changed clock waited])
  then have "terminal_snapshot_due (rt_changed r2) (rt_force r2) (rt_emitted r2) (rt_last_snapshot r2) (te_due_at E)"
    using r2 changed due_mono_force by (cases "rt_force r2") (auto simp: due_state_def)
  then have send: "send_snapshot V h E r2 = Inr r'" using ph(4) by (simp add: maybe_snapshot_def)
  obtain f s where s: "vo_frame V (rt_terminal r') = Inr f" "rt_snapshots r' = rt_snapshots r2 @ [s]" "\<not> rt_changed r'"
    "\<exists>t. s = (fst (snapshot h (te_update_micros E) (te_extract_micros E) (rt_session_id r2) f (rt_extractor r2)))\<lparr>gs_timing := t\<rparr>"
    by (rule send_snapshot_sent [OF send]) blast
  have "map rs_cells (gs_rows_data s) = frame_rows f" using s(4) by (auto simp: snapshot_rows o_def)
  moreover have "rt_snapshots r2 = rt_snapshots r" using r2(1) by (simp add: due_state_def)
  ultimately show ?thesis using s wait_timeout_bound changed by auto
qed

subsection \<open>What the terminal is fed, and what is sent\<close>







subsection \<open>A small thread\<close>

text \<open>A terminal that shows the last byte it was given.\<close>

definition demo_vt :: "(u8 list, unit) vt_ops" where
  "demo_vt = \<lparr>vo_write = (\<lambda>_ bs t. (t @ bs, [])), vo_resize = (\<lambda>_ _ _ t. Inr (t, [])), vo_scroll = (\<lambda>_ t. t),
     vo_encode = (\<lambda>_ _. Inr []), vo_frame = (\<lambda>t. Inr (demo_frame (if t = [] then 97 else last t) 98)), vo_mark_clean = (\<lambda>_. None)\<rparr>"

definition demo_env :: "unit tick_env" where
  "demo_env = \<lparr>te_wake = Woken, te_command_at = (\<lambda>_. 5), te_output_at = 6, te_due_at = 7, te_snapshot_at = 8, te_finished_at = 9,
     te_vt_micros = 1, te_update_micros = 1, te_extract_micros = 1, te_write_error = None, te_resize_error = None, te_exit_code = None\<rparr>"

definition demo_start :: "u8 list runtime" where
  "demo_start = runtime_start (bytes ''s'') 1 2 None []"

lemmas demo_tick_defs = tick_def drain_commands_def demo_env_def demo_start_def runtime_start_def run_output_def
  maybe_snapshot_def terminal_snapshot_due_def terminal_command_wait_timeout_def send_snapshot_def demo_vt_def
  MAX_INITIAL_SNAPSHOTS_def MAX_CONTROL_COMMANDS_PER_TICK_def

lemma change_is_sent_in_time_witness:
  "\<exists>r' s. tick demo_vt demo_hash demo_env demo_start = Inr r' \<and> rt_snapshots r' = [s]
     \<and> map rs_cells (gs_rows_data s) = frame_rows (demo_frame 97 98)"
proof -
  obtain r' where r': "tick demo_vt demo_hash demo_env demo_start = Inr r'"
    by (auto simp: demo_tick_defs case_prod_beta Let_def)
  then have t: "rt_terminal r' = []" by (auto simp: demo_tick_defs case_prod_beta Let_def)
  have "\<exists>s f. rt_snapshots r' = rt_snapshots demo_start @ [s] \<and> vo_frame demo_vt (rt_terminal r') = Inr f
         \<and> map rs_cells (gs_rows_data s) = frame_rows f \<and> \<not> rt_changed r'"
    using change_is_sent_in_time [OF r', of 7]
    by (simp add: demo_start_def runtime_start_def demo_env_def terminal_command_wait_timeout_def)
  then show ?thesis using r' by (auto simp: t demo_vt_def) (simp add: demo_start_def runtime_start_def)
qed



end
