(* ===== verification/Selection.thy ===== *)
theory Selection
  imports Live_Pane Retach_Launch
begin

section \<open>Selecting and pasting (\<open>octty-app/src/terminal_selection.rs\<close>, \<open>app_panes.rs\<close>)\<close>

text \<open>
  What a selection covers, the text it copies, and what is sent to a terminal for a pasted text or path.
  Strings are lists of characters, so an index between characters is always a boundary.
\<close>

subsection \<open>Pasting\<close>

definition terminal_paste_text :: "rtext \<Rightarrow> rtext" where
  "terminal_paste_text s = replace_str [10] [13] (replace_str [13, 10] [10] s)"

definition terminal_paste_bytes :: "rtext \<Rightarrow> u8 list" where
  "terminal_paste_bytes s = utf8 (terminal_paste_text s)"

definition is_safe_shell_path_char :: "rchar \<Rightarrow> bool" where
  "is_safe_shell_path_char c \<longleftrightarrow> is_ascii_alphanumeric c \<or> c \<in> {95, 46, 47, 58, 64, 37, 43, 61, 44, 45}"

definition quote_terminal_path_for_paste :: "rtext \<Rightarrow> rtext" where
  "quote_terminal_path_for_paste path =
     (if list_all is_safe_shell_path_char path then path else [39] @ replace_str [39] [39, 92, 39, 39] path @ [39])"

datatype clipboard_entry = ImageEntry "u8 list" | TextEntry rtext | OtherEntry

text \<open>
  \<open>write_file\<close> writes the image to a new temporary file: its path, or the error. \<open>text\<close> is
  \<open>ClipboardItem::text\<close> of the user-interface library.
\<close>

definition terminal_clipboard_paste_text ::
  "(u8 list \<Rightarrow> 'e + rtext) \<Rightarrow> (clipboard_entry list \<Rightarrow> rtext option) \<Rightarrow> clipboard_entry list \<Rightarrow> 'e + rtext option" where
  "terminal_clipboard_paste_text write_file clipboard_text entries =
     (case List.map_filter (\<lambda>e. case e of ImageEntry b \<Rightarrow> if b \<noteq> [] then Some b else None | _ \<Rightarrow> None) entries of
        img # _ \<Rightarrow> (case write_file img of Inl e \<Rightarrow> Inl e | Inr path \<Rightarrow> Inr (Some (quote_terminal_path_for_paste path)))
      | [] \<Rightarrow> Inr (clipboard_text entries))"

subsection \<open>What a selection covers\<close>

text \<open>
  \<open>x\<close> and \<open>y\<close> are the mouse position in cells, rounded down and cast to \<open>i32\<close>.
\<close>

definition clamp_i32 :: "int \<Rightarrow> int \<Rightarrow> int \<Rightarrow> int" where
  "clamp_i32 lo hi n = (if n < lo then lo else if n > hi then hi else n)"

definition grid_point_from_local_position :: "int \<Rightarrow> int \<Rightarrow> u16 \<Rightarrow> u16 \<Rightarrow> grid_point" where
  "grid_point_from_local_position x y cols rows =
     \<lparr>gp_row = nat (clamp_i32 0 (int (u16_sat_sub rows 1)) y), gp_col = nat (clamp_i32 0 (int (u16_sat_sub cols 1)) x)\<rparr>"

text \<open>The modifiers of the event: control and shift.\<close>

definition selection_mode_from_modifiers :: "bool \<Rightarrow> bool \<Rightarrow> selection_mode" where
  "selection_mode_from_modifiers control shift = \<lparr>sm_rectangular = control, sm_filter_indent = shift\<rparr>"

definition ordered_points :: "selection \<Rightarrow> grid_point \<times> grid_point" where
  "ordered_points sel =
     (let a = sl_anchor sel; b = sl_active sel in
      if gp_row a < gp_row b \<or> gp_row a = gp_row b \<and> gp_col a \<le> gp_col b then (a, b) else (b, a))"

definition rectangular_runs :: "selection \<Rightarrow> u16 \<Rightarrow> u16 \<Rightarrow> selection_run list" where
  "rectangular_runs sel cols rows =
     (let a = sl_anchor sel; b = sl_active sel;
          start_row = min (gp_row a) (gp_row b); end_row = max (gp_row a) (gp_row b);
          start_col = min (min (gp_col a) (gp_col b)) cols;
          end_col = min (u16_sat_add (max (gp_col a) (gp_col b)) 1) cols
      in if end_col \<le> start_col then []
         else map (\<lambda>row. \<lparr>sr_row = row, sr_start_col = start_col, sr_end_col = end_col\<rparr>)
                [min start_row (u16_sat_sub rows 1)..<Suc (min end_row (u16_sat_sub rows 1))])"

definition selection_runs :: "selection \<Rightarrow> u16 \<Rightarrow> u16 \<Rightarrow> selection_run list" where
  "selection_runs sel cols rows =
     (if cols = 0 \<or> rows = 0 \<or> sl_anchor sel = sl_active sel then []
      else if sm_rectangular (sl_mode sel) then rectangular_runs sel cols rows
      else let (start, stop) = ordered_points sel;
               start_row = min (gp_row start) (u16_sat_sub rows 1);
               end_row = min (gp_row stop) (u16_sat_sub rows 1)
           in List.map_filter (\<lambda>row.
                let start_col = min (if row = start_row then gp_col start else 0) cols;
                    end_col = min (if row = end_row then u16_sat_add (gp_col stop) 1 else cols) cols
                in if end_col > start_col then Some \<lparr>sr_row = row, sr_start_col = start_col, sr_end_col = end_col\<rparr> else None)
              [start_row..<Suc end_row])"

subsection \<open>The text of a selection\<close>

definition cell_text :: "cell_snapshot \<Rightarrow> rtext" where
  "cell_text cell = (if cs_width cell = 0 \<or> cs_invisible cell then [] else if cs_text cell = [] then [32] else cs_text cell)"

definition run_line :: "row_snapshot \<Rightarrow> selection_run \<Rightarrow> rtext" where
  "run_line row run = concat (map (\<lambda>col. if col < length (rs_cells row) then cell_text (rs_cells row ! col) else [])
     [sr_start_col run..<sr_end_col run])"

definition selection_text_unfiltered :: "grid_snapshot \<Rightarrow> selection \<Rightarrow> rtext" where
  "selection_text_unfiltered s sel =
     join [10] (List.map_filter (\<lambda>run.
       if sr_row run < length (gs_rows_data s)
       then Some (let line = run_line (gs_rows_data s ! sr_row run) run in
                  if sm_rectangular (sl_mode sel) then line else trim_end line)
       else None) (selection_runs sel (gs_cols s) (gs_rows s)))"

definition is_blank :: "rchar \<Rightarrow> bool" where
  "is_blank c \<longleftrightarrow> c = 32 \<or> c = 9"

definition leading_blanks :: "rtext \<Rightarrow> nat" where
  "leading_blanks line = length (takeWhile is_blank line)"

definition common_indent :: "rtext list \<Rightarrow> nat" where
  "common_indent ls = (case map leading_blanks (filter (\<lambda>l. trim l \<noteq> []) ls) of [] \<Rightarrow> 0 | n # ns \<Rightarrow> fold min ns n)"

text \<open>The loop over the characters of a line: \<open>&line[byte_index..]\<close>.\<close>

fun strip_indent :: "nat \<Rightarrow> nat \<Rightarrow> rtext \<Rightarrow> rtext" where
  "strip_indent common stripped [] = []"
| "strip_indent common stripped (c # s) =
     (if stripped = common \<or> c \<noteq> 32 \<and> c \<noteq> 9 then c # s else strip_indent common (stripped + 1) s)"

definition remove_common_indent :: "rtext \<Rightarrow> rtext" where
  "remove_common_indent s =
     (let ls = split_on 10 s; common = common_indent ls in
      if common = 0 then s else join [10] (map (strip_indent common 0) ls))"

definition selection_text :: "grid_snapshot \<Rightarrow> selection \<Rightarrow> rtext" where
  "selection_text s sel =
     (let t = selection_text_unfiltered s sel in
      if sm_filter_indent (sl_mode sel) then remove_common_indent t else t)"

subsection \<open>Dragging\<close>

text \<open>The text an operation writes to the primary selection is \<open>Some\<close>; an empty text is not written.\<close>

definition primary_text :: "rtext \<Rightarrow> rtext option" where
  "primary_text t = (if t = [] then None else Some t)"

definition start_terminal_selection :: "grid_point \<Rightarrow> selection_mode \<Rightarrow> live_pane \<Rightarrow> live_pane" where
  "start_terminal_selection point mode p =
     (let p = p\<lparr>lp_selection := None, lp_drag := Some \<lparr>sd_anchor = point\<rparr>\<rparr> in
      if sm_rectangular mode \<or> sm_filter_indent mode
      then p\<lparr>lp_selection := Some \<lparr>sl_anchor = point, sl_active = point, sl_mode = mode\<rparr>\<rparr> else p)"

definition update_terminal_selection :: "grid_point \<Rightarrow> selection_mode \<Rightarrow> live_pane \<Rightarrow> live_pane \<times> rtext option" where
  "update_terminal_selection point mode p =
     (case lp_drag p of
        None \<Rightarrow> (p, None)
      | Some drag \<Rightarrow>
          if sd_anchor drag = point then (p\<lparr>lp_selection := None\<rparr>, None)
          else let sel = \<lparr>sl_anchor = sd_anchor drag, sl_active = point, sl_mode = mode\<rparr>;
                   t = (case lp_latest p of None \<Rightarrow> [] | Some s \<Rightarrow> selection_text s sel)
               in (p\<lparr>lp_selection := Some sel\<rparr>, primary_text t))"

definition finish_terminal_selection :: "live_pane \<Rightarrow> live_pane \<times> rtext option" where
  "finish_terminal_selection p =
     (let p = p\<lparr>lp_drag := None\<rparr> in
      (p, case (lp_latest p, lp_selection p) of
            (Some s, Some sel) \<Rightarrow> primary_text (selection_text s sel)
          | _ \<Rightarrow> None))"

definition live_terminal_selection_text :: "live_pane \<Rightarrow> rtext option" where
  "live_terminal_selection_text p =
     (case (lp_latest p, lp_selection p) of (Some s, Some sel) \<Rightarrow> primary_text (selection_text s sel) | _ \<Rightarrow> None)"

end
