(* ===== verification/Selection_Props.thy ===== *)
theory Selection_Props
  imports Selection Launch_Props
begin

section \<open>Properties of selecting and pasting\<close>

text \<open>
  The runs of a selection cover exactly the selected cells, a quoted path is one word of the shell, pasted
  line ends become carriage returns, and the indentation removed from a copied text is the common one.
\<close>

subsection \<open>Pasting\<close>

lemma pasted_scan_safe:
  "list_all is_safe_shell_path_char v \<Longrightarrow> v \<noteq> [] \<Longrightarrow> sh_scan False word v = Some [so_far word @ v]"
proof (induction v arbitrary: word)
  case (Cons c v)
  then have "shell_literal c" "c \<noteq> 39" "c \<noteq> 92" "c \<noteq> 32"
    by (auto simp: is_safe_shell_path_char_def shell_literal_def is_ascii_alphanumeric_def)
  then show ?case using Cons by (cases "v = []") simp_all
qed simp

text \<open>C23. A path pasted into a terminal is read back by the shell as one word, the path itself, whatever
  characters it has.\<close>

theorem pasted_path_is_one_word:
  assumes "path \<noteq> []"
  shows "sh_words (quote_terminal_path_for_paste path) = Some [path]"
proof (cases "list_all is_safe_shell_path_char path")
  case True
  then show ?thesis using assms pasted_scan_safe [of path None] by (simp add: sh_words_def quote_terminal_path_for_paste_def)
next
  case False
  then show ?thesis using sh_scan_quoted [of "[]" path "[]"]
    by (simp add: sh_words_def quote_terminal_path_for_paste_def replace_str_single)
qed

lemma pasted_path_is_one_word_witness:
  "sh_words (quote_terminal_path_for_paste (bytes ''/tmp/it s'' @ [39])) = Some [bytes ''/tmp/it s'' @ [39]]"
  by (rule pasted_path_is_one_word) simp

lemma paste_text_no_newline: "10 \<notin> set (terminal_paste_text s)"
  by (auto simp: terminal_paste_text_def replace_str_single)

subsection \<open>What a selection covers\<close>

definition run_covers :: "selection_run list \<Rightarrow> nat \<Rightarrow> nat \<Rightarrow> bool" where
  "run_covers runs r c \<longleftrightarrow> (\<exists>run\<in>set runs. sr_row run = r \<and> sr_start_col run \<le> c \<and> c < sr_end_col run)"

definition point_in :: "u16 \<Rightarrow> u16 \<Rightarrow> grid_point \<Rightarrow> bool" where
  "point_in cols rows p \<longleftrightarrow> gp_col p < cols \<and> gp_row p < rows"

text \<open>A cell between two points in reading order, both included.\<close>

definition reads_from :: "grid_point \<Rightarrow> nat \<Rightarrow> nat \<Rightarrow> bool" where
  "reads_from p r c \<longleftrightarrow> gp_row p < r \<or> gp_row p = r \<and> gp_col p \<le> c"

definition reads_to :: "grid_point \<Rightarrow> nat \<Rightarrow> nat \<Rightarrow> bool" where
  "reads_to p r c \<longleftrightarrow> r < gp_row p \<or> gp_row p = r \<and> c \<le> gp_col p"

definition selected :: "selection \<Rightarrow> nat \<Rightarrow> nat \<Rightarrow> bool" where
  "selected sel r c \<longleftrightarrow>
     (let a = sl_anchor sel; b = sl_active sel in
      a \<noteq> b \<and>
      (if sm_rectangular (sl_mode sel)
       then min (gp_row a) (gp_row b) \<le> r \<and> r \<le> max (gp_row a) (gp_row b)
         \<and> min (gp_col a) (gp_col b) \<le> c \<and> c \<le> max (gp_col a) (gp_col b)
       else reads_from a r c \<and> reads_to b r c \<or> reads_from b r c \<and> reads_to a r c))"

lemma map_filter_set: "y \<in> set (List.map_filter f xs) \<longleftrightarrow> (\<exists>x\<in>set xs. f x = Some y)"
  by (auto simp: List.map_filter_def image_iff)

lemma covers_map_filter:
  "run_covers (List.map_filter (\<lambda>row. if lo row < hi row
      then Some \<lparr>sr_row = row, sr_start_col = lo row, sr_end_col = hi row\<rparr> else None) [m..<Suc n]) r c
   \<longleftrightarrow> m \<le> r \<and> r \<le> n \<and> lo r \<le> c \<and> c < hi r"
proof -
  have "run \<in> set (List.map_filter (\<lambda>row. if lo row < hi row
      then Some \<lparr>sr_row = row, sr_start_col = lo row, sr_end_col = hi row\<rparr> else None) [m..<Suc n])
    \<longleftrightarrow> (\<exists>x. m \<le> x \<and> x \<le> n \<and> lo x < hi x \<and> run = \<lparr>sr_row = x, sr_start_col = lo x, sr_end_col = hi x\<rparr>)" for run
    unfolding map_filter_set by (auto simp: less_Suc_eq_le Bex_def split: if_splits)
  note mem = this
  show ?thesis
  proof
    assume "m \<le> r \<and> r \<le> n \<and> lo r \<le> c \<and> c < hi r"
    then show "run_covers (List.map_filter (\<lambda>row. if lo row < hi row
      then Some \<lparr>sr_row = row, sr_start_col = lo row, sr_end_col = hi row\<rparr> else None) [m..<Suc n]) r c"
      unfolding run_covers_def Bex_def mem
      by (intro exI [of _ "\<lparr>sr_row = r, sr_start_col = lo r, sr_end_col = hi r\<rparr>"] conjI exI [of _ r]) auto
  qed (auto simp: run_covers_def Bex_def mem simp del: upt_Suc)
qed

lemma rectangular_covers:
  assumes "point_in cols rows (sl_anchor sel)" "point_in cols rows (sl_active sel)" "cols < 65536"
  shows "run_covers (rectangular_runs sel cols rows) r c \<longleftrightarrow>
     min (gp_row (sl_anchor sel)) (gp_row (sl_active sel)) \<le> r \<and> r \<le> max (gp_row (sl_anchor sel)) (gp_row (sl_active sel))
     \<and> min (gp_col (sl_anchor sel)) (gp_col (sl_active sel)) \<le> c \<and> c \<le> max (gp_col (sl_anchor sel)) (gp_col (sl_active sel))"
proof -
  let ?a = "sl_anchor sel" and ?b = "sl_active sel"
  have add: "u16_sat_add (max (gp_col ?a) (gp_col ?b)) 1 = Suc (max (gp_col ?a) (gp_col ?b))"
    using assms by (auto simp: u16_sat_add_def u16_max_def point_in_def max_def)
  have rows: "u16_sat_sub rows 1 = rows - 1" by (simp add: u16_sat_sub_eq)
  have cut: "min (Suc (max (gp_col ?a) (gp_col ?b))) cols = Suc (max (gp_col ?a) (gp_col ?b))"
    "min (min (gp_col ?a) (gp_col ?b)) cols = min (gp_col ?a) (gp_col ?b)"
    "min (min (gp_row ?a) (gp_row ?b)) (rows - 1) = min (gp_row ?a) (gp_row ?b)"
    "min (max (gp_row ?a) (gp_row ?b)) (rows - 1) = max (gp_row ?a) (gp_row ?b)"
    using assms by (auto simp: point_in_def)
  have ne: "\<not> Suc (max (gp_col ?a) (gp_col ?b)) \<le> min (gp_col ?a) (gp_col ?b)" by linarith
  show ?thesis
    unfolding rectangular_runs_def Let_def add rows cut using ne by (auto simp: run_covers_def less_Suc_eq_le)
qed

lemma linear_covers:
  assumes pts: "point_in cols rows (sl_anchor sel)" "point_in cols rows (sl_active sel)" "cols < 65536"
    and sel: "sl_anchor sel \<noteq> sl_active sel" "\<not> sm_rectangular (sl_mode sel)"
    and o: "ordered_points sel = (a, b)"
  shows "run_covers (selection_runs sel cols rows) r c \<longleftrightarrow> c < cols \<and> reads_from a r c \<and> reads_to b r c"
proof -
  have ab: "point_in cols rows a" "point_in cols rows b" "gp_row a < gp_row b \<or> gp_row a = gp_row b \<and> gp_col a \<le> gp_col b"
    using o pts by (auto simp: ordered_points_def Let_def split: if_splits)
  have pos: "0 < cols" "0 < rows" using pts by (auto simp: point_in_def)
  have add: "u16_sat_add (gp_col b) 1 = Suc (gp_col b)" using ab(2) pts(3) by (simp add: u16_sat_add_def u16_max_def point_in_def)
  have rows: "u16_sat_sub rows 1 = rows - 1" by (simp add: u16_sat_sub_eq)
  have cut: "min (gp_row a) (rows - 1) = gp_row a" "min (gp_row b) (rows - 1) = gp_row b"
    using ab by (auto simp: point_in_def)
  let ?lo = "\<lambda>row. min (if row = gp_row a then gp_col a else 0) cols"
  let ?hi = "\<lambda>row. min (if row = gp_row b then Suc (gp_col b) else cols) cols"
  let ?f = "\<lambda>row. if ?hi row > ?lo row then Some \<lparr>sr_row = row, sr_start_col = ?lo row, sr_end_col = ?hi row\<rparr> else None"
  have runs: "selection_runs sel cols rows = List.map_filter ?f [gp_row a..<Suc (gp_row b)]"
  proof -
    have guard: "(cols = 0 \<or> rows = 0 \<or> sl_anchor sel = sl_active sel) = False" "sm_rectangular (sl_mode sel) = False"
      using pos sel by auto
    show ?thesis unfolding selection_runs_def guard if_False Let_def o prod.case rows cut add by (rule refl)
  qed
  have "run_covers (selection_runs sel cols rows) r c \<longleftrightarrow> gp_row a \<le> r \<and> r \<le> gp_row b \<and> ?lo r \<le> c \<and> c < ?hi r"
    unfolding runs by (rule covers_map_filter)
  also have "\<dots> \<longleftrightarrow> c < cols \<and> reads_from a r c \<and> reads_to b r c"
  proof -
    have bounds: "gp_col a < cols" "gp_col b < cols" using ab by (simp_all add: point_in_def)
    have lo: "?lo r = (if r = gp_row a then gp_col a else 0)" using bounds by simp
    have hi: "?hi r = (if r = gp_row b then Suc (gp_col b) else cols)" using bounds by simp
    show ?thesis unfolding lo hi reads_from_def reads_to_def
      using bounds ab(3) by (cases "r = gp_row a"; cases "r = gp_row b") (simp_all, linarith+)
  qed
  finally show ?thesis .
qed

text \<open>C19. The runs of a selection between two points of the grid cover exactly the selected cells: those from the
  first point to the last in reading order, or the rectangle between them, and none when the points are
  the same cell. Every run lies in the grid.\<close>

theorem selection_runs_exact:
  assumes "point_in cols rows (sl_anchor sel)" "point_in cols rows (sl_active sel)" "cols < 65536"
  shows "run_covers (selection_runs sel cols rows) r c \<longleftrightarrow> c < cols \<and> selected sel r c"
proof (cases "sl_anchor sel = sl_active sel")
  case True
  then show ?thesis by (simp add: selection_runs_def run_covers_def selected_def)
next
  case ne: False
  have pos: "cols \<noteq> 0" "rows \<noteq> 0" using assms by (auto simp: point_in_def)
  show ?thesis
  proof (cases "sm_rectangular (sl_mode sel)")
    case True
    then have "selection_runs sel cols rows = rectangular_runs sel cols rows" using ne pos by (simp add: selection_runs_def)
    then show ?thesis using rectangular_covers [OF assms] ne True assms by (auto simp: selected_def Let_def point_in_def)
  next
    case False
    obtain a b where o: "ordered_points sel = (a, b)" by (cases "ordered_points sel") auto
    then have "(a = sl_anchor sel \<and> b = sl_active sel \<or> a = sl_active sel \<and> b = sl_anchor sel)
       \<and> (gp_row a < gp_row b \<or> gp_row a = gp_row b \<and> gp_col a \<le> gp_col b)"
      by (auto simp: ordered_points_def Let_def split: if_splits)
    moreover have "\<not> (gp_row a = gp_row b \<and> gp_col a = gp_col b)"
      using calculation ne by (cases a; cases b) auto
    ultimately have "selected sel r c \<longleftrightarrow> reads_from a r c \<and> reads_to b r c"
      using ne False by (auto simp: selected_def Let_def reads_from_def reads_to_def)
    then show ?thesis using linear_covers [OF assms ne False o] by simp
  qed
qed

lemma selection_runs_exact_witness:
  "run_covers (selection_runs \<lparr>sl_anchor = \<lparr>gp_row = 2, gp_col = 1\<rparr>, sl_active = \<lparr>gp_row = 0, gp_col = 3\<rparr>,
     sl_mode = \<lparr>sm_rectangular = False, sm_filter_indent = False\<rparr>\<rparr> 5 3) 1 4"
  by (subst selection_runs_exact) (simp_all add: point_in_def selected_def Let_def reads_from_def reads_to_def)

subsection \<open>The text of a selection\<close>

lemma strip_indent_drop: "stripped \<le> common \<Longrightarrow> strip_indent common stripped line = drop (min (common - stripped) (leading_blanks line)) line"
proof (induction line arbitrary: stripped)
  case (Cons c line)
  show ?case
  proof (cases "stripped = common \<or> \<not> is_blank c")
    case True
    then show ?thesis by (auto simp: leading_blanks_def is_blank_def)
  next
    case False
    then have "strip_indent common stripped (c # line) = strip_indent common (Suc stripped) line"
      by (auto simp: is_blank_def)
    also have "\<dots> = drop (min (common - Suc stripped) (leading_blanks line)) line" using Cons False by simp
    also have "\<dots> = drop (min (common - stripped) (leading_blanks (c # line))) (c # line)"
    proof -
      have "stripped < common" using Cons.prems False by auto
      then have "common - stripped = Suc (common - Suc stripped)" by (simp add: Suc_diff_Suc)
      then show ?thesis using False by (simp add: leading_blanks_def)
    qed
    finally show ?thesis .
  qed
qed simp

lemma fold_min_le_start: "fold min ns n \<le> (n :: nat)"
proof (induction ns arbitrary: n)
  case (Cons k ns)
  then show ?case using Cons.IH [of "min k n"] by simp
qed simp

lemma fold_min_le: "m \<in> set ns \<Longrightarrow> fold min ns n \<le> (m :: nat)"
proof (induction ns arbitrary: n)
  case (Cons k ns)
  then show ?case using fold_min_le_start [of ns "min k n"] by auto
qed simp

lemma fold_min_mem: "fold min ns n \<in> insert (n :: nat) (set ns)"
proof (induction ns arbitrary: n)
  case (Cons k ns)
  then show ?case using Cons.IH [of "min k n"] by (auto simp: min_def split: if_splits)
qed simp

definition has_text :: "rtext \<Rightarrow> bool" where
  "has_text line \<longleftrightarrow> trim line \<noteq> []"

lemma common_indent_props:
  "\<forall>l\<in>set ls. has_text l \<longrightarrow> common_indent ls \<le> leading_blanks l"
  "common_indent ls \<noteq> 0 \<Longrightarrow> \<exists>l\<in>set ls. has_text l \<and> leading_blanks l = common_indent ls"
proof -
  let ?ns = "map leading_blanks (filter (\<lambda>l. trim l \<noteq> []) ls)"
  show "\<forall>l\<in>set ls. has_text l \<longrightarrow> common_indent ls \<le> leading_blanks l"
  proof (intro ballI impI)
    fix l
    assume "l \<in> set ls" "has_text l"
    then have "leading_blanks l \<in> set ?ns" by (auto simp: has_text_def)
    then show "common_indent ls \<le> leading_blanks l"
      by (cases ?ns) (auto simp: common_indent_def intro: fold_min_le fold_min_le_start)
  qed
  assume "common_indent ls \<noteq> 0"
  then obtain n ns where n: "?ns = n # ns" "common_indent ls = fold min ns n"
    by (cases ?ns) (auto simp: common_indent_def)
  then have "common_indent ls \<in> set ?ns" using fold_min_mem [of ns n] by simp
  then show "\<exists>l\<in>set ls. has_text l \<and> leading_blanks l = common_indent ls" by (auto simp: has_text_def)
qed

lemma split_on_pieces: "p \<in> set (split_on c s) \<Longrightarrow> c \<notin> set p"
proof (induction s arbitrary: p)
  case (Cons x s)
  obtain q qs where q: "split_on c s = q # qs" using split_on_nonempty [of c s] by (cases "split_on c s") auto
  show ?case using Cons by (auto simp: q split: if_splits)
qed simp

lemma has_text_iff: "has_text l \<longleftrightarrow> (\<exists>c\<in>set l. \<not> is_whitespace c)"
proof -
  have start: "trim_start l = [] \<longleftrightarrow> (\<forall>c\<in>set l. is_whitespace c)" for l by (auto simp: trim_start_def dropWhile_eq_Nil_conv)
  have stop: "trim_end l = [] \<longleftrightarrow> (\<forall>c\<in>set l. is_whitespace c)" for l by (auto simp: trim_end_def dropWhile_eq_Nil_conv)
  have "\<exists>c\<in>set (trim_start l). \<not> is_whitespace c" if "trim_start l \<noteq> []"
    using that hd_dropWhile [of is_whitespace l] hd_in_set [of "dropWhile is_whitespace l"] unfolding trim_start_def by blast
  then show ?thesis using start [of l] stop [of "trim_start l"]
    by (auto simp: has_text_def trim_def)
qed

definition without_indent :: "nat \<Rightarrow> rtext \<Rightarrow> rtext" where
  "without_indent n line = drop (min n (leading_blanks line)) line"

lemma has_text_without_indent: "has_text (without_indent n l) = has_text l"
proof -
  have "take (min n (leading_blanks l)) l = take n (takeWhile is_blank l)"
    by (metis leading_blanks_def min.commute take_take takeWhile_eq_take)
  then have "\<forall>c\<in>set (take (min n (leading_blanks l)) l). is_whitespace c"
    by (auto dest!: in_set_takeD set_takeWhileD simp: is_blank_def is_whitespace_def)
  moreover have "set l = set (take (min n (leading_blanks l)) l) \<union> set (drop (min n (leading_blanks l)) l)"
    by (metis append_take_drop_id set_append)
  ultimately show ?thesis unfolding has_text_iff without_indent_def by blast
qed

lemma leading_blanks_without_indent: "leading_blanks (without_indent n l) = leading_blanks l - n"
proof -
  have "drop (min n (leading_blanks l)) (takeWhile is_blank l @ dropWhile is_blank l)
      = drop (min n (leading_blanks l)) (takeWhile is_blank l) @ dropWhile is_blank l"
    unfolding drop_append by (simp add: leading_blanks_def)
  then have "drop (min n (leading_blanks l)) l = drop (min n (leading_blanks l)) (takeWhile is_blank l) @ dropWhile is_blank l"
    by simp
  moreover have "takeWhile is_blank (dropWhile is_blank l) = []"
    by (metis hd_dropWhile takeWhile_eq_Nil_iff)
  moreover have "\<forall>c\<in>set (drop (min n (leading_blanks l)) (takeWhile is_blank l)). is_blank c"
    by (metis in_set_dropD set_takeWhileD)
  ultimately show ?thesis by (auto simp: leading_blanks_def without_indent_def)
qed

text \<open>Copying without indentation takes the indentation common to the lines with text off every line (at most
  the blanks it starts with), so those lines keep their relative indentation and one of them starts at the
  margin; doing it again changes nothing.\<close>

theorem removed_indent_is_common:
  "remove_common_indent t = join [10] (map (without_indent (common_indent (split_on 10 t))) (split_on 10 t))
   \<and> remove_common_indent (remove_common_indent t) = remove_common_indent t"
proof -
  let ?ls = "split_on 10 t"
  let ?n = "common_indent ?ls"
  let ?out = "map (without_indent ?n) ?ls"
  have zero: "without_indent 0 = id" by (rule ext) (simp add: without_indent_def)
  have loop: "strip_indent m 0 = without_indent m" for m
    by (rule ext) (simp add: strip_indent_drop without_indent_def)
  have first: "remove_common_indent t = join [10] ?out"
    by (cases "?n = 0") (simp_all add: remove_common_indent_def Let_def loop zero)
  have "remove_common_indent (join [10] ?out) = join [10] ?out"
  proof (cases "?n = 0")
    case True
    then have "join [10] ?out = t" by (simp add: zero)
    moreover have "remove_common_indent t = t" using True by (simp add: remove_common_indent_def)
    ultimately show ?thesis by (simp only:)
  next
    case False
    have "\<forall>p\<in>set ?out. 10 \<notin> set p"
      by (auto simp: without_indent_def dest: split_on_pieces in_set_dropD)
    then have split: "split_on 10 (join [10] ?out) = ?out" by (intro split_on_join) simp_all
    obtain l where l: "l \<in> set ?ls" "has_text l" "leading_blanks l = ?n" using common_indent_props(2) [OF False] by auto
    have "without_indent ?n l \<in> set ?out" "has_text (without_indent ?n l)" "leading_blanks (without_indent ?n l) = 0"
      using l by (simp_all add: has_text_without_indent leading_blanks_without_indent)
    then have "common_indent ?out = 0" using common_indent_props(1) [of ?out] by fastforce
    then show ?thesis by (simp add: remove_common_indent_def split)
  qed
  then show ?thesis using first by simp
qed

end
