(* ===== verification/Store_Codecs.thy ===== *)
theory Store_Codecs
  imports Layout
begin

section \<open>Values of the store (\<open>octty-store/src/codecs.rs\<close>)\<close>

text \<open>
  The database keeps values of five kinds. A column is read as text or as an integer, and the enumerations
  of \<open>Core_Types\<close> are kept as words. The rows that the store writes and reads are lists of values in the
  order of the columns of its statements; the JSON codings of \<open>serde_json\<close> are parameters.
\<close>

datatype sql_value = SqlNull | SqlInteger i64 | SqlReal f64 | SqlText rtext | SqlBlob "u8 list"

datatype store_error = DatabaseError | JsonError | UnexpectedValue string sql_value

type_synonym row = "sql_value list"

subsection \<open>Columns\<close>

definition text_of :: "sql_value \<Rightarrow> string \<Rightarrow> store_error + rtext" where
  "text_of v column = (case v of SqlText t \<Rightarrow> Inr t | v \<Rightarrow> Inl (UnexpectedValue column v))"

definition integer_of :: "sql_value \<Rightarrow> string \<Rightarrow> store_error + i64" where
  "integer_of v column = (case v of SqlInteger n \<Rightarrow> Inr n | v \<Rightarrow> Inl (UnexpectedValue column v))"

definition optional_integer :: "sql_value \<Rightarrow> string \<Rightarrow> store_error + i64 option" where
  "optional_integer v column =
     (case v of SqlNull \<Rightarrow> Inr None | SqlInteger n \<Rightarrow> Inr (Some n) | v \<Rightarrow> Inl (UnexpectedValue column v))"

definition optional_text :: "sql_value \<Rightarrow> string \<Rightarrow> store_error + rtext option" where
  "optional_text v column =
     (case v of SqlNull \<Rightarrow> Inr None | SqlText t \<Rightarrow> Inr (Some t) | v \<Rightarrow> Inl (UnexpectedValue column v))"

definition optional_i64_to_value :: "i64 option \<Rightarrow> sql_value" where
  "optional_i64_to_value v = (case v of Some n \<Rightarrow> SqlInteger n | None \<Rightarrow> SqlNull)"

definition optional_str_to_value :: "rtext option \<Rightarrow> sql_value" where
  "optional_str_to_value v = (case v of Some t \<Rightarrow> SqlText t | None \<Rightarrow> SqlNull)"

definition bool_to_int :: "bool \<Rightarrow> i64" where
  "bool_to_int b = (if b then 1 else 0)"

subsection \<open>Enumerations\<close>

fun workspace_state_to_str :: "workspace_state \<Rightarrow> rtext" where
  "workspace_state_to_str Published = bytes ''published''"
| "workspace_state_to_str MergedLocal = bytes ''merged-local''"
| "workspace_state_to_str Draft = bytes ''draft''"
| "workspace_state_to_str Conflicted = bytes ''conflicted''"
| "workspace_state_to_str UnknownState = bytes ''unknown''"

definition parse_workspace_state :: "rtext \<Rightarrow> workspace_state" where
  "parse_workspace_state t =
     (if t = bytes ''published'' then Published else if t = bytes ''merged-local'' then MergedLocal
      else if t = bytes ''draft'' then Draft else if t = bytes ''conflicted'' then Conflicted else UnknownState)"

fun bookmark_relation_to_str :: "workspace_bookmark_relation \<Rightarrow> rtext" where
  "bookmark_relation_to_str BookmarkNone = bytes ''none''"
| "bookmark_relation_to_str BookmarkExact = bytes ''exact''"
| "bookmark_relation_to_str BookmarkAbove = bytes ''above''"

definition parse_bookmark_relation :: "rtext \<Rightarrow> workspace_bookmark_relation" where
  "parse_bookmark_relation t =
     (if t = bytes ''exact'' then BookmarkExact else if t = bytes ''above'' then BookmarkAbove else BookmarkNone)"

fun primary_relation_to_str :: "baseline_relation_target \<Rightarrow> rtext" where
  "primary_relation_to_str TargetLocal = bytes ''local''"
| "primary_relation_to_str TargetRemote = bytes ''remote''"
| "primary_relation_to_str TargetNone = bytes ''none''"

definition parse_primary_relation :: "rtext \<Rightarrow> baseline_relation_target" where
  "parse_primary_relation t =
     (if t = bytes ''local'' then TargetLocal else if t = bytes ''remote'' then TargetRemote else TargetNone)"

fun optional_agent_attention_to_value :: "agent_attention_state option \<Rightarrow> sql_value" where
  "optional_agent_attention_to_value (Some AttIdleSeen) = SqlText (bytes ''idle-seen'')"
| "optional_agent_attention_to_value (Some AttThinking) = SqlText (bytes ''thinking'')"
| "optional_agent_attention_to_value (Some AttIdleUnseen) = SqlText (bytes ''idle-unseen'')"
| "optional_agent_attention_to_value None = SqlNull"

definition parse_optional_agent_attention :: "sql_value \<Rightarrow> store_error + agent_attention_state option" where
  "parse_optional_agent_attention v =
     (case v of
        SqlNull \<Rightarrow> Inr None
      | SqlText t \<Rightarrow> Inr (if t = bytes ''idle-seen'' then Some AttIdleSeen
                         else if t = bytes ''thinking'' then Some AttThinking
                         else if t = bytes ''idle-unseen'' then Some AttIdleUnseen else None)
      | v \<Rightarrow> Inl (UnexpectedValue ''agent_attention_state'' v))"

fun terminal_kind_to_str :: "terminal_kind \<Rightarrow> rtext" where
  "terminal_kind_to_str KShell = bytes ''shell''"
| "terminal_kind_to_str KCodex = bytes ''codex''"
| "terminal_kind_to_str KPi = bytes ''pi''"
| "terminal_kind_to_str KNvim = bytes ''nvim''"
| "terminal_kind_to_str KJjui = bytes ''jjui''"

definition parse_terminal_kind :: "rtext \<Rightarrow> terminal_kind" where
  "parse_terminal_kind t =
     (if t = bytes ''codex'' then KCodex else if t = bytes ''pi'' then KPi else if t = bytes ''nvim'' then KNvim
      else if t = bytes ''jjui'' then KJjui else KShell)"

fun session_state_to_str :: "session_state \<Rightarrow> rtext" where
  "session_state_to_str Live = bytes ''live''"
| "session_state_to_str Stopped = bytes ''stopped''"
| "session_state_to_str Missing = bytes ''missing''"

definition parse_session_state :: "rtext \<Rightarrow> session_state" where
  "parse_session_state t =
     (if t = bytes ''live'' then Live else if t = bytes ''missing'' then Missing else Stopped)"

subsection \<open>What is written is read\<close>

lemma read_columns [simp]:
  "text_of (SqlText t) c = Inr t" "integer_of (SqlInteger n) c = Inr n"
  "optional_integer (optional_i64_to_value i) c = Inr i" "optional_text (optional_str_to_value s) c = Inr s"
  "integer_of (optional_i64_to_value (Some n)) c = Inr n" "(bool_to_int b \<noteq> 0) = b" "(bool_to_int b = 0) = (\<not> b)"
  by (simp_all add: text_of_def integer_of_def optional_integer_def optional_i64_to_value_def optional_text_def
      optional_str_to_value_def bool_to_int_def split: option.splits)

lemma parse_written [simp]:
  "parse_workspace_state (workspace_state_to_str w) = w"
  "parse_bookmark_relation (bookmark_relation_to_str b) = b"
  "parse_primary_relation (primary_relation_to_str p) = p"
  "parse_optional_agent_attention (optional_agent_attention_to_value a) = Inr a"
  "parse_terminal_kind (terminal_kind_to_str k) = k"
  "parse_session_state (session_state_to_str s) = s"
proof -
  show "parse_workspace_state (workspace_state_to_str w) = w"
    by (cases w) (simp_all add: parse_workspace_state_def bytes_def)
  show "parse_bookmark_relation (bookmark_relation_to_str b) = b"
    by (cases b) (simp_all add: parse_bookmark_relation_def bytes_def)
  show "parse_primary_relation (primary_relation_to_str p) = p"
    by (cases p) (simp_all add: parse_primary_relation_def bytes_def)
  show "parse_optional_agent_attention (optional_agent_attention_to_value a) = Inr a"
  proof (cases a)
    case (Some x)
    then show ?thesis by (cases x) (simp_all add: parse_optional_agent_attention_def bytes_def)
  qed (simp add: parse_optional_agent_attention_def)
  show "parse_terminal_kind (terminal_kind_to_str k) = k"
    by (cases k) (simp_all add: parse_terminal_kind_def bytes_def)
  show "parse_session_state (session_state_to_str s) = s"
    by (cases s) (simp_all add: parse_session_state_def bytes_def)
qed

end
