(* ===== verification/Store.thy ===== *)
theory Store
  imports Store_Codecs
begin

section \<open>The store (\<open>octty-store/src/workspaces.rs\<close>, \<open>pane_activity.rs\<close>, \<open>sessions.rs\<close>, \<open>snapshots.rs\<close>, \<open>project_roots.rs\<close>)\<close>

text \<open>
  The store is a database of six tables, a table the list of its rows. A statement is what its SQL text says:
  an insert with its conflict clause, an update or a delete with its condition, on the columns the
  statement names; it fails and changes nothing when two rows would agree on a primary key or a unique
  column. \<open>fault\<close> says how many statements the database executes before it fails (\<open>None\<close>: it does not), and
  a transaction that is not committed leaves the store as it was. Rows with equal sort keys are listed in
  the order of the table. Foreign keys are not enforced, as the connection does not ask for it.
\<close>

subsection \<open>Tables\<close>

type_synonym sql_table = "row list"

definition column :: "string list \<Rightarrow> string \<Rightarrow> row \<Rightarrow> sql_value option" where
  "column cols c r = map_of (zip cols r) c"

definition key_of :: "string list \<Rightarrow> string list \<Rightarrow> row \<Rightarrow> sql_value option list" where
  "key_of cols key r = map (\<lambda>c. column cols c r) key"

definition unique_on :: "string list \<Rightarrow> string list list \<Rightarrow> sql_table \<Rightarrow> bool" where
  "unique_on cols keys t \<longleftrightarrow> list_all (\<lambda>k. distinct (map (key_of cols k) t)) keys"

definition checked :: "string list \<Rightarrow> string list list \<Rightarrow> sql_table \<Rightarrow> sql_table option" where
  "checked cols keys t = (if unique_on cols keys t then Some t else None)"

definition merge_rows :: "string list \<Rightarrow> string list \<Rightarrow> row \<Rightarrow> row \<Rightarrow> row" where
  "merge_rows cols updated old excluded =
     map (\<lambda>(c, o', e). if c \<in> set updated then e else o') (zip cols (zip old excluded))"

text \<open>\<open>insert into t (cols) values (new) on conflict (conflict) do update set c = excluded.c, ...\<close> for the columns \<open>updated\<close>.\<close>

definition upsert :: "string list \<Rightarrow> string list list \<Rightarrow> string list \<Rightarrow> string list \<Rightarrow> row \<Rightarrow> sql_table \<Rightarrow> sql_table option" where
  "upsert cols keys conflict updated new t =
     checked cols keys
       (if list_ex (\<lambda>r. key_of cols conflict r = key_of cols conflict new) t
        then map (\<lambda>r. if key_of cols conflict r = key_of cols conflict new then merge_rows cols updated r new else r) t
        else t @ [new])"

definition set_columns :: "string list \<Rightarrow> (string \<times> sql_value) list \<Rightarrow> row \<Rightarrow> row" where
  "set_columns cols sets r = map (\<lambda>(c, v). case map_of sets c of Some v' \<Rightarrow> v' | None \<Rightarrow> v) (zip cols r)"

definition where_is :: "string list \<Rightarrow> string \<Rightarrow> rtext \<Rightarrow> row \<Rightarrow> bool" where
  "where_is cols c t r \<longleftrightarrow> column cols c r = Some (SqlText t)"

definition update_rows ::
  "string list \<Rightarrow> string list list \<Rightarrow> (string \<times> sql_value) list \<Rightarrow> (row \<Rightarrow> bool) \<Rightarrow> sql_table \<Rightarrow> sql_table option" where
  "update_rows cols keys sets p t = checked cols keys (map (\<lambda>r. if p r then set_columns cols sets r else r) t)"

definition delete_rows :: "(row \<Rightarrow> bool) \<Rightarrow> sql_table \<Rightarrow> sql_table" where
  "delete_rows p t = filter (\<lambda>r. \<not> p r) t"

text \<open>\<open>order by\<close> a text column.\<close>

definition order_by :: "string list \<Rightarrow> string \<Rightarrow> sql_table \<Rightarrow> sql_table" where
  "order_by cols c t = sort_key (\<lambda>r. case column cols c r of Some (SqlText x) \<Rightarrow> x | _ \<Rightarrow> []) t"

fun read_rows :: "(row \<Rightarrow> store_error + 'b) \<Rightarrow> sql_table \<Rightarrow> store_error + 'b list" where
  "read_rows f [] = Inr []"
| "read_rows f (r # t) = and_then (f r) (\<lambda>x. and_then (read_rows f t) (\<lambda>xs. Inr (x # xs)))"

text \<open>\<open>get_value\<close>: the value at an index of the selected columns.\<close>

definition get_value :: "row \<Rightarrow> nat \<Rightarrow> store_error + sql_value" where
  "get_value r i = (if i < length r then Inr (r ! i) else Inl DatabaseError)"

definition get_text :: "row \<Rightarrow> nat \<Rightarrow> string \<Rightarrow> store_error + rtext" where
  "get_text r i c = and_then (get_value r i) (\<lambda>v. text_of v c)"

definition get_integer :: "row \<Rightarrow> nat \<Rightarrow> string \<Rightarrow> store_error + i64" where
  "get_integer r i c = and_then (get_value r i) (\<lambda>v. integer_of v c)"

definition get_optional_integer :: "row \<Rightarrow> nat \<Rightarrow> string \<Rightarrow> store_error + i64 option" where
  "get_optional_integer r i c = and_then (get_value r i) (\<lambda>v. optional_integer v c)"

definition get_optional_text :: "row \<Rightarrow> nat \<Rightarrow> string \<Rightarrow> store_error + rtext option" where
  "get_optional_text r i c = and_then (get_value r i) (\<lambda>v. optional_text v c)"

lemmas get_defs = get_text_def get_integer_def get_optional_integer_def get_optional_text_def

lemma get_value_in [simp]: "i < length r \<Longrightarrow> get_value r i = Inr (r ! i)"
  by (simp add: get_value_def)

record store =
  st_roots :: sql_table
  st_workspaces :: sql_table
  st_snapshots :: sql_table
  st_notes :: sql_table
  st_sessions :: sql_table
  st_activity :: sql_table

definition store_empty :: store where
  "store_empty = \<lparr>st_roots = [], st_workspaces = [], st_snapshots = [], st_notes = [], st_sessions = [], st_activity = []\<rparr>"

subsection \<open>Executing statements\<close>

type_synonym statement = "store \<Rightarrow> store option"

text \<open>The store, the error if any, and the fault that is left.\<close>

fun run_all :: "nat option \<Rightarrow> statement list \<Rightarrow> store \<Rightarrow> store \<times> store_error option \<times> nat option" where
  "run_all fault [] st = (st, None, fault)"
| "run_all fault (s # ss) st =
     (if fault = Some 0 then (st, Some DatabaseError, fault)
      else case s st of
             None \<Rightarrow> (st, Some DatabaseError, fault)
           | Some st' \<Rightarrow> run_all (map_option (\<lambda>n. n - 1) fault) ss st')"

definition run_each :: "nat option \<Rightarrow> statement list \<Rightarrow> store \<Rightarrow> store \<times> store_error option" where
  "run_each fault ss st = (let (st', e, _) = run_all fault ss st in (st', e))"

text \<open>Between \<open>begin concurrent\<close> and \<open>commit\<close>: nothing is kept of a transaction that fails or cannot commit.\<close>

definition transaction :: "nat option \<Rightarrow> statement list \<Rightarrow> store \<Rightarrow> store \<times> store_error option" where
  "transaction fault ss st =
     (if fault = Some 0 then (st, Some DatabaseError)
      else case run_all (map_option (\<lambda>n. n - 1) fault) ss st of
             (_, Some e, _) \<Rightarrow> (st, Some e)
           | (st', None, rest) \<Rightarrow> if rest = Some 0 then (st, Some DatabaseError) else (st', None))"

text \<open>Statements on one table.\<close>

definition on_roots :: "(sql_table \<Rightarrow> sql_table option) \<Rightarrow> statement" where
  "on_roots f st = map_option (\<lambda>t. st\<lparr>st_roots := t\<rparr>) (f (st_roots st))"
definition on_workspaces :: "(sql_table \<Rightarrow> sql_table option) \<Rightarrow> statement" where
  "on_workspaces f st = map_option (\<lambda>t. st\<lparr>st_workspaces := t\<rparr>) (f (st_workspaces st))"
definition on_snapshots :: "(sql_table \<Rightarrow> sql_table option) \<Rightarrow> statement" where
  "on_snapshots f st = map_option (\<lambda>t. st\<lparr>st_snapshots := t\<rparr>) (f (st_snapshots st))"
definition on_notes :: "(sql_table \<Rightarrow> sql_table option) \<Rightarrow> statement" where
  "on_notes f st = map_option (\<lambda>t. st\<lparr>st_notes := t\<rparr>) (f (st_notes st))"
definition on_sessions :: "(sql_table \<Rightarrow> sql_table option) \<Rightarrow> statement" where
  "on_sessions f st = map_option (\<lambda>t. st\<lparr>st_sessions := t\<rparr>) (f (st_sessions st))"
definition on_activity :: "(sql_table \<Rightarrow> sql_table option) \<Rightarrow> statement" where
  "on_activity f st = map_option (\<lambda>t. st\<lparr>st_activity := t\<rparr>) (f (st_activity st))"

lemmas on_table_defs = on_roots_def on_workspaces_def on_snapshots_def on_notes_def on_sessions_def on_activity_def

subsection \<open>Project roots\<close>

record project_root =
  pr_id :: rtext
  pr_root_path :: rtext
  pr_display_name :: rtext
  pr_created_at :: i64
  pr_updated_at :: i64

definition root_columns :: "string list" where
  "root_columns = [''id'', ''root_path'', ''label'', ''created_at'', ''updated_at'']"

definition root_keys :: "string list list" where "root_keys = [[''id''], [''root_path'']]"

definition root_values :: "project_root \<Rightarrow> row" where
  "root_values r = [SqlText (pr_id r), SqlText (pr_root_path r), SqlText (pr_display_name r), SqlInteger (pr_created_at r),
     SqlInteger (pr_updated_at r)]"

definition root_from_row :: "row \<Rightarrow> store_error + project_root" where
  "root_from_row r =
     and_then (get_text r 0 ''id'') (\<lambda>i.
     and_then (get_text r 1 ''root_path'') (\<lambda>path.
     and_then (get_text r 2 ''label'') (\<lambda>label.
     and_then (get_integer r 3 ''created_at'') (\<lambda>created.
     and_then (get_integer r 4 ''updated_at'') (\<lambda>updated.
     Inr \<lparr>pr_id = i, pr_root_path = path, pr_display_name = label, pr_created_at = created, pr_updated_at = updated\<rparr>)))))"

definition root_updated :: "string list" where "root_updated = [''root_path'', ''label'', ''updated_at'']"

definition upsert_project_root :: "nat option \<Rightarrow> project_root \<Rightarrow> store \<Rightarrow> store \<times> store_error option" where
  "upsert_project_root fault r = run_each fault
     [on_roots (upsert root_columns root_keys [''id''] root_updated (root_values r))]"

definition list_project_roots :: "store \<Rightarrow> store_error + project_root list" where
  "list_project_roots st = read_rows root_from_row
     (order_by root_columns ''label'' (order_by root_columns ''root_path'' (st_roots st)))"

definition update_project_root_display_name :: "i64 \<Rightarrow> nat option \<Rightarrow> rtext \<Rightarrow> rtext \<Rightarrow> store \<Rightarrow> store \<times> store_error option" where
  "update_project_root_display_name unixtime fault root_id name = run_each fault
     [on_roots (update_rows root_columns root_keys [(''label'', SqlText name), (''updated_at'', SqlInteger (unixtime * 1000))]
        (where_is root_columns ''id'' root_id))]"

subsection \<open>Workspaces\<close>

text \<open>The coding of the bookmarks: \<open>serde_json::to_string\<close> and \<open>from_str\<close> on a list of strings.\<close>

record bookmark_codec =
  bc_to :: "rtext list \<Rightarrow> rtext"
  bc_from :: "rtext \<Rightarrow> rtext list option"

definition workspace_columns :: "string list" where
  "workspace_columns =
    [''id'', ''root_id'', ''root_path'', ''project_label'', ''workspace_name'', ''display_name'',
     ''workspace_path'', ''workspace_state'', ''has_working_copy_changes'', ''bookmarks'', ''has_conflicts'',
     ''local_baseline_name'', ''local_baseline_detail'', ''local_ahead_count'', ''local_behind_count'',
     ''remote_baseline_name'', ''remote_baseline_detail'', ''remote_ahead_count'', ''remote_behind_count'',
     ''primary_relation'', ''bookmark_relation'', ''unread_notes'', ''active_agent_count'',
     ''agent_attention_state'', ''recent_activity_at'', ''diff_text'', ''created_at'', ''updated_at'',
     ''last_opened_at'']"

definition workspace_updated :: "string list" where
  "workspace_updated =
    [''root_id'', ''root_path'', ''project_label'', ''workspace_name'', ''display_name'', ''workspace_path'',
     ''workspace_state'', ''has_working_copy_changes'', ''bookmarks'', ''has_conflicts'',
     ''local_baseline_name'', ''local_baseline_detail'', ''local_ahead_count'', ''local_behind_count'',
     ''remote_baseline_name'', ''remote_baseline_detail'', ''remote_ahead_count'', ''remote_behind_count'',
     ''primary_relation'', ''bookmark_relation'', ''unread_notes'', ''active_agent_count'',
     ''agent_attention_state'', ''recent_activity_at'', ''diff_text'', ''updated_at'', ''last_opened_at'']"

definition workspace_keys :: "string list list" where "workspace_keys = [[''id''], [''workspace_path'']]"

definition relation_values :: "baseline_relation option \<Rightarrow> row" where
  "relation_values rel =
     [optional_str_to_value (map_option br_target_name rel), optional_str_to_value (Option.bind rel br_detail_name),
      optional_i64_to_value (map_option br_ahead rel), optional_i64_to_value (map_option br_behind rel)]"

definition workspace_values :: "bookmark_codec \<Rightarrow> workspace_summary \<Rightarrow> row" where
  "workspace_values B w =
     (let s = wm_status w in
      [SqlText (wm_id w), SqlText (wm_root_id w), SqlText (wm_root_path w), SqlText (wm_project_display_name w),
       SqlText (wm_workspace_name w), SqlText (wm_display_name w), SqlText (wm_workspace_path w),
       SqlText (workspace_state_to_str (ws_state s)), SqlInteger (bool_to_int (ws_has_changes s)),
       SqlText (bc_to B (ws_bookmarks s)), SqlInteger (bool_to_int (ws_has_conflicts s))]
      @ relation_values (ws_local s) @ relation_values (ws_remote s)
      @ [SqlText (primary_relation_to_str (ws_primary s)), SqlText (bookmark_relation_to_str (ws_bookmark_relation s)),
         SqlInteger (ws_unread_notes s), SqlInteger (ws_active_agents s), optional_agent_attention_to_value (ws_attention s),
         SqlInteger (ws_recent_activity s), SqlText (ws_diff_text s), SqlInteger (wm_created_at w),
         SqlInteger (wm_updated_at w), SqlInteger (wm_last_opened_at w)])"

text \<open>The relation whose columns start at index \<open>i\<close>.\<close>

definition relation_from_row :: "row \<Rightarrow> nat \<Rightarrow> string \<Rightarrow> string \<Rightarrow> string \<Rightarrow> string \<Rightarrow> store_error + baseline_relation option" where
  "relation_from_row r i name detail ahead behind =
     and_then (get_optional_text r i name) (\<lambda>target.
       case target of
         None \<Rightarrow> Inr None
       | Some target \<Rightarrow>
           and_then (get_optional_text r (i + 1) detail) (\<lambda>d.
           and_then (get_integer r (i + 2) ahead) (\<lambda>a.
           and_then (get_integer r (i + 3) behind) (\<lambda>b.
           Inr (Some \<lparr>br_target_name = target, br_detail_name = d, br_ahead = a, br_behind = b\<rparr>)))))"

definition status_from_row ::
  "bookmark_codec \<Rightarrow> row \<Rightarrow> rtext \<Rightarrow> baseline_relation option \<Rightarrow> baseline_relation option \<Rightarrow> store_error + workspace_status" where
  "status_from_row B r bookmarks local remote =
     and_then (get_text r 7 ''workspace_state'') (\<lambda>state.
     and_then (get_integer r 8 ''has_working_copy_changes'') (\<lambda>changes.
     and_then (get_integer r 10 ''has_conflicts'') (\<lambda>conflicts.
     and_then (get_text r 19 ''primary_relation'') (\<lambda>primary.
     and_then (get_text r 20 ''bookmark_relation'') (\<lambda>relation.
     and_then (get_integer r 21 ''unread_notes'') (\<lambda>notes.
     and_then (get_integer r 22 ''active_agent_count'') (\<lambda>agents.
     and_then (and_then (get_value r 23) parse_optional_agent_attention) (\<lambda>attention.
     and_then (get_integer r 24 ''recent_activity_at'') (\<lambda>recent.
     and_then (get_text r 25 ''diff_text'') (\<lambda>diff.
     Inr \<lparr>ws_state = parse_workspace_state state, ws_has_changes = (changes \<noteq> 0), ws_has_conflicts = (conflicts \<noteq> 0),
          ws_local = local, ws_remote = remote, ws_primary = parse_primary_relation primary,
          ws_bookmarks = (case bc_from B bookmarks of Some bs \<Rightarrow> bs | None \<Rightarrow> []),
          ws_bookmark_relation = parse_bookmark_relation relation, ws_unread_notes = notes, ws_active_agents = agents,
          ws_attention = attention, ws_recent_activity = recent, ws_diff_text = diff\<rparr>))))))))))"

definition workspace_from_row :: "bookmark_codec \<Rightarrow> row \<Rightarrow> store_error + workspace_summary" where
  "workspace_from_row B r =
     and_then (get_text r 9 ''bookmarks'') (\<lambda>bookmarks.
     and_then (relation_from_row r 11 ''local_baseline_name'' ''local_baseline_detail'' ''local_ahead_count'' ''local_behind_count'') (\<lambda>local.
     and_then (relation_from_row r 15 ''remote_baseline_name'' ''remote_baseline_detail'' ''remote_ahead_count'' ''remote_behind_count'') (\<lambda>remote.
     and_then (get_text r 0 ''id'') (\<lambda>i.
     and_then (get_text r 1 ''root_id'') (\<lambda>root.
     and_then (get_text r 2 ''root_path'') (\<lambda>root_path.
     and_then (get_text r 3 ''project_label'') (\<lambda>label.
     and_then (get_text r 4 ''workspace_name'') (\<lambda>name.
     and_then (get_text r 5 ''display_name'') (\<lambda>display.
     and_then (get_text r 6 ''workspace_path'') (\<lambda>path.
     and_then (status_from_row B r bookmarks local remote) (\<lambda>status.
     and_then (get_integer r 26 ''created_at'') (\<lambda>created.
     and_then (get_integer r 27 ''updated_at'') (\<lambda>updated.
     and_then (get_integer r 28 ''last_opened_at'') (\<lambda>opened.
     Inr \<lparr>wm_id = i, wm_root_id = root, wm_root_path = root_path, wm_project_display_name = label, wm_workspace_name = name,
          wm_display_name = display, wm_workspace_path = path, wm_status = status, wm_created_at = created,
          wm_updated_at = updated, wm_last_opened_at = opened\<rparr>))))))))))))))"

definition upsert_workspace :: "bookmark_codec \<Rightarrow> nat option \<Rightarrow> workspace_summary \<Rightarrow> store \<Rightarrow> store \<times> store_error option" where
  "upsert_workspace B fault w = run_each fault
     [on_workspaces (upsert workspace_columns workspace_keys [''id''] workspace_updated (workspace_values B w))]"

definition update_workspace_project_display_name :: "i64 \<Rightarrow> nat option \<Rightarrow> rtext \<Rightarrow> rtext \<Rightarrow> store \<Rightarrow> store \<times> store_error option" where
  "update_workspace_project_display_name unixtime fault root_id name = run_each fault
     [on_workspaces (update_rows workspace_columns workspace_keys
        [(''project_label'', SqlText name), (''updated_at'', SqlInteger (unixtime * 1000))]
        (where_is workspace_columns ''root_id'' root_id))]"

definition update_workspace_display_name :: "i64 \<Rightarrow> nat option \<Rightarrow> rtext \<Rightarrow> rtext \<Rightarrow> store \<Rightarrow> store \<times> store_error option" where
  "update_workspace_display_name unixtime fault workspace_id name = run_each fault
     [on_workspaces (update_rows workspace_columns workspace_keys
        [(''display_name'', SqlText name), (''updated_at'', SqlInteger (unixtime * 1000))]
        (where_is workspace_columns ''id'' workspace_id))]"

definition list_workspaces :: "bookmark_codec \<Rightarrow> store \<Rightarrow> store_error + workspace_summary list" where
  "list_workspaces B st = read_rows (workspace_from_row B)
     (order_by workspace_columns ''project_label'' (order_by workspace_columns ''workspace_name'' (st_workspaces st)))"

subsection \<open>Activities of panes\<close>

definition activity_columns :: "string list" where
  "activity_columns = [''workspace_id'', ''pane_id'', ''last_activity_at_ms'', ''last_seen_at_ms'', ''last_seen_activity_at_ms'',
     ''last_tmux_activity_at_s'', ''last_seen_tmux_activity_at_s'', ''last_screen_fingerprint'',
     ''last_seen_screen_fingerprint'', ''needs_attention'', ''needs_attention_at_ms'', ''needs_attention_cleared_at_ms'',
     ''updated_at_ms'']"

definition activity_updated :: "string list" where
  "activity_updated = [''last_activity_at_ms'', ''last_seen_at_ms'', ''last_seen_activity_at_ms'', ''last_tmux_activity_at_s'',
     ''last_seen_tmux_activity_at_s'', ''last_screen_fingerprint'', ''last_seen_screen_fingerprint'', ''needs_attention'',
     ''needs_attention_at_ms'', ''needs_attention_cleared_at_ms'', ''updated_at_ms'']"

definition activity_keys :: "string list list" where "activity_keys = [[''workspace_id'', ''pane_id'']]"

definition activity_values :: "pane_activity \<Rightarrow> row" where
  "activity_values a =
     [SqlText (pa_workspace_id a), SqlText (pa_pane_id a), SqlInteger (pa_last_activity a), SqlInteger (pa_last_seen a),
      SqlInteger (pa_last_seen_activity a), optional_i64_to_value (pa_tmux a), optional_i64_to_value (pa_seen_tmux a),
      optional_str_to_value (pa_fingerprint a), optional_str_to_value (pa_seen_fingerprint a),
      SqlInteger (bool_to_int (pa_attention a)), SqlInteger (pa_attention_at a), SqlInteger (pa_attention_cleared a),
      SqlInteger (pa_updated a)]"

definition activity_from_row :: "row \<Rightarrow> store_error + pane_activity" where
  "activity_from_row r =
     and_then (get_text r 0 ''workspace_id'') (\<lambda>workspace_id.
     and_then (get_text r 1 ''pane_id'') (\<lambda>pane_id.
     and_then (get_integer r 2 ''last_activity_at_ms'') (\<lambda>active.
     and_then (get_integer r 3 ''last_seen_at_ms'') (\<lambda>seen.
     and_then (get_integer r 4 ''last_seen_activity_at_ms'') (\<lambda>seen_active.
     and_then (get_optional_integer r 5 ''last_tmux_activity_at_s'') (\<lambda>tmux.
     and_then (get_optional_integer r 6 ''last_seen_tmux_activity_at_s'') (\<lambda>seen_tmux.
     and_then (get_optional_text r 7 ''last_screen_fingerprint'') (\<lambda>fingerprint.
     and_then (get_optional_text r 8 ''last_seen_screen_fingerprint'') (\<lambda>seen_fingerprint.
     and_then (get_integer r 9 ''needs_attention'') (\<lambda>attention.
     and_then (get_integer r 10 ''needs_attention_at_ms'') (\<lambda>attention_at.
     and_then (get_integer r 11 ''needs_attention_cleared_at_ms'') (\<lambda>cleared.
     and_then (get_integer r 12 ''updated_at_ms'') (\<lambda>updated.
     Inr \<lparr>pa_workspace_id = workspace_id, pa_pane_id = pane_id, pa_last_activity = active, pa_last_seen = seen,
          pa_last_seen_activity = seen_active, pa_tmux = tmux, pa_seen_tmux = seen_tmux, pa_fingerprint = fingerprint,
          pa_seen_fingerprint = seen_fingerprint, pa_attention = (attention \<noteq> 0), pa_attention_at = attention_at,
          pa_attention_cleared = cleared, pa_updated = updated\<rparr>)))))))))))))"

definition upsert_activity_statement :: "pane_activity \<Rightarrow> statement" where
  "upsert_activity_statement a =
     on_activity (upsert activity_columns activity_keys [''workspace_id'', ''pane_id''] activity_updated (activity_values a))"

definition upsert_pane_activity :: "nat option \<Rightarrow> pane_activity \<Rightarrow> store \<Rightarrow> store \<times> store_error option" where
  "upsert_pane_activity fault a = run_each fault [upsert_activity_statement a]"

definition upsert_pane_activities :: "nat option \<Rightarrow> pane_activity list \<Rightarrow> store \<Rightarrow> store \<times> store_error option" where
  "upsert_pane_activities fault as = run_each fault (map upsert_activity_statement as)"

definition delete_pane_activity :: "nat option \<Rightarrow> rtext \<Rightarrow> rtext \<Rightarrow> store \<Rightarrow> store \<times> store_error option" where
  "delete_pane_activity fault workspace_id pane_id = run_each fault
     [on_activity (\<lambda>t. Some (delete_rows (\<lambda>r. where_is activity_columns ''workspace_id'' workspace_id r
        \<and> where_is activity_columns ''pane_id'' pane_id r) t))]"

definition list_pane_activity :: "store \<Rightarrow> store_error + pane_activity list" where
  "list_pane_activity st = read_rows activity_from_row
     (order_by activity_columns ''workspace_id'' (order_by activity_columns ''pane_id'' (st_activity st)))"

subsection \<open>Sessions\<close>

definition session_columns :: "string list" where
  "session_columns = [''pane_id'', ''workspace_id'', ''session_id'', ''inner_session_id'', ''kind'', ''cwd'', ''command'', ''state'',
     ''exit_code'', ''buffer'', ''updated_at'']"

definition session_updated :: "string list" where
  "session_updated = [''workspace_id'', ''session_id'', ''inner_session_id'', ''kind'', ''cwd'', ''command'', ''state'',
     ''exit_code'', ''buffer'', ''updated_at'']"

definition session_keys :: "string list list" where "session_keys = [[''pane_id'']]"

definition session_values :: "session_snapshot \<times> i64 \<Rightarrow> row" where
  "session_values p =
     (let (s, unixtime) = p in
      [SqlText (sn_pane_id s), SqlText (sn_workspace_id s), SqlText (sn_id s), optional_str_to_value (sn_inner_session_id s),
       SqlText (terminal_kind_to_str (sn_kind s)), SqlText (sn_cwd s), SqlText (sn_command s),
       SqlText (session_state_to_str (sn_state s)), optional_i64_to_value (sn_exit_code s), SqlText (sn_buffer s),
       SqlInteger (unixtime * 1000)])"

definition session_from_row :: "row \<Rightarrow> store_error + session_snapshot" where
  "session_from_row r =
     and_then (get_text r 0 ''pane_id'') (\<lambda>pane_id.
     and_then (get_text r 1 ''workspace_id'') (\<lambda>workspace_id.
     and_then (get_text r 2 ''session_id'') (\<lambda>session_id.
     and_then (get_optional_text r 3 ''inner_session_id'') (\<lambda>inner.
     and_then (get_text r 4 ''kind'') (\<lambda>kind.
     and_then (get_text r 5 ''cwd'') (\<lambda>cwd.
     and_then (get_text r 6 ''command'') (\<lambda>command.
     and_then (get_text r 7 ''state'') (\<lambda>state.
     and_then (get_optional_integer r 8 ''exit_code'') (\<lambda>exit_code.
     and_then (get_text r 9 ''buffer'') (\<lambda>buffer.
     Inr \<lparr>sn_id = session_id, sn_inner_session_id = inner, sn_workspace_id = workspace_id, sn_pane_id = pane_id,
          sn_kind = parse_terminal_kind kind, sn_cwd = cwd, sn_command = command, sn_buffer = buffer, sn_screen = None,
          sn_state = parse_session_state state, sn_exit_code = exit_code, sn_embedded = None, sn_correlation_id = None,
          sn_attention = None\<rparr>))))))))))"

definition upsert_session_state :: "i64 \<Rightarrow> nat option \<Rightarrow> session_snapshot \<Rightarrow> store \<Rightarrow> store \<times> store_error option" where
  "upsert_session_state unixtime fault s = run_each fault
     [on_sessions (upsert session_columns session_keys [''pane_id''] session_updated (session_values (s, unixtime)))]"

definition get_session_state_by_pane :: "rtext \<Rightarrow> store \<Rightarrow> store_error + session_snapshot option" where
  "get_session_state_by_pane pane_id st =
     (case filter (where_is session_columns ''pane_id'' pane_id) (st_sessions st) of
        [] \<Rightarrow> Inr None
      | r # _ \<Rightarrow> and_then (session_from_row r) (\<lambda>s. Inr (Some s)))"

definition list_session_states :: "store \<Rightarrow> store_error + session_snapshot list" where
  "list_session_states st = read_rows session_from_row
     (order_by session_columns ''workspace_id'' (order_by session_columns ''pane_id'' (st_sessions st)))"

subsection \<open>Snapshots\<close>

text \<open>The coding of a snapshot: \<open>serde_json::to_string\<close> and \<open>from_str\<close>.\<close>

record snapshot_codec =
  sc_to :: "workspace_snapshot \<Rightarrow> rtext"
  sc_from :: "rtext \<Rightarrow> workspace_snapshot option"

definition snapshot_columns :: "string list" where "snapshot_columns = [''workspace_id'', ''snapshot_json'', ''updated_at'']"
definition snapshot_updated :: "string list" where "snapshot_updated = [''snapshot_json'', ''updated_at'']"
definition snapshot_keys :: "string list list" where "snapshot_keys = [[''workspace_id'']]"

definition snapshot_values :: "snapshot_codec \<Rightarrow> workspace_snapshot \<times> i64 \<Rightarrow> row" where
  "snapshot_values C p =
     (let (s, updated) = p in [SqlText (wn_workspace_id s), SqlText (sc_to C s), SqlInteger updated])"

text \<open>The column \<open>snapshot_json\<close> is the only one that is selected.\<close>

definition snapshot_from_row :: "snapshot_codec \<Rightarrow> row \<Rightarrow> store_error + workspace_snapshot" where
  "snapshot_from_row C r =
     and_then (get_text r 1 ''snapshot_json'') (\<lambda>json. case sc_from C json of Some s \<Rightarrow> Inr s | None \<Rightarrow> Inl JsonError)"

definition save_snapshot :: "snapshot_codec \<Rightarrow> nat option \<Rightarrow> workspace_snapshot \<Rightarrow> store \<Rightarrow> store \<times> store_error option" where
  "save_snapshot C fault s = run_each fault
     [on_snapshots (upsert snapshot_columns snapshot_keys [''workspace_id''] snapshot_updated (snapshot_values C (s, wn_updated_at s)))]"

definition get_snapshot :: "snapshot_codec \<Rightarrow> rtext \<Rightarrow> store \<Rightarrow> store_error + workspace_snapshot option" where
  "get_snapshot C workspace_id st =
     (case filter (where_is snapshot_columns ''workspace_id'' workspace_id) (st_snapshots st) of
        [] \<Rightarrow> Inr None
      | r # _ \<Rightarrow> and_then (snapshot_from_row C r) (\<lambda>s. Inr (Some s)))"

definition list_snapshots :: "snapshot_codec \<Rightarrow> store \<Rightarrow> store_error + workspace_snapshot list" where
  "list_snapshots C st = read_rows (snapshot_from_row C) (order_by snapshot_columns ''workspace_id'' (st_snapshots st))"

subsection \<open>Renaming and deleting\<close>

definition note_columns :: "string list" where
  "note_columns = [''workspace_id'', ''note_path'', ''title'', ''last_read_at'', ''last_known_mtime'']"
definition note_keys :: "string list list" where "note_keys = [[''workspace_id'', ''note_path'']]"

text \<open>The new text of the snapshot is read and written before the transaction.\<close>

definition renamed_snapshot :: "snapshot_codec \<Rightarrow> rtext \<Rightarrow> rtext \<Rightarrow> store \<Rightarrow> store_error + rtext option" where
  "renamed_snapshot C workspace_id new_id st =
     and_then (get_snapshot C workspace_id st) (\<lambda>s. Inr (map_option (\<lambda>s. sc_to C (s\<lparr>wn_workspace_id := new_id\<rparr>)) s))"

definition rename_statements ::
  "i64 \<Rightarrow> rtext \<Rightarrow> rtext \<Rightarrow> rtext \<Rightarrow> rtext \<Rightarrow> rtext option \<Rightarrow> statement list" where
  "rename_statements unixtime workspace_id new_id workspace_name display_name json =
     (let moved = (''workspace_id'', SqlText new_id); stamp = (''updated_at'', SqlInteger (unixtime * 1000)) in
      [on_workspaces (update_rows workspace_columns workspace_keys
         [(''id'', SqlText new_id), (''workspace_name'', SqlText workspace_name), (''display_name'', SqlText display_name), stamp]
         (where_is workspace_columns ''id'' workspace_id)),
       on_snapshots (update_rows snapshot_columns snapshot_keys
         (case json of Some j \<Rightarrow> [moved, (''snapshot_json'', SqlText j), stamp] | None \<Rightarrow> [moved, stamp])
         (where_is snapshot_columns ''workspace_id'' workspace_id)),
       on_notes (update_rows note_columns note_keys [moved] (where_is note_columns ''workspace_id'' workspace_id)),
       on_sessions (update_rows session_columns session_keys [moved] (where_is session_columns ''workspace_id'' workspace_id)),
       on_activity (update_rows activity_columns activity_keys [moved] (where_is activity_columns ''workspace_id'' workspace_id))])"

text \<open>\<open>seen\<close>: the store when the snapshot is read, which is before the transaction begins; \<open>st\<close>: the store in which
  the transaction runs. They are the same when no other task writes in between.\<close>

definition rename_workspace_from ::
  "snapshot_codec \<Rightarrow> i64 \<Rightarrow> nat option \<Rightarrow> rtext \<Rightarrow> rtext \<Rightarrow> rtext \<Rightarrow> rtext \<Rightarrow> store \<Rightarrow> store \<Rightarrow> store \<times> store_error option" where
  "rename_workspace_from C unixtime fault workspace_id new_id workspace_name display_name seen st =
     (case renamed_snapshot C workspace_id new_id seen of
        Inl e \<Rightarrow> (st, Some e)
      | Inr json \<Rightarrow> transaction fault (rename_statements unixtime workspace_id new_id workspace_name display_name json) st)"

definition rename_workspace ::
  "snapshot_codec \<Rightarrow> i64 \<Rightarrow> nat option \<Rightarrow> rtext \<Rightarrow> rtext \<Rightarrow> rtext \<Rightarrow> rtext \<Rightarrow> store \<Rightarrow> store \<times> store_error option" where
  "rename_workspace C unixtime fault workspace_id new_id workspace_name display_name st =
     rename_workspace_from C unixtime fault workspace_id new_id workspace_name display_name st st"

text \<open>The deletes of all rows for which \<open>p\<close> holds of the workspace, table by table.\<close>

definition delete_statements :: "(rtext \<Rightarrow> bool) \<Rightarrow> (row \<Rightarrow> bool) \<Rightarrow> statement list" where
  "delete_statements p in_workspaces =
     (let of_workspace = (\<lambda>cols r. case column cols ''workspace_id'' r of Some (SqlText t) \<Rightarrow> p t | _ \<Rightarrow> False) in
      [on_sessions (\<lambda>t. Some (delete_rows (of_workspace session_columns) t)),
       on_activity (\<lambda>t. Some (delete_rows (of_workspace activity_columns) t)),
       on_snapshots (\<lambda>t. Some (delete_rows (of_workspace snapshot_columns) t)),
       on_notes (\<lambda>t. Some (delete_rows (of_workspace note_columns) t)),
       on_workspaces (\<lambda>t. Some (delete_rows in_workspaces t))])"

definition delete_workspace :: "nat option \<Rightarrow> rtext \<Rightarrow> store \<Rightarrow> store \<times> store_error option" where
  "delete_workspace fault workspace_id = run_each fault
     (delete_statements (\<lambda>t. t = workspace_id) (where_is workspace_columns ''id'' workspace_id))"

text \<open>The subquery \<open>select id from workspaces where root_id = ?1\<close>; the workspaces change only after its last use.\<close>

definition ids_of_root :: "rtext \<Rightarrow> store \<Rightarrow> rtext list" where
  "ids_of_root root_id st =
     List.map_filter (\<lambda>r. case column workspace_columns ''id'' r of Some (SqlText t) \<Rightarrow> Some t | _ \<Rightarrow> None)
       (filter (where_is workspace_columns ''root_id'' root_id) (st_workspaces st))"

definition delete_project_root :: "nat option \<Rightarrow> rtext \<Rightarrow> store \<Rightarrow> store \<times> store_error option" where
  "delete_project_root fault root_id st = run_each fault
     (delete_statements (\<lambda>t. t \<in> set (ids_of_root root_id st)) (where_is workspace_columns ''root_id'' root_id)
      @ [on_roots (\<lambda>t. Some (delete_rows (where_is root_columns ''id'' root_id) t))]) st"

end
