(* ===== verification/Store_Props.thy ===== *)
theory Store_Props
  imports Store
begin

section \<open>Properties of the store\<close>

text \<open>
  A table whose rows are all written from records stands for the list of these records. \<open>stored_table\<close>
  is the contract of such a table: what is written is read back, and the conflict clause of its insert
  merges records. It is interpreted on each table of the store; the invariant of the runs of a store says
  that every table stands for a list of records.
\<close>

subsection \<open>Tables of records\<close>

definition upsert_values :: "('a \<Rightarrow> 'k) \<Rightarrow> ('a \<Rightarrow> 'a \<Rightarrow> 'a) \<Rightarrow> 'a \<Rightarrow> 'a list \<Rightarrow> 'a list" where
  "upsert_values key merge x xs =
     (if list_ex (\<lambda>y. key y = key x) xs then map (\<lambda>y. if key y = key x then merge y x else y) xs else xs @ [x])"

definition stands_for :: "('a \<Rightarrow> row) \<Rightarrow> ('a \<Rightarrow> bool) \<Rightarrow> string list \<Rightarrow> string list list \<Rightarrow> sql_table \<Rightarrow> 'a list \<Rightarrow> bool" where
  "stands_for to_row valid cols keys t xs \<longleftrightarrow> t = map to_row xs \<and> list_all valid xs \<and> unique_on cols keys t"

lemma stands_for_empty [simp]: "stands_for to_row valid cols keys [] xs \<longleftrightarrow> xs = []"
  by (auto simp: stands_for_def unique_on_def list_all_iff)

lemma unique_on_filter: "unique_on cols keys t \<Longrightarrow> unique_on cols keys (filter p t)"
  by (auto simp: unique_on_def list_all_iff distinct_map_filter)

lemma unique_onD: "unique_on cols keys (map to_row xs) \<Longrightarrow> k \<in> set keys \<Longrightarrow> distinct (map (\<lambda>x. key_of cols k (to_row x)) xs)"
  by (auto simp: unique_on_def list_all_iff o_def)

lemma filter_map_rows: "(\<And>x. p (to_row x) = q x) \<Longrightarrow> filter p (map to_row xs) = map to_row (filter q xs)"
  by (simp add: filter_map o_def)

lemma insort_map: "insort_key f (g x) (map g ys) = map g (insort_key (\<lambda>x. f (g x)) x ys)"
  by (induction ys) simp_all

lemma sort_map: "sort_key f (map g xs) = map g (sort_key (\<lambda>x. f (g x)) xs)"
  by (induction xs) (simp_all add: sort_key_def insort_map)

lemma order_rows: "(\<And>x. column cols c (to_row x) = Some (SqlText (f x))) \<Longrightarrow> order_by cols c (map to_row xs) = map to_row (sort_key f xs)"
  by (simp add: order_by_def sort_map)

locale stored_table =
  fixes cols :: "string list" and keys :: "string list list" and conflict :: "string list" and updated :: "string list"
    and to_row :: "'a \<Rightarrow> row" and from_row :: "row \<Rightarrow> store_error + 'b" and view :: "'a \<Rightarrow> 'b"
    and valid :: "'a \<Rightarrow> bool" and merge :: "'a \<Rightarrow> 'a \<Rightarrow> 'a" and ident :: "'a \<Rightarrow> 'k"
  assumes read_back: "valid x \<Longrightarrow> from_row (to_row x) = Inr (view x)"
    and conflict_key: "conflict \<in> set keys"
    and conflict_ident: "key_of cols conflict (to_row x) = key_of cols conflict (to_row y) \<longleftrightarrow> ident x = ident y"
    and merged: "ident old = ident new \<Longrightarrow> merge_rows cols updated (to_row old) (to_row new) = to_row (merge old new)"
    and merge_valid: "valid old \<Longrightarrow> valid new \<Longrightarrow> valid (merge old new)"
begin

lemma read_map: "list_all valid xs \<Longrightarrow> read_rows from_row (map to_row xs) = Inr (map view xs)"
  by (induction xs) (simp_all add: read_back)

lemma read_ordered:
  assumes "stands_for to_row valid cols keys t xs"
    and "\<And>x. column cols c (to_row x) = Some (SqlText (f x))" "\<And>x. column cols d (to_row x) = Some (SqlText (g x))"
  shows "read_rows from_row (order_by cols c (order_by cols d t)) = Inr (map view (sort_key f (sort_key g xs)))"
proof -
  have t: "t = map to_row xs" "list_all valid xs" using assms(1) by (simp_all add: stands_for_def)
  show ?thesis
    unfolding t(1) order_rows [where to_row = to_row, OF assms(3)] order_rows [where to_row = to_row, OF assms(2)]
    using t(2) by (intro read_map) (simp add: list_all_iff)
qed

lemma upsert_stands:
  assumes "stands_for to_row valid cols keys t xs" "valid x" "upsert cols keys conflict updated (to_row x) t = Some t'"
  shows "stands_for to_row valid cols keys t' (upsert_values ident merge x xs)"
proof -
  let ?ys = "upsert_values ident merge x xs"
  have rows: "(if list_ex (\<lambda>r. key_of cols conflict r = key_of cols conflict (to_row x)) t
      then map (\<lambda>r. if key_of cols conflict r = key_of cols conflict (to_row x) then merge_rows cols updated r (to_row x) else r) t
      else t @ [to_row x]) = map to_row ?ys"
    using assms(1) by (auto simp: stands_for_def upsert_values_def list_ex_iff conflict_ident merged)
  have "list_all valid ?ys"
    using assms(1,2) by (auto simp: stands_for_def upsert_values_def list_all_iff merge_valid)
  then show ?thesis
    using assms(3) unfolding upsert_def rows by (auto simp: checked_def stands_for_def split: if_splits)
qed

lemma update_stands:
  assumes "stands_for to_row valid cols keys t xs" "update_rows cols keys sets p t = Some t'"
    and "\<And>x. p (to_row x) = q x" "\<And>x. x \<in> set xs \<Longrightarrow> q x \<Longrightarrow> set_columns cols sets (to_row x) = to_row (f x)"
    and "\<And>x. x \<in> set xs \<Longrightarrow> q x \<Longrightarrow> valid x \<Longrightarrow> valid (f x)"
  shows "stands_for to_row valid cols keys t' (map (\<lambda>x. if q x then f x else x) xs)"
  using assms by (auto simp: stands_for_def update_rows_def checked_def list_all_iff split: if_splits)

lemma delete_stands:
  assumes "stands_for to_row valid cols keys t xs" "\<And>x. p (to_row x) = q x"
  shows "stands_for to_row valid cols keys (delete_rows p t) (filter (\<lambda>x. \<not> q x) xs)"
proof -
  have "delete_rows p t = map to_row (filter (\<lambda>x. \<not> q x) xs)"
    using assms by (auto simp: stands_for_def delete_rows_def intro!: filter_map_rows)
  moreover have "unique_on cols keys (delete_rows p t)"
    using assms(1) unique_on_filter unfolding stands_for_def delete_rows_def by blast
  ultimately show ?thesis using assms(1) by (auto simp: stands_for_def list_all_iff)
qed

lemma idents_distinct: "stands_for to_row valid cols keys t xs \<Longrightarrow> distinct (map ident xs)"
proof -
  assume "stands_for to_row valid cols keys t xs"
  then have "distinct (map (\<lambda>x. key_of cols conflict (to_row x)) xs)"
    using unique_onD conflict_key by (auto simp: stands_for_def)
  then show ?thesis by (auto simp: distinct_map inj_on_def conflict_ident)
qed

end

text \<open>\<open>written\<close>: the records after an upsert, as a set.\<close>

lemma upsert_values_set:
  assumes "distinct (map key xs)" "\<And>old. key (merge old x) = key x"
  shows "y \<in> set (upsert_values key merge x xs) \<longleftrightarrow>
    (y \<in> set xs \<and> key y \<noteq> key x)
    \<or> y = (case find (\<lambda>z. key z = key x) xs of Some old \<Rightarrow> merge old x | None \<Rightarrow> x)"
proof (cases "find (\<lambda>z. key z = key x) xs")
  case None
  then have "\<forall>z\<in>set xs. key z \<noteq> key x" by (simp add: find_None_iff)
  then show ?thesis using None by (auto simp: upsert_values_def list_ex_iff)
next
  case (Some old)
  then have old: "old \<in> set xs" "key old = key x" by (auto simp: find_Some_iff)
  then have only: "z = old" if "z \<in> set xs" "key z = key x" for z
    using that assms(1) by (auto simp: distinct_map inj_on_def)
  have ys: "upsert_values key merge x xs = map (\<lambda>y. if key y = key x then merge y x else y) xs"
    using old by (auto simp: upsert_values_def list_ex_iff)
  have "y \<in> set (upsert_values key merge x xs) \<longleftrightarrow> (\<exists>z\<in>set xs. y = (if key z = key x then merge z x else z))"
    by (auto simp: ys)
  also have "\<dots> \<longleftrightarrow> (y \<in> set xs \<and> key y \<noteq> key x) \<or> y = merge old x"
    using old only by (metis (full_types))
  finally show ?thesis using Some by simp
qed

text \<open>Looking for a unique record does not depend on the order.\<close>

lemma find_SomeD: "find P xs = Some x \<Longrightarrow> x \<in> set xs \<and> P x"
  by (induction xs) (auto split: if_splits)

lemma find_ident:
  assumes "distinct (map key xs)" "x \<in> set xs" "key x = k"
  shows "find (\<lambda>z. key z = k) xs = Some x"
proof -
  obtain y where y: "find (\<lambda>z. key z = k) xs = Some y"
    using assms(2,3) by (cases "find (\<lambda>z. key z = k) xs") (auto simp: find_None_iff)
  then show ?thesis using assms find_SomeD [OF y] by (simp add: distinct_map inj_on_def)
qed

lemma find_unique:
  assumes "distinct (map key xs)" "distinct (map key ys)" "set xs = set ys"
  shows "find (\<lambda>z. key z = k) xs = find (\<lambda>z. key z = k) ys"
proof (cases "find (\<lambda>z. key z = k) ys")
  case None
  then have "\<not> (\<exists>x. x \<in> set xs \<and> key x = k)" by (simp add: find_None_iff assms(3))
  then have "find (\<lambda>z. key z = k) xs = None" by (simp add: find_None_iff)
  then show ?thesis by (simp add: None)
next
  case (Some y)
  then have "y \<in> set xs" "key y = k" using find_SomeD assms(3) by fastforce+
  then show ?thesis using find_ident [OF assms(1)] Some by metis
qed


subsection \<open>The rows of each table\<close>

lemmas row_simps = key_of_def column_def where_is_def set_columns_def merge_rows_def

lemma root_row [simp]:
  "where_is root_columns ''id'' i (root_values r) = (pr_id r = i)"
  "column root_columns ''label'' (root_values r) = Some (SqlText (pr_display_name r))"
  "column root_columns ''root_path'' (root_values r) = Some (SqlText (pr_root_path r))"
  "set_columns root_columns [(''label'', SqlText n), (''updated_at'', SqlInteger u)] (root_values r)
     = root_values (r\<lparr>pr_display_name := n, pr_updated_at := u\<rparr>)"
  by (auto simp: row_simps root_columns_def root_values_def)

interpretation roots: stored_table root_columns root_keys "[''id'']" root_updated root_values root_from_row id "\<lambda>_. True"
  "\<lambda>old new. new\<lparr>pr_created_at := pr_created_at old\<rparr>" pr_id
  by unfold_locales (auto simp: row_simps root_columns_def root_keys_def root_updated_def root_values_def root_from_row_def get_defs)

lemma workspace_row [simp]:
  "where_is workspace_columns ''id'' i (workspace_values B w) = (wm_id w = i)"
  "where_is workspace_columns ''root_id'' i (workspace_values B w) = (wm_root_id w = i)"
  "column workspace_columns ''id'' (workspace_values B w) = Some (SqlText (wm_id w))"
  "column workspace_columns ''project_label'' (workspace_values B w) = Some (SqlText (wm_project_display_name w))"
  "column workspace_columns ''workspace_name'' (workspace_values B w) = Some (SqlText (wm_workspace_name w))"
  by (auto simp: row_simps workspace_columns_def workspace_values_def Let_def)

lemma workspace_row_updates [simp]:
  "set_columns workspace_columns [(''project_label'', SqlText n), (''updated_at'', SqlInteger u)] (workspace_values B w)
     = workspace_values B (w\<lparr>wm_project_display_name := n, wm_updated_at := u\<rparr>)"
  "set_columns workspace_columns [(''display_name'', SqlText n), (''updated_at'', SqlInteger u)] (workspace_values B w)
     = workspace_values B (w\<lparr>wm_display_name := n, wm_updated_at := u\<rparr>)"
  "set_columns workspace_columns [(''id'', SqlText i), (''workspace_name'', SqlText m), (''display_name'', SqlText n),
      (''updated_at'', SqlInteger u)] (workspace_values B w)
     = workspace_values B (w\<lparr>wm_id := i, wm_workspace_name := m, wm_display_name := n, wm_updated_at := u\<rparr>)"
  by (simp_all add: row_simps workspace_columns_def workspace_values_def relation_values_def Let_def)

lemma workspace_merged:
  "wm_id old = wm_id new \<Longrightarrow> merge_rows workspace_columns workspace_updated (workspace_values B old) (workspace_values B new)
     = workspace_values B (new\<lparr>wm_created_at := wm_created_at old\<rparr>)"
  by (simp add: row_simps workspace_columns_def workspace_updated_def workspace_values_def relation_values_def Let_def)

lemma relation_read:
  assumes "i + 3 < length r" "take 4 (drop i r) = relation_values rel"
  shows "relation_from_row r i a b c d = Inr rel"
proof -
  have "r ! i = relation_values rel ! 0" "r ! (i + 1) = relation_values rel ! 1" "r ! (i + 2) = relation_values rel ! 2"
      "r ! (i + 3) = relation_values rel ! 3"
    using assms(1) by (simp_all add: assms(2) [symmetric])
  then show ?thesis using assms(1)
    by (cases rel) (simp_all add: relation_from_row_def get_defs relation_values_def)
qed

definition bookmarks_kept :: "bookmark_codec \<Rightarrow> workspace_summary \<Rightarrow> bool" where
  "bookmarks_kept B w \<longleftrightarrow> bc_from B (bc_to B (ws_bookmarks (wm_status w))) = Some (ws_bookmarks (wm_status w))"

lemma workspace_read: "bookmarks_kept B w \<Longrightarrow> workspace_from_row B (workspace_values B w) = Inr w"
proof -
  assume kept: "bookmarks_kept B w"
  let ?r = "workspace_values B w"
  have local: "relation_from_row ?r 11 a b c d = Inr (ws_local (wm_status w))" for a b c d
    by (rule relation_read) (simp_all add: workspace_values_def relation_values_def Let_def)
  have remote: "relation_from_row ?r 15 a b c d = Inr (ws_remote (wm_status w))" for a b c d
    by (rule relation_read) (simp_all add: workspace_values_def relation_values_def Let_def)
  have len: "length ?r = 29" by (simp add: workspace_values_def relation_values_def Let_def)
  have status: "status_from_row B ?r (bc_to B (ws_bookmarks (wm_status w))) (ws_local (wm_status w)) (ws_remote (wm_status w))
      = Inr (wm_status w)"
    using kept by (simp add: status_from_row_def get_defs len) (simp add: workspace_values_def relation_values_def Let_def bookmarks_kept_def)
  show ?thesis
    by (simp add: workspace_from_row_def get_defs len local remote)
      (simp add: workspace_values_def relation_values_def Let_def status [unfolded workspace_values_def relation_values_def Let_def, simplified])
qed

interpretation workspaces: stored_table workspace_columns workspace_keys "[''id'']" workspace_updated "workspace_values B"
  "workspace_from_row B" id "bookmarks_kept B" "\<lambda>old new. new\<lparr>wm_created_at := wm_created_at old\<rparr>" wm_id for B
proof unfold_locales
  show "key_of workspace_columns [''id''] (workspace_values B x) = key_of workspace_columns [''id''] (workspace_values B y)
    \<longleftrightarrow> wm_id x = wm_id y" for x y
    by (simp add: key_of_def)
qed (simp_all add: workspace_read workspace_merged workspace_keys_def bookmarks_kept_def)

lemma activity_row [simp]:
  "where_is activity_columns ''workspace_id'' i (activity_values a) = (pa_workspace_id a = i)"
  "where_is activity_columns ''pane_id'' i (activity_values a) = (pa_pane_id a = i)"
  "column activity_columns ''workspace_id'' (activity_values a) = Some (SqlText (pa_workspace_id a))"
  "column activity_columns ''pane_id'' (activity_values a) = Some (SqlText (pa_pane_id a))"
  "set_columns activity_columns [(''workspace_id'', SqlText n)] (activity_values a) = activity_values (a\<lparr>pa_workspace_id := n\<rparr>)"
  by (auto simp: row_simps activity_columns_def activity_values_def)

lemma activity_merged:
  "pa_workspace_id old = pa_workspace_id new \<and> pa_pane_id old = pa_pane_id new \<Longrightarrow>
   merge_rows activity_columns activity_updated (activity_values old) (activity_values new) = activity_values new"
  by (simp add: row_simps activity_columns_def activity_updated_def activity_values_def)

lemma activity_read: "activity_from_row (activity_values a) = Inr a"
  by (simp add: activity_from_row_def get_defs activity_values_def)

interpretation activities: stored_table activity_columns activity_keys "[''workspace_id'', ''pane_id'']" activity_updated
  activity_values activity_from_row id "\<lambda>_. True" "\<lambda>old new. new" "\<lambda>a. (pa_workspace_id a, pa_pane_id a)"
  by unfold_locales (auto simp: key_of_def activity_keys_def activity_merged activity_read)

lemma session_row [simp]:
  "where_is session_columns ''workspace_id'' i (session_values p) = (sn_workspace_id (fst p) = i)"
  "where_is session_columns ''pane_id'' i (session_values p) = (sn_pane_id (fst p) = i)"
  "column session_columns ''workspace_id'' (session_values p) = Some (SqlText (sn_workspace_id (fst p)))"
  "column session_columns ''pane_id'' (session_values p) = Some (SqlText (sn_pane_id (fst p)))"
  "set_columns session_columns [(''workspace_id'', SqlText n)] (session_values p)
     = session_values ((fst p)\<lparr>sn_workspace_id := n\<rparr>, snd p)"
  by (cases p; auto simp: row_simps session_columns_def session_values_def)+

text \<open>What a session keeps in the store.\<close>

definition stored_session :: "session_snapshot \<Rightarrow> session_snapshot" where
  "stored_session s = s\<lparr>sn_screen := None, sn_embedded := None, sn_correlation_id := None, sn_attention := None\<rparr>"

lemma session_merged:
  "sn_pane_id (fst old) = sn_pane_id (fst new) \<Longrightarrow>
   merge_rows session_columns session_updated (session_values old) (session_values new) = session_values new"
  by (cases old; cases new; simp add: row_simps session_columns_def session_updated_def session_values_def)

lemma session_read: "session_from_row (session_values p) = Inr (stored_session (fst p))"
  by (cases p) (simp add: session_from_row_def get_defs session_values_def stored_session_def)

interpretation sessions: stored_table session_columns session_keys "[''pane_id'']" session_updated
  session_values session_from_row "\<lambda>p. stored_session (fst p)" "\<lambda>_. True" "\<lambda>old new. new" "\<lambda>p. sn_pane_id (fst p)"
  by unfold_locales (auto simp: key_of_def session_keys_def session_merged session_read)

lemma snapshot_row [simp]:
  "where_is snapshot_columns ''workspace_id'' i (snapshot_values C p) = (wn_workspace_id (fst p) = i)"
  "column snapshot_columns ''workspace_id'' (snapshot_values C p) = Some (SqlText (wn_workspace_id (fst p)))"
  by (cases p; auto simp: row_simps snapshot_columns_def snapshot_values_def)+

lemma snapshot_row_renamed:
  "set_columns snapshot_columns
     [(''workspace_id'', SqlText n), (''snapshot_json'', SqlText (sc_to C (s\<lparr>wn_workspace_id := n\<rparr>))), (''updated_at'', SqlInteger u)]
     (snapshot_values C (s, v)) = snapshot_values C (s\<lparr>wn_workspace_id := n\<rparr>, u)"
  by (simp add: row_simps snapshot_columns_def snapshot_values_def)

definition snapshot_kept :: "snapshot_codec \<Rightarrow> workspace_snapshot \<times> i64 \<Rightarrow> bool" where
  "snapshot_kept C p \<longleftrightarrow> sc_from C (sc_to C (fst p)) = Some (fst p)"

interpretation snapshots: stored_table snapshot_columns snapshot_keys "[''workspace_id'']" snapshot_updated
  "snapshot_values C" "snapshot_from_row C" fst "snapshot_kept C" "\<lambda>old new. new" "\<lambda>p. wn_workspace_id (fst p)" for C
proof unfold_locales
  show "snapshot_kept C x \<Longrightarrow> snapshot_from_row C (snapshot_values C x) = Inr (fst x)" for x
    by (cases x) (simp add: snapshot_from_row_def get_defs snapshot_values_def snapshot_kept_def)
  show "wn_workspace_id (fst old) = wn_workspace_id (fst new) \<Longrightarrow>
    merge_rows snapshot_columns snapshot_updated (snapshot_values C old) (snapshot_values C new) = snapshot_values C new" for old new
    by (cases old; cases new; simp add: row_simps snapshot_columns_def snapshot_updated_def snapshot_values_def)
qed (simp_all add: key_of_def snapshot_keys_def)

subsection \<open>Runs of a store\<close>

text \<open>The records that the tables stand for. No operation adds a note.\<close>

record contents =
  ct_roots :: "project_root list"
  ct_workspaces :: "workspace_summary list"
  ct_snapshots :: "(workspace_snapshot \<times> i64) list"
  ct_sessions :: "(session_snapshot \<times> i64) list"
  ct_activity :: "pane_activity list"

definition holds :: "bookmark_codec \<Rightarrow> snapshot_codec \<Rightarrow> store \<Rightarrow> contents \<Rightarrow> bool" where
  "holds B C st a \<longleftrightarrow>
     stands_for root_values (\<lambda>_. True) root_columns root_keys (st_roots st) (ct_roots a)
     \<and> stands_for (workspace_values B) (bookmarks_kept B) workspace_columns workspace_keys (st_workspaces st) (ct_workspaces a)
     \<and> stands_for (snapshot_values C) (snapshot_kept C) snapshot_columns snapshot_keys (st_snapshots st) (ct_snapshots a)
     \<and> stands_for session_values (\<lambda>_. True) session_columns session_keys (st_sessions st) (ct_sessions a)
     \<and> stands_for activity_values (\<lambda>_. True) activity_columns activity_keys (st_activity st) (ct_activity a)
     \<and> st_notes st = []"

text \<open>The snapshot of a workspace to be renamed is read back from its new text.\<close>

definition renames_back :: "snapshot_codec \<Rightarrow> rtext \<Rightarrow> rtext \<Rightarrow> store \<Rightarrow> bool" where
  "renames_back C i j st \<longleftrightarrow>
     (case get_snapshot C i st of Inr (Some s) \<Rightarrow> sc_from C (sc_to C (s\<lparr>wn_workspace_id := j\<rparr>)) = Some (s\<lparr>wn_workspace_id := j\<rparr>) | _ \<Rightarrow> True)"

text \<open>
  What a store goes through: every operation, each with any fault of the database. The JSON texts that are
  written are read back as the values they were written for.
\<close>

inductive store_run :: "bookmark_codec \<Rightarrow> snapshot_codec \<Rightarrow> store \<Rightarrow> bool" for B C where
  sr_empty: "store_run B C store_empty"
| sr_root: "store_run B C st \<Longrightarrow> store_run B C (fst (upsert_project_root fault r st))"
| sr_root_name: "store_run B C st \<Longrightarrow> store_run B C (fst (update_project_root_display_name u fault i n st))"
| sr_workspace: "store_run B C st \<Longrightarrow> bookmarks_kept B w \<Longrightarrow> store_run B C (fst (upsert_workspace B fault w st))"
| sr_project_name: "store_run B C st \<Longrightarrow> store_run B C (fst (update_workspace_project_display_name u fault i n st))"
| sr_display_name: "store_run B C st \<Longrightarrow> store_run B C (fst (update_workspace_display_name u fault i n st))"
| sr_rename: "store_run B C st \<Longrightarrow> renames_back C i j st \<Longrightarrow> store_run B C (fst (rename_workspace C u fault i j m n st))"
| sr_activity: "store_run B C st \<Longrightarrow> store_run B C (fst (upsert_pane_activities fault as st))"
| sr_no_activity: "store_run B C st \<Longrightarrow> store_run B C (fst (delete_pane_activity fault i p st))"
| sr_session: "store_run B C st \<Longrightarrow> store_run B C (fst (upsert_session_state u fault s st))"
| sr_snapshot: "store_run B C st \<Longrightarrow> snapshot_kept C (sn, wn_updated_at sn) \<Longrightarrow> store_run B C (fst (save_snapshot C fault sn st))"
| sr_delete: "store_run B C st \<Longrightarrow> store_run B C (fst (delete_workspace fault i st))"
| sr_delete_root: "store_run B C st \<Longrightarrow> store_run B C (fst (delete_project_root fault i st))"

subsection \<open>Statements one after the other\<close>

lemma run_one: "run_each fault [s] st =
   (if fault = Some 0 then (st, Some DatabaseError)
    else case s st of None \<Rightarrow> (st, Some DatabaseError) | Some st' \<Rightarrow> (st', None))"
  by (simp add: run_each_def split: option.splits)

lemma run_all_step:
  "run_all fault (s # ss) st = (st', None, rest) \<Longrightarrow> \<exists>fault' st1. s st = Some st1 \<and> run_all fault' ss st1 = (st', None, rest)"
  by (auto split: if_splits option.splits)

definition keeps :: "(store \<Rightarrow> bool) \<Rightarrow> statement \<Rightarrow> bool" where
  "keeps P s \<longleftrightarrow> (\<forall>st st'. P st \<longrightarrow> s st = Some st' \<longrightarrow> P st')"

lemma run_all_keeps: "list_all (keeps P) ss \<Longrightarrow> P st \<Longrightarrow> P (fst (run_all fault ss st))"
  by (induction ss arbitrary: fault st) (auto simp: keeps_def split: option.splits)

lemma fst_run_each: "fst (run_each fault ss st) = fst (run_all fault ss st)"
  by (simp add: run_each_def split: prod.splits)

lemma run_each_keeps: "list_all (keeps P) ss \<Longrightarrow> P st \<Longrightarrow> P (fst (run_each fault ss st))"
  by (simp add: fst_run_each run_all_keeps)


lemma transaction_cases:
  assumes "transaction fault ss st = (st', e)"
  shows "e \<noteq> None \<and> st' = st \<or> e = None \<and> (\<exists>fault' rest. run_all fault' ss st = (st', None, rest))"
  using assms by (auto simp: transaction_def split: if_splits prod.splits option.splits)

lemma on_table_Some:
  "on_roots f st = Some st' \<longleftrightarrow> (\<exists>t. f (st_roots st) = Some t \<and> st' = st\<lparr>st_roots := t\<rparr>)"
  "on_workspaces f st = Some st' \<longleftrightarrow> (\<exists>t. f (st_workspaces st) = Some t \<and> st' = st\<lparr>st_workspaces := t\<rparr>)"
  "on_snapshots f st = Some st' \<longleftrightarrow> (\<exists>t. f (st_snapshots st) = Some t \<and> st' = st\<lparr>st_snapshots := t\<rparr>)"
  "on_notes f st = Some st' \<longleftrightarrow> (\<exists>t. f (st_notes st) = Some t \<and> st' = st\<lparr>st_notes := t\<rparr>)"
  "on_sessions f st = Some st' \<longleftrightarrow> (\<exists>t. f (st_sessions st) = Some t \<and> st' = st\<lparr>st_sessions := t\<rparr>)"
  "on_activity f st = Some st' \<longleftrightarrow> (\<exists>t. f (st_activity st) = Some t \<and> st' = st\<lparr>st_activity := t\<rparr>)"
  by (auto simp: on_table_defs map_option_eq_Some)

subsection \<open>What each operation does to the contents\<close>

lemma upsert_workspace_holds:
  assumes "holds B C st a" "bookmarks_kept B w" "upsert_workspace B fault w st = (st', None)"
  shows "holds B C st' (a\<lparr>ct_workspaces :=
    upsert_values wm_id (\<lambda>old new. new\<lparr>wm_created_at := wm_created_at old\<rparr>) w (ct_workspaces a)\<rparr>)"
  using assms workspaces.upsert_stands [of B "st_workspaces st" "ct_workspaces a" w]
  by (auto simp: upsert_workspace_def run_one holds_def on_table_Some split: if_splits option.splits)

lemma upsert_root_holds:
  assumes "holds B C st a" "upsert_project_root fault r st = (st', None)"
  shows "holds B C st' (a\<lparr>ct_roots := upsert_values pr_id (\<lambda>old new. new\<lparr>pr_created_at := pr_created_at old\<rparr>) r (ct_roots a)\<rparr>)"
  using assms roots.upsert_stands [of "st_roots st" "ct_roots a" r]
  by (auto simp: upsert_project_root_def run_one holds_def on_table_Some split: if_splits option.splits)

lemma upsert_session_holds:
  assumes "holds B C st a" "upsert_session_state u fault s st = (st', None)"
  shows "holds B C st' (a\<lparr>ct_sessions := upsert_values (\<lambda>p. sn_pane_id (fst p)) (\<lambda>old new. new) (s, u) (ct_sessions a)\<rparr>)"
  using assms sessions.upsert_stands [of "st_sessions st" "ct_sessions a" "(s, u)"]
  by (auto simp: upsert_session_state_def run_one holds_def on_table_Some split: if_splits option.splits)

lemma save_snapshot_holds:
  assumes "holds B C st a" "snapshot_kept C (s, wn_updated_at s)" "save_snapshot C fault s st = (st', None)"
  shows "holds B C st' (a\<lparr>ct_snapshots :=
    upsert_values (\<lambda>p. wn_workspace_id (fst p)) (\<lambda>old new. new) (s, wn_updated_at s) (ct_snapshots a)\<rparr>)"
  using assms snapshots.upsert_stands [of C "st_snapshots st" "ct_snapshots a" "(s, wn_updated_at s)"]
  by (auto simp: save_snapshot_def run_one holds_def on_table_Some split: if_splits option.splits)

lemma activity_statement_holds:
  assumes "holds B C st a" "upsert_activity_statement x st = Some st'"
  shows "holds B C st' (a\<lparr>ct_activity :=
    upsert_values (\<lambda>a. (pa_workspace_id a, pa_pane_id a)) (\<lambda>old new. new) x (ct_activity a)\<rparr>)"
  using assms activities.upsert_stands [of "st_activity st" "ct_activity a" x]
  by (auto simp: upsert_activity_statement_def holds_def on_table_Some)

definition well_formed :: "bookmark_codec \<Rightarrow> snapshot_codec \<Rightarrow> store \<Rightarrow> bool" where
  "well_formed B C st \<longleftrightarrow> (\<exists>a. holds B C st a)"

lemma run_one_failed: "run_each fault [s] st = (st', Some e) \<Longrightarrow> st' = st"
  by (auto simp: run_one split: if_splits option.splits)

text \<open>An operation of one statement is well formed when its success is.\<close>

lemma one_statement:
  assumes "well_formed B C st" "r = run_each fault [s] st"
    and "\<And>a st'. holds B C st a \<Longrightarrow> r = (st', None) \<Longrightarrow> \<exists>a. holds B C st' a"
  shows "well_formed B C (fst r)"
proof (cases "snd r")
  case None
  then show ?thesis using assms(1,3) unfolding well_formed_def by (metis prod.collapse)
next
  case (Some e)
  then have "fst r = st" using assms(2) run_one_failed by (metis prod.collapse)
  then show ?thesis using assms(1) by simp
qed

lemma well_formed_iff:
  "well_formed B C st \<longleftrightarrow>
     (\<exists>xs. stands_for root_values (\<lambda>_. True) root_columns root_keys (st_roots st) xs)
     \<and> (\<exists>xs. stands_for (workspace_values B) (bookmarks_kept B) workspace_columns workspace_keys (st_workspaces st) xs)
     \<and> (\<exists>xs. stands_for (snapshot_values C) (snapshot_kept C) snapshot_columns snapshot_keys (st_snapshots st) xs)
     \<and> (\<exists>xs. stands_for session_values (\<lambda>_. True) session_columns session_keys (st_sessions st) xs)
     \<and> (\<exists>xs. stands_for activity_values (\<lambda>_. True) activity_columns activity_keys (st_activity st) xs)
     \<and> st_notes st = []" (is "_ \<longleftrightarrow> ?tables")
proof
  assume ?tables
  then obtain rs ws ns ss as where "holds B C st \<lparr>ct_roots = rs, ct_workspaces = ws, ct_snapshots = ns, ct_sessions = ss, ct_activity = as\<rparr>"
    unfolding holds_def contents.simps by blast
  then show "well_formed B C st" unfolding well_formed_def by blast
qed (unfold well_formed_def holds_def, blast)

text \<open>A statement keeps a store well formed if it keeps its table a table of records.\<close>

lemma keeps_table:
  "(\<And>t xs t'. stands_for root_values (\<lambda>_. True) root_columns root_keys t xs \<Longrightarrow> f t = Some t' \<Longrightarrow>
      \<exists>ys. stands_for root_values (\<lambda>_. True) root_columns root_keys t' ys) \<Longrightarrow> keeps (well_formed B C) (on_roots f)"
  "(\<And>t xs t'. stands_for (workspace_values B) (bookmarks_kept B) workspace_columns workspace_keys t xs \<Longrightarrow> f t = Some t' \<Longrightarrow>
      \<exists>ys. stands_for (workspace_values B) (bookmarks_kept B) workspace_columns workspace_keys t' ys)
    \<Longrightarrow> keeps (well_formed B C) (on_workspaces f)"
  "(\<And>t xs t'. stands_for (snapshot_values C) (snapshot_kept C) snapshot_columns snapshot_keys t xs \<Longrightarrow> f t = Some t' \<Longrightarrow>
      \<exists>ys. stands_for (snapshot_values C) (snapshot_kept C) snapshot_columns snapshot_keys t' ys)
    \<Longrightarrow> keeps (well_formed B C) (on_snapshots f)"
  "(\<And>t xs t'. stands_for session_values (\<lambda>_. True) session_columns session_keys t xs \<Longrightarrow> f t = Some t' \<Longrightarrow>
      \<exists>ys. stands_for session_values (\<lambda>_. True) session_columns session_keys t' ys) \<Longrightarrow> keeps (well_formed B C) (on_sessions f)"
  "(\<And>t xs t'. stands_for activity_values (\<lambda>_. True) activity_columns activity_keys t xs \<Longrightarrow> f t = Some t' \<Longrightarrow>
      \<exists>ys. stands_for activity_values (\<lambda>_. True) activity_columns activity_keys t' ys) \<Longrightarrow> keeps (well_formed B C) (on_activity f)"
  "f [] = Some [] \<Longrightarrow> keeps (well_formed B C) (on_notes f)"
proof -
  note defs = keeps_def well_formed_iff on_table_Some
  show "keeps (well_formed B C) (on_roots f)"
    if "\<And>t xs t'. stands_for root_values (\<lambda>_. True) root_columns root_keys t xs \<Longrightarrow> f t = Some t' \<Longrightarrow>
      \<exists>ys. stands_for root_values (\<lambda>_. True) root_columns root_keys t' ys"
    by (auto simp: defs intro: that)
  show "keeps (well_formed B C) (on_workspaces f)"
    if "\<And>t xs t'. stands_for (workspace_values B) (bookmarks_kept B) workspace_columns workspace_keys t xs \<Longrightarrow> f t = Some t' \<Longrightarrow>
      \<exists>ys. stands_for (workspace_values B) (bookmarks_kept B) workspace_columns workspace_keys t' ys"
    by (auto simp: defs intro: that)
  show "keeps (well_formed B C) (on_snapshots f)"
    if "\<And>t xs t'. stands_for (snapshot_values C) (snapshot_kept C) snapshot_columns snapshot_keys t xs \<Longrightarrow> f t = Some t' \<Longrightarrow>
      \<exists>ys. stands_for (snapshot_values C) (snapshot_kept C) snapshot_columns snapshot_keys t' ys"
    by (auto simp: defs intro: that)
  show "keeps (well_formed B C) (on_sessions f)"
    if "\<And>t xs t'. stands_for session_values (\<lambda>_. True) session_columns session_keys t xs \<Longrightarrow> f t = Some t' \<Longrightarrow>
      \<exists>ys. stands_for session_values (\<lambda>_. True) session_columns session_keys t' ys"
    by (auto simp: defs intro: that)
  show "keeps (well_formed B C) (on_activity f)"
    if "\<And>t xs t'. stands_for activity_values (\<lambda>_. True) activity_columns activity_keys t xs \<Longrightarrow> f t = Some t' \<Longrightarrow>
      \<exists>ys. stands_for activity_values (\<lambda>_. True) activity_columns activity_keys t' ys"
    by (auto simp: defs intro: that)
  show "keeps (well_formed B C) (on_notes f)" if "f [] = Some []"
    using that by (auto simp: defs)
qed

lemma keeps_updates:
  "keeps (well_formed B C) (on_roots (update_rows root_columns root_keys
     [(''label'', SqlText n), (''updated_at'', SqlInteger u)] (where_is root_columns ''id'' i)))"
  "keeps (well_formed B C) (on_workspaces (update_rows workspace_columns workspace_keys
     [(''project_label'', SqlText n), (''updated_at'', SqlInteger u)] (where_is workspace_columns ''root_id'' i)))"
  "keeps (well_formed B C) (on_workspaces (update_rows workspace_columns workspace_keys
     [(''display_name'', SqlText n), (''updated_at'', SqlInteger u)] (where_is workspace_columns ''id'' i)))"
proof -
  show "keeps (well_formed B C) (on_roots (update_rows root_columns root_keys
     [(''label'', SqlText n), (''updated_at'', SqlInteger u)] (where_is root_columns ''id'' i)))"
    by (rule keeps_table, rule exI, erule roots.update_stands [where q = "\<lambda>x. pr_id x = i" and f = "\<lambda>x. x\<lparr>pr_display_name := n, pr_updated_at := u\<rparr>"], assumption) simp_all
  show "keeps (well_formed B C) (on_workspaces (update_rows workspace_columns workspace_keys
     [(''project_label'', SqlText n), (''updated_at'', SqlInteger u)] (where_is workspace_columns ''root_id'' i)))"
    by (rule keeps_table, rule exI, erule workspaces.update_stands 
        [where q = "\<lambda>x. wm_root_id x = i" and f = "\<lambda>x. x\<lparr>wm_project_display_name := n, wm_updated_at := u\<rparr>"], assumption) (simp_all add: bookmarks_kept_def)
  show "keeps (well_formed B C) (on_workspaces (update_rows workspace_columns workspace_keys
     [(''display_name'', SqlText n), (''updated_at'', SqlInteger u)] (where_is workspace_columns ''id'' i)))"
    by (rule keeps_table, rule exI, erule workspaces.update_stands 
        [where q = "\<lambda>x. wm_id x = i" and f = "\<lambda>x. x\<lparr>wm_display_name := n, wm_updated_at := u\<rparr>"], assumption) (simp_all add: bookmarks_kept_def)
qed


abbreviation of_workspace :: "string list \<Rightarrow> (rtext \<Rightarrow> bool) \<Rightarrow> row \<Rightarrow> bool" where
  "of_workspace cols p r \<equiv> (case column cols ''workspace_id'' r of Some (SqlText t) \<Rightarrow> p t | _ \<Rightarrow> False)"


lemma keeps_delete:
  assumes "\<And>w. r (workspace_values B w) = q w"
  shows "list_all (keeps (well_formed B C)) (delete_statements p r)"
proof -
  have "keeps (well_formed B C) (on_sessions (\<lambda>t. Some (delete_rows (of_workspace session_columns p) t)))"
    by (rule keeps_table, rule exI, simp, erule subst, erule sessions.delete_stands) simp
  moreover have "keeps (well_formed B C) (on_activity (\<lambda>t. Some (delete_rows (of_workspace activity_columns p) t)))"
    by (rule keeps_table, rule exI, simp, erule subst, erule activities.delete_stands) simp
  moreover have "keeps (well_formed B C) (on_snapshots (\<lambda>t. Some (delete_rows (of_workspace snapshot_columns p) t)))"
    by (rule keeps_table, rule exI, simp, erule subst, erule snapshots.delete_stands) simp
  moreover have "keeps (well_formed B C) (on_notes (\<lambda>t. Some (delete_rows (of_workspace note_columns p) t)))"
    by (rule keeps_table) (simp add: delete_rows_def)
  moreover have "keeps (well_formed B C) (on_workspaces (\<lambda>t. Some (delete_rows r t)))"
    by (rule keeps_table, rule exI, simp, erule subst, erule workspaces.delete_stands) (rule assms)
  ultimately show ?thesis by (simp add: delete_statements_def Let_def)
qed


text \<open>The contents after a workspace has been renamed.\<close>

definition renamed :: "i64 \<Rightarrow> rtext \<Rightarrow> rtext \<Rightarrow> rtext \<Rightarrow> rtext \<Rightarrow> contents \<Rightarrow> contents" where
  "renamed u i j m n a =
     a\<lparr>ct_workspaces := map (\<lambda>w. if wm_id w = i
         then w\<lparr>wm_id := j, wm_workspace_name := m, wm_display_name := n, wm_updated_at := u * 1000\<rparr> else w) (ct_workspaces a),
       ct_snapshots := map (\<lambda>x. if wn_workspace_id (fst x) = i
         then ((fst x)\<lparr>wn_workspace_id := j\<rparr>, u * 1000) else x) (ct_snapshots a),
       ct_sessions := map (\<lambda>x. if sn_workspace_id (fst x) = i then ((fst x)\<lparr>sn_workspace_id := j\<rparr>, snd x) else x) (ct_sessions a),
       ct_activity := map (\<lambda>x. if pa_workspace_id x = i then x\<lparr>pa_workspace_id := j\<rparr> else x) (ct_activity a)\<rparr>"

lemma renamed_tables:
  "ct_workspaces (renamed u i j m n a) = map (\<lambda>w. if wm_id w = i
     then w\<lparr>wm_id := j, wm_workspace_name := m, wm_display_name := n, wm_updated_at := u * 1000\<rparr> else w) (ct_workspaces a)"
  "ct_sessions (renamed u i j m n a) =
     map (\<lambda>x. if sn_workspace_id (fst x) = i then ((fst x)\<lparr>sn_workspace_id := j\<rparr>, snd x) else x) (ct_sessions a)"
  "ct_activity (renamed u i j m n a) =
     map (\<lambda>x. if pa_workspace_id x = i then x\<lparr>pa_workspace_id := j\<rparr> else x) (ct_activity a)"
  by (simp_all add: renamed_def)

lemma get_snapshot_holds:
  assumes "holds B C st a"
  shows "get_snapshot C i st = Inr (map_option fst (find (\<lambda>x. wn_workspace_id (fst x) = i) (ct_snapshots a)))"
proof -
  have "st_snapshots st = map (snapshot_values C) (ct_snapshots a)" using assms(1) by (simp add: holds_def stands_for_def)
  then have rows: "filter (where_is snapshot_columns ''workspace_id'' i) (st_snapshots st)
      = map (snapshot_values C) (filter (\<lambda>x. wn_workspace_id (fst x) = i) (ct_snapshots a))"
    by (simp add: filter_map_rows)
  have "find (\<lambda>x. wn_workspace_id (fst x) = i) xs = (case filter (\<lambda>x. wn_workspace_id (fst x) = i) xs of [] \<Rightarrow> None | x # _ \<Rightarrow> Some x)"
    for xs :: "(workspace_snapshot \<times> i64) list"
    by (induction xs) auto
  moreover have "snapshot_kept C x" if "filter (\<lambda>x. wn_workspace_id (fst x) = i) (ct_snapshots a) = x # xs" for x xs
  proof -
    have "x \<in> set (filter (\<lambda>x. wn_workspace_id (fst x) = i) (ct_snapshots a))" by (simp add: that)
    then show ?thesis using assms by (auto simp: holds_def stands_for_def list_all_iff)
  qed
  ultimately show ?thesis
    by (auto simp: get_snapshot_def rows snapshots.read_back split: list.splits)
qed

lemma snapshot_rename_stands:
  assumes a: "holds B C st a" and kept: "renames_back C i j st" and json: "renamed_snapshot C i j st = Inr json"
    and t: "update_rows snapshot_columns snapshot_keys
       (case json of Some x \<Rightarrow> [(''workspace_id'', SqlText j), (''snapshot_json'', SqlText x), (''updated_at'', SqlInteger v)]
        | None \<Rightarrow> [(''workspace_id'', SqlText j), (''updated_at'', SqlInteger v)])
       (where_is snapshot_columns ''workspace_id'' i) (st_snapshots st) = Some t"
  shows "stands_for (snapshot_values C) (snapshot_kept C) snapshot_columns snapshot_keys t
    (map (\<lambda>x. if wn_workspace_id (fst x) = i then ((fst x)\<lparr>wn_workspace_id := j\<rparr>, v) else x) (ct_snapshots a))"
proof (rule snapshots.update_stands [OF _ t])
  have snaps: "stands_for (snapshot_values C) (snapshot_kept C) snapshot_columns snapshot_keys (st_snapshots st) (ct_snapshots a)"
    using a by (simp add: holds_def)
  then show "stands_for (snapshot_values C) (snapshot_kept C) snapshot_columns snapshot_keys (st_snapshots st) (ct_snapshots a)" .
  fix x
  assume x: "x \<in> set (ct_snapshots a)" "wn_workspace_id (fst x) = i"
  have only: "find (\<lambda>x. wn_workspace_id (fst x) = i) (ct_snapshots a) = Some x"
    by (rule find_ident [OF snapshots.idents_distinct [OF snaps] x])
  have "json = Some (sc_to C ((fst x)\<lparr>wn_workspace_id := j\<rparr>))"
    using only json get_snapshot_holds [OF a, of i] by (simp add: renamed_snapshot_def)
  then show "set_columns snapshot_columns
      (case json of Some x \<Rightarrow> [(''workspace_id'', SqlText j), (''snapshot_json'', SqlText x), (''updated_at'', SqlInteger v)]
        | None \<Rightarrow> [(''workspace_id'', SqlText j), (''updated_at'', SqlInteger v)]) (snapshot_values C x)
      = snapshot_values C ((fst x)\<lparr>wn_workspace_id := j\<rparr>, v)"
    by (cases x) (simp add: snapshot_row_renamed)
  show "snapshot_kept C ((fst x)\<lparr>wn_workspace_id := j\<rparr>, v)"
    using only kept get_snapshot_holds [OF a, of i] by (simp add: renames_back_def snapshot_kept_def)
qed simp

lemma rename_holds:
  assumes a: "holds B C st a" and kept: "renames_back C i j st" and run: "rename_workspace C u fault i j m n st = (st', None)"
  shows "holds B C st' (renamed u i j m n a)"
proof -
  obtain json fault' rest where json: "renamed_snapshot C i j st = Inr json"
    and all: "run_all fault' (rename_statements u i j m n json) st = (st', None, rest)"
    using run transaction_cases unfolding rename_workspace_def rename_workspace_from_def by (fastforce split: sum.splits)
  obtain t1 t2 t3 t4 t5 where tables:
    "update_rows workspace_columns workspace_keys [(''id'', SqlText j), (''workspace_name'', SqlText m), (''display_name'', SqlText n),
       (''updated_at'', SqlInteger (u * 1000))] (where_is workspace_columns ''id'' i) (st_workspaces st) = Some t1"
    "update_rows snapshot_columns snapshot_keys
       (case json of Some x \<Rightarrow> [(''workspace_id'', SqlText j), (''snapshot_json'', SqlText x), (''updated_at'', SqlInteger (u * 1000))]
        | None \<Rightarrow> [(''workspace_id'', SqlText j), (''updated_at'', SqlInteger (u * 1000))])
       (where_is snapshot_columns ''workspace_id'' i) (st_snapshots st) = Some t2"
    "update_rows note_columns note_keys [(''workspace_id'', SqlText j)] (where_is note_columns ''workspace_id'' i) (st_notes st) = Some t3"
    "update_rows session_columns session_keys [(''workspace_id'', SqlText j)] (where_is session_columns ''workspace_id'' i) (st_sessions st) = Some t4"
    "update_rows activity_columns activity_keys [(''workspace_id'', SqlText j)] (where_is activity_columns ''workspace_id'' i) (st_activity st) = Some t5"
    and st': "st' = \<lparr>st_roots = st_roots st, st_workspaces = t1, st_snapshots = t2, st_notes = t3, st_sessions = t4, st_activity = t5\<rparr>"
    using all unfolding rename_statements_def Let_def
    by (auto dest!: run_all_step simp: on_table_Some simp del: run_all.simps(2))
  have "stands_for (workspace_values B) (bookmarks_kept B) workspace_columns workspace_keys t1 (ct_workspaces (renamed u i j m n a))"
    unfolding renamed_tables
    by (rule workspaces.update_stands [OF _ tables(1)]) (use a in \<open>auto simp: holds_def bookmarks_kept_def\<close>)
  moreover have "stands_for (snapshot_values C) (snapshot_kept C) snapshot_columns snapshot_keys t2 (ct_snapshots (renamed u i j m n a))"
    using snapshot_rename_stands [OF a kept json tables(2)] by (simp add: renamed_def)
  moreover have "t3 = []" using tables(3) a by (simp add: holds_def update_rows_def checked_def split: if_splits)
  moreover have "stands_for session_values (\<lambda>_. True) session_columns session_keys t4 (ct_sessions (renamed u i j m n a))"
    unfolding renamed_tables
    by (rule sessions.update_stands [OF _ tables(4)]) (use a in \<open>auto simp: holds_def\<close>)
  moreover have "stands_for activity_values (\<lambda>_. True) activity_columns activity_keys t5 (ct_activity (renamed u i j m n a))"
    unfolding renamed_tables
    by (rule activities.update_stands [OF _ tables(5)]) (use a in \<open>auto simp: holds_def\<close>)
  ultimately show ?thesis using a st' by (simp add: holds_def) (simp add: renamed_def)
qed

lemma rename_failed: "rename_workspace C u fault i j m n st = (st', Some e) \<Longrightarrow> st' = st"
  using transaction_cases by (fastforce simp: rename_workspace_def rename_workspace_from_def split: sum.splits)

subsection \<open>The invariant of a run\<close>

lemma upsert_activities_keeps: "list_all (keeps (well_formed B C)) (map upsert_activity_statement as)"
  unfolding list_all_iff keeps_def well_formed_def using activity_statement_holds by fastforce

lemma keeps_deletes:
  "keeps (well_formed B C) (on_activity (\<lambda>t. Some (delete_rows (\<lambda>r. where_is activity_columns ''workspace_id'' i r
     \<and> where_is activity_columns ''pane_id'' p r) t)))"
  "keeps (well_formed B C) (on_roots (\<lambda>t. Some (delete_rows (where_is root_columns ''id'' i) t)))"
proof -
  show "keeps (well_formed B C) (on_activity (\<lambda>t. Some (delete_rows (\<lambda>r. where_is activity_columns ''workspace_id'' i r
     \<and> where_is activity_columns ''pane_id'' p r) t)))"
    by (rule keeps_table, rule exI, simp, erule subst, erule activities.delete_stands) simp
  show "keeps (well_formed B C) (on_roots (\<lambda>t. Some (delete_rows (where_is root_columns ''id'' i) t)))"
    by (rule keeps_table, rule exI, simp, erule subst, erule roots.delete_stands) simp
qed

lemma run_well_formed:
  assumes "store_run B C st"
  shows "well_formed B C st"
  using assms
proof (induction rule: store_run.induct)
  case sr_empty
  show ?case by (auto simp: well_formed_def holds_def store_empty_def intro!: exI [of _ "\<lparr>ct_roots = [], ct_workspaces = [],
    ct_snapshots = [], ct_sessions = [], ct_activity = []\<rparr>"])
next
  case (sr_root st fault r)
  then have before: "well_formed B C st" by simp
  show ?case
    by (rule one_statement [OF before upsert_project_root_def [THEN fun_cong]]) (rule exI, erule upsert_root_holds, assumption)
next
  case (sr_root_name st u fault i n)
  then show ?case by (simp add: update_project_root_display_name_def run_each_keeps keeps_updates)
next
  case (sr_workspace st w fault)
  then have before: "well_formed B C st" by simp
  show ?case
    by (rule one_statement [OF before upsert_workspace_def [THEN fun_cong]]) (rule exI, erule upsert_workspace_holds, rule \<open>bookmarks_kept B w\<close>, assumption)
next
  case (sr_project_name st u fault i n)
  then show ?case by (simp add: update_workspace_project_display_name_def run_each_keeps keeps_updates)
next
  case (sr_display_name st u fault i n)
  then show ?case by (simp add: update_workspace_display_name_def run_each_keeps keeps_updates)
next
  case (sr_rename st i j u fault m n)
  show ?case
  proof (cases "snd (rename_workspace C u fault i j m n st)")
    case None
    then show ?thesis using sr_rename rename_holds unfolding well_formed_def by (metis prod.collapse)
  next
    case (Some e)
    then show ?thesis using sr_rename rename_failed by (metis prod.collapse)
  qed
next
  case (sr_activity st fault as)
  then show ?case by (simp add: upsert_pane_activities_def run_each_keeps upsert_activities_keeps)
next
  case (sr_no_activity st fault i p)
  then show ?case by (simp add: delete_pane_activity_def run_each_keeps keeps_deletes)
next
  case (sr_session st u fault s)
  then have before: "well_formed B C st" by simp
  show ?case
    by (rule one_statement [OF before upsert_session_state_def [THEN fun_cong]]) (rule exI, erule upsert_session_holds, assumption)
next
  case (sr_snapshot st sn fault)
  then have before: "well_formed B C st" by simp
  show ?case
    by (rule one_statement [OF before save_snapshot_def [THEN fun_cong]]) (rule exI, erule save_snapshot_holds, rule \<open>snapshot_kept C (sn, wn_updated_at sn)\<close>, assumption)
next
  case (sr_delete st fault i)
  then show ?case by (simp add: delete_workspace_def run_each_keeps keeps_delete)
next
  case (sr_delete_root st fault i)
  then show ?case by (simp add: delete_project_root_def run_each_keeps keeps_delete keeps_deletes)
qed

subsection \<open>What can be read\<close>

lemma listed:
  assumes "holds B C st a"
  shows "list_project_roots st = Inr (sort_key pr_display_name (sort_key pr_root_path (ct_roots a)))"
    and "list_workspaces B st = Inr (sort_key wm_project_display_name (sort_key wm_workspace_name (ct_workspaces a)))"
    and "list_session_states st = Inr (sort_key sn_workspace_id (sort_key sn_pane_id (map (\<lambda>p. stored_session (fst p)) (ct_sessions a))))"
    and "list_pane_activity st = Inr (sort_key pa_workspace_id (sort_key pa_pane_id (ct_activity a)))"
proof -
  show "list_project_roots st = Inr (sort_key pr_display_name (sort_key pr_root_path (ct_roots a)))"
    unfolding list_project_roots_def using assms by (subst roots.read_ordered) (auto simp: holds_def)
  show "list_workspaces B st = Inr (sort_key wm_project_display_name (sort_key wm_workspace_name (ct_workspaces a)))"
    unfolding list_workspaces_def using assms by (subst workspaces.read_ordered) (auto simp: holds_def)
  have "list_session_states st = Inr (map (\<lambda>p. stored_session (fst p))
      (sort_key (\<lambda>p. sn_workspace_id (fst p)) (sort_key (\<lambda>p. sn_pane_id (fst p)) (ct_sessions a))))"
    unfolding list_session_states_def using assms by (subst sessions.read_ordered) (auto simp: holds_def)
  then show "list_session_states st
      = Inr (sort_key sn_workspace_id (sort_key sn_pane_id (map (\<lambda>p. stored_session (fst p)) (ct_sessions a))))"
    by (simp add: sort_map stored_session_def)
  show "list_pane_activity st = Inr (sort_key pa_workspace_id (sort_key pa_pane_id (ct_activity a)))"
    unfolding list_pane_activity_def using assms by (subst activities.read_ordered) (auto simp: holds_def)
qed

lemma snapshots_listed:
  assumes "holds B C st a"
  shows "list_snapshots C st = Inr (map fst (sort_key (\<lambda>p. wn_workspace_id (fst p)) (ct_snapshots a)))"
proof -
  have s: "stands_for (snapshot_values C) (snapshot_kept C) snapshot_columns snapshot_keys (st_snapshots st) (ct_snapshots a)"
    using assms by (simp add: holds_def)
  have "order_by snapshot_columns ''workspace_id'' (map (snapshot_values C) ps)
      = map (snapshot_values C) (sort_key (\<lambda>p. wn_workspace_id (fst p)) ps)" for ps
    by (rule order_rows) (simp add: snapshot_values_def snapshot_columns_def column_def Let_def split_beta)
  then show ?thesis
    using s snapshots.read_map [of C "sort_key (\<lambda>p. wn_workspace_id (fst p)) (ct_snapshots a)"]
    by (simp add: list_snapshots_def stands_for_def list_all_iff)
qed

subsection \<open>A store to apply the properties to\<close>

definition demo_bookmarks :: bookmark_codec where
  "demo_bookmarks = \<lparr>bc_to = (\<lambda>bs. concat (map (\<lambda>b. b @ [0]) bs)), bc_from = (\<lambda>t. if t = [] then Some [] else None)\<rparr>"

definition demo_snapshots :: snapshot_codec where
  "demo_snapshots = \<lparr>sc_to = wn_workspace_id, sc_from = (\<lambda>t. Some (create_default_snapshot 0 t))\<rparr>"

definition demo_workspace :: "rtext \<Rightarrow> rtext \<Rightarrow> i64 \<Rightarrow> workspace_summary" where
  "demo_workspace i path created = \<lparr>wm_id = i, wm_root_id = [1], wm_root_path = [47], wm_project_display_name = [80],
     wm_workspace_name = i, wm_display_name = i, wm_workspace_path = path, wm_status = workspace_status_default,
     wm_created_at = created, wm_updated_at = created, wm_last_opened_at = 0\<rparr>"

definition demo_store :: store where
  "demo_store = fst (save_snapshot demo_snapshots None (create_default_snapshot 0 [65])
     (fst (upsert_workspace demo_bookmarks None (demo_workspace [65] [47, 65] 5) store_empty)))"

lemma demo_kept: "bookmarks_kept demo_bookmarks (demo_workspace i p c)" "snapshot_kept demo_snapshots (create_default_snapshot 0 i, v)"
  by (simp_all add: bookmarks_kept_def demo_bookmarks_def demo_workspace_def workspace_status_default_def snapshot_kept_def
      demo_snapshots_def create_default_snapshot_def)

lemma demo_run: "store_run demo_bookmarks demo_snapshots demo_store"
  unfolding demo_store_def
  by (intro sr_snapshot sr_workspace sr_empty demo_kept)

lemma demo_tables:
  "demo_store = \<lparr>st_roots = [], st_workspaces = [workspace_values demo_bookmarks (demo_workspace [65] [47, 65] 5)],
     st_snapshots = [snapshot_values demo_snapshots (create_default_snapshot 0 [65], 0)], st_notes = [], st_sessions = [], st_activity = []\<rparr>"
  by (simp add: demo_store_def save_snapshot_def upsert_workspace_def run_each_def store_empty_def on_table_defs upsert_def
      checked_def unique_on_def snapshot_keys_def workspace_keys_def create_default_snapshot_def)

text \<open>C29. Whatever operations the store has gone through, and whichever of their statements the database failed to
  execute, every row can be read: no listing and no lookup ever ends with an unexpected value or a JSON
  error.\<close>

theorem store_always_readable:
  assumes "store_run B C st"
  shows "\<exists>rs ws ss as ns. list_project_roots st = Inr rs \<and> list_workspaces B st = Inr ws \<and> list_session_states st = Inr ss
    \<and> list_pane_activity st = Inr as \<and> list_snapshots C st = Inr ns
    \<and> (\<forall>i. \<exists>s. get_snapshot C i st = Inr s) \<and> (\<forall>p. \<exists>s. get_session_state_by_pane p st = Inr s)"
proof -
  obtain a where a: "holds B C st a" using run_well_formed [OF assms] by (auto simp: well_formed_def)
  have "\<exists>s. get_session_state_by_pane p st = Inr s" for p
  proof -
    have rows: "filter (where_is session_columns ''pane_id'' p) (st_sessions st)
        = map session_values (filter (\<lambda>x. sn_pane_id (fst x) = p) (ct_sessions a))"
      using a by (simp add: holds_def stands_for_def filter_map_rows)
    show ?thesis by (auto simp: get_session_state_by_pane_def rows session_read split: list.splits)
  qed
  then show ?thesis using listed [OF a] snapshots_listed [OF a] get_snapshot_holds [OF a] by auto
qed

theorem store_always_readable_witness:
  "\<exists>rs ws ss as ns. list_project_roots demo_store = Inr rs \<and> list_workspaces demo_bookmarks demo_store = Inr ws
    \<and> list_session_states demo_store = Inr ss \<and> list_pane_activity demo_store = Inr as
    \<and> list_snapshots demo_snapshots demo_store = Inr ns
    \<and> (\<forall>i. \<exists>s. get_snapshot demo_snapshots i demo_store = Inr s) \<and> (\<forall>p. \<exists>s. get_session_state_by_pane p demo_store = Inr s)"
  by (rule store_always_readable [OF demo_run])

text \<open>C30. Storing a workspace either fails and changes nothing, or replaces the entry with its identifier, keeping
  only the time that entry was created, and leaves every other workspace as it was; identifiers stay
  unique.\<close>

theorem workspace_upsert_contract:
  assumes run: "store_run B C st" and kept: "bookmarks_kept B w" and op: "upsert_workspace B fault w st = (st', e)"
  shows "\<exists>ws ws'. list_workspaces B st = Inr ws \<and> list_workspaces B st' = Inr ws'
    \<and> (e \<noteq> None \<longrightarrow> st' = st) \<and> distinct (map wm_id ws')
    \<and> (e = None \<longrightarrow> (\<forall>v. v \<in> set ws' \<longleftrightarrow> v \<in> set ws \<and> wm_id v \<noteq> wm_id w
         \<or> v = (case find (\<lambda>z. wm_id z = wm_id w) ws of Some old \<Rightarrow> w\<lparr>wm_created_at := wm_created_at old\<rparr> | None \<Rightarrow> w)))"
proof -
  obtain a where a: "holds B C st a" using run_well_formed [OF run] by (auto simp: well_formed_def)
  let ?ws = "sort_key wm_project_display_name (sort_key wm_workspace_name (ct_workspaces a))"
  have ids: "distinct (map wm_id (ct_workspaces a))" if "holds B C st a" for st a
    using that by (auto simp: holds_def intro: workspaces.idents_distinct)
  have sorted_ids: "distinct (map wm_id (sort_key f (sort_key g xs))) \<longleftrightarrow> distinct (map wm_id xs)" for f g :: "workspace_summary \<Rightarrow> rtext" and xs
    by (simp add: distinct_map)
  have ws: "list_workspaces B st = Inr ?ws" by (rule listed [OF a])
  have found: "find (\<lambda>z. wm_id z = wm_id w) ?ws = find (\<lambda>z. wm_id z = wm_id w) (ct_workspaces a)"
    using ids [OF a] sorted_ids by (intro find_unique) auto
  show ?thesis
  proof (cases e)
    case (Some x)
    then have "st' = st" using op run_one_failed unfolding upsert_workspace_def by simp
    then show ?thesis using ws Some ids [OF a] sorted_ids by (intro exI [of _ ?ws] conjI) auto
  next
    case None
    let ?a = "a\<lparr>ct_workspaces := upsert_values wm_id (\<lambda>old new. new\<lparr>wm_created_at := wm_created_at old\<rparr>) w (ct_workspaces a)\<rparr>"
    have a': "holds B C st' ?a" using upsert_workspace_holds [OF a kept] op None by simp
    have eq: "v \<in> set (ct_workspaces ?a) \<longleftrightarrow> v \<in> set ?ws \<and> wm_id v \<noteq> wm_id w
         \<or> v = (case find (\<lambda>z. wm_id z = wm_id w) ?ws of Some old \<Rightarrow> w\<lparr>wm_created_at := wm_created_at old\<rparr> | None \<Rightarrow> w)" for v
      using upsert_values_set [OF ids [OF a], of "\<lambda>old new. new\<lparr>wm_created_at := wm_created_at old\<rparr>" w v] found by simp
    show ?thesis
      using ws listed(2) [OF a'] eq ids [OF a'] sorted_ids None
      by (intro exI [of _ ?ws] exI [of _ "sort_key wm_project_display_name (sort_key wm_workspace_name (ct_workspaces ?a))"] conjI) auto
  qed
qed

theorem workspace_upsert_contract_witness:
  "\<exists>ws'. list_workspaces demo_bookmarks (fst (upsert_workspace demo_bookmarks None (demo_workspace [65] [47, 66] 9) demo_store)) = Inr ws'
    \<and> set ws' = {(demo_workspace [65] [47, 66] 9)\<lparr>wm_created_at := 5\<rparr>}"
proof -
  have ok: "upsert_workspace demo_bookmarks None (demo_workspace [65] [47, 66] 9) demo_store
      = (fst (upsert_workspace demo_bookmarks None (demo_workspace [65] [47, 66] 9) demo_store), None)"
    by (simp add: demo_tables upsert_workspace_def run_each_def on_table_defs upsert_def checked_def unique_on_def workspace_keys_def key_of_def)
      (simp add: demo_workspace_def)
  have ws: "list_workspaces demo_bookmarks demo_store = Inr [demo_workspace [65] [47, 65] 5]"
    by (simp add: demo_tables list_workspaces_def order_by_def workspace_read demo_kept)
  have ids: "wm_id (demo_workspace i p c) = i" "wm_created_at (demo_workspace i p c) = c" for i p c
    by (simp_all add: demo_workspace_def)
  show ?thesis
    using workspace_upsert_contract [OF demo_run demo_kept(1) ok] by (simp add: ws ids set_eq_iff) (metis ids(1))
qed

lemma renamed_snapshot_listed:
  "fst ` set (ct_snapshots (renamed u i j m n a))
    = (\<lambda>s. if wn_workspace_id s = i then s\<lparr>wn_workspace_id := j\<rparr> else s) ` fst ` set (ct_snapshots a)"
proof -
  have "fst (if wn_workspace_id (fst x) = i then ((fst x)\<lparr>wn_workspace_id := j\<rparr>, u * 1000) else x)
      = (if wn_workspace_id (fst x) = i then (fst x)\<lparr>wn_workspace_id := j\<rparr> else fst x)" for x :: "workspace_snapshot \<times> i64"
    by simp
  moreover have "ct_snapshots (renamed u i j m n a) = map (\<lambda>x. if wn_workspace_id (fst x) = i
      then ((fst x)\<lparr>wn_workspace_id := j\<rparr>, u * 1000) else x) (ct_snapshots a)" by (simp add: renamed_def)
  ultimately show ?thesis by (simp only: set_map image_image)
qed

lemma renamed_snapshot_found:
  assumes a: "holds B C st a" and a': "holds B C st' (renamed u i j m n a)"
  shows "\<forall>s. get_snapshot C i st = Inr (Some s) \<longrightarrow> get_snapshot C j st' = Inr (Some (s\<lparr>wn_workspace_id := j\<rparr>))"
proof (intro allI impI)
  fix s
  assume s: "get_snapshot C i st = Inr (Some s)"
  obtain v where "find (\<lambda>x. wn_workspace_id (fst x) = i) (ct_snapshots a) = Some (s, v)"
    using s get_snapshot_holds [OF a, of i] by auto
  then have v: "(s, v) \<in> set (ct_snapshots a)" "wn_workspace_id s = i" using find_SomeD by fastforce+
  have "distinct (map (\<lambda>x. wn_workspace_id (fst x)) (ct_snapshots (renamed u i j m n a)))"
    using a' by (auto simp: holds_def intro: snapshots.idents_distinct)
  moreover have "(s\<lparr>wn_workspace_id := j\<rparr>, u * 1000) \<in> set (ct_snapshots (renamed u i j m n a))"
    using v by (force simp: renamed_def)
  ultimately have "find (\<lambda>x. wn_workspace_id (fst x) = j) (ct_snapshots (renamed u i j m n a)) = Some (s\<lparr>wn_workspace_id := j\<rparr>, u * 1000)"
    by (rule find_ident) simp
  then show "get_snapshot C j st' = Inr (Some (s\<lparr>wn_workspace_id := j\<rparr>))" using get_snapshot_holds [OF a'] by simp
qed

lemma find_renamed:
  assumes "k \<noteq> i" "k \<noteq> j"
  shows "find (\<lambda>x. wn_workspace_id (fst x) = k) (map (\<lambda>x. if wn_workspace_id (fst x) = i
      then ((fst x)\<lparr>wn_workspace_id := j\<rparr>, v) else x) xs) = find (\<lambda>x. wn_workspace_id (fst x) = k) xs"
  using assms by (induction xs) auto

lemma renamed_snapshot_others:
  assumes a: "holds B C st a" and a': "holds B C st' (renamed u i j m n a)"
  shows "\<forall>k. k \<notin> {i, j} \<longrightarrow> get_snapshot C k st' = get_snapshot C k st"
  using get_snapshot_holds [OF a] get_snapshot_holds [OF a'] by (simp add: renamed_def find_renamed cong: if_cong)

text \<open>C28. Renaming a workspace is all or nothing: if reading or any statement fails the store is unchanged. Otherwise
  the entry of the workspace has the new identifier and names, its sessions, activities and snapshot have the
  new identifier, and everything else is as it was: every other workspace with its sessions, activities and
  snapshot, and the tables of project roots and of notes (which the program never fills). The store is one
  that the operations produce, and the snapshot to rename is read back from its new text.\<close>

theorem rename_workspace_atomic:
  assumes run: "store_run B C st" and kept: "renames_back C i j st" and op: "rename_workspace C u fault i j m n st = (st', e)"
  shows "(e \<noteq> None \<longrightarrow> st' = st) \<and> (e = None \<longrightarrow>
    st_roots st' = st_roots st \<and> st_notes st' = st_notes st \<and>
    (\<exists>ws ws' ss ss' as as' ns ns'. list_workspaces B st = Inr ws \<and> list_workspaces B st' = Inr ws'
      \<and> list_session_states st = Inr ss \<and> list_session_states st' = Inr ss'
      \<and> list_pane_activity st = Inr as \<and> list_pane_activity st' = Inr as'
      \<and> list_snapshots C st = Inr ns \<and> list_snapshots C st' = Inr ns'
      \<and> set ws' = (\<lambda>w. if wm_id w = i then w\<lparr>wm_id := j, wm_workspace_name := m, wm_display_name := n,
           wm_updated_at := u * 1000\<rparr> else w) ` set ws
      \<and> set ss' = (\<lambda>s. if sn_workspace_id s = i then s\<lparr>sn_workspace_id := j\<rparr> else s) ` set ss
      \<and> set as' = (\<lambda>x. if pa_workspace_id x = i then x\<lparr>pa_workspace_id := j\<rparr> else x) ` set as
      \<and> set ns' = (\<lambda>s. if wn_workspace_id s = i then s\<lparr>wn_workspace_id := j\<rparr> else s) ` set ns
      \<and> (\<forall>s. get_snapshot C i st = Inr (Some s) \<longrightarrow> get_snapshot C j st' = Inr (Some (s\<lparr>wn_workspace_id := j\<rparr>)))
      \<and> (\<forall>k. k \<notin> {i, j} \<longrightarrow> get_snapshot C k st' = get_snapshot C k st)))"
proof (cases e)
  case (Some x)
  then show ?thesis using op rename_failed by auto
next
  case None
  obtain a where a: "holds B C st a" using run_well_formed [OF run] by (auto simp: well_formed_def)
  have a': "holds B C st' (renamed u i j m n a)" using rename_holds [OF a kept] op None by simp
  have ses: "stored_session (fst (if sn_workspace_id (fst p) = i then ((fst p)\<lparr>sn_workspace_id := j\<rparr>, snd p) else p))
      = (if sn_workspace_id (stored_session (fst p)) = i then (stored_session (fst p))\<lparr>sn_workspace_id := j\<rparr> else stored_session (fst p))" for p
    by (simp add: stored_session_def)
  have "set (ct_workspaces (renamed u i j m n a)) = (\<lambda>w. if wm_id w = i then w\<lparr>wm_id := j, wm_workspace_name := m,
      wm_display_name := n, wm_updated_at := u * 1000\<rparr> else w) ` set (ct_workspaces a)"
    "(\<lambda>p. stored_session (fst p)) ` set (ct_sessions (renamed u i j m n a))
      = (\<lambda>s. if sn_workspace_id s = i then s\<lparr>sn_workspace_id := j\<rparr> else s) ` (\<lambda>p. stored_session (fst p)) ` set (ct_sessions a)"
    "set (ct_activity (renamed u i j m n a)) = (\<lambda>x. if pa_workspace_id x = i then x\<lparr>pa_workspace_id := j\<rparr> else x) ` set (ct_activity a)"
    by (simp_all only: renamed_tables set_map image_image ses)
  moreover have "st_roots st' = st_roots st" "st_notes st' = st_notes st" using a a' by (simp_all add: holds_def stands_for_def renamed_def)
  moreover note renamed_snapshot_listed [of u i j m n a] renamed_snapshot_found [OF a a'] renamed_snapshot_others [OF a a']
  ultimately show ?thesis
    using None by (simp add: listed [OF a] listed [OF a'] snapshots_listed [OF a] snapshots_listed [OF a'] del: if_image_distrib)
qed

theorem rename_workspace_atomic_witness:
  "fst (rename_workspace demo_snapshots 7 (Some 3) [65] [66] [66] [66] demo_store) = demo_store
   \<and> get_snapshot demo_snapshots [66] (fst (rename_workspace demo_snapshots 7 None [65] [66] [66] [66] demo_store))
       = Inr (Some (create_default_snapshot 0 [66]))"
proof -
  have get: "get_snapshot demo_snapshots [65] demo_store = Inr (Some (create_default_snapshot 0 [65]))"
    by (simp add: demo_tables get_snapshot_def snapshots.read_back demo_kept) (simp add: create_default_snapshot_def)
  have kept: "renames_back demo_snapshots [65] [66] demo_store"
    by (simp add: renames_back_def get) (simp add: demo_snapshots_def create_default_snapshot_def)
  have failed: "snd (rename_workspace demo_snapshots 7 (Some 3) [65] [66] [66] [66] demo_store) \<noteq> None"
    by (simp add: rename_workspace_def rename_workspace_from_def renamed_snapshot_def get transaction_def rename_statements_def Let_def split: prod.splits option.splits)
  have worked: "snd (rename_workspace demo_snapshots 7 None [65] [66] [66] [66] demo_store) = None"
    by (simp add: rename_workspace_def rename_workspace_from_def renamed_snapshot_def get [unfolded demo_tables] transaction_def rename_statements_def Let_def demo_tables on_table_defs
        update_rows_def checked_def unique_on_def workspace_keys_def snapshot_keys_def note_keys_def session_keys_def activity_keys_def)
  have new: "(create_default_snapshot 0 [65])\<lparr>wn_workspace_id := [66]\<rparr> = create_default_snapshot 0 [66]"
    by (simp add: create_default_snapshot_def)
  show ?thesis
    using rename_workspace_atomic [OF demo_run kept prod.collapse [symmetric], of 7 "Some 3" "[66]" "[66]"]
      rename_workspace_atomic [OF demo_run kept prod.collapse [symmetric], of 7 None "[66]" "[66]"] failed worked get new by auto
qed

text \<open>The snapshot is read before the transaction begins: one that is saved in between is overwritten with what was
  read, so what was saved is lost although both operations succeed.\<close>

definition timed_snapshots :: snapshot_codec where
  "timed_snapshots = \<lparr>sc_to = (\<lambda>s. nat (wn_updated_at s) # wn_workspace_id s),
     sc_from = (\<lambda>t. case t of c # i \<Rightarrow> Some (create_default_snapshot (int c) i) | [] \<Rightarrow> None)\<rparr>"

lemma rename_loses_save:
  "let seen = fst (save_snapshot timed_snapshots None (create_default_snapshot 0 [65]) store_empty);
       saved = save_snapshot timed_snapshots None (create_default_snapshot 9 [65]) seen;
       renamed = rename_workspace_from timed_snapshots 7 None [65] [66] [66] [66] seen (fst saved)
   in snd saved = None \<and> snd renamed = None
     \<and> get_snapshot timed_snapshots [65] (fst saved) = Inr (Some (create_default_snapshot 9 [65]))
     \<and> get_snapshot timed_snapshots [66] (fst renamed) = Inr (Some (create_default_snapshot 0 [66]))"
proof -
  let ?row = "\<lambda>v i. snapshot_values timed_snapshots (create_default_snapshot v i, v)"
  let ?st = "\<lambda>v. store_empty\<lparr>st_snapshots := [?row v [65]]\<rparr>"
  note defs = save_snapshot_def run_each_def on_table_defs upsert_def checked_def unique_on_def snapshot_keys_def store_empty_def
  have facts: "wn_updated_at (create_default_snapshot v i) = v" "wn_workspace_id (create_default_snapshot v i) = i" for v i
    by (simp_all add: create_default_snapshot_def)
  have seen: "fst (save_snapshot timed_snapshots None (create_default_snapshot 0 [65]) store_empty) = ?st 0"
    by (simp add: defs facts)
  have saved: "save_snapshot timed_snapshots None (create_default_snapshot 9 [65]) (?st 0) = (?st 9, None)"
    by (simp add: defs facts) (simp add: snapshot_values_def merge_rows_def snapshot_columns_def snapshot_updated_def facts key_of_def column_def)
  have read: "snapshot_from_row timed_snapshots (?row 0 [65]) = Inr (create_default_snapshot 0 [65])"
    "snapshot_from_row timed_snapshots (?row 9 [65]) = Inr (create_default_snapshot 9 [65])"
    by (simp_all add: snapshot_from_row_def snapshot_values_def timed_snapshots_def facts get_defs)
  have j: "(create_default_snapshot 0 [65])\<lparr>wn_workspace_id := [66]\<rparr> = create_default_snapshot 0 [66]"
    by (simp add: create_default_snapshot_def)
  have got: "get_snapshot timed_snapshots [65] (?st 9) = Inr (Some (create_default_snapshot 9 [65]))"
    and json: "renamed_snapshot timed_snapshots [65] [66] (?st 0) = Inr (Some (sc_to timed_snapshots (create_default_snapshot 0 [66])))"
    by (simp_all add: renamed_snapshot_def get_snapshot_def read facts j)
  have moved: "set_columns snapshot_columns [(''workspace_id'', SqlText [66]),
      (''snapshot_json'', SqlText (sc_to timed_snapshots (create_default_snapshot 0 [66]))), (''updated_at'', SqlInteger 7000)]
      (?row 9 [65]) = snapshot_values timed_snapshots (create_default_snapshot 0 [66], 7000)"
    by (simp add: set_columns_def snapshot_columns_def snapshot_values_def facts)
  have renamed: "rename_workspace_from timed_snapshots 7 None [65] [66] [66] [66] (?st 0) (?st 9)
      = (store_empty\<lparr>st_snapshots := [snapshot_values timed_snapshots (create_default_snapshot 0 [66], 7000)]\<rparr>, None)"
    unfolding rename_workspace_from_def json sum.case
    by (simp add: transaction_def rename_statements_def Let_def on_table_defs update_rows_def
        checked_def unique_on_def store_empty_def moved facts snapshot_keys_def workspace_keys_def note_keys_def session_keys_def activity_keys_def)
  have "snapshot_from_row timed_snapshots (snapshot_values timed_snapshots (create_default_snapshot 0 [66], 7000))
      = Inr (create_default_snapshot 0 [66])"
    by (simp add: snapshot_from_row_def snapshot_values_def timed_snapshots_def facts get_defs)
  then show ?thesis unfolding seen saved Let_def renamed fst_conv snd_conv
    using got by (simp add: get_snapshot_def facts)
qed



end
