(* ===== verification/Store_Schema.thy ===== *)
theory Store_Schema
  imports Store_Props
begin

section \<open>Migrating a database (\<open>octty-store/src/migrations.rs\<close>)\<close>

text \<open>
  A database that the store opens may be new, or written by an older version whose tables lack the columns
  added since. It maps the name of a table to its columns and rows; \<open>create table if not exists\<close> leaves a
  table that exists alone, and \<open>alter table add column\<close> gives the new column its default in every row. The
  statements are taken to succeed: one that fails ends the migration with its error. \<open>upgraded\<close> is what a
  migration promises.
\<close>

type_synonym database = "string \<Rightarrow> (string list \<times> row list) option"

definition create_table :: "string \<Rightarrow> string list \<Rightarrow> database \<Rightarrow> database" where
  "create_table name cols db = (if db name = None then db(name \<mapsto> (cols, [])) else db)"

definition table_info :: "database \<Rightarrow> string \<Rightarrow> string list" where
  "table_info db name = (case db name of Some (cols, _) \<Rightarrow> cols | None \<Rightarrow> [])"

definition add_column :: "string \<Rightarrow> string \<Rightarrow> sql_value \<Rightarrow> database \<Rightarrow> database" where
  "add_column name c initial db =
     (case db name of
        None \<Rightarrow> db
      | Some (cols, rows) \<Rightarrow> db(name \<mapsto> (cols @ [c], map (\<lambda>r. r @ [initial]) rows)))"

text \<open>The loop over the columns that a table must have; \<open>present\<close> is read once, before it.\<close>

definition ensure_columns :: "string \<Rightarrow> (string \<times> sql_value) list \<Rightarrow> database \<Rightarrow> database" where
  "ensure_columns name needed db =
     (let present = table_info db name in
      fold (\<lambda>(c, initial) db. if c \<notin> set present then add_column name c initial db else db) needed db)"

definition session_added :: "(string \<times> sql_value) list" where
  "session_added = [(''inner_session_id'', SqlNull)]"

definition ensure_session_state_columns :: "database \<Rightarrow> database" where
  "ensure_session_state_columns = ensure_columns ''session_state'' session_added"

definition workspace_added :: "(string \<times> sql_value) list" where
  "workspace_added =
    [(''has_conflicts'', SqlInteger 0), (''local_baseline_name'', SqlNull), (''local_baseline_detail'', SqlNull),
     (''local_ahead_count'', SqlNull), (''local_behind_count'', SqlNull), (''remote_baseline_name'', SqlNull),
     (''remote_baseline_detail'', SqlNull), (''remote_ahead_count'', SqlNull), (''remote_behind_count'', SqlNull),
     (''primary_relation'', SqlText (bytes ''none''))]"

definition ensure_workspace_status_columns :: "database \<Rightarrow> database" where
  "ensure_workspace_status_columns = ensure_columns ''workspaces'' workspace_added"

definition activity_added :: "(string \<times> sql_value) list" where
  "activity_added =
    [(''needs_attention'', SqlInteger 0), (''needs_attention_at_ms'', SqlInteger 0),
     (''needs_attention_cleared_at_ms'', SqlInteger 0)]"

definition ensure_pane_activity_columns :: "database \<Rightarrow> database" where
  "ensure_pane_activity_columns = ensure_columns ''pane_activity'' activity_added"

text \<open>The tables of the batch, in its order, each with its columns in the order of the declaration.\<close>

definition schema :: "(string \<times> string list) list" where
  "schema =
    [(''schema_migrations'', [''version'', ''applied_at'']),
     (''project_roots'', [''id'', ''root_path'', ''label'', ''created_at'', ''updated_at'']),
     (''workspaces'',
        [''id'', ''root_id'', ''root_path'', ''project_label'', ''workspace_name'', ''display_name'', ''workspace_path'',
         ''workspace_state'', ''has_working_copy_changes'', ''has_conflicts'', ''local_baseline_name'',
         ''local_baseline_detail'', ''local_ahead_count'', ''local_behind_count'', ''remote_baseline_name'',
         ''remote_baseline_detail'', ''remote_ahead_count'', ''remote_behind_count'', ''primary_relation'', ''bookmarks'',
         ''bookmark_relation'', ''unread_notes'', ''active_agent_count'', ''agent_attention_state'', ''recent_activity_at'',
         ''diff_text'', ''created_at'', ''updated_at'', ''last_opened_at'']),
     (''workspace_snapshots'', [''workspace_id'', ''snapshot_json'', ''updated_at'']),
     (''note_state'', [''workspace_id'', ''note_path'', ''title'', ''last_read_at'', ''last_known_mtime'']),
     (''session_state'', [''pane_id'', ''workspace_id'', ''session_id'', ''inner_session_id'', ''kind'', ''cwd'', ''command'', ''state'',
         ''exit_code'', ''buffer'', ''updated_at'']),
     (''pane_activity'',
        [''workspace_id'', ''pane_id'', ''last_activity_at_ms'', ''last_seen_at_ms'', ''last_seen_activity_at_ms'',
         ''last_tmux_activity_at_s'', ''last_seen_tmux_activity_at_s'', ''last_screen_fingerprint'',
         ''last_seen_screen_fingerprint'', ''needs_attention'', ''needs_attention_at_ms'', ''needs_attention_cleared_at_ms'',
         ''updated_at_ms''])]"

text \<open>\<open>insert or ignore into schema_migrations\<close>: the version is the primary key.\<close>

definition record_version :: "i64 \<Rightarrow> database \<Rightarrow> database" where
  "record_version unixtime db =
     (case db ''schema_migrations'' of
        None \<Rightarrow> db
      | Some (cols, rows) \<Rightarrow>
          if list_ex (\<lambda>r. column cols ''version'' r = Some (SqlInteger 1)) rows then db
          else db(''schema_migrations'' \<mapsto>
            (cols, rows @ [map (\<lambda>c. if c = ''version'' then SqlInteger 1 else SqlInteger (unixtime * 1000)) cols])))"

definition migrate :: "i64 \<Rightarrow> database \<Rightarrow> database" where
  "migrate unixtime db =
     (let db = fold (\<lambda>(name, cols) db. create_table name cols db) schema db;
          db = record_version unixtime db;
          db = ensure_workspace_status_columns db;
          db = ensure_session_state_columns db in
      ensure_pane_activity_columns db)"

text \<open>The columns that the statements of the store use in each table.\<close>

definition used_columns :: "(string \<times> string list) list" where
  "used_columns =
    [(''project_roots'', root_columns), (''workspaces'', workspace_columns), (''workspace_snapshots'', snapshot_columns),
     (''note_state'', note_columns), (''session_state'', session_columns), (''pane_activity'', activity_columns)]"

definition added_columns :: "string \<Rightarrow> string list" where
  "added_columns name =
     (if name = ''workspaces'' then map fst workspace_added else if name = ''session_state'' then map fst session_added
      else if name = ''pane_activity'' then map fst activity_added else [])"

text \<open>
  The columns each table had when it was first created: sessions without the inner session, activities without
  the marks of attention, and workspaces without conflicts and without the two baselines and their primary
  relation. They are written out, not derived from what the migration adds, so that a column which a statement
  uses and the migration forgets makes the contract below fail.
\<close>

definition first_columns :: "(string \<times> string list) list" where
  "first_columns =
    [(''schema_migrations'', [''version'', ''applied_at'']),
     (''project_roots'', [''id'', ''root_path'', ''label'', ''created_at'', ''updated_at'']),
     (''workspaces'',
        [''id'', ''root_id'', ''root_path'', ''project_label'', ''workspace_name'', ''display_name'', ''workspace_path'',
         ''workspace_state'', ''has_working_copy_changes'', ''bookmarks'', ''bookmark_relation'', ''unread_notes'',
         ''active_agent_count'', ''agent_attention_state'', ''recent_activity_at'', ''diff_text'', ''created_at'',
         ''updated_at'', ''last_opened_at'']),
     (''workspace_snapshots'', [''workspace_id'', ''snapshot_json'', ''updated_at'']),
     (''note_state'', [''workspace_id'', ''note_path'', ''title'', ''last_read_at'', ''last_known_mtime'']),
     (''session_state'', [''pane_id'', ''workspace_id'', ''session_id'', ''kind'', ''cwd'', ''command'', ''state'', ''exit_code'',
         ''buffer'', ''updated_at'']),
     (''pane_activity'',
        [''workspace_id'', ''pane_id'', ''last_activity_at_ms'', ''last_seen_at_ms'', ''last_seen_activity_at_ms'',
         ''last_tmux_activity_at_s'', ''last_seen_tmux_activity_at_s'', ''last_screen_fingerprint'',
         ''last_seen_screen_fingerprint'', ''updated_at_ms''])]"

text \<open>What an older version left: a table that exists has at least its first columns, and rows have a value per column.\<close>

definition older_database :: "database \<Rightarrow> bool" where
  "older_database db \<longleftrightarrow>
     (\<forall>name cols rows. db name = Some (cols, rows) \<longrightarrow>
        (\<forall>r\<in>set rows. length r = length cols)
        \<and> (\<forall>first. (name, first) \<in> set first_columns \<longrightarrow> set first \<subseteq> set cols))"

text \<open>No row is lost and every column keeps its values.\<close>

definition table_extends :: "string list \<times> row list \<Rightarrow> string list \<times> row list \<Rightarrow> bool" where
  "table_extends t t' \<longleftrightarrow> set (fst t) \<subseteq> set (fst t') \<and> (\<exists>rows new. snd t' = rows @ new
     \<and> list_all2 (\<lambda>r r'. \<forall>c\<in>set (fst t). column (fst t') c r' = column (fst t) c r) (snd t) rows)"

definition database_extends :: "database \<Rightarrow> database \<Rightarrow> bool" where
  "database_extends db db' \<longleftrightarrow> (\<forall>name t. db name = Some t \<longrightarrow> (\<exists>t'. db' name = Some t' \<and> table_extends t t'))"

subsection \<open>One column, one table\<close>

definition rows_fit :: "database \<Rightarrow> bool" where
  "rows_fit db \<longleftrightarrow> (\<forall>name cols rows. db name = Some (cols, rows) \<longrightarrow> (\<forall>r\<in>set rows. length r = length cols))"

lemma column_appended: "length r = length cols \<Longrightarrow> c \<in> set cols \<Longrightarrow> column (cols @ [d]) c (r @ [v]) = column cols c r"
proof -
  assume "length r = length cols" "c \<in> set cols"
  then have "map_of (zip cols r) c \<noteq> None" by (metis map_of_zip_is_None)
  then show ?thesis using \<open>length r = length cols\<close> by (simp add: column_def map_add_def split: option.splits)
qed

lemma table_info_simps [simp]:
  "table_info (add_column name c d db) other
     = (if other = name \<and> db name \<noteq> None then table_info db name @ [c] else table_info db other)"
  "add_column name c d db other = None \<longleftrightarrow> db other = None"
  "other \<noteq> name \<Longrightarrow> add_column name c d db other = db other"
  by (auto simp: table_info_def add_column_def split: option.splits)

definition add_missing :: "string \<Rightarrow> string list \<Rightarrow> (string \<times> sql_value) list \<Rightarrow> database \<Rightarrow> database" where
  "add_missing name present needed db =
     fold (\<lambda>(c, initial) db. if c \<notin> set present then add_column name c initial db else db) needed db"

lemma add_missing_simps [simp]:
  "add_missing name present [] db = db"
  "add_missing name present (x # xs) db
     = add_missing name present xs (if fst x \<notin> set present then add_column name (fst x) (snd x) db else db)"
  by (simp_all add: add_missing_def split: prod.splits)

lemma add_missing_info:
  "db name \<noteq> None \<Longrightarrow>
   table_info (add_missing name present needed db) name = table_info db name @ filter (\<lambda>c. c \<notin> set present) (map fst needed)"
proof (induction needed arbitrary: db)
  case (Cons x xs)
  then show ?case by (cases "fst x \<in> set present") (simp_all del: not_None_eq)
qed simp

lemma add_missing_other: "other \<noteq> name \<Longrightarrow> add_missing name present needed db other = db other"
  by (induction needed arbitrary: db) auto

lemma add_missing_some: "add_missing name present needed db other = None \<longleftrightarrow> db other = None"
  by (induction needed arbitrary: db) simp_all

lemma add_missing_none: "set (map fst needed) \<subseteq> set present \<Longrightarrow> add_missing name present needed db = db"
  by (induction needed) auto

text \<open>Every step keeps the rows.\<close>

lemma table_extends_refl: "table_extends t t"
  unfolding table_extends_def by (intro conjI exI [of _ "snd t"] exI [of _ "[]"]) (auto simp: list.rel_refl)

lemma table_extends_trans:
  assumes "table_extends t u" "table_extends u v"
  shows "table_extends t v"
proof -
  let ?keeps = "\<lambda>t t' r r'. \<forall>c\<in>set (fst t). column (fst t') c r' = column (fst t) c r"
  obtain us un where u: "snd u = us @ un" "list_all2 (?keeps t u) (snd t) us" "set (fst t) \<subseteq> set (fst u)"
    using assms(1) by (auto simp: table_extends_def)
  obtain vs vn where v: "snd v = vs @ vn" "list_all2 (?keeps u v) (us @ un) vs" "set (fst u) \<subseteq> set (fst v)"
    using assms(2) u(1) by (auto simp: table_extends_def)
  obtain vs1 vs2 where vs: "vs = vs1 @ vs2" "list_all2 (?keeps u v) us vs1"
    using v(2) by (auto simp: list_all2_append1)
  have "list_all2 (?keeps t v) (snd t) vs1"
    by (rule list_all2_trans [OF _ u(2) vs(2)]) (metis u(3) subsetD)
  then show ?thesis using u(3) v(1,3) vs(1) unfolding table_extends_def by auto
qed

definition grows :: "(database \<Rightarrow> database) \<Rightarrow> bool" where
  "grows f \<longleftrightarrow> (\<forall>db. rows_fit db \<longrightarrow> rows_fit (f db) \<and> database_extends db (f db))"

lemma database_extends_refl: "database_extends db db"
  by (auto simp: database_extends_def intro: table_extends_refl)

lemma database_extends_trans: "database_extends a b \<Longrightarrow> database_extends b c \<Longrightarrow> database_extends a c"
  unfolding database_extends_def
proof (intro allI impI)
  fix name t
  assume "\<forall>name t. a name = Some t \<longrightarrow> (\<exists>t'. b name = Some t' \<and> table_extends t t')"
    "\<forall>name t. b name = Some t \<longrightarrow> (\<exists>t'. c name = Some t' \<and> table_extends t t')" "a name = Some t"
  then show "\<exists>t'. c name = Some t' \<and> table_extends t t'" using table_extends_trans by blast
qed

lemma grows_id: "grows (\<lambda>db. db)" by (simp add: grows_def database_extends_refl)

lemma grows_comp: "grows f \<Longrightarrow> grows g \<Longrightarrow> grows (\<lambda>db. g (f db))"
  unfolding grows_def using database_extends_trans by blast

lemma grows_if: "(p \<Longrightarrow> grows f) \<Longrightarrow> grows (\<lambda>db. if p then f db else db)"
  by (cases p) (simp_all add: grows_id)

lemma grows_fold: "(\<And>x. x \<in> set xs \<Longrightarrow> grows (f x)) \<Longrightarrow> grows (fold f xs)"
  by (induction xs) (simp_all add: grows_id [unfolded id_def] id_def comp_def grows_comp)

lemma grows_one:
  assumes "\<And>cols rows. \<forall>r\<in>set rows. length r = length cols \<Longrightarrow> db name = Some (cols, rows) \<Longrightarrow>
    \<exists>cols' rows'. f db = db(name \<mapsto> (cols', rows')) \<and> (\<forall>r\<in>set rows'. length r = length cols') \<and> table_extends (cols, rows) (cols', rows')"
    and "db name = None \<Longrightarrow> f db = db" and fit: "rows_fit db"
  shows "rows_fit (f db) \<and> database_extends db (f db)"
proof (cases "db name")
  case None
  then show ?thesis using assms by (simp add: database_extends_refl)
next
  case (Some t)
  obtain cols rows where t: "db name = Some (cols, rows)" using Some by (cases t) auto
  then obtain cols' rows' where new: "f db = db(name \<mapsto> (cols', rows'))" "\<forall>r\<in>set rows'. length r = length cols'"
      "table_extends (cols, rows) (cols', rows')"
    using assms(1) fit unfolding rows_fit_def by metis
  show ?thesis using fit t new(2,3) unfolding new(1) rows_fit_def database_extends_def
    by (auto intro: table_extends_refl)
qed

lemma grows_create: "grows (create_table name cols)"
  by (auto simp: grows_def create_table_def rows_fit_def database_extends_def intro: table_extends_refl)

lemma grows_add_column: "grows (add_column name c v)"
proof (unfold grows_def, intro allI impI)
  fix db assume "rows_fit db"
  then show "rows_fit (add_column name c v db) \<and> database_extends db (add_column name c v db)"
  proof (rule grows_one [rotated 2])
    fix cols rows assume fit: "\<forall>r\<in>set rows. length r = length cols" and db: "db name = Some (cols, rows)"
    have "table_extends (cols, rows) (cols @ [c], map (\<lambda>r. r @ [v]) rows)"
      unfolding table_extends_def
      by (intro conjI exI [of _ "map (\<lambda>r. r @ [v]) rows"] exI [of _ "[]"])
        (use fit in \<open>auto simp: list_all2_map2 column_appended intro!: list.rel_refl_strong\<close>)
    then show "\<exists>cols' rows'. add_column name c v db = db(name \<mapsto> (cols', rows')) \<and> (\<forall>r\<in>set rows'. length r = length cols')
        \<and> table_extends (cols, rows) (cols', rows')"
      using fit db by (auto simp: add_column_def intro!: exI [of _ "cols @ [c]"] exI [of _ "map (\<lambda>r. r @ [v]) rows"])
  qed (simp add: add_column_def)
qed

lemma grows_version: "grows (record_version u)"
proof (unfold grows_def, intro allI impI)
  fix db assume "rows_fit db"
  then show "rows_fit (record_version u db) \<and> database_extends db (record_version u db)"
  proof (rule grows_one [where name = "''schema_migrations''", rotated 2])
    fix cols rows assume fit: "\<forall>r\<in>set rows. length r = length cols" and db: "db ''schema_migrations'' = Some (cols, rows)"
    have more: "table_extends (cols, rows) (cols, rows @ new)" for new
      unfolding table_extends_def by (intro conjI exI [of _ rows] exI [of _ new]) (auto intro: list.rel_refl)
    show "\<exists>cols' rows'. record_version u db = db(''schema_migrations'' \<mapsto> (cols', rows')) \<and> (\<forall>r\<in>set rows'. length r = length cols')
        \<and> table_extends (cols, rows) (cols', rows')"
      using fit db more [of "[]"] more [of "[map (\<lambda>c. if c = ''version'' then SqlInteger 1 else SqlInteger (u * 1000)) cols]"]
      by (cases "list_ex (\<lambda>r. column cols ''version'' r = Some (SqlInteger 1)) rows") (force simp: record_version_def map_upd_triv)+
  qed (simp add: record_version_def)
qed

subsection \<open>The whole migration\<close>

lemma ensure_is: "ensure_columns name needed db = add_missing name (table_info db name) needed db"
  by (simp add: ensure_columns_def add_missing_def)

lemma grows_ensure: "grows (ensure_columns name needed)"
proof (unfold grows_def, intro allI impI)
  fix db assume fit: "rows_fit db"
  have "grows (add_missing name (table_info db name) needed)"
    unfolding add_missing_def by (rule grows_fold) (auto split: prod.splits intro: grows_if grows_add_column)
  then show "rows_fit (ensure_columns name needed db) \<and> database_extends db (ensure_columns name needed db)"
    using fit unfolding ensure_is grows_def by blast
qed

lemma grows_migrate: "grows (migrate u)"
proof -
  have batch: "grows (fold (\<lambda>(name, cols) db. create_table name cols db) schema)"
    by (rule grows_fold) (auto split: prod.splits intro: grows_create)
  have steps: "grows ensure_workspace_status_columns" "grows ensure_session_state_columns" "grows ensure_pane_activity_columns"
    unfolding ensure_workspace_status_columns_def ensure_session_state_columns_def ensure_pane_activity_columns_def
    by (rule grows_ensure)+
  show ?thesis
    using grows_comp [OF grows_comp [OF grows_comp [OF grows_comp [OF batch grows_version [of u]] steps(1)] steps(2)] steps(3)]
    by (simp add: grows_def migrate_def)
qed

lemma created: "fold (\<lambda>(name, cols) db. create_table name cols db) tables db name
    = (case db name of Some t \<Rightarrow> Some t | None \<Rightarrow> map_option (\<lambda>cols. (cols, [])) (map_of tables name))"
proof (induction tables arbitrary: db)
  case (Cons x xs)
  obtain n cols where x: "x = (n, cols)" by (cases x)
  show ?case
    unfolding fold.simps o_apply Cons.IH by (cases "db name"; cases "n = name") (simp_all add: x create_table_def)
qed (simp split: option.splits)

text \<open>A database that needs no migration.\<close>

definition current :: "database \<Rightarrow> bool" where
  "current db \<longleftrightarrow> list_all (\<lambda>(name, cols). db name \<noteq> None) schema
     \<and> (\<exists>cols rows. db ''schema_migrations'' = Some (cols, rows) \<and> list_ex (\<lambda>r. column cols ''version'' r = Some (SqlInteger 1)) rows)
     \<and> set (map fst workspace_added) \<subseteq> set (table_info db ''workspaces'')
     \<and> set (map fst session_added) \<subseteq> set (table_info db ''session_state'')
     \<and> set (map fst activity_added) \<subseteq> set (table_info db ''pane_activity'')"

lemma create_existing: "list_all (\<lambda>(name, cols). db name \<noteq> None) tables \<Longrightarrow> fold (\<lambda>(name, cols) db. create_table name cols db) tables db = db"
  by (induction tables) (auto simp: create_table_def)

lemma migrate_current: "current db \<Longrightarrow> migrate u db = db"
proof -
  assume now: "current db"
  then have "record_version u db = db" by (auto simp: current_def record_version_def)
  then show ?thesis using now
    by (simp add: migrate_def current_def create_existing ensure_is add_missing_none
        ensure_workspace_status_columns_def ensure_session_state_columns_def ensure_pane_activity_columns_def)
qed


lemma info_ensure:
  assumes "db name \<noteq> None"
  shows "set (table_info (ensure_columns name needed db) name) = set (table_info db name) \<union> set (map fst needed)"
  using add_missing_info [of db name "table_info db name" needed] assms by (auto simp: ensure_is)

lemma info_other: "other \<noteq> name \<Longrightarrow> table_info (ensure_columns name needed db) other = table_info db other"
  by (simp add: table_info_def ensure_is add_missing_other)

lemma some_ensure: "ensure_columns name needed db other = None \<longleftrightarrow> db other = None"
  by (simp add: ensure_is add_missing_some)

text \<open>The columns of a table before the missing ones are added.\<close>

definition batch :: "i64 \<Rightarrow> database \<Rightarrow> database" where
  "batch u db = record_version u (fold (\<lambda>(name, cols) db. create_table name cols db) schema db)"

lemma record_version_info:
  "table_info (record_version u db) name = table_info db name" "record_version u db name = None \<longleftrightarrow> db name = None"
  by (auto simp: record_version_def table_info_def split: option.splits)

lemma batch_info:
  "table_info (batch u db) name = (case db name of Some (cols, _) \<Rightarrow> cols | None \<Rightarrow> (case map_of schema name of Some cols \<Rightarrow> cols | None \<Rightarrow> []))"
  "batch u db name = None \<longleftrightarrow> db name = None \<and> map_of schema name = None"
  by (auto simp: batch_def record_version_info created split: option.splits) (auto simp: table_info_def created split: option.splits)

lemma migrate_info:
  assumes "name \<in> set (map fst schema)"
  shows "set (table_info (migrate u db) name) = set (table_info (batch u db) name) \<union> set (added_columns name)"
proof -
  have some: "batch u db name \<noteq> None" using assms unfolding batch_info by (simp add: map_of_eq_None_iff)
  consider "name = ''workspaces''" | "name = ''session_state''" | "name = ''pane_activity''"
    | "name \<noteq> ''workspaces''" "name \<noteq> ''session_state''" "name \<noteq> ''pane_activity''" by blast
  then show ?thesis
    using some
    by cases (simp_all add: migrate_def batch_def [symmetric] Let_def ensure_workspace_status_columns_def
        ensure_session_state_columns_def ensure_pane_activity_columns_def info_other info_ensure some_ensure added_columns_def
        del: not_None_eq)
qed


lemma migrate_some: "migrate u db name = None \<longleftrightarrow> batch u db name = None"
  by (simp add: migrate_def batch_def [symmetric] Let_def ensure_workspace_status_columns_def ensure_session_state_columns_def
      ensure_pane_activity_columns_def some_ensure)

lemma used_in_schema: "(name, used) \<in> set used_columns \<Longrightarrow> \<exists>cols. map_of schema name = Some cols \<and> set used \<subseteq> set cols"
proof -
  have "list_all (\<lambda>(name, used). case map_of schema name of Some cols \<Rightarrow> list_all (\<lambda>c. c \<in> set cols) used | None \<Rightarrow> False) used_columns"
    by (simp add: used_columns_def schema_def root_columns_def workspace_columns_def snapshot_columns_def note_columns_def
        session_columns_def activity_columns_def)
  then show "(name, used) \<in> set used_columns \<Longrightarrow> ?thesis"
    by (fastforce simp: list_all_iff subset_iff split: option.splits)
qed

lemma schema_names: "map_of schema name = Some cols \<Longrightarrow> name \<in> set (map fst schema)"
  by (force dest: map_of_SomeD)

lemma used_covered: "(name, used) \<in> set used_columns \<Longrightarrow>
  \<exists>first. (name, first) \<in> set first_columns \<and> set used \<subseteq> set first \<union> set (added_columns name)"
proof -
  have "list_all (\<lambda>(name, used). list_ex (\<lambda>(other, first). other = name
      \<and> list_all (\<lambda>c. c \<in> set first \<or> c \<in> set (added_columns name)) used) first_columns) used_columns"
    by (simp add: used_columns_def first_columns_def root_columns_def workspace_columns_def snapshot_columns_def note_columns_def
        session_columns_def activity_columns_def added_columns_def workspace_added_def session_added_def activity_added_def)
  then show "(name, used) \<in> set used_columns \<Longrightarrow> ?thesis"
    by (fastforce simp: list_all_iff list_ex_iff subset_iff)
qed

lemma migrate_columns:
  assumes old: "older_database db" and used: "(name, used) \<in> set used_columns"
  shows "migrate u db name \<noteq> None" "set used \<subseteq> set (table_info (migrate u db) name)"
proof -
  obtain cols where cols: "map_of schema name = Some cols" "set used \<subseteq> set cols" using used_in_schema [OF used] by blast
  show "migrate u db name \<noteq> None" unfolding migrate_some batch_info by (simp add: cols(1))
  obtain first where first: "(name, first) \<in> set first_columns" "set used \<subseteq> set first \<union> set (added_columns name)"
    using used_covered [OF used] by blast
  have "set first \<subseteq> set cs" if "db name = Some (cs, rows)" for cs rows
    using old first(1) that unfolding older_database_def by blast
  then have "set used - set (added_columns name) \<subseteq> set (table_info (batch u db) name)"
    using cols first(2) by (cases "db name") (force simp: batch_info)+
  then show "set used \<subseteq> set (table_info (migrate u db) name)"
    unfolding migrate_info [OF schema_names [OF cols(1)]] by blast
qed

lemma version_recorded:
  assumes "older_database db"
  shows "\<exists>cols rows. migrate u db ''schema_migrations'' = Some (cols, rows) \<and> list_ex (\<lambda>r. column cols ''version'' r = Some (SqlInteger 1)) rows"
proof -
  let ?c = "fold (\<lambda>(name, cols) db. create_table name cols db) schema db"
  have same: "migrate u db ''schema_migrations'' = record_version u ?c ''schema_migrations''"
    by (simp add: migrate_def Let_def ensure_is ensure_workspace_status_columns_def ensure_session_state_columns_def
        ensure_pane_activity_columns_def add_missing_other)
  have "''version'' \<in> set cols" if "db ''schema_migrations'' = Some (cols, rows)" for cols rows
  proof -
    have "(''schema_migrations'', [''version'', ''applied_at'']) \<in> set first_columns" by (simp add: first_columns_def)
    then show ?thesis using assms that unfolding older_database_def by fastforce
  qed
  then have "\<exists>cols rows. ?c ''schema_migrations'' = Some (cols, rows) \<and> ''version'' \<in> set cols"
    unfolding older_database_def created by (auto simp: schema_def split: option.splits)
  then obtain cols rows where c: "?c ''schema_migrations'' = Some (cols, rows)" "''version'' \<in> set cols" by blast
  have "column cols ''version'' (map (\<lambda>c. if c = ''version'' then SqlInteger 1 else SqlInteger (u * 1000)) cols) = Some (SqlInteger 1)"
    using c(2) by (simp add: column_def map_of_zip_map)
  then show ?thesis using c unfolding same record_version_def by (auto simp: list_ex_iff)
qed

lemma current_migrated: "older_database db \<Longrightarrow> current (migrate u db)"
proof -
  assume old: "older_database db"
  have "migrate u db name \<noteq> None" if "(name, cols) \<in> set schema" for name cols
    using that unfolding migrate_some batch_info by (force simp: map_of_eq_None_iff)
  moreover have "set (added_columns name) \<subseteq> set (table_info (migrate u db) name)" if "name \<in> set (map fst schema)" for name
    using migrate_info [OF that] by blast
  note this [of "''workspaces''"] this [of "''session_state''"] this [of "''pane_activity''"]
  ultimately show ?thesis
    using version_recorded [OF old, of u] unfolding current_def list_all_iff
    by (auto simp: schema_def added_columns_def simp del: not_None_eq)
qed

text \<open>C32. Migrating a database of any older version (each table that exists has at least the columns it was first
  created with, whichever of the later ones) loses no row and no value, gives every table all the columns that
  the statements of the store use, and migrating again changes nothing.\<close>

theorem migrate_contract:
  assumes "older_database db"
  shows "database_extends db (migrate u db)
    \<and> (\<forall>(name, used)\<in>set used_columns. \<exists>cols rows. migrate u db name = Some (cols, rows) \<and> set used \<subseteq> set cols
         \<and> (\<forall>r\<in>set rows. length r = length cols))
    \<and> migrate u' (migrate u db) = migrate u db"
proof -
  have fit: "rows_fit db" using assms unfolding older_database_def rows_fit_def by blast
  have grown: "rows_fit (migrate u db)" "database_extends db (migrate u db)" using grows_migrate fit unfolding grows_def by blast+
  have "\<exists>cols rows. migrate u db name = Some (cols, rows) \<and> set used \<subseteq> set cols \<and> (\<forall>r\<in>set rows. length r = length cols)"
    if "(name, used) \<in> set used_columns" for name used
  proof -
    note columns = migrate_columns [OF assms that, of u]
    obtain cols rows where t: "migrate u db name = Some (cols, rows)" using columns(1) by fastforce
    then have "set used \<subseteq> set cols" using columns(2) by (simp add: table_info_def)
    then show ?thesis using t grown(1) unfolding rows_fit_def by blast
  qed
  then show ?thesis using grown(2) migrate_current [OF current_migrated [OF assms]] by blast
qed

definition old_sessions :: database where
  "old_sessions = [''session_state'' \<mapsto>
     ([''pane_id'', ''workspace_id'', ''session_id'', ''kind'', ''cwd'', ''command'', ''state'', ''exit_code'', ''buffer'', ''updated_at''],
      [[SqlText [65], SqlText [66], SqlText [67], SqlText (bytes ''shell''), SqlText [], SqlText [], SqlText (bytes ''live''), SqlNull,
        SqlText [], SqlInteger 5]])]"

theorem migrate_contract_witness:
  "\<exists>cols rows. migrate 9 old_sessions ''session_state'' = Some (cols, rows) \<and> ''inner_session_id'' \<in> set cols
    \<and> (\<exists>r\<in>set rows. column cols ''pane_id'' r = Some (SqlText [65]))"
proof -
  have old: "older_database old_sessions"
    by (simp add: older_database_def old_sessions_def first_columns_def)
  have used: "(''session_state'', session_columns) \<in> set used_columns" by (simp add: used_columns_def)
  obtain cols rows where t: "migrate 9 old_sessions ''session_state'' = Some (cols, rows)" "set session_columns \<subseteq> set cols"
    using migrate_contract [OF old, of 9] used by blast
  have "database_extends old_sessions (migrate 9 old_sessions)" using migrate_contract [OF old, of 9] by blast
  moreover have "old_sessions ''session_state'' \<noteq> None" by (simp add: old_sessions_def)
  ultimately have "table_extends (the (old_sessions ''session_state'')) (cols, rows)"
    using t(1) unfolding database_extends_def by fastforce
  then have "\<exists>r\<in>set rows. column cols ''pane_id'' r = Some (SqlText [65])"
    by (auto simp: table_extends_def old_sessions_def list_all2_Cons1 column_def)
  then show ?thesis using t by (intro exI [of _ cols] exI [of _ rows]) (auto simp: session_columns_def)
qed

end
