(* ===== verification/Jj.thy ===== *)
theory Jj
  imports Store_Codecs Rust_Text
begin

section \<open>The front end of Jujutsu (\<open>octty-jj/src/lib.rs\<close>)\<close>

text \<open>
  The workspaces of a repository are found, and their status is read, by running the program \<open>jj\<close>. What it
  answers is a parameter: \<open>jj_command\<close> takes the directory, the arguments and the state of the world, so that
  the order of the commands is part of the model; \<open>jj_canonicalize\<close> is \<open>tokio::fs::canonicalize\<close>. A path is
  its text: the error of a path that is not UTF-8 does not occur. An operation returns an error or a
  result, and the world after its commands.
\<close>

subsection \<open>Text\<close>

definition EFFECTIVE_WORKSPACE_REVSET :: rtext where
  "EFFECTIVE_WORKSPACE_REVSET = bytes ''coalesce(@ ~ empty(), @-)''"
definition DISPLAY_BOOKMARK_REVSET :: rtext where
  "DISPLAY_BOOKMARK_REVSET = bytes ''heads(first_ancestors(coalesce(@ ~ empty(), @-)) & bookmarks())''"
definition CONFLICTED_WORKSPACE_REVSET :: rtext where
  "CONFLICTED_WORKSPACE_REVSET = bytes ''coalesce(@ ~ empty(), @-) & conflicts()''"
definition DEFAULT_WORKSPACE_REVSET :: rtext where
  "DEFAULT_WORKSPACE_REVSET = bytes ''present(default@)''"
definition LOCAL_AHEAD_REVSET :: rtext where
  "LOCAL_AHEAD_REVSET = bytes ''default@..@ ~ empty()''"
definition LOCAL_BEHIND_REVSET :: rtext where
  "LOCAL_BEHIND_REVSET = bytes ''@..default@ ~ empty()''"

record discovered_workspace =
  dw_name :: rtext
  dw_target :: rtext

datatype jj_error = JjCommand rtext | JjIo

definition parse_workspace_list_output :: "rtext \<Rightarrow> discovered_workspace list" where
  "parse_workspace_list_output output = List.map_filter
     (\<lambda>line. case split_once 9 line of
        None \<Rightarrow> None
      | Some (name, target) \<Rightarrow>
          let workspace_name = trim name in
          if workspace_name = [] then None else Some \<lparr>dw_name = workspace_name, dw_target = trim target\<rparr>)
     (str_lines output)"

definition is_stale_workspace_error :: "rtext \<Rightarrow> bool" where
  "is_stale_workspace_error message \<longleftrightarrow>
     contains (bytes ''working copy is stale'') message \<and> contains (bytes ''jj workspace update-stale'') message"

record diff_stats =
  df_added :: i64
  df_removed :: i64

definition count_line :: "rtext \<Rightarrow> diff_stats \<Rightarrow> diff_stats" where
  "count_line line stats =
     (if prefix (bytes ''+++'') line \<or> prefix (bytes ''---'') line then stats
      else if prefix (bytes ''+'') line then stats\<lparr>df_added := df_added stats + 1\<rparr>
      else if prefix (bytes ''-'') line then stats\<lparr>df_removed := df_removed stats + 1\<rparr>
      else stats)"

definition summarize_unified_diff :: "rtext \<Rightarrow> diff_stats" where
  "summarize_unified_diff diff = fold count_line (str_lines diff) \<lparr>df_added = 0, df_removed = 0\<rparr>"

definition parse_count :: "rtext \<Rightarrow> i64" where
  "parse_count output = (case parse_i64 (trim output) of Some n \<Rightarrow> n | None \<Rightarrow> 0)"

definition parse_bookmarks :: "rtext \<Rightarrow> rtext list" where
  "parse_bookmarks output = filter (\<lambda>v. v \<noteq> []) (map trim (split_on 44 (trim output)))"

definition classify_bookmark_relation :: "rtext list \<Rightarrow> rtext list \<Rightarrow> workspace_bookmark_relation" where
  "classify_bookmark_relation exact displayed =
     (if exact \<noteq> [] then BookmarkExact else if displayed \<noteq> [] then BookmarkAbove else BookmarkNone)"

definition in_sync :: "baseline_relation \<Rightarrow> bool" where
  "in_sync rel \<longleftrightarrow> br_ahead rel = 0 \<and> br_behind rel = 0"

fun classify_workspace_state :: "bool \<Rightarrow> baseline_relation_target \<Rightarrow> baseline_relation option \<Rightarrow> workspace_state" where
  "classify_workspace_state True _ _ = Conflicted"
| "classify_workspace_state False TargetRemote (Some rel) = (if in_sync rel then Published else Draft)"
| "classify_workspace_state False TargetLocal (Some rel) = (if in_sync rel then MergedLocal else Draft)"
| "classify_workspace_state False _ _ = UnknownState"

definition primary_relation :: "rtext \<Rightarrow> baseline_relation option \<Rightarrow> baseline_relation option \<Rightarrow> baseline_relation_target" where
  "primary_relation workspace_name local remote =
     (if workspace_name = bytes ''default'' \<and> remote \<noteq> None then TargetRemote
      else if local \<noteq> None then TargetLocal
      else if remote \<noteq> None then TargetRemote
      else TargetNone)"

definition revset_string_literal :: "rtext \<Rightarrow> rtext" where
  "revset_string_literal v = [34] @ replace_str [34] [92, 34] (replace_str [92] [92, 92] v) @ [34]"

definition workspace_id_for :: "rtext \<Rightarrow> rtext \<Rightarrow> rtext" where
  "workspace_id_for root_path workspace_name =
     bytes ''workspace-'' @ hex16 (fnv_hash (utf8 root_path @ [0] @ utf8 workspace_name))"

definition MISSING_WORKSPACE_PATH_PREFIX :: rtext where
  "MISSING_WORKSPACE_PATH_PREFIX = bytes ''jj-missing://''"

definition encode_missing_workspace_path :: "rtext \<Rightarrow> rtext" where
  "encode_missing_workspace_path workspace_name = MISSING_WORKSPACE_PATH_PREFIX @ workspace_name"

definition has_recorded_workspace_path :: "rtext \<Rightarrow> bool" where
  "has_recorded_workspace_path path \<longleftrightarrow> \<not> prefix MISSING_WORKSPACE_PATH_PREFIX path"

subsection \<open>Commands\<close>

text \<open>The outcome of a process: it cannot be started, or ends with success or not and its two outputs.\<close>

datatype jj_outcome = NotStarted | Finished bool "u8 list" "u8 list"

record 's jj_ops =
  jj_command :: "rtext \<Rightarrow> rtext list \<Rightarrow> 's \<Rightarrow> jj_outcome \<times> 's"
  jj_canonicalize :: "rtext \<Rightarrow> rtext option"
  jj_now :: "'s \<Rightarrow> i64 \<times> 's"

type_synonym ('s, 'a) jj = "('s, jj_error, 'a) action"

definition run_jj :: "'s jj_ops \<Rightarrow> rtext \<Rightarrow> rtext list \<Rightarrow> ('s, rtext) jj" where
  "run_jj J cwd args = (\<lambda>s.
     case jj_command J cwd args s of
       (NotStarted, s') \<Rightarrow> (Inl JjIo, s')
     | (Finished success out err, s') \<Rightarrow>
         (if success then Inr (from_utf8_lossy out) else Inl (JjCommand (from_utf8_lossy err)), s'))"

definition with_stale_retry :: "'s jj_ops \<Rightarrow> rtext \<Rightarrow> rtext list \<Rightarrow> ('s, rtext) jj" where
  "with_stale_retry J path args =
     act_bind (act_try (run_jj J path args)) (\<lambda>result.
       case result of
         Inl (JjCommand message) \<Rightarrow>
           if is_stale_workspace_error message
           then act_bind (run_jj J path [bytes ''workspace'', bytes ''update-stale'']) (\<lambda>_. run_jj J path args)
           else (\<lambda>s. (result, s))
       | _ \<Rightarrow> (\<lambda>s. (result, s)))"

definition canonicalize :: "'s jj_ops \<Rightarrow> rtext \<Rightarrow> ('s, rtext) jj" where
  "canonicalize J path = (\<lambda>s. (case jj_canonicalize J path of Some p \<Rightarrow> Inr p | None \<Rightarrow> Inl JjIo, s))"

definition resolve_repo_root :: "'s jj_ops \<Rightarrow> rtext \<Rightarrow> ('s, rtext) jj" where
  "resolve_repo_root J path =
     act_bind (with_stale_retry J path [bytes ''root'', bytes ''-R'', path]) (\<lambda>root. canonicalize J (trim root))"

definition create_workspace :: "'s jj_ops \<Rightarrow> rtext \<Rightarrow> rtext \<Rightarrow> rtext \<Rightarrow> ('s, unit) jj" where
  "create_workspace J root_path destination workspace_name =
     act_bind (run_jj J root_path [bytes ''workspace'', bytes ''add'', bytes ''-R'', root_path, bytes ''--name'', workspace_name, destination])
       (\<lambda>_. act_return ())"

definition jj_rename_workspace :: "'s jj_ops \<Rightarrow> rtext \<Rightarrow> rtext \<Rightarrow> ('s, unit) jj" where
  "jj_rename_workspace J path workspace_name =
     act_bind (run_jj J path [bytes ''workspace'', bytes ''rename'', workspace_name]) (\<lambda>_. act_return ())"

definition forget_workspace :: "'s jj_ops \<Rightarrow> rtext \<Rightarrow> rtext \<Rightarrow> ('s, unit) jj" where
  "forget_workspace J root_path workspace_name =
     act_bind (run_jj J root_path [bytes ''workspace'', bytes ''forget'', bytes ''-R'', root_path, workspace_name]) (\<lambda>_. act_return ())"

definition workspace_path :: "'s jj_ops \<Rightarrow> rtext \<Rightarrow> rtext \<Rightarrow> ('s, rtext) jj" where
  "workspace_path J root_path workspace_name =
     act_bind (run_jj J root_path [bytes ''workspace'', bytes ''root'', bytes ''-R'', root_path, bytes ''--name'', workspace_name])
       (\<lambda>output. canonicalize J (trim output))"

definition current_workspace_path :: "'s jj_ops \<Rightarrow> rtext \<Rightarrow> ('s, rtext) jj" where
  "current_workspace_path J root_path =
     act_bind (run_jj J root_path [bytes ''workspace'', bytes ''root'', bytes ''-R'', root_path]) (\<lambda>output. canonicalize J (trim output))"

definition current_workspace_change_id :: "'s jj_ops \<Rightarrow> rtext \<Rightarrow> ('s, rtext) jj" where
  "current_workspace_change_id J root_path =
     act_bind (run_jj J root_path [bytes ''log'', bytes ''-R'', root_path, bytes ''-r'', bytes ''@'', bytes ''--no-graph'', bytes ''-T'',
        bytes ''change_id.short()''])
       (\<lambda>output. act_return (trim output))"

subsection \<open>Finding the workspaces\<close>

text \<open>The path that is recorded, that of the current workspace when it is the same change, or a placeholder.\<close>

definition entry_path ::
  "'s jj_ops \<Rightarrow> rtext \<Rightarrow> rtext option \<Rightarrow> rtext option \<Rightarrow> discovered_workspace \<Rightarrow> ('s, rtext) jj" where
  "entry_path J root_path current_id current_path entry =
     act_bind (act_try (workspace_path J root_path (dw_name entry))) (\<lambda>result.
       act_return
         (case result of
            Inr path \<Rightarrow> path
          | Inl _ \<Rightarrow>
              (case (if current_id = Some (dw_target entry) then current_path else None) of
                 Some path \<Rightarrow> path
               | None \<Rightarrow> encode_missing_workspace_path (dw_name entry))))"

definition workspace_summary_of :: "rtext \<Rightarrow> rtext \<Rightarrow> rtext \<Rightarrow> rtext \<Rightarrow> rtext \<Rightarrow> workspace_summary" where
  "workspace_summary_of root_id root_path label name path =
     \<lparr>wm_id = workspace_id_for root_path name, wm_root_id = root_id, wm_root_path = root_path, wm_project_display_name = label,
      wm_workspace_name = name, wm_display_name = name, wm_workspace_path = path, wm_status = workspace_status_default,
      wm_created_at = 0, wm_updated_at = 0, wm_last_opened_at = 0\<rparr>"

fun summarize_entries ::
  "'s jj_ops \<Rightarrow> rtext \<Rightarrow> rtext \<Rightarrow> rtext \<Rightarrow> rtext option \<Rightarrow> rtext option \<Rightarrow> discovered_workspace list
    \<Rightarrow> ('s, workspace_summary list) jj" where
  "summarize_entries J root_id label root_path current_id current_path [] = act_return []"
| "summarize_entries J root_id label root_path current_id current_path (entry # entries) =
     act_bind (entry_path J root_path current_id current_path entry) (\<lambda>path.
     act_bind (summarize_entries J root_id label root_path current_id current_path entries) (\<lambda>rest.
     act_return (workspace_summary_of root_id root_path label (dw_name entry) path # rest)))"

definition to_option :: "'e + 'a \<Rightarrow> 'a option" where
  "to_option r = (case r of Inr x \<Rightarrow> Some x | Inl _ \<Rightarrow> None)"

text \<open>The root's identifier, path and display name.\<close>

definition discover_workspaces :: "'s jj_ops \<Rightarrow> rtext \<Rightarrow> rtext \<Rightarrow> rtext \<Rightarrow> ('s, workspace_summary list) jj" where
  "discover_workspaces J root_id path label =
     act_bind (canonicalize J path) (\<lambda>root_path.
     act_bind (run_jj J root_path [bytes ''workspace'', bytes ''list'', bytes ''-R'', root_path, bytes ''--template'',
        bytes ''name ++ '' @ [34, 9, 34] @ bytes '' ++ target.change_id().short() ++ '' @ [34, 92, 110, 34]]) (\<lambda>output.
     act_bind (act_try (current_workspace_change_id J root_path)) (\<lambda>current_id.
     act_bind (act_try (current_workspace_path J root_path)) (\<lambda>current_path.
     summarize_entries J root_id label root_path (to_option current_id) (to_option current_path)
       (parse_workspace_list_output output)))))"

subsection \<open>Reading the status\<close>

definition count_revset :: "'s jj_ops \<Rightarrow> rtext \<Rightarrow> rtext \<Rightarrow> ('s, i64) jj" where
  "count_revset J path revset =
     act_bind (with_stale_retry J path [bytes ''log'', bytes ''-r'', revset, bytes ''--count'']) (\<lambda>output. act_return (parse_count output))"

definition read_baseline :: "'s jj_ops \<Rightarrow> rtext \<Rightarrow> rtext \<Rightarrow> rtext option \<Rightarrow> rtext \<Rightarrow> rtext \<Rightarrow> ('s, baseline_relation option) jj" where
  "read_baseline J path target_name detail_name ahead_revset behind_revset =
     act_bind (count_revset J path ahead_revset) (\<lambda>ahead.
     act_bind (count_revset J path behind_revset) (\<lambda>behind.
     act_return (Some \<lparr>br_target_name = target_name, br_detail_name = detail_name, br_ahead = ahead, br_behind = behind\<rparr>)))"

definition local_relation :: "'s jj_ops \<Rightarrow> rtext \<Rightarrow> ('s, baseline_relation option) jj" where
  "local_relation J path =
     act_bind (count_revset J path DEFAULT_WORKSPACE_REVSET) (\<lambda>n.
       if n = 0 then act_return None
       else read_baseline J path (bytes ''Default'') (Some (bytes ''default@'')) LOCAL_AHEAD_REVSET LOCAL_BEHIND_REVSET)"

definition bookmark_revset :: "rtext \<Rightarrow> rtext" where
  "bookmark_revset bookmark = bytes ''tracked_remote_bookmarks(exact:'' @ revset_string_literal bookmark @ bytes '')''"

definition remote_bookmark_matches :: "rtext \<Rightarrow> rtext \<Rightarrow> rtext list" where
  "remote_bookmark_matches bookmark output = List.map_filter
     (\<lambda>line. case split_once 9 line of
        None \<Rightarrow> None
      | Some (name, remote) \<Rightarrow> if name = bookmark then Some (name @ [64] @ remote) else None)
     (str_lines output)"

definition remote_bookmark_detail :: "'s jj_ops \<Rightarrow> rtext \<Rightarrow> rtext \<Rightarrow> rtext \<Rightarrow> ('s, rtext option) jj" where
  "remote_bookmark_detail J path remote_revset bookmark =
     act_bind (with_stale_retry J path [bytes ''log'', bytes ''-r'', remote_revset, bytes ''-n'', bytes ''1'', bytes ''--no-graph'',
        bytes ''-T'', bytes ''remote_bookmarks.map(|b| b.name() ++ '' @ [34, 92, 116, 34] @ bytes '' ++ b.remote()).join('' @ [34, 92, 110, 34]
          @ bytes '') ++ '' @ [34, 92, 110, 34]]) (\<lambda>output.
     let matches = remote_bookmark_matches bookmark output in
     act_return (case find (\<lambda>name. \<not> suffix (bytes ''@git'') name) matches of
                  Some name \<Rightarrow> Some name
                | None \<Rightarrow> (case matches of name # _ \<Rightarrow> Some name | [] \<Rightarrow> None)))"

fun remote_relation :: "'s jj_ops \<Rightarrow> rtext \<Rightarrow> rtext list \<Rightarrow> ('s, baseline_relation option) jj" where
  "remote_relation J path (bookmark # bookmarks) =
     (let revset = bookmark_revset bookmark in
      act_bind (count_revset J path revset) (\<lambda>n.
        if n = 1 then
          act_bind (remote_bookmark_detail J path revset bookmark) (\<lambda>detail.
          read_baseline J path (bytes ''Remote'') (Some (case detail of Some d \<Rightarrow> d | None \<Rightarrow> bookmark_revset bookmark))
            (revset @ bytes ''..@ ~ empty()'') (bytes ''@..'' @ revset @ bytes '' ~ empty()''))
        else remote_relation J path bookmarks))"
| "remote_relation J path [] =
     act_bind (count_revset J path (bytes ''present(trunk()) ~ root()'')) (\<lambda>n.
       if n = 1 then
         read_baseline J path (bytes ''Remote'') (Some (bytes ''trunk()'')) (bytes ''trunk()..@ ~ empty()'') (bytes ''@..trunk() ~ empty()'')
       else act_return None)"

definition bookmark_query :: "rtext \<Rightarrow> rtext list" where
  "bookmark_query revset = [bytes ''log'', bytes ''-r'', revset, bytes ''-n'', bytes ''1'', bytes ''--no-graph'', bytes ''-T'',
     bytes ''bookmarks.map(|b| b.name()).join('' @ [34, 44, 34] @ bytes '') ++ '' @ [34, 92, 110, 34]]"

text \<open>The status from what the commands have answered.\<close>

definition workspace_status_of ::
  "i64 \<Rightarrow> rtext \<Rightarrow> rtext list \<Rightarrow> rtext list \<Rightarrow> rtext \<Rightarrow> i64 \<Rightarrow> baseline_relation option \<Rightarrow> baseline_relation option \<Rightarrow> workspace_status" where
  "workspace_status_of now_ms workspace_name exact displayed diff conflicted_count local remote =
     (let primary = primary_relation workspace_name local remote;
          baseline = (case primary of TargetLocal \<Rightarrow> local | TargetRemote \<Rightarrow> remote | TargetNone \<Rightarrow> None);
          has_conflicts = conflicted_count > 0 in
      workspace_status_default\<lparr>ws_state := classify_workspace_state has_conflicts primary baseline,
        ws_has_changes := trim diff \<noteq> [], ws_has_conflicts := has_conflicts, ws_local := local, ws_remote := remote,
        ws_primary := primary, ws_bookmarks := (if exact = [] then displayed else exact),
        ws_bookmark_relation := classify_bookmark_relation exact displayed, ws_recent_activity := now_ms, ws_diff_text := diff\<rparr>)"

definition clock :: "'s jj_ops \<Rightarrow> ('s, 'e, i64) action" where
  "clock J = (\<lambda>s. let (now, s') = jj_now J s in (Inr now, s'))"

definition read_workspace_status :: "'s jj_ops \<Rightarrow> rtext \<Rightarrow> rtext \<Rightarrow> ('s, workspace_status) jj" where
  "read_workspace_status J path workspace_name =
     act_bind (with_stale_retry J path (bookmark_query EFFECTIVE_WORKSPACE_REVSET)) (\<lambda>exact_output.
     act_bind (with_stale_retry J path (bookmark_query DISPLAY_BOOKMARK_REVSET)) (\<lambda>display_output.
     act_bind (with_stale_retry J path [bytes ''diff'', bytes ''-r'', bytes ''@'', bytes ''--git'', bytes ''--color=never'']) (\<lambda>diff.
     act_bind (count_revset J path CONFLICTED_WORKSPACE_REVSET) (\<lambda>conflicted_count.
     let exact = parse_bookmarks exact_output; displayed = parse_bookmarks display_output in
     act_bind (local_relation J path) (\<lambda>local.
     act_bind (remote_relation J path (if exact = [] then displayed else exact)) (\<lambda>remote.
     act_bind (clock J) (\<lambda>now_ms.
     act_return (workspace_status_of now_ms workspace_name exact displayed diff conflicted_count local remote))))))))"

end
