(* ===== verification/Bootstrap.thy ===== *)
theory Bootstrap
  imports Store Jj Control
begin

section \<open>Loading and changing the workspaces (\<open>octty-app/src/bootstrap.rs\<close>, \<open>app_workspace_status.rs\<close>)\<close>

text \<open>
  The application's side of the store and of \<open>jj\<close>: what is shown at the start, and after each request to add,
  rename or remove a project or a workspace. The world is the store and what is outside (the state that \<open>jj\<close>,
  the file system and the clock depend on); \<open>app_env\<close> collects the parameters. Each operation of the store
  asks \<open>ae_fault\<close> whether the database fails in it. A request is one sequence of these steps: what other tasks
  do while it waits is not part of it. Error messages are constructors.
\<close>

subsection \<open>The world\<close>

record 's world =
  wo_outside :: 's
  wo_store :: store

record 's app_env =
  ae_jj :: "'s jj_ops"
  ae_bookmarks :: bookmark_codec
  ae_snapshots :: snapshot_codec
  ae_unixtime :: "'s \<Rightarrow> i64 \<times> 's"
  ae_fault :: "'s \<Rightarrow> nat option \<times> 's"
  ae_current_dir :: "rtext option"
  ae_home :: "rtext option"
  ae_create_dir :: "rtext \<Rightarrow> 's \<Rightarrow> bool \<times> 's"
  ae_exists :: "rtext \<Rightarrow> 's \<Rightarrow> bool option \<times> 's"
  ae_remove_dir :: "rtext \<Rightarrow> 's \<Rightarrow> bool \<times> 's"
  ae_sessions :: "'s \<Rightarrow> session_info list option \<times> 's"

datatype app_error =
  AppStore store_error | AppJj jj_error | AppIo | AppTerminal | WorkspaceNotFound | PathNotAvailable
  | AlreadyExists rtext | NoUnusedName | PathNotRecorded rtext | RefusedRoot rtext

type_synonym ('s, 'a) app = "('s world, app_error, 'a) action"

definition outside :: "('s \<Rightarrow> 'a \<times> 's) \<Rightarrow> ('s, 'a) app" where
  "outside f = (\<lambda>w. let (x, s) = f (wo_outside w) in (Inr x, w\<lparr>wo_outside := s\<rparr>))"

definition in_jj :: "('s, 'a) jj \<Rightarrow> ('s, 'a) app" where
  "in_jj m = (\<lambda>w. case m (wo_outside w) of
     (Inl e, s) \<Rightarrow> (Inl (AppJj e), w\<lparr>wo_outside := s\<rparr>) | (Inr x, s) \<Rightarrow> (Inr x, w\<lparr>wo_outside := s\<rparr>))"

definition read_store :: "(store \<Rightarrow> store_error + 'a) \<Rightarrow> ('s, 'a) app" where
  "read_store f = (\<lambda>w. (case f (wo_store w) of Inl e \<Rightarrow> Inl (AppStore e) | Inr x \<Rightarrow> Inr x, w))"

definition change_store :: "'s app_env \<Rightarrow> (nat option \<Rightarrow> store \<Rightarrow> store \<times> store_error option) \<Rightarrow> ('s, unit) app" where
  "change_store E f = act_bind (outside (ae_fault E)) (\<lambda>fault w.
     let (st, e) = f fault (wo_store w) in
     (case e of Some e \<Rightarrow> Inl (AppStore e) | None \<Rightarrow> Inr (), w\<lparr>wo_store := st\<rparr>))"

definition now_ms :: "'s app_env \<Rightarrow> ('s, i64) app" where
  "now_ms E = outside (jj_now (ae_jj E))"

subsection \<open>Paths and names\<close>

text \<open>\<open>Path::file_name\<close>: the last component, unless it is \<open>..\<close>.\<close>

definition path_file_name :: "rtext \<Rightarrow> rtext option" where
  "path_file_name p =
     (let cs = filter (\<lambda>c. c \<noteq> [] \<and> c \<noteq> [46]) (split_on 47 p) in
      if cs = [] \<or> last cs = [46, 46] then None else Some (last cs))"

definition path_join :: "rtext \<Rightarrow> rtext \<Rightarrow> rtext" where
  "path_join p q = (if prefix [47] q then q else if p = [] \<or> last p = 47 then p @ q else p @ [47] @ q)"

definition repo_name :: "rtext \<Rightarrow> rtext" where
  "repo_name p = (case path_file_name p of Some n \<Rightarrow> n | None \<Rightarrow> bytes ''repo'')"

definition stable_project_root_id :: "rtext \<Rightarrow> rtext" where
  "stable_project_root_id root_path = bytes ''root-'' @ hex16 (fnv_hash (utf8 root_path))"

definition project_root_from_path :: "'s app_env \<Rightarrow> rtext \<Rightarrow> ('s, project_root) app" where
  "project_root_from_path E path = act_bind (now_ms E) (\<lambda>now. act_return
     \<lparr>pr_id = stable_project_root_id path, pr_root_path = path, pr_display_name = repo_name path, pr_created_at = now,
      pr_updated_at = now\<rparr>)"

definition default_workspace_directory :: "'s app_env \<Rightarrow> project_root \<Rightarrow> rtext" where
  "default_workspace_directory E r =
     path_join (path_join (case ae_home E of Some h \<Rightarrow> h | None \<Rightarrow> [46]) (bytes ''workspaces'')) (repo_name (pr_root_path r))"

text \<open>\<open>split_whitespace\<close>, and its words joined by spaces.\<close>

fun words_from :: "rtext \<Rightarrow> rtext \<Rightarrow> rtext list" where
  "words_from word [] = (if word = [] then [] else [rev word])"
| "words_from word (c # s) =
     (if is_whitespace c then (if word = [] then [] else [rev word]) @ words_from [] s else words_from (c # word) s)"

definition sanitize_display_name :: "rtext \<Rightarrow> rtext" where
  "sanitize_display_name input = join [32] (words_from [] input)"

definition display_name_or_workspace_name :: "workspace_summary \<Rightarrow> rtext" where
  "display_name_or_workspace_name w = (if wm_display_name w = [] then wm_workspace_name w else wm_display_name w)"

subsection \<open>Statuses (\<open>app_workspace_status.rs\<close>)\<close>

definition merge_jj_workspace_status :: "workspace_status \<Rightarrow> workspace_status \<Rightarrow> workspace_status" where
  "merge_jj_workspace_status existing jj_status =
     jj_status\<lparr>ws_unread_notes := ws_unread_notes existing, ws_active_agents := ws_active_agents existing,
       ws_attention := ws_attention existing\<rparr>"

definition reset_jj_workspace_status :: "i64 \<Rightarrow> workspace_status \<Rightarrow> workspace_status" where
  "reset_jj_workspace_status now existing =
     workspace_status_default\<lparr>ws_unread_notes := ws_unread_notes existing, ws_active_agents := ws_active_agents existing,
       ws_attention := ws_attention existing, ws_recent_activity := now\<rparr>"

definition current_status :: "'s app_env \<Rightarrow> workspace_summary \<Rightarrow> ('s, workspace_status) app" where
  "current_status E w =
     (if has_recorded_workspace_path (wm_workspace_path w)
      then act_bind (in_jj (read_workspace_status (ae_jj E) (wm_workspace_path w) (wm_workspace_name w))) (\<lambda>st.
        act_return (merge_jj_workspace_status (wm_status w) st))
      else act_bind (now_ms E) (\<lambda>now. act_return (reset_jj_workspace_status now (wm_status w))))"

definition refresh_workspace_status :: "'s app_env \<Rightarrow> workspace_summary \<Rightarrow> ('s, workspace_summary) app" where
  "refresh_workspace_status E w =
     act_bind (current_status E w) (\<lambda>status.
     act_bind (now_ms E) (\<lambda>now.
     let new = w\<lparr>wm_status := status, wm_updated_at := now\<rparr> in
     act_bind (change_store E (\<lambda>fault. upsert_workspace (ae_bookmarks E) fault new)) (\<lambda>_. act_return new)))"

subsection \<open>Loading everything\<close>

datatype load_warning = StatusFailed rtext app_error | DiscoveryFailed rtext app_error

record bootstrap_state =
  bs_status :: rtext
  bs_roots :: "project_root list"
  bs_workspaces :: "workspace_summary list"
  bs_active :: "usize option"
  bs_snapshot :: "workspace_snapshot option"
  bs_activity :: "pane_activity list"

text \<open>A workspace that has been discovered, with what the store remembers of it.\<close>

definition remembered :: "(rtext \<Rightarrow> workspace_summary option) \<Rightarrow> i64 \<Rightarrow> workspace_summary \<Rightarrow> workspace_summary" where
  "remembered existing now w =
     (let w = (case existing (wm_id w) of
                 Some old \<Rightarrow> w\<lparr>wm_display_name := wm_display_name old, wm_created_at := wm_created_at old,
                                 wm_last_opened_at := wm_last_opened_at old\<rparr>
               | None \<Rightarrow> if wm_created_at w = 0 then w\<lparr>wm_created_at := now\<rparr> else w)
      in w\<lparr>wm_updated_at := now\<rparr>)"

definition bootstrap_workspace ::
  "'s app_env \<Rightarrow> (rtext \<Rightarrow> workspace_summary option) \<Rightarrow> workspace_summary \<Rightarrow> ('s, workspace_summary \<times> load_warning list) app" where
  "bootstrap_workspace E existing found =
     act_bind (now_ms E) (\<lambda>now.
     let w = remembered existing now found in
     act_bind (act_try (current_status E w)) (\<lambda>result.
     let (w, errors) = (case result of
           Inr status \<Rightarrow> (w\<lparr>wm_status := status\<rparr>, [])
         | Inl e \<Rightarrow> (w, [StatusFailed (wm_workspace_name w) e])) in
     act_bind (change_store E (\<lambda>fault. upsert_workspace (ae_bookmarks E) fault w)) (\<lambda>_.
     act_return (w, errors))))"

fun bootstrap_discovered ::
  "'s app_env \<Rightarrow> (rtext \<Rightarrow> workspace_summary option) \<Rightarrow> workspace_summary list
    \<Rightarrow> ('s, workspace_summary list \<times> load_warning list) app" where
  "bootstrap_discovered E existing [] = act_return ([], [])"
| "bootstrap_discovered E existing (d # ds) =
     act_bind (bootstrap_workspace E existing d) (\<lambda>(w, errors).
     act_bind (bootstrap_discovered E existing ds) (\<lambda>(ws, more).
     act_return (w # ws, errors @ more)))"

fun bootstrap_roots ::
  "'s app_env \<Rightarrow> (rtext \<Rightarrow> workspace_summary option) \<Rightarrow> project_root list
    \<Rightarrow> ('s, workspace_summary list \<times> load_warning list) app" where
  "bootstrap_roots E existing [] = act_return ([], [])"
| "bootstrap_roots E existing (r # rs) =
     act_bind (act_try (in_jj (discover_workspaces (ae_jj E) (pr_id r) (pr_root_path r) (pr_display_name r)))) (\<lambda>result.
     act_bind (case result of
         Inr discovered \<Rightarrow> bootstrap_discovered E existing discovered
       | Inl e \<Rightarrow> act_return ([], [DiscoveryFailed (pr_root_path r) e])) (\<lambda>(ws, errors).
     act_bind (bootstrap_roots E existing rs) (\<lambda>(ws', errors').
     act_return (ws @ ws', errors @ errors'))))"

definition seed_root :: "'s app_env \<Rightarrow> bool \<Rightarrow> project_root list \<Rightarrow> ('s, project_root list) app" where
  "seed_root E auto roots =
     (if roots = [] \<and> auto then
        (case ae_current_dir E of
           None \<Rightarrow> act_fail AppIo
         | Some dir \<Rightarrow>
             act_bind (act_try (in_jj (resolve_repo_root (ae_jj E) dir))) (\<lambda>result.
             case result of
               Inl _ \<Rightarrow> act_return roots
             | Inr root_path \<Rightarrow>
                 act_bind (project_root_from_path E root_path) (\<lambda>root.
                 act_bind (change_store E (\<lambda>fault. upsert_project_root fault root)) (\<lambda>_.
                 act_return (roots @ [root])))))
      else act_return roots)"

fun position :: "('a \<Rightarrow> bool) \<Rightarrow> 'a list \<Rightarrow> nat option" where
  "position p [] = None"
| "position p (x # xs) = (if p x then Some 0 else map_option Suc (position p xs))"

definition active_index :: "rtext option \<Rightarrow> workspace_summary list \<Rightarrow> usize option" where
  "active_index active_id ws =
     (if ws = [] then None
      else case Option.bind active_id (\<lambda>i. position (\<lambda>w. wm_id w = i) ws) of Some n \<Rightarrow> Some n | None \<Rightarrow> Some 0)"

definition load_workspace_snapshot :: "'s app_env \<Rightarrow> workspace_summary \<Rightarrow> ('s, workspace_snapshot) app" where
  "load_workspace_snapshot E w =
     act_bind (read_store (get_snapshot (ae_snapshots E) (wm_id w))) (\<lambda>stored.
     let fresh = act_bind (now_ms E) (\<lambda>now.
           let snap = create_default_snapshot now (wm_id w) in
           act_bind (change_store E (\<lambda>fault. save_snapshot (ae_snapshots E) fault snap)) (\<lambda>_. act_return snap)) in
     case stored of
       Some snap \<Rightarrow> if wn_version snap = LAYOUT_VERSION then act_return snap else fresh
     | None \<Rightarrow> fresh)"

definition load_message :: "workspace_summary list \<Rightarrow> load_warning list \<Rightarrow> rtext" where
  "load_message ws errors =
     (if ws = [] then bytes ''No project roots yet. Run from inside a JJ repo to auto-seed the first root.''
      else if errors = [] then bytes ''Loaded '' @ decimal (length ws) @ bytes '' JJ workspace(s).''
      else bytes ''Loaded '' @ decimal (length ws) @ bytes '' JJ workspace(s), with '' @ decimal (length errors)
        @ bytes '' refresh warning(s).'')"

definition by_id :: "workspace_summary list \<Rightarrow> rtext \<Rightarrow> workspace_summary option" where
  "by_id ws = map_of (rev (map (\<lambda>w. (wm_id w, w)) ws))"

text \<open>From the workspaces that have been found: what is stored when there are none, the active one, its layout, the activities.\<close>

definition finish_bootstrap ::
  "'s app_env \<Rightarrow> rtext option \<Rightarrow> project_root list \<Rightarrow> workspace_summary list \<Rightarrow> load_warning list \<Rightarrow> ('s, bootstrap_state) app" where
  "finish_bootstrap E active_id roots found errors =
     act_bind (if found = [] then read_store (list_workspaces (ae_bookmarks E)) else act_return found) (\<lambda>ws.
     act_bind (case active_index active_id ws of
         Some i \<Rightarrow> act_bind (load_workspace_snapshot E (ws ! i)) (\<lambda>s. act_return (Some s))
       | None \<Rightarrow> act_return None) (\<lambda>snap.
     act_bind (read_store list_pane_activity) (\<lambda>activity.
     act_return \<lparr>bs_status = load_message ws errors, bs_roots = roots, bs_workspaces = ws,
       bs_active = active_index active_id ws, bs_snapshot = snap, bs_activity = activity\<rparr>)))"

definition load_bootstrap_from_store :: "'s app_env \<Rightarrow> bool \<Rightarrow> rtext option \<Rightarrow> ('s, bootstrap_state) app" where
  "load_bootstrap_from_store E auto active_id =
     act_bind (read_store list_project_roots) (\<lambda>stored_roots.
     act_bind (seed_root E auto stored_roots) (\<lambda>roots.
     act_bind (read_store (list_workspaces (ae_bookmarks E))) (\<lambda>existing.
     act_bind (bootstrap_roots E (by_id existing) roots) (\<lambda>result.
     finish_bootstrap E active_id roots (fst result) (snd result)))))"

subsection \<open>Requests\<close>

definition create_dir_all :: "'s app_env \<Rightarrow> rtext \<Rightarrow> ('s, unit) app" where
  "create_dir_all E path = act_bind (outside (ae_create_dir E path)) (\<lambda>done. if done then act_return () else act_fail AppIo)"

definition try_exists :: "'s app_env \<Rightarrow> rtext \<Rightarrow> ('s, bool) app" where
  "try_exists E path = act_bind (outside (ae_exists E path)) (\<lambda>r. case r of Some b \<Rightarrow> act_return b | None \<Rightarrow> act_fail AppIo)"

definition workspace_attempt :: "nat \<Rightarrow> rtext" where
  "workspace_attempt n = bytes ''workspace-'' @ decimal n"

text \<open>The loop over the attempts \<open>1..=200\<close>: \<open>n\<close> of them are left, the next is \<open>i\<close>.\<close>

fun unused_name :: "'s app_env \<Rightarrow> rtext \<Rightarrow> rtext set \<Rightarrow> nat \<Rightarrow> nat \<Rightarrow> ('s, rtext \<times> rtext) app" where
  "unused_name E base existing i 0 = act_fail NoUnusedName"
| "unused_name E base existing i (Suc n) =
     (let name = workspace_attempt i; destination = path_join base name in
      if name \<in> existing then unused_name E base existing (i + 1) n
      else act_bind (try_exists E destination) (\<lambda>taken.
        if taken then unused_name E base existing (i + 1) n else act_return (name, destination)))"

definition next_workspace_defaults :: "'s app_env \<Rightarrow> project_root \<Rightarrow> ('s, rtext \<times> rtext) app" where
  "next_workspace_defaults E r =
     (let base = default_workspace_directory E r in
      act_bind (create_dir_all E base) (\<lambda>_.
      act_bind (read_store (list_workspaces (ae_bookmarks E))) (\<lambda>ws.
      unused_name E base (set (map wm_workspace_name (filter (\<lambda>w. wm_root_id w = pr_id r) ws))) 1 200)))"

definition create_workspace_for_root_and_reload :: "'s app_env \<Rightarrow> project_root \<Rightarrow> ('s, bootstrap_state) app" where
  "create_workspace_for_root_and_reload E r =
     act_bind (next_workspace_defaults E r) (\<lambda>(name, destination).
     act_bind (in_jj (create_workspace (ae_jj E) (pr_root_path r) destination name)) (\<lambda>_.
     case jj_canonicalize (ae_jj E) (pr_root_path r) of
       None \<Rightarrow> act_fail AppIo
     | Some root_path \<Rightarrow> load_bootstrap_from_store E True (Some (workspace_id_for root_path name))))"

definition add_project_root_and_reload :: "'s app_env \<Rightarrow> rtext \<Rightarrow> rtext option \<Rightarrow> ('s, bootstrap_state) app" where
  "add_project_root_and_reload E selected_path active_id =
     act_bind (in_jj (resolve_repo_root (ae_jj E) selected_path)) (\<lambda>root_path.
     act_bind (project_root_from_path E root_path) (\<lambda>root.
     act_bind (change_store E (\<lambda>fault. upsert_project_root fault root)) (\<lambda>_.
     act_bind (act_try (in_jj (discover_workspaces (ae_jj E) (pr_id root) (pr_root_path root) (pr_display_name root)))) (\<lambda>result.
     load_bootstrap_from_store E True
       (case result of Inr (w # _) \<Rightarrow> Some (wm_id w) | _ \<Rightarrow> active_id)))))"

definition rename_project_root_and_reload :: "'s app_env \<Rightarrow> rtext \<Rightarrow> rtext \<Rightarrow> rtext option \<Rightarrow> ('s, bootstrap_state) app" where
  "rename_project_root_and_reload E root_id display_name active_id =
     act_bind (outside (ae_unixtime E)) (\<lambda>t.
     act_bind (change_store E (\<lambda>fault. update_project_root_display_name t fault root_id display_name)) (\<lambda>_.
     act_bind (outside (ae_unixtime E)) (\<lambda>t.
     act_bind (change_store E (\<lambda>fault. update_workspace_project_display_name t fault root_id display_name)) (\<lambda>_.
     load_bootstrap_from_store E True active_id))))"

definition rename_workspace_and_reload :: "'s app_env \<Rightarrow> rtext \<Rightarrow> rtext \<Rightarrow> rtext option \<Rightarrow> ('s, bootstrap_state) app" where
  "rename_workspace_and_reload E workspace_id display_name active_id =
     act_bind (read_store (list_workspaces (ae_bookmarks E))) (\<lambda>ws.
     case find (\<lambda>w. wm_id w = workspace_id) ws of
       None \<Rightarrow> act_fail WorkspaceNotFound
     | Some w \<Rightarrow>
         if \<not> has_recorded_workspace_path (wm_workspace_path w) then act_fail PathNotAvailable
         else
           let new_id = workspace_id_for (wm_root_path w) display_name in
           act_bind (read_store (list_workspaces (ae_bookmarks E))) (\<lambda>ws.
           if list_ex (\<lambda>v. wm_id v = new_id \<and> wm_id v \<noteq> workspace_id) ws then act_fail (AlreadyExists display_name)
           else
             act_bind (if display_name \<noteq> wm_workspace_name w
                       then in_jj (jj_rename_workspace (ae_jj E) (wm_workspace_path w) display_name) else act_return ()) (\<lambda>_.
             act_bind (outside (ae_unixtime E)) (\<lambda>t.
             act_bind (change_store E (\<lambda>fault.
               rename_workspace (ae_snapshots E) t fault workspace_id new_id display_name display_name)) (\<lambda>_.
             load_bootstrap_from_store E True (map_option (\<lambda>a. if a = workspace_id then new_id else a) active_id))))))"

definition remove_project_root_and_reload :: "'s app_env \<Rightarrow> rtext \<Rightarrow> rtext option \<Rightarrow> ('s, bootstrap_state) app" where
  "remove_project_root_and_reload E root_id active_id =
     act_bind (change_store E (\<lambda>fault. delete_project_root fault root_id)) (\<lambda>_. load_bootstrap_from_store E True active_id)"

definition canonical_or_given :: "'s app_env \<Rightarrow> rtext \<Rightarrow> rtext" where
  "canonical_or_given E p = (case jj_canonicalize (ae_jj E) p of Some q \<Rightarrow> q | None \<Rightarrow> p)"

definition delete_workspace_directory :: "'s app_env \<Rightarrow> workspace_summary \<Rightarrow> ('s, unit) app" where
  "delete_workspace_directory E w =
     (if \<not> has_recorded_workspace_path (wm_workspace_path w) then act_fail (PathNotRecorded (wm_workspace_name w))
      else
        let path = canonical_or_given E (wm_workspace_path w) in
        if path = canonical_or_given E (wm_root_path w) then act_fail (RefusedRoot (wm_workspace_name w))
        else act_bind (outside (ae_remove_dir E path)) (\<lambda>done. if done then act_return () else act_fail AppIo))"

definition forget_workspace_and_reload :: "'s app_env \<Rightarrow> workspace_summary \<Rightarrow> rtext option \<Rightarrow> bool \<Rightarrow> ('s, bootstrap_state) app" where
  "forget_workspace_and_reload E w active_id delete_directory =
     act_bind (in_jj (forget_workspace (ae_jj E) (wm_root_path w) (wm_workspace_name w))) (\<lambda>_.
     act_bind (if delete_directory then delete_workspace_directory E w else act_return ()) (\<lambda>_.
     act_bind (change_store E (\<lambda>fault. delete_workspace fault (wm_id w))) (\<lambda>_.
     load_bootstrap_from_store E True active_id)))"

subsection \<open>Reconciling activities\<close>

text \<open>\<open>terminal_spec_for_payload\<close> (\<open>terminal_lifecycle.rs\<close>), which \<open>reconcile_pane_activity\<close> writes out.\<close>

definition terminal_spec_for_payload :: "rtext \<Rightarrow> rtext \<Rightarrow> terminal_pane_payload \<Rightarrow> u16 \<Rightarrow> u16 \<Rightarrow> session_spec" where
  "terminal_spec_for_payload workspace_id pane_id payload cols rows =
     \<lparr>sp_workspace_id = workspace_id, sp_pane_id = pane_id, sp_kind = tp_kind payload, sp_cwd = tp_cwd payload,
      sp_command = tp_command payload, sp_parameters = tp_parameters payload, sp_handler = tp_handler payload,
      sp_inner_session_id = tp_inner_session_id payload, sp_on_exit = tp_on_exit payload, sp_cols = cols, sp_rows = rows\<rparr>"

type_synonym activity_map = "rtext \<times> rtext \<Rightarrow> pane_activity option"

definition pane_activity_map :: "pane_activity list \<Rightarrow> activity_map" where
  "pane_activity_map as = map_of (rev (map (\<lambda>a. ((pa_workspace_id a, pa_pane_id a), a)) as))"

text \<open>The panes of the workspaces that are not active, in the order of the two loops.\<close>

definition observed_panes :: "rtext option \<Rightarrow> workspace_snapshot list \<Rightarrow> (rtext \<times> rtext \<times> terminal_pane_payload) list" where
  "observed_panes active_id snaps =
     concat (map (\<lambda>s. List.map_filter (\<lambda>(pane_id, pane). case ps_payload pane of
         TerminalPayload payload \<Rightarrow> Some (wn_workspace_id s, pane_id, payload) | _ \<Rightarrow> None) (wn_panes s))
       (filter (\<lambda>s. active_id \<noteq> Some (wn_workspace_id s)) snaps))"

fun reconcile_panes ::
  "'s app_env \<Rightarrow> activity_map \<Rightarrow> (rtext \<times> rtext \<times> terminal_pane_payload) list \<Rightarrow> ('s, pane_activity list) app" where
  "reconcile_panes E known [] = act_return []"
| "reconcile_panes E known ((workspace_id, pane_id, payload) # panes) =
     act_bind (outside (ae_sessions E)) (\<lambda>listed.
     case listed of
       None \<Rightarrow> act_fail AppTerminal
     | Some sessions \<Rightarrow>
         (case retach_session_activity
                (stable_retach_session_name (terminal_spec_for_payload workspace_id pane_id payload 120 40)) sessions of
            None \<Rightarrow> reconcile_panes E known panes
          | Some act \<Rightarrow>
              act_bind (now_ms E) (\<lambda>now.
              let at_s = (case ra_window_activity_at_s act of Some t \<Rightarrow> Some t | None \<Rightarrow> ra_activity_at_s act);
                  old = (case known (workspace_id, pane_id) of Some a \<Rightarrow> a | None \<Rightarrow> activity_new workspace_id pane_id now);
                  new = record_tmux_observation now at_s None old in
              act_bind (reconcile_panes E (known((workspace_id, pane_id) \<mapsto> new)) panes) (\<lambda>rest. act_return (new # rest)))))"

definition reconcile_pane_activity :: "'s app_env \<Rightarrow> rtext option \<Rightarrow> ('s, pane_activity list) app" where
  "reconcile_pane_activity E active_id =
     act_bind (read_store list_pane_activity) (\<lambda>as.
     act_bind (read_store (list_snapshots (ae_snapshots E))) (\<lambda>snaps.
     act_bind (reconcile_panes E (pane_activity_map as) (observed_panes active_id snaps)) (\<lambda>updated.
     act_bind (change_store E (\<lambda>fault. upsert_pane_activities fault updated)) (\<lambda>_.
     act_return updated))))"

end
