(* ===== verification/App_Tasks.thy ===== *)
theory App_Tasks
  imports Bootstrap
begin

section \<open>Background tasks of the application (\<open>octty-app/src/app_activity.rs\<close>, \<open>app_workspace_status.rs\<close>, \<open>app_core.rs\<close>)\<close>

text \<open>
  Two jobs of the application run beside its event handlers. Recorded activities of panes are collected and
  written to the store after a delay; the status of a workspace is read again some time after its files
  have changed. The handlers and the pieces of a task between two \<open>await\<close>s run on one thread, each as one
  step; what a task has reached is a value. The steps of all tasks in any order are a relation.
\<close>

subsection \<open>Writing activities to the store\<close>

text \<open>A task waits for its timer, is writing a batch, or has the result of writing it.\<close>

datatype persist_task = PtWaiting | PtSaving activity_map | PtSaved

text \<open>The reconciliation has read the rows and observed the sessions, or has also written its result to the store.\<close>

datatype reconcile_task = RcObserved "pane_activity list" | RcWritten "pane_activity list"

text \<open>\<open>aa_db\<close>: the rows of \<open>pane_activity\<close>. \<open>aa_deletes\<close>: deletions that were started. \<open>aa_reconcile\<close>: the
  reconciliation that is under way. \<open>aa_reload\<close>: what a reload of everything has read and not yet used.\<close>

record activity_app =
  aa_known :: activity_map
  aa_pending :: activity_map
  aa_active :: bool
  aa_tasks :: "persist_task list"
  aa_deletes :: "(rtext \<times> rtext) list"
  aa_reconcile :: "reconcile_task option"
  aa_reload :: "activity_map option"
  aa_db :: activity_map

definition schedule_pane_activity_persistence :: "activity_app \<Rightarrow> activity_app" where
  "schedule_pane_activity_persistence st =
     (if aa_active st then st else st\<lparr>aa_active := True, aa_tasks := aa_tasks st @ [PtWaiting]\<rparr>)"

definition record_in :: "(pane_activity \<Rightarrow> pane_activity) \<Rightarrow> i64 \<Rightarrow> rtext \<Rightarrow> rtext \<Rightarrow> activity_app \<Rightarrow> activity_app" where
  "record_in f at_ms workspace_id pane_id st =
     (let key = (workspace_id, pane_id);
          a = f (case aa_known st key of Some a \<Rightarrow> a | None \<Rightarrow> activity_new workspace_id pane_id at_ms) in
      schedule_pane_activity_persistence
        (st\<lparr>aa_known := (aa_known st)(key \<mapsto> a), aa_pending := (aa_pending st)(key \<mapsto> a)\<rparr>))"

definition record_pane_seen :: "rtext \<Rightarrow> rtext \<Rightarrow> i64 \<Rightarrow> activity_app \<Rightarrow> activity_app" where
  "record_pane_seen workspace_id pane_id seen_at = record_in (record_seen seen_at) seen_at workspace_id pane_id"

definition record_pane_activity :: "rtext \<Rightarrow> rtext \<Rightarrow> i64 \<Rightarrow> i64 option \<Rightarrow> rtext option \<Rightarrow> activity_app \<Rightarrow> activity_app" where
  "record_pane_activity workspace_id pane_id at_ms tmux fingerprint =
     record_in (record_activity at_ms tmux fingerprint) at_ms workspace_id pane_id"

definition record_pane_attention :: "rtext \<Rightarrow> rtext \<Rightarrow> i64 \<Rightarrow> activity_app \<Rightarrow> activity_app" where
  "record_pane_attention workspace_id pane_id at_ms = record_in (record_attention at_ms) at_ms workspace_id pane_id"

definition delete_pane :: "rtext \<Rightarrow> rtext \<Rightarrow> activity_app \<Rightarrow> activity_app" where
  "delete_pane workspace_id pane_id st =
     (let key = (workspace_id, pane_id) in
      st\<lparr>aa_known := (aa_known st)(key := None), aa_pending := (aa_pending st)(key := None),
         aa_deletes := aa_deletes st @ [key]\<rparr>)"

text \<open>The timer has fired: the task takes what is pending, or ends.\<close>

definition take_pending :: "activity_app \<Rightarrow> activity_app \<times> persist_task list" where
  "take_pending st =
     (if aa_pending st = Map.empty then (st\<lparr>aa_active := False\<rparr>, [])
      else (st\<lparr>aa_pending := Map.empty\<rparr>, [PtSaving (aa_pending st)]))"

text \<open>The batch has been written, or not: the task waits again when more is pending.\<close>

definition after_save :: "activity_app \<Rightarrow> activity_app \<times> persist_task list" where
  "after_save st = (if aa_pending st = Map.empty then (st\<lparr>aa_active := False\<rparr>, []) else (st, [PtWaiting]))"

definition at_task :: "persist_task list \<Rightarrow> persist_task list \<Rightarrow> activity_app \<times> persist_task list \<Rightarrow> activity_app" where
  "at_task xs ys r = (fst r)\<lparr>aa_tasks := xs @ snd r @ ys\<rparr>"

text \<open>\<open>upsert_pane_activities\<close> of the rows for \<open>keys\<close>, all of them when nothing fails.\<close>

definition write_rows :: "(rtext \<times> rtext) set \<Rightarrow> activity_map \<Rightarrow> activity_app \<Rightarrow> activity_app" where
  "write_rows keys batch st = st\<lparr>aa_db := aa_db st ++ (batch |` keys)\<rparr>"

inductive recording :: "activity_app \<Rightarrow> activity_app \<Rightarrow> bool" where
  rec_seen: "recording st (record_pane_seen w p t st)"
| rec_activity: "recording st (record_pane_activity w p t tmux fp st)"
| rec_attention: "recording st (record_pane_attention w p t st)"

inductive persisting :: "activity_app \<Rightarrow> activity_app \<Rightarrow> bool" where
  per_wake: "aa_tasks st = xs @ PtWaiting # ys \<Longrightarrow> persisting st (at_task xs ys (take_pending st))"
| per_write: "aa_tasks st = xs @ PtSaving b # ys \<Longrightarrow> persisting st (at_task xs ys (write_rows (dom b) b st, [PtSaved]))"
| per_done: "aa_tasks st = xs @ PtSaved # ys \<Longrightarrow> persisting st (at_task xs ys (after_save st))"

text \<open>The three steps of the reconciliation, with an \<open>await\<close> between each and the next: \<open>as\<close> is the result of
  \<open>reconcile_panes\<close> on the rows that were read, it is written to the store, and then inserted in memory.\<close>

definition reconcile_read :: "pane_activity list \<Rightarrow> activity_app \<Rightarrow> activity_app" where
  "reconcile_read as st = st\<lparr>aa_reconcile := Some (RcObserved as)\<rparr>"

definition reconcile_write :: "(rtext \<times> rtext) set \<Rightarrow> pane_activity list \<Rightarrow> activity_app \<Rightarrow> activity_app" where
  "reconcile_write keys as st = (write_rows keys (pane_activity_map as) st)\<lparr>aa_reconcile := Some (RcWritten as)\<rparr>"

definition reconcile_apply :: "pane_activity list \<Rightarrow> activity_app \<Rightarrow> activity_app" where
  "reconcile_apply as st = st\<lparr>aa_reconcile := None, aa_known := aa_known st ++ pane_activity_map as\<rparr>"

text \<open>What a reload read replaces what is known; a rename gives the activities of a workspace its new identifier, in
  the two maps, but not in a batch that is being written.\<close>

definition reload_activities :: "activity_map \<Rightarrow> activity_app \<Rightarrow> activity_app" where
  "reload_activities m st = st\<lparr>aa_reload := None, aa_known := m\<rparr>"

definition rekey_pane_activity_map :: "rtext \<Rightarrow> rtext \<Rightarrow> activity_map \<Rightarrow> activity_map" where
  "rekey_pane_activity_map previous new m = (\<lambda>(w, p).
     if w = new \<and> m (previous, p) \<noteq> None then map_option (\<lambda>a. a\<lparr>pa_workspace_id := new\<rparr>) (m (previous, p))
     else if w = previous then None else m (w, p))"

definition rekey_activities :: "rtext \<Rightarrow> rtext \<Rightarrow> activity_app \<Rightarrow> activity_app" where
  "rekey_activities previous new st =
     (if previous = new then st
      else st\<lparr>aa_known := rekey_pane_activity_map previous new (aa_known st),
              aa_pending := rekey_pane_activity_map previous new (aa_pending st)\<rparr>)"

text \<open>The steps of everything else: a pane is closed, the database fails half way through a batch, the
  reconciliation of some panes, a workspace is renamed in the store and then in memory, and a reload.\<close>

inductive disturbing :: "activity_app \<Rightarrow> activity_app \<Rightarrow> bool" where
  dis_close: "disturbing st (delete_pane w p st)"
| dis_deleted: "aa_deletes st = xs @ k # ys \<Longrightarrow> disturbing st (st\<lparr>aa_deletes := xs @ ys, aa_db := (aa_db st)(k := None)\<rparr>)"
| dis_write_failed: "aa_tasks st = xs @ PtSaving b # ys \<Longrightarrow> keys \<subseteq> dom b \<Longrightarrow>
    disturbing st (at_task xs ys (write_rows keys b st, [PtSaved]))"
| dis_reconcile: "aa_reconcile st = None \<Longrightarrow> reconcile_panes (E :: unit app_env) (aa_db st) panes w = (Inr as, w') \<Longrightarrow>
    disturbing st (reconcile_read as st)"
| dis_reconcile_written: "aa_reconcile st = Some (RcObserved as) \<Longrightarrow>
    disturbing st (reconcile_write (dom (pane_activity_map as)) as st)"
| dis_reconcile_failed: "aa_reconcile st = Some (RcObserved as) \<Longrightarrow>
    disturbing st ((reconcile_write keys as st)\<lparr>aa_reconcile := None\<rparr>)"
| dis_reconciled: "aa_reconcile st = Some (RcWritten as) \<Longrightarrow> disturbing st (reconcile_apply as st)"
| dis_renamed: "disturbing st (st\<lparr>aa_db := rekey_pane_activity_map i j (aa_db st)\<rparr>)"
| dis_rekeyed: "disturbing st (rekey_activities i j st)"
| dis_reload: "disturbing st (st\<lparr>aa_reload := Some (aa_db st)\<rparr>)"
| dis_reloaded: "aa_reload st = Some m \<Longrightarrow> disturbing st (reload_activities m st)"

text \<open>The start: what the store has is known.\<close>

definition activity_start :: "activity_map \<Rightarrow> activity_app" where
  "activity_start db = \<lparr>aa_known = db, aa_pending = Map.empty, aa_active = False, aa_tasks = [], aa_deletes = [],
     aa_reconcile = None, aa_reload = None, aa_db = db\<rparr>"

inductive recorded_run :: "activity_map \<Rightarrow> activity_app \<Rightarrow> bool" for db where
  rr_start: "recorded_run db (activity_start db)"
| rr_record: "recorded_run db st \<Longrightarrow> recording st st' \<Longrightarrow> recorded_run db st'"
| rr_persist: "recorded_run db st \<Longrightarrow> persisting st st' \<Longrightarrow> recorded_run db st'"

inductive any_run :: "activity_map \<Rightarrow> activity_app \<Rightarrow> bool" for db where
  ar_start: "any_run db (activity_start db)"
| ar_record: "any_run db st \<Longrightarrow> recording st st' \<Longrightarrow> any_run db st'"
| ar_persist: "any_run db st \<Longrightarrow> persisting st st' \<Longrightarrow> any_run db st'"
| ar_disturb: "any_run db st \<Longrightarrow> disturbing st st' \<Longrightarrow> any_run db st'"

subsection \<open>Reading the status again\<close>

definition WORKSPACE_STATUS_REFRESH_DEBOUNCE :: nat where "WORKSPACE_STATUS_REFRESH_DEBOUNCE = 180"

text \<open>A task is at the top of its loop, sleeps until a time, or reads the status of its workspace.\<close>

datatype refresh_task = RtTop rtext | RtSleeping rtext nat | RtReading workspace_summary

record refresh_app =
  rs_now :: nat
  rs_workspaces :: "workspace_summary list"
  rs_due :: "rtext \<Rightarrow> nat option"
  rs_timer :: "rtext set"
  rs_suspended :: "rtext set"
  rs_watchers :: "rtext set"
  rs_tasks :: "refresh_task list"

definition schedule_workspace_status_refresh :: "rtext \<Rightarrow> refresh_app \<Rightarrow> refresh_app" where
  "schedule_workspace_status_refresh w st =
     (if w \<in> rs_suspended st then st
      else
        let st = st\<lparr>rs_due := (rs_due st)(w \<mapsto> rs_now st + WORKSPACE_STATUS_REFRESH_DEBOUNCE)\<rparr> in
        if w \<in> rs_timer st then st
        else st\<lparr>rs_timer := insert w (rs_timer st), rs_tasks := rs_tasks st @ [RtTop w]\<rparr>)"

definition suspend_workspace_status_refresh :: "rtext \<Rightarrow> refresh_app \<Rightarrow> refresh_app" where
  "suspend_workspace_status_refresh w st =
     st\<lparr>rs_suspended := insert w (rs_suspended st), rs_due := (rs_due st)(w := None), rs_timer := rs_timer st - {w},
       rs_watchers := rs_watchers st - {w}\<rparr>"

definition resume_workspace_status_refresh :: "rtext \<Rightarrow> refresh_app \<Rightarrow> refresh_app" where
  "resume_workspace_status_refresh w st = st\<lparr>rs_suspended := rs_suspended st - {w}\<rparr>"

text \<open>The top of the loop: how long to sleep, or the end of the task.\<close>

definition refresh_top :: "rtext \<Rightarrow> refresh_app \<Rightarrow> refresh_app \<times> refresh_task list" where
  "refresh_top w st =
     (case rs_due st w of
        Some due \<Rightarrow> (st, [RtSleeping w (rs_now st + (due - rs_now st))])
      | None \<Rightarrow> (st\<lparr>rs_timer := rs_timer st - {w}\<rparr>, []))"

text \<open>The task is ready: it stops its timer and starts to read, unless the workspace is suspended or gone.\<close>

definition refresh_ready :: "rtext \<Rightarrow> refresh_app \<Rightarrow> refresh_app \<times> refresh_task list" where
  "refresh_ready w st =
     (let st = st\<lparr>rs_timer := rs_timer st - {w}\<rparr> in
      (st, if w \<in> rs_suspended st then []
           else (case find (\<lambda>x. wm_id x = w) (rs_workspaces st) of Some x \<Rightarrow> [RtReading x] | None \<Rightarrow> [])))"

definition refresh_wake :: "rtext \<Rightarrow> refresh_app \<Rightarrow> refresh_app \<times> refresh_task list" where
  "refresh_wake w st =
     (case rs_due st w of
        Some due \<Rightarrow>
          if due > rs_now st then refresh_top w st
          else refresh_ready w (st\<lparr>rs_due := (rs_due st)(w := None)\<rparr>)
      | None \<Rightarrow> refresh_ready w st)"

text \<open>What \<open>refresh_workspace_status\<close> returned: an error is only printed.\<close>

definition refresh_done :: "workspace_summary option \<Rightarrow> refresh_app \<Rightarrow> refresh_app \<times> refresh_task list" where
  "refresh_done result st =
     (case result of
        Some x \<Rightarrow>
          (case position (\<lambda>y. wm_id y = wm_id x) (rs_workspaces st) of
             Some i \<Rightarrow> (st\<lparr>rs_workspaces := (rs_workspaces st)[i := x]\<rparr>, [])
           | None \<Rightarrow> (st, []))
      | None \<Rightarrow> (st, []))"

definition at_refresh :: "refresh_task list \<Rightarrow> refresh_task list \<Rightarrow> refresh_app \<times> refresh_task list \<Rightarrow> refresh_app" where
  "at_refresh xs ys r = (fst r)\<lparr>rs_tasks := xs @ snd r @ ys\<rparr>"

definition refresh_start :: "workspace_summary list \<Rightarrow> refresh_app" where
  "refresh_start ws = \<lparr>rs_now = 0, rs_workspaces = ws, rs_due = Map.empty, rs_timer = {}, rs_suspended = {}, rs_watchers = {}, rs_tasks = []\<rparr>"

inductive task_step :: "refresh_app \<Rightarrow> refresh_app \<Rightarrow> bool" where
  ts_top: "rs_tasks st = xs @ RtTop w # ys \<Longrightarrow> task_step st (at_refresh xs ys (refresh_top w st))"
| ts_wake: "rs_tasks st = xs @ RtSleeping w t # ys \<Longrightarrow> t \<le> rs_now st \<Longrightarrow> task_step st (at_refresh xs ys (refresh_wake w st))"
| ts_done: "rs_tasks st = xs @ RtReading x # ys \<Longrightarrow> (\<And>y. result = Some y \<Longrightarrow> wm_id y = wm_id x) \<Longrightarrow>
    task_step st (at_refresh xs ys (refresh_done result st))"

inductive refresh_run :: "workspace_summary list \<Rightarrow> refresh_app \<Rightarrow> bool" for ws where
  fr_start: "refresh_run ws (refresh_start ws)"
| fr_time: "refresh_run ws st \<Longrightarrow> refresh_run ws (st\<lparr>rs_now := rs_now st + d\<rparr>)"
| fr_change: "refresh_run ws st \<Longrightarrow> refresh_run ws (schedule_workspace_status_refresh w st)"
| fr_suspend: "refresh_run ws st \<Longrightarrow> refresh_run ws (suspend_workspace_status_refresh w st)"
| fr_resume: "refresh_run ws st \<Longrightarrow> refresh_run ws (resume_workspace_status_refresh w st)"
| fr_reload: "refresh_run ws st \<Longrightarrow> refresh_run ws (st\<lparr>rs_workspaces := ws', rs_watchers := watched\<rparr>)"
| fr_task: "refresh_run ws st \<Longrightarrow> task_step st st' \<Longrightarrow> refresh_run ws st'"

end
