(* ===== verification/Jj_Props.thy ===== *)
theory Jj_Props
  imports Jj
begin

section \<open>Properties of the front end of Jujutsu\<close>

text \<open>
  The listing that \<open>jj\<close> prints for the template is read back, so that discovering workspaces finds each of
  them whatever else fails; a status that is read is consistent in itself; and the text of a bookmark in a
  query is read back by the lexer of string literals as that bookmark.
\<close>

subsection \<open>Listing workspaces\<close>

text \<open>What \<open>jj workspace list\<close> prints for the template, and the entries that it can print unambiguously.\<close>

definition list_output :: "discovered_workspace list \<Rightarrow> rtext" where
  "list_output es = concat (map (\<lambda>e. dw_name e @ [9] @ dw_target e @ [10]) es)"

definition listable :: "discovered_workspace \<Rightarrow> bool" where
  "listable e \<longleftrightarrow> dw_name e \<noteq> [] \<and> trim (dw_name e) = dw_name e \<and> trim (dw_target e) = dw_target e
     \<and> 9 \<notin> set (dw_name e) \<and> 10 \<notin> set (dw_name e) \<and> 10 \<notin> set (dw_target e)
     \<and> list_all is_scalar (dw_name e) \<and> list_all is_scalar (dw_target e)"

lemma trim_last: "trim t = t \<Longrightarrow> t \<noteq> [] \<Longrightarrow> \<not> is_whitespace (last t)"
proof -
  assume t: "trim t = t" "t \<noteq> []"
  then have "rev t = dropWhile is_whitespace (rev (trim_start t))"
    unfolding trim_def trim_end_def by (metis rev_rev_ident)
  moreover have "rev t \<noteq> []" using t by simp
  ultimately have "\<not> is_whitespace (hd (rev t))" by (metis hd_dropWhile)
  then show ?thesis using t(2) by (simp add: hd_rev)
qed

lemma parse_list_output: "list_all listable es \<Longrightarrow> parse_workspace_list_output (list_output es) = es"
proof (induction es)
  case (Cons e es)
  let ?line = "dw_name e @ 9 # dw_target e"
  have e: "listable e" using Cons by simp
  have "last ?line \<noteq> 13"
    using e trim_last [of "dw_target e"] by (auto simp: listable_def is_whitespace_def)
  then have "str_lines (?line @ 10 # list_output es) = ?line # str_lines (list_output es)"
    using e by (subst str_lines_cons) (auto simp: listable_def)
  moreover have "split_once 9 ?line = Some (dw_name e, dw_target e)" using e by (intro split_once_at) (simp add: listable_def)
  ultimately show ?case
    using Cons e by (simp add: parse_workspace_list_output_def list_output_def map_filter_simps listable_def)
qed (simp add: parse_workspace_list_output_def list_output_def map_filter_simps)

definition list_args :: "rtext \<Rightarrow> rtext list" where
  "list_args root_path = [bytes ''workspace'', bytes ''list'', bytes ''-R'', root_path, bytes ''--template'',
     bytes ''name ++ '' @ [34, 9, 34] @ bytes '' ++ target.change_id().short() ++ '' @ [34, 92, 110, 34]]"

lemma discover_steps:
  "discover_workspaces J root_id path label =
     act_bind (canonicalize J path) (\<lambda>root_path. act_bind (run_jj J root_path (list_args root_path)) (\<lambda>output.
     act_bind (act_try (current_workspace_change_id J root_path)) (\<lambda>current_id.
     act_bind (act_try (current_workspace_path J root_path)) (\<lambda>current_path.
     summarize_entries J root_id label root_path (to_option current_id) (to_option current_path)
       (parse_workspace_list_output output)))))"
  unfolding discover_workspaces_def list_args_def by (rule refl)

text \<open>The paths that discovering can give a workspace.\<close>

definition path_found :: "'s jj_ops \<Rightarrow> workspace_summary \<Rightarrow> bool" where
  "path_found J w \<longleftrightarrow> wm_workspace_path w = encode_missing_workspace_path (wm_workspace_name w)
     \<or> (\<exists>p. jj_canonicalize J p = Some (wm_workspace_path w))"

lemma canonical_output:
  assumes "act_bind m (\<lambda>output. canonicalize J (trim output)) s = (Inr p, s')"
  shows "\<exists>q. jj_canonicalize J q = Some p"
  using assms by (auto simp: canonicalize_def split: prod.splits sum.splits option.splits)

lemma entry_path_found:
  assumes "\<And>p. current_path = Some p \<Longrightarrow> \<exists>q. jj_canonicalize J q = Some p"
  shows "\<exists>p s'. entry_path J root_path current_id current_path e s = (Inr p, s')
    \<and> (p = encode_missing_workspace_path (dw_name e) \<or> (\<exists>q. jj_canonicalize J q = Some p))"
proof -
  obtain r t where r: "workspace_path J root_path (dw_name e) s = (r, t)" by fastforce
  have "\<exists>q. jj_canonicalize J q = Some p" if "r = Inr p" for p
    using r that unfolding workspace_path_def by (intro canonical_output) simp
  then show ?thesis
    using r assms by (auto simp: entry_path_def split: sum.splits option.splits)
qed

lemma summarize_all:
  assumes "\<And>p. current_path = Some p \<Longrightarrow> \<exists>q. jj_canonicalize J q = Some p"
  shows "\<exists>ws s'. summarize_entries J root_id label root_path current_id current_path es s = (Inr ws, s')
    \<and> map wm_workspace_name ws = map dw_name es
    \<and> (\<forall>w\<in>set ws. w = workspace_summary_of root_id root_path label (wm_workspace_name w) (wm_workspace_path w) \<and> path_found J w)"
proof (induction es arbitrary: s)
  case (Cons e es)
  obtain p t where p: "entry_path J root_path current_id current_path e s = (Inr p, t)"
      "p = encode_missing_workspace_path (dw_name e) \<or> (\<exists>q. jj_canonicalize J q = Some p)"
    using entry_path_found [of current_path J root_path current_id e s, OF assms] by auto
  obtain ws s' where ws: "summarize_entries J root_id label root_path current_id current_path es t = (Inr ws, s')"
      "map wm_workspace_name ws = map dw_name es"
      "\<forall>w\<in>set ws. w = workspace_summary_of root_id root_path label (wm_workspace_name w) (wm_workspace_path w) \<and> path_found J w"
    using Cons by blast
  let ?w = "workspace_summary_of root_id root_path label (dw_name e) p"
  have w: "wm_workspace_name ?w = dw_name e" "wm_workspace_path ?w = p" by (simp_all add: workspace_summary_of_def)
  then have "path_found J ?w" using p(2) by (simp add: path_found_def)
  then show ?case
    using p(1) ws w by (intro exI [of _ "?w # ws"] exI [of _ s']) simp
qed simp

text \<open>C0. When the root is a directory and \<open>jj\<close> lists its workspaces, discovering succeeds whatever other commands
  fail: it finds exactly the listed workspaces in order, each with the identifier of its name, and its path
  is one that exists or the placeholder of a missing path.\<close>

theorem discover_workspaces_complete:
  assumes "jj_canonicalize J path = Some root_path"
    and "jj_command J root_path (list_args root_path) s = (Finished True (utf8 (list_output es)) err, t)"
    and "list_all listable es"
  shows "\<exists>ws s'. discover_workspaces J root_id path label s = (Inr ws, s')
    \<and> map wm_workspace_name ws = map dw_name es
    \<and> (\<forall>w\<in>set ws. w = workspace_summary_of root_id root_path label (wm_workspace_name w) (wm_workspace_path w) \<and> path_found J w)"
proof -
  have scalars: "list_all is_scalar (list_output es)"
    using assms(3) by (auto simp: list_output_def list_all_iff listable_def is_scalar_def)
  have run: "run_jj J root_path (list_args root_path) s = (Inr (list_output es), t)"
    using assms(2) by (simp add: run_jj_def from_utf8_lossy_utf8 [OF scalars])
  obtain i u where i: "current_workspace_change_id J root_path t = (i, u)" by fastforce
  obtain c v where c: "current_workspace_path J root_path u = (c, v)" by fastforce
  have found: "\<exists>q. jj_canonicalize J q = Some p" if "to_option c = Some p" for p
    using c that unfolding current_workspace_path_def
    by (intro canonical_output) (auto simp: to_option_def split: sum.splits)
  show ?thesis
    using summarize_all [of "to_option c" J root_id label root_path "to_option i" es v, OF found] run i c
    by (simp add: discover_steps canonicalize_def assms(1) parse_list_output [OF assms(3)])
qed

text \<open>A \<open>jj\<close> that lists one workspace and fails otherwise.\<close>

definition demo_jj :: "unit jj_ops" where
  "demo_jj = \<lparr>jj_command = (\<lambda>cwd args s. (if length args = 6 \<and> args ! 1 = bytes ''list''
       then Finished True (utf8 (bytes ''default'' @ [9] @ bytes ''abc'' @ [10])) [] else Finished False [] [], s)),
     jj_canonicalize = (\<lambda>p. Some p), jj_now = (\<lambda>s. (7, s))\<rparr>"

theorem discover_workspaces_complete_witness:
  "\<exists>w. fst (discover_workspaces demo_jj [1] (bytes ''/r'') [2] ()) = Inr [w] \<and> wm_workspace_name w = bytes ''default''"
proof -
  let ?es = "[\<lparr>dw_name = bytes ''default'', dw_target = bytes ''abc''\<rparr>]"
  have "list_all listable ?es"
    by (simp add: listable_def bytes_def trim_def trim_start_def trim_end_def is_whitespace_def is_scalar_def)
  moreover have "jj_command demo_jj (bytes ''/r'') (list_args (bytes ''/r'')) ()
      = (Finished True (utf8 (list_output ?es)) [], ())"
    by (simp add: demo_jj_def list_args_def list_output_def)
  ultimately obtain ws s' where ws: "discover_workspaces demo_jj [1] (bytes ''/r'') [2] () = (Inr ws, s')"
      "map wm_workspace_name ws = map dw_name ?es"
    using discover_workspaces_complete [of demo_jj "bytes ''/r''" "bytes ''/r''" "()" ?es "[]" "()" "[1]" "[2]"]
    by (auto simp: demo_jj_def)
  then show ?thesis by (auto simp: map_eq_Cons_conv)
qed

subsection \<open>The status\<close>

text \<open>What holds of every status: the state, the relations and the bookmarks agree.\<close>

definition consistent_status :: "rtext \<Rightarrow> workspace_status \<Rightarrow> bool" where
  "consistent_status workspace_name st \<longleftrightarrow>
     (ws_state st = Conflicted \<longleftrightarrow> ws_has_conflicts st)
     \<and> (ws_state st = Published \<longleftrightarrow> \<not> ws_has_conflicts st \<and> ws_primary st = TargetRemote
          \<and> (\<exists>rel. ws_remote st = Some rel \<and> br_ahead rel = 0 \<and> br_behind rel = 0))
     \<and> (ws_state st = MergedLocal \<longleftrightarrow> \<not> ws_has_conflicts st \<and> ws_primary st = TargetLocal
          \<and> (\<exists>rel. ws_local st = Some rel \<and> br_ahead rel = 0 \<and> br_behind rel = 0))
     \<and> (ws_state st = UnknownState \<longleftrightarrow> \<not> ws_has_conflicts st \<and> ws_primary st = TargetNone)
     \<and> (ws_primary st = TargetLocal \<longrightarrow> ws_local st \<noteq> None) \<and> (ws_primary st = TargetRemote \<longrightarrow> ws_remote st \<noteq> None)
     \<and> (ws_primary st = TargetNone \<longleftrightarrow> ws_local st = None \<and> ws_remote st = None)
     \<and> (workspace_name = bytes ''default'' \<and> ws_remote st \<noteq> None \<longrightarrow> ws_primary st = TargetRemote)
     \<and> (ws_bookmark_relation st = BookmarkNone \<longleftrightarrow> ws_bookmarks st = [])
     \<and> (\<forall>b\<in>set (ws_bookmarks st). b \<noteq> [] \<and> trim b = b)
     \<and> (ws_has_changes st \<longleftrightarrow> trim (ws_diff_text st) \<noteq> [])"

lemma classify_conflicts: "classify_workspace_state c p r = Conflicted \<longleftrightarrow> c"
  by (cases "(c, p, r)" rule: classify_workspace_state.cases) auto

lemma classify_calm:
  "classify_workspace_state False p r = Published \<longleftrightarrow> p = TargetRemote \<and> (\<exists>rel. r = Some rel \<and> in_sync rel)"
  "classify_workspace_state False p r = MergedLocal \<longleftrightarrow> p = TargetLocal \<and> (\<exists>rel. r = Some rel \<and> in_sync rel)"
  "classify_workspace_state False p r = UnknownState \<longleftrightarrow> p = TargetNone \<or> r = None"
  by (cases p; cases r; auto)+

lemma trim_trim [simp]: "trim (trim s) = trim s"
proof -
  have drop: "dropWhile P (dropWhile P xs) = dropWhile P xs" for P and xs :: rtext by (induction xs) auto
  have front: "dropWhile P (rev (dropWhile P (rev xs))) = rev (dropWhile P (rev xs))" if "dropWhile P xs = xs" for P and xs :: rtext
  proof -
    obtain zs where zs: "xs = rev (dropWhile P (rev xs)) @ zs"
      by (metis rev_append rev_rev_ident takeWhile_dropWhile_id)
    have start: "xs = [] \<or> \<not> P (hd xs)" using that by (simp add: dropWhile_eq_self_iff)
    show ?thesis
    proof (cases "rev (dropWhile P (rev xs))")
      case (Cons y ys)
      then have "\<not> P y" using start zs by (metis Nil_is_append_conv hd_append2 list.distinct(1) list.sel(1))
      then show ?thesis using Cons by simp
    next
      case Nil
      then show ?thesis unfolding Nil by simp
    qed
  qed
  show ?thesis
    unfolding trim_def trim_end_def trim_start_def by (simp add: front drop)
qed

lemma parsed_bookmark: "b \<in> set (parse_bookmarks output) \<Longrightarrow> b \<noteq> [] \<and> trim b = b"
  by (auto simp: parse_bookmarks_def)

lemma status_of_consistent:
  assumes "\<forall>b\<in>set exact \<union> set displayed. b \<noteq> [] \<and> trim b = b"
  shows "consistent_status name (workspace_status_of now_ms name exact displayed diff n local remote)"
proof -
  let ?p = "primary_relation name local remote"
  have p: "?p = TargetLocal \<Longrightarrow> local \<noteq> None" "?p = TargetRemote \<Longrightarrow> remote \<noteq> None"
      "?p = TargetNone \<longleftrightarrow> local = None \<and> remote = None" "name = bytes ''default'' \<and> remote \<noteq> None \<Longrightarrow> ?p = TargetRemote"
    by (cases local; cases remote; auto simp: primary_relation_def split: if_splits)+
  have marks: "classify_bookmark_relation exact displayed = BookmarkNone \<longleftrightarrow> (if exact = [] then displayed else exact) = []"
    by (simp add: classify_bookmark_relation_def)
  show ?thesis
    unfolding consistent_status_def workspace_status_of_def Let_def
    using p marks assms
    by (cases "0 < n"; cases ?p) (auto simp: classify_conflicts classify_calm in_sync_def simp del: not_None_eq)
qed

text \<open>C0. Every status that is read is consistent, whatever \<open>jj\<close> answers: the state says \<open>Conflicted\<close> exactly when there
  are conflicts, \<open>Published\<close> and \<open>MergedLocal\<close> exactly when the relation it is judged by is in step, and the
  chosen relation exists when any does.\<close>

theorem read_status_consistent:
  assumes "read_workspace_status J path name s = (Inr st, s')"
  shows "consistent_status name st"
proof -
  obtain now_ms exact displayed diff n local remote where
    "st = workspace_status_of now_ms name (parse_bookmarks exact) (parse_bookmarks displayed) diff n local remote"
    using assms unfolding read_workspace_status_def Let_def
    by (elim act_bind_Inr) (auto simp: act_return_def)
  then show ?thesis using status_of_consistent parsed_bookmark by blast
qed

text \<open>A \<open>jj\<close> that answers every command with the line \<open>0\<close>.\<close>

definition quiet_jj :: "unit jj_ops" where
  "quiet_jj = \<lparr>jj_command = (\<lambda>cwd args s. (Finished True [48, 10] [], s)), jj_canonicalize = (\<lambda>p. Some p), jj_now = (\<lambda>s. (7, s))\<rparr>"

theorem read_status_consistent_witness:
  "\<exists>st. fst (read_workspace_status quiet_jj [47] [119] ()) = Inr st \<and> consistent_status [119] st"
proof -
  have run: "with_stale_retry quiet_jj p a s = (Inr [48, 10], s)" for p a s
    by (simp add: with_stale_retry_def run_jj_def quiet_jj_def)
  have count: "count_revset quiet_jj p r s = (Inr 0, s)" for p r s
    by (simp add: count_revset_def run parse_count_def parse_i64_def parse_signed_def digits_value_def trim_def trim_start_def
        trim_end_def is_whitespace_def)
  have remote: "remote_relation quiet_jj p bs s = (Inr None, s)" for p bs s
    by (induction bs) (simp_all add: count Let_def)
  have now: "clock quiet_jj s = (Inr 7, s)" for s by (simp add: clock_def quiet_jj_def)
  have "\<exists>st. read_workspace_status quiet_jj [47] [119] () = (Inr st, ())"
    by (simp add: read_workspace_status_def run count local_relation_def remote now Let_def)
  then obtain st where st: "read_workspace_status quiet_jj [47] [119] () = (Inr st, ())" by blast
  then show ?thesis using read_status_consistent [OF st] by (intro exI [of _ st]) simp
qed

subsection \<open>Names in queries\<close>

text \<open>A string literal as the lexer of revsets reads it: \<open>\\\<close> before a quote or itself stands for that character.\<close>

fun literal_rest :: "rtext \<Rightarrow> (rtext \<times> rtext) option" where
  "literal_rest [] = None"
| "literal_rest (c # s) =
     (if c = 34 then Some ([], s)
      else if c = 92 then (case s of d # s' \<Rightarrow>
          (if d = 34 \<or> d = 92 then map_option (\<lambda>(v, rest). (d # v, rest)) (literal_rest s') else None) | [] \<Rightarrow> None)
      else map_option (\<lambda>(v, rest). (c # v, rest)) (literal_rest s))"

definition read_literal :: "rtext \<Rightarrow> (rtext \<times> rtext) option" where
  "read_literal s = (case s of c # rest \<Rightarrow> if c = 34 then literal_rest rest else None | [] \<Rightarrow> None)"

lemma escaped_twice:
  "replace_str [34] [92, 34] (replace_str [92] [92, 92] v)
     = concat (map (\<lambda>c. if c = 34 then [92, 34] else if c = 92 then [92, 92] else [c]) v)" for v :: rtext
  by (induction v) (simp_all add: replace_str_single)

lemma literal_read: "read_literal (revset_string_literal v @ s) = Some (v, s)"
proof -
  have "literal_rest (concat (map (\<lambda>c. if c = 34 then [92, 34] else if c = 92 then [92, 92] else [c]) v) @ 34 # s) = Some (v, s)"
    by (induction v) auto
  then show ?thesis by (simp add: read_literal_def revset_string_literal_def escaped_twice)
qed

lemma bookmark_revset_read:
  "\<exists>p q. bookmark_revset b = p @ revset_string_literal b @ q \<and> read_literal (revset_string_literal b @ q) = Some (b, q)"
  unfolding bookmark_revset_def using literal_read by blast

end
