(* ===== verification/Bootstrap_Props.thy ===== *)
theory Bootstrap_Props
  imports Bootstrap Store_Props Jj_Props
begin

section \<open>Properties of loading the workspaces\<close>

text \<open>
  Loading keeps the store a store (\<open>app_keeps\<close>), remembers what the store knew of each workspace, and shows a
  snapshot of the active one; it fails for good once two workspaces have the same path.
\<close>

subsection \<open>What an operation keeps of the store\<close>

definition app_keeps :: "(store \<Rightarrow> bool) \<Rightarrow> ('s, 'a) app \<Rightarrow> bool" where
  "app_keeps P m \<longleftrightarrow> (\<forall>w. P (wo_store w) \<longrightarrow> P (wo_store (snd (m w))))"

lemma keeps_basic [simp]:
  "app_keeps P (act_return x)" "app_keeps P (act_fail e)" "app_keeps P (outside f)" "app_keeps P (in_jj n)"
  "app_keeps P (read_store g)" "app_keeps P (act_try m) = app_keeps P m"
  by (simp_all add: app_keeps_def outside_def in_jj_def read_store_def split: prod.splits sum.splits)

lemma keeps_bind:
  fixes m :: "('s, 'a) app"
  assumes "app_keeps P m" "\<And>x. app_keeps P (f x)"
  shows "app_keeps P (act_bind m f)"
  unfolding app_keeps_def
proof (intro allI impI)
  fix w :: "'s world" assume "P (wo_store w)"
  then have "P (wo_store (snd (m w)))" using assms(1) by (simp add: app_keeps_def)
  then show "P (wo_store (snd (act_bind m f w)))"
    using assms(2) by (cases "m w"; cases "fst (m w)") (auto simp: app_keeps_def)
qed

lemma keeps_change: "(\<And>fault st. P st \<Longrightarrow> P (fst (f fault st))) \<Longrightarrow> app_keeps P (change_store E f)"
  by (auto simp: app_keeps_def change_store_def outside_def Let_def split: prod.splits) (metis fst_conv)

lemma keeps_now [simp]: "app_keeps P (now_ms E)"
  by (simp add: now_ms_def)

lemma keepsD: "app_keeps P m \<Longrightarrow> P (wo_store w) \<Longrightarrow> m w = (r, w') \<Longrightarrow> P (wo_store w')"
  unfolding app_keeps_def by (metis snd_conv)

text \<open>What is written in JSON is read back.\<close>

definition codecs_ok :: "'s app_env \<Rightarrow> bool" where
  "codecs_ok E \<longleftrightarrow> (\<forall>bs. bc_from (ae_bookmarks E) (bc_to (ae_bookmarks E) bs) = Some bs)
     \<and> (\<forall>now i. snapshot_kept (ae_snapshots E) (create_default_snapshot now i, now))"

abbreviation env_run :: "'s app_env \<Rightarrow> store \<Rightarrow> bool" where
  "env_run E \<equiv> store_run (ae_bookmarks E) (ae_snapshots E)"

lemma keeps_status [simp]: "app_keeps P (current_status E w)"
  by (auto simp: current_status_def intro!: keeps_bind)

lemma run_upsert_workspace [simp]: "codecs_ok E \<Longrightarrow> app_keeps (env_run E) (change_store E (\<lambda>fault. upsert_workspace (ae_bookmarks E) fault w))"
  by (intro keeps_change sr_workspace) (simp_all add: codecs_ok_def bookmarks_kept_def)

lemma run_bootstrap_workspace: "codecs_ok E \<Longrightarrow> app_keeps (env_run E) (bootstrap_workspace E existing d)"
  unfolding bootstrap_workspace_def Let_def by (intro keeps_bind) (auto split: sum.splits prod.splits intro!: keeps_bind)

lemma run_bootstrap_discovered: "codecs_ok E \<Longrightarrow> app_keeps (env_run E) (bootstrap_discovered E existing ds)"
  by (induction ds) (auto intro!: keeps_bind run_bootstrap_workspace split: prod.splits)

lemma run_bootstrap_roots: "codecs_ok E \<Longrightarrow> app_keeps (env_run E) (bootstrap_roots E existing rs)"
  by (induction rs) (auto intro!: keeps_bind run_bootstrap_discovered split: prod.splits sum.splits)

lemma run_seed: "app_keeps (env_run E) (seed_root E auto roots)"
  unfolding seed_root_def project_root_from_path_def
  by (auto intro!: keeps_bind keeps_change sr_root split: option.splits sum.splits)

lemma run_load_snapshot: "codecs_ok E \<Longrightarrow> app_keeps (env_run E) (load_workspace_snapshot E w)"
  unfolding load_workspace_snapshot_def Let_def
  by (intro keeps_bind) (auto intro!: keeps_bind keeps_change sr_snapshot split: option.splits simp: codecs_ok_def snapshot_kept_def)

lemma run_load: "codecs_ok E \<Longrightarrow> app_keeps (env_run E) (load_bootstrap_from_store E auto active_id)"
  unfolding load_bootstrap_from_store_def finish_bootstrap_def
  by (intro keeps_bind run_seed)
    (auto intro!: keeps_bind run_bootstrap_roots run_load_snapshot split: option.splits)

subsection \<open>One workspace\<close>

lemma outside_step: "outside f w = (r, w') \<Longrightarrow> (\<exists>x. r = Inr x) \<and> wo_store w' = wo_store w"
  by (auto simp: outside_def split: prod.splits)

lemma change_step:
  assumes "change_store E f w = (r, w')"
  shows "\<exists>fault. wo_store w' = fst (f fault (wo_store w))
    \<and> r = (case snd (f fault (wo_store w)) of Some e \<Rightarrow> Inl (AppStore e) | None \<Rightarrow> Inr ())"
proof -
  obtain fault s where "ae_fault E (wo_outside w) = (fault, s)" by fastforce
  then show ?thesis using assms
    by (intro exI [of _ fault]) (auto simp: change_store_def outside_def Let_def split: prod.splits)
qed

lemma upsert_values_keys:
  assumes "\<And>old. key (merge old x) = key x"
  shows "key ` set (upsert_values key merge x xs) = insert (key x) (key ` set xs)"
proof (cases "list_ex (\<lambda>y. key y = key x) xs")
  case True
  have "key ` set (upsert_values key merge x xs) = (\<lambda>y. key (if key y = key x then merge y x else y)) ` set xs"
    by (simp only: upsert_values_def True if_True set_map image_image)
  also have "\<dots> = key ` set xs" using assms by (intro image_cong) auto
  finally show ?thesis using True by (auto simp: list_ex_iff intro: rev_image_eqI)
qed (auto simp: upsert_values_def)

text \<open>The store holds the workspaces with the identifiers \<open>ids\<close>.\<close>

definition stored_ids :: "'s app_env \<Rightarrow> rtext set \<Rightarrow> store \<Rightarrow> bool" where
  "stored_ids E ids st \<longleftrightarrow> env_run E st \<and> (\<exists>ws. list_workspaces (ae_bookmarks E) st = Inr ws \<and> ids \<subseteq> wm_id ` set ws)"

lemma run_holds: "env_run E st \<Longrightarrow> \<exists>a. holds (ae_bookmarks E) (ae_snapshots E) st a"
  using run_well_formed by (auto simp: well_formed_def)

lemma listed_set:
  assumes "holds B C st a" "list_workspaces B st = Inr ws"
  shows "set ws = set (ct_workspaces a)" "distinct (map wm_id ws)"
proof -
  have ws: "ws = sort_key wm_project_display_name (sort_key wm_workspace_name (ct_workspaces a))"
    using listed(2) [OF assms(1)] assms(2) by simp
  show "set ws = set (ct_workspaces a)" by (simp add: ws)
  have "distinct (map wm_id (ct_workspaces a))" using assms(1) by (auto simp: holds_def intro: workspaces.idents_distinct)
  then show "distinct (map wm_id ws)" by (simp add: ws distinct_map)
qed

lemma ids_held: "holds (ae_bookmarks E) (ae_snapshots E) st a \<Longrightarrow> env_run E st \<Longrightarrow> stored_ids E ids st \<longleftrightarrow> ids \<subseteq> wm_id ` set (ct_workspaces a)"
  using listed(2) listed_set(1) by (fastforce simp: stored_ids_def)

lemma bookmarks_always: "codecs_ok E \<Longrightarrow> bookmarks_kept (ae_bookmarks E) w"
  by (simp add: codecs_ok_def bookmarks_kept_def)

lemma upsert_stores:
  assumes ok: "codecs_ok E" and ids: "stored_ids E ids (wo_store w)"
    and op: "change_store E (\<lambda>fault. upsert_workspace (ae_bookmarks E) fault v) w = (Inr u, w')"
  shows "stored_ids E (insert (wm_id v) ids) (wo_store w')"
proof -
  obtain fault where up: "upsert_workspace (ae_bookmarks E) fault v (wo_store w) = (wo_store w', None)"
    using change_step [OF op] by (metis option.exhaust option.simps(5) prod.collapse sum.distinct(1))
  have run: "env_run E (wo_store w)" using ids by (simp add: stored_ids_def)
  then obtain a where a: "holds (ae_bookmarks E) (ae_snapshots E) (wo_store w) a" using run_holds by blast
  have run': "env_run E (wo_store w')" using sr_workspace [OF run bookmarks_always [OF ok, of v], of fault] up by simp
  let ?merge = "\<lambda>old new. new\<lparr>wm_created_at := wm_created_at old\<rparr>"
  have a': "holds (ae_bookmarks E) (ae_snapshots E) (wo_store w') (a\<lparr>ct_workspaces := upsert_values wm_id ?merge v (ct_workspaces a)\<rparr>)"
    by (rule upsert_workspace_holds [OF a bookmarks_always [OF ok] up])
  have "insert (wm_id v) (wm_id ` set (ct_workspaces a)) \<subseteq> wm_id ` set (upsert_values wm_id ?merge v (ct_workspaces a))"
    by (subst upsert_values_keys) auto
  then show ?thesis using ids ids_held [OF a run] ids_held [OF a' run'] by auto
qed

text \<open>What the store knew of a workspace is kept.\<close>

definition remembers :: "(rtext \<Rightarrow> workspace_summary option) \<Rightarrow> workspace_summary \<Rightarrow> bool" where
  "remembers existing w \<longleftrightarrow> (\<forall>old. existing (wm_id w) = Some old \<longrightarrow>
     wm_display_name w = wm_display_name old \<and> wm_created_at w = wm_created_at old \<and> wm_last_opened_at w = wm_last_opened_at old)"

lemma remembered_remembers:
  "wm_id (remembered existing now w) = wm_id w" "remembers existing (remembered existing now w)"
  by (auto simp: remembers_def remembered_def Let_def split: option.splits)

lemma remembers_status [simp]: "remembers existing (w\<lparr>wm_status := st\<rparr>) = remembers existing w"
  by (simp add: remembers_def)

text \<open>A workspace that was found, with its name, status and times changed.\<close>

definition same_found :: "workspace_summary \<Rightarrow> workspace_summary \<Rightarrow> bool" where
  "same_found d v \<longleftrightarrow> v\<lparr>wm_display_name := wm_display_name d, wm_status := wm_status d, wm_created_at := wm_created_at d,
     wm_updated_at := wm_updated_at d, wm_last_opened_at := wm_last_opened_at d\<rparr> = d"

lemma remembered_same: "same_found d (remembered existing now d)" "same_found d (v\<lparr>wm_status := st\<rparr>) = same_found d v"
  by (simp_all add: same_found_def remembered_def Let_def split: option.splits)

lemma same_found_name: "same_found d v \<Longrightarrow> wm_workspace_name v = wm_workspace_name d"
  unfolding same_found_def by (cases d; cases v; simp)

text \<open>What \<open>jj\<close> answered for each root, in some state of the world outside, and the workspaces in these answers.\<close>

definition discovered_by :: "'s app_env \<Rightarrow> project_root list \<Rightarrow> (jj_error + workspace_summary list) list \<Rightarrow> bool" where
  "discovered_by E roots results \<longleftrightarrow> list_all2 (\<lambda>r result. \<exists>s. result
     = fst (discover_workspaces (ae_jj E) (pr_id r) (pr_root_path r) (pr_display_name r) s)) roots results"

definition found_in :: "(jj_error + workspace_summary list) list \<Rightarrow> workspace_summary list" where
  "found_in results = concat (map (\<lambda>result. case result of Inr ds \<Rightarrow> ds | Inl _ \<Rightarrow> []) results)"

lemma status_step: "current_status E v w = (r, w') \<Longrightarrow> wo_store w' = wo_store w"
  by (auto simp: current_status_def now_ms_def in_jj_def dest!: outside_step split: if_splits prod.splits sum.splits)


lemma workspace_step:
  assumes ok: "codecs_ok E" and ids: "stored_ids E ids (wo_store w)"
    and op: "bootstrap_workspace E existing d w = (Inr (v, errors), w')"
  shows "wm_id v = wm_id d \<and> same_found d v \<and> remembers existing v \<and> stored_ids E (insert (wm_id d) ids) (wo_store w')"
proof -
  define m where "m = (\<lambda>now result. case (case result of
           Inr status \<Rightarrow> ((remembered existing now d)\<lparr>wm_status := status\<rparr>, [])
         | Inl e \<Rightarrow> (remembered existing now d, [StatusFailed (wm_workspace_name (remembered existing now d)) e])) of
        (v, errors) \<Rightarrow> act_bind (change_store E (\<lambda>fault. upsert_workspace (ae_bookmarks E) fault v)) (\<lambda>_. act_return (v, errors)))"
  have "act_bind (now_ms E) (\<lambda>now. act_bind (act_try (current_status E (remembered existing now d))) (m now)) w = (Inr (v, errors), w')"
    using op unfolding bootstrap_workspace_def Let_def m_def .
  then obtain now w1 result w2 where now: "now_ms E w = (Inr now, w1)"
      and status: "current_status E (remembered existing now d) w1 = (result, w2)" and rest: "m now result w2 = (Inr (v, errors), w')"
    by (elim act_bind_Inr) (simp, metis prod.collapse)
  have w1: "wo_store w1 = wo_store w" using now unfolding now_ms_def by (blast dest: outside_step)
  have w2: "wo_store w2 = wo_store w" using status_step [OF status] w1 by simp
  have "change_store E (\<lambda>fault. upsert_workspace (ae_bookmarks E) fault v) w2 = (Inr (), w')
      \<and> wm_id v = wm_id d \<and> same_found d v \<and> remembers existing v"
    using rest unfolding m_def by (cases result) (auto simp: remembered_remembers remembered_same split: sum.splits prod.splits)
  then show ?thesis using upsert_stores [OF ok, of ids w2 v "()" w'] ids w2 by simp
qed

lemma discovered_step:
  assumes "codecs_ok E" "stored_ids E ids (wo_store w)" "bootstrap_discovered E existing ds w = (Inr (vs, errors), w')"
  shows "list_all2 same_found ds vs \<and> (\<forall>v\<in>set vs. remembers existing v)
    \<and> stored_ids E (ids \<union> wm_id ` set vs) (wo_store w')"
  using assms(2,3)
proof (induction ds arbitrary: w ids vs errors)
  case (Cons d ds)
  obtain v e w1 vs' e' where v: "bootstrap_workspace E existing d w = (Inr (v, e), w1)"
      "bootstrap_discovered E existing ds w1 = (Inr (vs', e'), w')" "vs = v # vs'"
    using Cons.prems(2) by (auto split: prod.splits sum.splits)
  note one = workspace_step [OF assms(1) Cons.prems(1) v(1)]
  show ?case using one Cons.IH [OF conjunct2 [OF conjunct2 [OF conjunct2 [OF one]]] v(2)] v(3) by (simp add: insert_commute)
qed simp

lemma roots_step:
  assumes "codecs_ok E" "stored_ids E ids (wo_store w)" "bootstrap_roots E existing rs w = (Inr (vs, errors), w')"
  shows "(\<forall>v\<in>set vs. remembers existing v) \<and> stored_ids E (ids \<union> wm_id ` set vs) (wo_store w')
    \<and> (\<exists>results. discovered_by E rs results \<and> list_all2 same_found (found_in results) vs)"
  using assms(2,3)
proof (induction rs arbitrary: w ids vs errors)
  case (Cons r rs)
  obtain result s where found: "discover_workspaces (ae_jj E) (pr_id r) (pr_root_path r) (pr_display_name r) (wo_outside w) = (result, s)"
    by fastforce
  define w1 where "w1 = w\<lparr>wo_outside := s\<rparr>"
  obtain us e w2 where us: "(case result of Inr ds \<Rightarrow> bootstrap_discovered E existing ds
       | Inl e \<Rightarrow> act_return ([], [DiscoveryFailed (pr_root_path r) (AppJj e)])) w1 = (Inr (us, e), w2)"
      and more: "act_bind (bootstrap_roots E existing rs) (\<lambda>(ws', errors'). act_return (us @ ws', e @ errors')) w2 = (Inr (vs, errors), w')"
    using Cons.prems(2) found unfolding w1_def by (auto simp: in_jj_def split: prod.splits sum.splits)
  obtain us' e' where us': "bootstrap_roots E existing rs w2 = (Inr (us', e'), w')" "vs = us @ us'"
    using more by (auto split: prod.splits sum.splits)
  have w1: "stored_ids E ids (wo_store w1)" using Cons.prems(1) by (simp add: w1_def)
  have one: "(\<forall>v\<in>set us. remembers existing v) \<and> stored_ids E (ids \<union> wm_id ` set us) (wo_store w2)
      \<and> list_all2 same_found (found_in [result]) us"
    using us w1 discovered_step [OF assms(1) w1, of existing _ us e w2] by (cases result) (auto simp: found_in_def)
  then obtain results where rest: "discovered_by E rs results" "list_all2 same_found (found_in results) us'"
      "(\<forall>v\<in>set us'. remembers existing v) \<and> stored_ids E (ids \<union> wm_id ` set us \<union> wm_id ` set us') (wo_store w')"
    using Cons.IH [OF _ us'(1), of "ids \<union> wm_id ` set us"] by blast
  have "discovered_by E (r # rs) (result # results)" using rest(1) found by (auto simp: discovered_by_def intro: exI [of _ "wo_outside w"])
  moreover have "list_all2 same_found (found_in (result # results)) vs"
    using one rest(2) us'(2) by (auto simp: found_in_def intro: list_all2_appendI)
  ultimately show ?case using one rest(3) us'(2) by (intro conjI exI [of _ "result # results"]) (auto simp: Un_assoc image_Un)
qed (simp add: discovered_by_def found_in_def)

subsection \<open>The snapshot\<close>

lemma snapshot_step:
  assumes ok: "codecs_ok E" and run: "env_run E (wo_store w)" and op: "load_workspace_snapshot E v w = (Inr snap, w')"
  shows "wn_workspace_id snap = wm_id v \<and> wn_version snap = LAYOUT_VERSION
    \<and> get_snapshot (ae_snapshots E) (wm_id v) (wo_store w') = Inr (Some snap) \<and> st_workspaces (wo_store w') = st_workspaces (wo_store w)"
proof -
  let ?C = "ae_snapshots E"
  obtain a where a: "holds (ae_bookmarks E) ?C (wo_store w) a" using run_holds [OF run] by blast
  have get: "get_snapshot ?C (wm_id v) (wo_store w) = Inr (map_option fst (find (\<lambda>x. wn_workspace_id (fst x) = wm_id v) (ct_snapshots a)))"
    by (rule get_snapshot_holds [OF a])
  consider (old) "get_snapshot ?C (wm_id v) (wo_store w) = Inr (Some snap)" "wn_version snap = LAYOUT_VERSION" "w' = w"
    | (fresh) now fault where "snap = create_default_snapshot now (wm_id v)"
        "save_snapshot ?C fault snap (wo_store w) = (wo_store w', None)"
  proof -
    assume old: "get_snapshot ?C (wm_id v) (wo_store w) = Inr (Some snap) \<Longrightarrow> wn_version snap = LAYOUT_VERSION \<Longrightarrow> w' = w \<Longrightarrow> thesis"
      and fresh: "\<And>now fault. snap = create_default_snapshot now (wm_id v) \<Longrightarrow>
        save_snapshot ?C fault snap (wo_store w) = (wo_store w', None) \<Longrightarrow> thesis"
    let ?fresh = "act_bind (now_ms E) (\<lambda>now. let snap = create_default_snapshot now (wm_id v) in
       act_bind (change_store E (\<lambda>fault. save_snapshot ?C fault snap)) (\<lambda>_. act_return snap))"
    have made: thesis if made_op: "?fresh w = (Inr snap, w')"
    proof -
      obtain now w1 u where now: "now_ms E w = (Inr now, w1)" and
          save: "change_store E (\<lambda>fault. save_snapshot ?C fault (create_default_snapshot now (wm_id v))) w1 = (Inr u, w')"
          "snap = create_default_snapshot now (wm_id v)"
        using made_op unfolding Let_def by (elim act_bind_Inr) (auto simp: act_return_def)
      have w1: "wo_store w1 = wo_store w" using now unfolding now_ms_def by (blast dest: outside_step)
      obtain fault where "save_snapshot ?C fault snap (wo_store w1) = (wo_store w', None)"
        using change_step [OF save(1)] save(2) by (metis option.exhaust option.simps(5) prod.collapse sum.distinct(1))
      then show thesis using w1 by (intro fresh [OF save(2)]) simp
    qed
    show thesis
      using op old made unfolding load_workspace_snapshot_def Let_def
      by (auto simp: read_store_def get split: option.splits if_splits)
  qed
  then show ?thesis
  proof cases
    case old
    then show ?thesis using get find_SomeD by fastforce
  next
    case fresh
    then have kept: "snapshot_kept ?C (snap, wn_updated_at snap)" using ok by (simp add: codecs_ok_def snapshot_kept_def)
    let ?a = "a\<lparr>ct_snapshots := upsert_values (\<lambda>p. wn_workspace_id (fst p)) (\<lambda>old new. new) (snap, wn_updated_at snap) (ct_snapshots a)\<rparr>"
    have a': "holds (ae_bookmarks E) ?C (wo_store w') ?a" by (rule save_snapshot_holds [OF a kept fresh(2)])
    have id: "wn_workspace_id snap = wm_id v" using fresh(1) by (simp add: create_default_snapshot_def)
    have "(snap, wn_updated_at snap) \<in> set (ct_snapshots ?a)" by (auto simp: upsert_values_def list_ex_iff)
    moreover have "distinct (map (\<lambda>p. wn_workspace_id (fst p)) (ct_snapshots ?a))"
      using a' by (auto simp: holds_def intro: snapshots.idents_distinct)
    ultimately have "find (\<lambda>p. wn_workspace_id (fst p) = wm_id v) (ct_snapshots ?a) = Some (snap, wn_updated_at snap)"
      using find_ident [of "\<lambda>p. wn_workspace_id (fst p)"] id by fastforce
    then have "get_snapshot ?C (wm_id v) (wo_store w') = Inr (Some snap)" by (simp add: get_snapshot_holds [OF a'])
    moreover have "st_workspaces (wo_store w') = st_workspaces (wo_store w)"
      using fresh(2) by (auto simp: save_snapshot_def run_one on_table_Some split: if_splits option.splits)
    ultimately show ?thesis using id fresh(1) by (simp add: create_default_snapshot_def)
  qed
qed

subsection \<open>The whole load\<close>

lemma position_Some: "position p xs = Some n \<Longrightarrow> n < length xs \<and> p (xs ! n)"
  by (induction xs arbitrary: n) (auto split: if_splits)

lemma position_None: "position p xs = None \<longleftrightarrow> (\<forall>x\<in>set xs. \<not> p x)"
  by (induction xs) auto

lemma active_index_ok:
  "(active_index active_id ws = None \<longleftrightarrow> ws = [])
   \<and> (\<forall>n. active_index active_id ws = Some n \<longrightarrow> n < length ws
        \<and> (\<forall>i. active_id = Some i \<longrightarrow> i \<in> wm_id ` set ws \<longrightarrow> wm_id (ws ! n) = i)
        \<and> ((\<forall>i. active_id = Some i \<longrightarrow> i \<notin> wm_id ` set ws) \<longrightarrow> n = 0))"
  by (auto simp: active_index_def position_None dest: position_Some split: option.splits if_splits bind_splits)

lemma by_id_Some: "distinct (map wm_id ws) \<Longrightarrow> by_id ws i = Some old \<longleftrightarrow> old \<in> set ws \<and> wm_id old = i"
  unfolding by_id_def by (subst map_of_eq_Some_iff) (auto simp: rev_map [symmetric] o_def)

lemma seed_step:
  assumes "seed_root E auto roots w = (Inr roots', w')"
  shows "st_workspaces (wo_store w') = st_workspaces (wo_store w)"
proof -
  have up: "st_workspaces (fst (upsert_project_root fault r st)) = st_workspaces st" for fault r st
    by (auto simp: upsert_project_root_def run_one on_table_defs split: option.splits)
  show ?thesis
    using assms unfolding seed_root_def project_root_from_path_def now_ms_def
    by (auto simp: in_jj_def up dest!: outside_step change_step split: if_splits option.splits prod.splits sum.splits)
qed

lemma seed_roots: "seed_root E auto roots w = (Inr roots', w') \<Longrightarrow> roots' = roots \<or> roots = [] \<and> auto \<and> length roots' = 1"
  unfolding seed_root_def project_root_from_path_def
  by (auto split: if_splits option.splits prod.splits sum.splits)

lemma read_step: "read_store g w = (Inr x, w') \<Longrightarrow> w' = w \<and> g (wo_store w) = Inr x"
  by (auto simp: read_store_def split: sum.splits)

text \<open>What the state that is shown has to do with the store before and after.\<close>

text \<open>The workspaces shown are those that were found, each in its place; all that are stored when none was found.\<close>

definition shows_found :: "'s app_env \<Rightarrow> workspace_summary list \<Rightarrow> bootstrap_state \<Rightarrow> bool" where
  "shows_found E before b \<longleftrightarrow> (\<exists>results. discovered_by E (bs_roots b) results
     \<and> (if found_in results = [] then bs_workspaces b = before else list_all2 same_found (found_in results) (bs_workspaces b)))"

definition shown_ok :: "'s app_env \<Rightarrow> rtext option \<Rightarrow> workspace_summary list \<Rightarrow> store \<Rightarrow> bootstrap_state \<Rightarrow> bool" where
  "shown_ok E active_id before st b \<longleftrightarrow>
     shows_found E before b
     \<and> (\<forall>v\<in>set (bs_workspaces b). \<forall>old\<in>set before. wm_id old = wm_id v \<longrightarrow>
        wm_display_name v = wm_display_name old \<and> wm_created_at v = wm_created_at old \<and> wm_last_opened_at v = wm_last_opened_at old)
     \<and> (\<exists>after. list_workspaces (ae_bookmarks E) st = Inr after \<and> wm_id ` set (bs_workspaces b) \<subseteq> wm_id ` set after)
     \<and> (bs_active b = None \<longleftrightarrow> bs_workspaces b = [])
     \<and> (\<forall>n. bs_active b = Some n \<longrightarrow> n < length (bs_workspaces b)
          \<and> (\<forall>i. active_id = Some i \<longrightarrow> i \<in> wm_id ` set (bs_workspaces b) \<longrightarrow> wm_id (bs_workspaces b ! n) = i)
          \<and> ((\<forall>i. active_id = Some i \<longrightarrow> i \<notin> wm_id ` set (bs_workspaces b)) \<longrightarrow> n = 0)
          \<and> (\<exists>snap. bs_snapshot b = Some snap \<and> wn_workspace_id snap = wm_id (bs_workspaces b ! n)
               \<and> wn_version snap = LAYOUT_VERSION
               \<and> get_snapshot (ae_snapshots E) (wm_id (bs_workspaces b ! n)) st = Inr (Some snap)))"

lemma list_workspaces_cong: "st_workspaces st = st_workspaces st' \<Longrightarrow> list_workspaces B st = list_workspaces B st'"
  by (simp add: list_workspaces_def)

lemma roots_none:
  "bootstrap_roots E existing rs w = (Inr ([], errors), w') \<Longrightarrow> st_workspaces (wo_store w') = st_workspaces (wo_store w)"
proof (induction rs arbitrary: w errors)
  case (Cons r rs)
  obtain result s where result: "discover_workspaces (ae_jj E) (pr_id r) (pr_root_path r) (pr_display_name r) (wo_outside w) = (result, s)"
    by fastforce
  show ?case
  proof (cases result)
    case (Inl e)
    then show ?thesis using Cons.prems Cons.IH result
      by (fastforce simp: in_jj_def split: prod.splits sum.splits)
  next
    case (Inr ds)
    then have "ds = []" using Cons.prems result by (cases ds) (auto simp: in_jj_def split: prod.splits sum.splits)
    then show ?thesis using Cons.prems Cons.IH result Inr
      by (fastforce simp: in_jj_def split: prod.splits sum.splits)
  qed
qed simp

lemma finish_step:
  assumes ok: "codecs_ok E" and ids: "stored_ids E (wm_id ` set found) (wo_store w)"
    and kept: "\<forall>v\<in>set found. remembers existing v" and all: "\<And>ws. found = [] \<Longrightarrow> list_workspaces (ae_bookmarks E) (wo_store w) = Inr ws \<Longrightarrow> \<forall>v\<in>set ws. remembers existing v"
    and op: "finish_bootstrap E active_id roots found errors w = (Inr b, w')"
  shows "(\<forall>v\<in>set (bs_workspaces b). remembers existing v)
     \<and> (\<exists>after. list_workspaces (ae_bookmarks E) (wo_store w') = Inr after \<and> wm_id ` set (bs_workspaces b) \<subseteq> wm_id ` set after)
     \<and> bs_active b = active_index active_id (bs_workspaces b)
     \<and> (\<forall>n. bs_active b = Some n \<longrightarrow> (\<exists>snap. bs_snapshot b = Some snap \<and> wn_workspace_id snap = wm_id (bs_workspaces b ! n)
          \<and> wn_version snap = LAYOUT_VERSION \<and> get_snapshot (ae_snapshots E) (wm_id (bs_workspaces b ! n)) (wo_store w') = Inr (Some snap)))
     \<and> bs_roots b = roots
     \<and> (if found = [] then list_workspaces (ae_bookmarks E) (wo_store w) = Inr (bs_workspaces b) else bs_workspaces b = found)"
proof -
  obtain ws w1 snap w2 activity where
    ws: "(if found = [] then read_store (list_workspaces (ae_bookmarks E)) else act_return found) w = (Inr ws, w1)"
    and snap: "(case active_index active_id ws of Some i \<Rightarrow> act_bind (load_workspace_snapshot E (ws ! i)) (\<lambda>s. act_return (Some s))
         | None \<Rightarrow> act_return None) w1 = (Inr snap, w2)"
    and b: "bs_workspaces b = ws" "bs_active b = active_index active_id ws" "bs_snapshot b = snap" "w' = w2" "bs_roots b = roots"
    using op unfolding finish_bootstrap_def by (elim act_bind_Inr) (auto dest!: read_step)
  obtain after where after: "list_workspaces (ae_bookmarks E) (wo_store w) = Inr after" "wm_id ` set found \<subseteq> wm_id ` set after"
    and run: "env_run E (wo_store w)" using ids by (auto simp: stored_ids_def)
  have is_found: "found = [] \<Longrightarrow> ws = after" "found \<noteq> [] \<Longrightarrow> ws = found"
    using ws after by (auto dest!: read_step split: if_splits)
  have w1: "w1 = w" and listed: "wm_id ` set ws \<subseteq> wm_id ` set after" and kept: "\<forall>v\<in>set ws. remembers existing v"
    using ws after kept all by (auto dest!: read_step split: if_splits)
  show ?thesis
  proof (cases "active_index active_id ws")
    case None
    then show ?thesis using snap w1 listed kept after b is_found by auto
  next
    case (Some n)
    then obtain s where s: "load_workspace_snapshot E (ws ! n) w = (Inr s, w2)" "snap = Some s"
      using snap w1 by (auto split: prod.splits sum.splits)
    have "list_workspaces (ae_bookmarks E) (wo_store w2) = Inr after"
      using list_workspaces_cong snapshot_step [OF ok run s(1)] after(1) by metis
    then show ?thesis using snapshot_step [OF ok run s(1)] s(2) Some listed kept b is_found after by auto
  qed
qed

text \<open>C33. Loading leaves a store, whether it fails or not. When it succeeds the roots shown are the ones stored (or the
  one root of the current directory, when none was stored and one may be added); the workspaces shown are, in
  order, all that \<open>jj\<close> listed for these roots, or all that were stored when it listed none, each with what was
  found except for its name, status and times; each of them is in the store, and keeps the name, creation and
  opening times that the store had for it; the workspace asked for is active when it is there, and otherwise
  the first; and the layout shown is the one stored for the active workspace, of the current version.\<close>

theorem load_bootstrap_contract:
  assumes ok: "codecs_ok E" and run: "env_run E (wo_store w)" and before: "list_workspaces (ae_bookmarks E) (wo_store w) = Inr before"
    and stored_roots: "list_project_roots (wo_store w) = Inr roots"
    and op: "load_bootstrap_from_store E auto active_id w = (r, w')"
  shows "env_run E (wo_store w') \<and> (\<forall>b. r = Inr b \<longrightarrow> shown_ok E active_id before (wo_store w') b
    \<and> (bs_roots b = roots \<or> roots = [] \<and> auto \<and> length (bs_roots b) = 1))"
proof (intro conjI allI impI)
  show "env_run E (wo_store w')" by (rule keepsD [OF run_load [OF ok] run op])
next
  fix b assume r: "r = Inr b"
  obtain roots0 w1 roots1 w2 existing w3 found w4 where
    steps: "read_store list_project_roots w = (Inr roots0, w1)" "seed_root E auto roots0 w1 = (Inr roots1, w2)"
      "read_store (list_workspaces (ae_bookmarks E)) w2 = (Inr existing, w3)"
      "bootstrap_roots E (by_id existing) roots1 w3 = (Inr found, w4)"
    and last: "finish_bootstrap E active_id roots1 (fst found) (snd found) w4 = (Inr b, w')"
    using op unfolding r load_bootstrap_from_store_def by (elim act_bind_Inr) blast
  have same: "w1 = w" "w3 = w2" "list_workspaces (ae_bookmarks E) (wo_store w2) = Inr existing"
    using steps(1,3) by (auto dest!: read_step)
  have existing: "existing = before"
    using before same list_workspaces_cong [OF seed_step [OF steps(2)], of "ae_bookmarks E"] by simp
  have run2: "env_run E (wo_store w2)" using keepsD [OF run_seed _ steps(2)] run same(1) by blast
  then have "stored_ids E {} (wo_store w3)" using same by (simp add: stored_ids_def)
  note found_ok = roots_step [OF ok this, of "by_id existing" roots1 "fst found" "snd found" w4, unfolded prod.collapse, OF steps(4)]
  obtain a2 where a2: "holds (ae_bookmarks E) (ae_snapshots E) (wo_store w2) a2" using run_holds [OF run2] by blast
  have ids: "distinct (map wm_id before)" using listed_set(2) [OF a2] same(3) existing by simp
  have own: "remembers (by_id before) v" if "v \<in> set before" for v
    using that ids by (auto simp: remembers_def by_id_Some distinct_map inj_on_def)
  have none: "list_workspaces (ae_bookmarks E) (wo_store w4) = Inr before" if "fst found = []"
  proof -
    have "bootstrap_roots E (by_id existing) roots1 w3 = (Inr ([], snd found), w4)" using steps(4) that by (cases found) simp
    then have "list_workspaces (ae_bookmarks E) (wo_store w4) = list_workspaces (ae_bookmarks E) (wo_store w3)"
      by (intro list_workspaces_cong roots_none)
    then show ?thesis using same existing by simp
  qed
  then have all: "\<forall>v\<in>set ws. remembers (by_id existing) v"
    if "fst found = []" "list_workspaces (ae_bookmarks E) (wo_store w4) = Inr ws" for ws
    using that existing own by simp
  have ids4: "stored_ids E (wm_id ` set (fst found)) (wo_store w4)" using found_ok by simp
  note shown = finish_step [OF ok ids4 conjunct1 [OF found_ok] all last]
  have eq: "bs_active b = active_index active_id (bs_workspaces b)" and roots: "bs_roots b = roots1"
    and listed: "if fst found = [] then list_workspaces (ae_bookmarks E) (wo_store w4) = Inr (bs_workspaces b) else bs_workspaces b = fst found"
    using shown by blast+
  have "roots0 = roots" using steps(1) stored_roots by (auto dest!: read_step)
  then show "bs_roots b = roots \<or> roots = [] \<and> auto \<and> length (bs_roots b) = 1"
    using seed_roots [OF steps(2)] roots by simp
  obtain results where results: "discovered_by E roots1 results" "list_all2 same_found (found_in results) (fst found)"
    using found_ok by blast
  have found_shown: "shows_found E before b"
    unfolding shows_found_def roots using results listed none
    by (intro exI [of _ results]) (cases "fst found = []"; auto)
  note index = active_index_ok [of active_id "bs_workspaces b", folded eq]
  show "shown_ok E active_id before (wo_store w') b"
    unfolding shown_ok_def
  proof (intro conjI)
    show "\<forall>v\<in>set (bs_workspaces b). \<forall>old\<in>set before. wm_id old = wm_id v \<longrightarrow>
        wm_display_name v = wm_display_name old \<and> wm_created_at v = wm_created_at old \<and> wm_last_opened_at v = wm_last_opened_at old"
      using conjunct1 [OF shown] ids existing by (auto simp: remembers_def by_id_Some)
    show "\<forall>n. bs_active b = Some n \<longrightarrow> n < length (bs_workspaces b)
          \<and> (\<forall>i. active_id = Some i \<longrightarrow> i \<in> wm_id ` set (bs_workspaces b) \<longrightarrow> wm_id (bs_workspaces b ! n) = i)
          \<and> ((\<forall>i. active_id = Some i \<longrightarrow> i \<notin> wm_id ` set (bs_workspaces b)) \<longrightarrow> n = 0)
          \<and> (\<exists>snap. bs_snapshot b = Some snap \<and> wn_workspace_id snap = wm_id (bs_workspaces b ! n)
               \<and> wn_version snap = LAYOUT_VERSION
               \<and> get_snapshot (ae_snapshots E) (wm_id (bs_workspaces b ! n)) (wo_store w') = Inr (Some snap))"
      using shown index by blast
    show "\<exists>after. list_workspaces (ae_bookmarks E) (wo_store w') = Inr after \<and> wm_id ` set (bs_workspaces b) \<subseteq> wm_id ` set after"
      using conjunct1 [OF conjunct2 [OF shown]] .
    show "bs_active b = None \<longleftrightarrow> bs_workspaces b = []" using index by blast
  qed (rule found_shown)
qed

text \<open>An environment in which nothing can be run, and codings that are read back.\<close>

definition number_of_time :: "i64 \<Rightarrow> nat" where
  "number_of_time t = (if 0 \<le> t then 2 * nat t else 2 * nat (- t) + 1)"

definition time_of_number :: "nat \<Rightarrow> i64" where
  "time_of_number n = (if even n then int (n div 2) else - int (n div 2))"

lemma time_read: "time_of_number (number_of_time t) = t"
  by (simp add: time_of_number_def number_of_time_def)

definition demo_env :: "'s jj_ops \<Rightarrow> 's app_env" where
  "demo_env J = \<lparr>ae_jj = J,
     ae_bookmarks = \<lparr>bc_to = (\<lambda>bs. concat (map (\<lambda>b. map Suc b @ [0]) bs)),
       bc_from = (\<lambda>t. Some (map (map (\<lambda>c. c - 1)) (butlast (split_on 0 t))))\<rparr>,
     ae_snapshots = \<lparr>sc_to = (\<lambda>s. number_of_time (wn_updated_at s) # wn_workspace_id s),
       sc_from = (\<lambda>t. Some (create_default_snapshot (time_of_number (hd t)) (tl t)))\<rparr>,
     ae_unixtime = (\<lambda>s. (0, s)), ae_fault = (\<lambda>s. (None, s)), ae_current_dir = None, ae_home = None,
     ae_create_dir = (\<lambda>p s. (False, s)), ae_exists = (\<lambda>p s. (None, s)), ae_remove_dir = (\<lambda>p s. (False, s)),
     ae_sessions = (\<lambda>s. (None, s))\<rparr>"

lemma demo_env_jj [simp]: "ae_jj (demo_env J) = J"
  by (simp add: demo_env_def)

lemma demo_env_ok: "codecs_ok (demo_env J)"
proof -
  have split: "split_on 0 (concat (map (\<lambda>b. map Suc b @ [0]) bs)) = map (map Suc) bs @ [[]]" for bs :: "rtext list"
    by (induction bs) (simp_all add: split_on_append)
  show ?thesis
    by (simp add: codecs_ok_def demo_env_def split o_def snapshot_kept_def time_read) (simp add: create_default_snapshot_def time_read)
qed

definition demo_root :: project_root where
  "demo_root = \<lparr>pr_id = [1], pr_root_path = bytes ''/r'', pr_display_name = [80], pr_created_at = 0, pr_updated_at = 0\<rparr>"

text \<open>A store with one root and no workspace; \<open>jj\<close> lists one workspace of the root, whose directory it does not know.\<close>

definition root_store :: store where
  "root_store = fst (upsert_project_root None demo_root store_empty)"

lemma root_store_is: "root_store = store_empty\<lparr>st_roots := [root_values demo_root]\<rparr>"
  by (simp add: root_store_def upsert_project_root_def run_each_def store_empty_def on_table_defs upsert_def checked_def
      unique_on_def root_keys_def)

lemma first_upserts:
  "st_workspaces st = [] \<Longrightarrow> upsert_workspace B None v st = (st\<lparr>st_workspaces := [workspace_values B v]\<rparr>, None)"
  "st_snapshots st = [] \<Longrightarrow> save_snapshot C None n st = (st\<lparr>st_snapshots := [snapshot_values C (n, wn_updated_at n)]\<rparr>, None)"
  by (simp_all add: upsert_workspace_def save_snapshot_def run_each_def on_table_defs upsert_def checked_def unique_on_def
      workspace_keys_def snapshot_keys_def)

definition found_workspace :: workspace_summary where
  "found_workspace = workspace_summary_of [1] (bytes ''/r'') [80] (bytes ''default'') (encode_missing_workspace_path (bytes ''default''))"

lemma found_workspace_name: "wm_workspace_name found_workspace = bytes ''default''"
  by (simp add: found_workspace_def workspace_summary_of_def)

lemma demo_found:
  "discover_workspaces demo_jj (pr_id demo_root) (pr_root_path demo_root) (pr_display_name demo_root) () = (Inr [found_workspace], ())"
proof -
  let ?es = "[\<lparr>dw_name = bytes ''default'', dw_target = bytes ''abc''\<rparr>]"
  have list: "list_all listable ?es"
    by (simp add: listable_def bytes_def trim_def trim_start_def trim_end_def is_whitespace_def is_scalar_def)
  have "from_utf8_lossy (utf8 (list_output ?es)) = list_output ?es"
    by (rule from_utf8_lossy_utf8) (simp add: list_output_def bytes_def is_scalar_def)
  then have listed: "run_jj demo_jj (bytes ''/r'') (list_args (bytes ''/r'')) () = (Inr (list_output ?es), ())"
    by (simp add: run_jj_def demo_jj_def list_args_def list_output_def)
  have fails: "run_jj demo_jj p args () = (Inl (JjCommand (from_utf8_lossy [])), ())"
    if "length args = 6 \<longrightarrow> args ! 1 \<noteq> bytes ''list''" for p args
    using that by (auto simp: run_jj_def demo_jj_def)
  have none: "workspace_path demo_jj p n () = (Inl (JjCommand (from_utf8_lossy [])), ())"
      "current_workspace_path demo_jj p () = (Inl (JjCommand (from_utf8_lossy [])), ())"
      "current_workspace_change_id demo_jj p () = (Inl (JjCommand (from_utf8_lossy [])), ())" for p n
    by (simp_all add: workspace_path_def current_workspace_path_def current_workspace_change_id_def fails bytes_def)
  have canonical: "canonicalize demo_jj p () = (Inr p, ())" for p by (simp add: canonicalize_def demo_jj_def)
  have root: "pr_id demo_root = [1]" "pr_root_path demo_root = bytes ''/r''" "pr_display_name demo_root = [80]"
    by (simp_all add: demo_root_def)
  show ?thesis
    unfolding root discover_steps found_workspace_def
    by (simp only: act_bind_def act_try_def canonical listed none prod.case sum.case parse_list_output [OF list] to_option_def
        summarize_entries.simps entry_path_def act_return_def option.distinct if_False option.case discovered_workspace.simps Let_def)
qed

lemma not_recorded: "has_recorded_workspace_path (wm_workspace_path found_workspace) = False"
  by (simp add: found_workspace_def workspace_summary_of_def has_recorded_workspace_path_def encode_missing_workspace_path_def)

lemma demo_load: "\<exists>b w'. load_bootstrap_from_store (demo_env demo_jj) False None \<lparr>wo_outside = (), wo_store = root_store\<rparr> = (Inr b, w')"
proof -
  let ?E = "demo_env demo_jj" and ?w = "\<lparr>wo_outside = (), wo_store = root_store\<rparr>"
  have empty: "st_workspaces root_store = []" "st_snapshots root_store = []" "st_activity root_store = []"
    "list_project_roots root_store = Inr [demo_root]" "list_workspaces (ae_bookmarks ?E) root_store = Inr []"
    by (simp_all add: root_store_is list_project_roots_def list_workspaces_def order_by_def store_empty_def roots.read_back)
  have path: "wm_workspace_path (remembered existing 7 found_workspace) = wm_workspace_path found_workspace" for existing
    by (simp add: remembered_def Let_def split: option.splits)
  have now: "now_ms ?E w = (Inr 7, w)" for w by (simp add: now_ms_def outside_def demo_jj_def)
  have fault: "ae_fault ?E s = (None, s)" for s by (simp add: demo_env_def)
  obtain v errors where one: "bootstrap_workspace ?E (by_id []) found_workspace ?w
      = (Inr (v, errors), \<lparr>wo_outside = (), wo_store = root_store\<lparr>st_workspaces := [workspace_values (ae_bookmarks ?E) v]\<rparr>\<rparr>)"
    by (simp add: bootstrap_workspace_def now current_status_def path not_recorded change_store_def outside_def fault first_upserts empty Let_def)
  have "bootstrap_roots ?E (by_id []) [demo_root] ?w = (Inr ([v], errors), \<lparr>wo_outside = (), wo_store = root_store\<lparr>st_workspaces := [workspace_values (ae_bookmarks ?E) v]\<rparr>\<rparr>)"
    by (simp add: in_jj_def demo_found one)
  then show ?thesis
    by (simp add: load_bootstrap_from_store_def read_store_def empty seed_root_def finish_bootstrap_def active_index_def
        load_workspace_snapshot_def get_snapshot_def now change_store_def outside_def fault first_upserts Let_def
        list_pane_activity_def order_by_def)
qed

theorem load_bootstrap_contract_witness:
  "\<exists>b v. fst (load_bootstrap_from_store (demo_env demo_jj) False None \<lparr>wo_outside = (), wo_store = root_store\<rparr>) = Inr b
    \<and> bs_workspaces b = [v] \<and> wm_workspace_name v = bytes ''default'' \<and> bs_active b = Some 0"
proof -
  let ?E = "demo_env demo_jj" and ?w = "\<lparr>wo_outside = (), wo_store = root_store\<rparr>"
  have before: "list_project_roots root_store = Inr [demo_root]" "list_workspaces (ae_bookmarks ?E) root_store = Inr []"
    by (simp_all add: root_store_is list_project_roots_def list_workspaces_def order_by_def store_empty_def roots.read_back)
  have run: "env_run ?E (wo_store ?w)" unfolding root_store_def by (simp add: sr_root sr_empty)
  obtain b w' where load: "load_bootstrap_from_store ?E False None ?w = (Inr b, w')" using demo_load by blast
  from load_bootstrap_contract [OF demo_env_ok run _ _ load, of "[]" "[demo_root]"] before
  have b: "shown_ok ?E None [] (wo_store w') b" "bs_roots b = [demo_root]" by auto
  then obtain results where "discovered_by ?E [demo_root] results"
      "if found_in results = [] then bs_workspaces b = [] else list_all2 same_found (found_in results) (bs_workspaces b)"
    unfolding shown_ok_def shows_found_def by auto
  then have "list_all2 same_found [found_workspace] (bs_workspaces b)"
    by (auto simp: discovered_by_def list_all2_Cons1 found_in_def demo_found)
  then obtain v where v: "bs_workspaces b = [v]" "same_found found_workspace v" by (auto simp: list_all2_Cons1)
  then have "wm_workspace_name v = bytes ''default''" by (metis same_found_name found_workspace_name)
  moreover have "bs_active b = Some 0" using b(1) v(1) unfolding shown_ok_def by auto
  ultimately show ?thesis using load v(1) by auto
qed

subsection \<open>Two workspaces with one path\<close>

lemma path_taken:
  assumes a: "holds B C st a" and v: "v \<in> set (ct_workspaces a)" "wm_workspace_path x = wm_workspace_path v" "wm_id x \<noteq> wm_id v"
    and kept: "bookmarks_kept B x"
  shows "snd (upsert_workspace B fault x st) = Some DatabaseError"
proof (cases "snd (upsert_workspace B fault x st)")
  case None
  let ?merge = "\<lambda>old new. new\<lparr>wm_created_at := wm_created_at old\<rparr>"
  let ?ys = "upsert_values wm_id ?merge x (ct_workspaces a)"
  have "holds B C (fst (upsert_workspace B fault x st)) (a\<lparr>ct_workspaces := ?ys\<rparr>)"
    by (rule upsert_workspace_holds [OF a kept, of fault]) (simp add: None prod_eq_iff)
  then have "unique_on workspace_columns workspace_keys (map (workspace_values B) ?ys)"
    by (auto simp: holds_def stands_for_def)
  moreover have "key_of workspace_columns [''workspace_path''] (workspace_values B w) = [Some (SqlText (wm_workspace_path w))]" for w
    by (simp add: row_simps workspace_columns_def workspace_values_def Let_def)
  ultimately have "distinct (map (\<lambda>w. [Some (SqlText (wm_workspace_path w))]) ?ys)"
    using unique_onD [of workspace_columns workspace_keys "workspace_values B" ?ys "[''workspace_path'']"] by (simp add: workspace_keys_def)
  moreover obtain y where y: "y \<in> set ?ys" "wm_id y = wm_id x" "wm_workspace_path y = wm_workspace_path x"
  proof (cases "list_ex (\<lambda>y. wm_id y = wm_id x) (ct_workspaces a)")
    case True
    then obtain old where "old \<in> set (ct_workspaces a)" "wm_id old = wm_id x" by (auto simp: list_ex_iff)
    then show ?thesis using True by (intro that [of "?merge old x"]) (auto simp: upsert_values_def)
  qed (auto simp: upsert_values_def intro: that)
  moreover have "v \<in> set ?ys" using v by (auto simp: upsert_values_def)
  ultimately show ?thesis using v by (auto simp: distinct_map inj_on_def)
next
  case (Some e)
  then show ?thesis by (auto simp: upsert_workspace_def run_one split: if_splits option.splits)
qed

text \<open>C0. When \<open>jj\<close> knows a workspace under another name than the store does (it was renamed outside the application),
  the path is the same but the identifier is not, and loading fails with a database error: the
  conflict clause of the insert covers the identifier, not the unique path.\<close>

theorem load_fails_after_rename:
  assumes ok: "codecs_ok E" and run: "env_run E (wo_store w)"
    and roots: "list_project_roots (wo_store w) = Inr (r # rs)" and ws: "list_workspaces (ae_bookmarks E) (wo_store w) = Inr ws"
    and found: "discover_workspaces (ae_jj E) (pr_id r) (pr_root_path r) (pr_display_name r) (wo_outside w) = (Inr (d # ds), s)"
    and v: "v \<in> set ws" "wm_workspace_path d = wm_workspace_path v" "wm_id d \<noteq> wm_id v"
  shows "fst (load_bootstrap_from_store E auto active_id w) = Inl (AppStore DatabaseError)"
proof -
  obtain a where a: "holds (ae_bookmarks E) (ae_snapshots E) (wo_store w) a" using run_holds [OF run] by blast
  have va: "v \<in> set (ct_workspaces a)" using v(1) listed_set(1) [OF a ws] by simp
  let ?w = "w\<lparr>wo_outside := s\<rparr>"
  have "fst (bootstrap_workspace E (by_id ws) d ?w) = Inl (AppStore DatabaseError)"
  proof -
    obtain now w1 where now: "now_ms E ?w = (Inr now, w1)" "wo_store w1 = wo_store w"
      unfolding now_ms_def by (cases "outside (jj_now (ae_jj E)) ?w") (use outside_step in fastforce)
    obtain result w2 where status: "current_status E (remembered (by_id ws) now d) w1 = (result, w2)" by fastforce
    have w2: "wo_store w2 = wo_store w" using status_step [OF status] now by simp
    have fails: "\<exists>t. change_store E (\<lambda>fault. upsert_workspace (ae_bookmarks E) fault x) w2 = (Inl (AppStore DatabaseError), t)"
      if "wm_id x = wm_id d" "wm_workspace_path x = wm_workspace_path d" for x
    proof -
      obtain r' w3 where r': "change_store E (\<lambda>fault. upsert_workspace (ae_bookmarks E) fault x) w2 = (r', w3)" by fastforce
      show ?thesis
        using change_step [OF r'] path_taken [OF a va _ _ bookmarks_always [OF ok, of x]] that v w2 r' by fastforce
    qed
    have path: "wm_workspace_path (remembered existing n d) = wm_workspace_path d" for existing n
      by (simp add: remembered_def Let_def split: option.splits)
    show ?thesis
    proof (cases result)
      case (Inl e)
      show ?thesis using now status Inl fails [of "remembered (by_id ws) now d"]
        by (auto simp: bootstrap_workspace_def Let_def path remembered_remembers)
    next
      case (Inr st)
      show ?thesis using now status Inr fails [of "(remembered (by_id ws) now d)\<lparr>wm_status := st\<rparr>"]
        by (auto simp: bootstrap_workspace_def Let_def path remembered_remembers)
    qed
  qed
  then have "fst (bootstrap_roots E (by_id ws) (r # rs) w) = Inl (AppStore DatabaseError)"
    using found by (auto simp: in_jj_def split: prod.splits sum.splits)
  then show ?thesis
    by (auto simp: load_bootstrap_from_store_def read_store_def roots ws seed_root_def split: prod.splits sum.splits)
qed

text \<open>The workspace at \<open>/A\<close> is stored, and \<open>jj\<close> lists it under the name \<open>default\<close>.\<close>

definition renamed_jj :: "unit jj_ops" where
  "renamed_jj = \<lparr>jj_command = (\<lambda>cwd args s. (Finished True (if length args = 6 \<and> args ! 1 = bytes ''list''
       then bytes ''default'' @ [9] @ bytes ''abc'' @ [10] else bytes ''/A'') [], s)),
     jj_canonicalize = (\<lambda>p. Some p), jj_now = (\<lambda>s. (7, s))\<rparr>"

definition renamed_store :: store where
  "renamed_store = fst (upsert_workspace (ae_bookmarks (demo_env renamed_jj)) None (demo_workspace [65] [47, 65] 5)
     (fst (upsert_project_root None demo_root store_empty)))"

lemma renamed_found: "\<exists>d. discover_workspaces renamed_jj [1] (bytes ''/r'') [80] () = (Inr [d], ()) \<and> wm_workspace_path d = [47, 65]
    \<and> length (wm_id d) = 26"
proof -
  let ?es = "[\<lparr>dw_name = bytes ''default'', dw_target = bytes ''abc''\<rparr>]"
  have list: "list_all listable ?es"
    by (simp add: listable_def bytes_def trim_def trim_start_def trim_end_def is_whitespace_def is_scalar_def)
  have "run_jj renamed_jj (bytes ''/r'') (list_args (bytes ''/r'')) () = (Inr (list_output ?es), ())"
    by (simp add: run_jj_def renamed_jj_def list_args_def list_output_def bytes_def)
  moreover have "run_jj renamed_jj p (x # y # z # more) () = (Inr [47, 65], ())" if "y \<noteq> bytes ''list''" for p x y z more
    using that by (simp add: run_jj_def renamed_jj_def bytes_def)
  then have "workspace_path renamed_jj p n () = (Inr [47, 65], ())" "current_workspace_path renamed_jj p () = (Inr [47, 65], ())"
      "current_workspace_change_id renamed_jj p () = (Inr [47, 65], ())" for p n
    by (simp_all add: workspace_path_def current_workspace_path_def current_workspace_change_id_def canonicalize_def renamed_jj_def
        trim_def trim_start_def trim_end_def is_whitespace_def bytes_def)
  moreover have "canonicalize renamed_jj p () = (Inr p, ())" for p by (simp add: canonicalize_def renamed_jj_def)
  ultimately show ?thesis
    by (simp add: discover_steps parse_list_output [OF list, simplified] entry_path_def) (simp add: workspace_summary_of_def workspace_id_for_def bytes_def hex16_def)
qed

theorem load_fails_after_rename_witness:
  "fst (load_bootstrap_from_store (demo_env renamed_jj) True None \<lparr>wo_outside = (), wo_store = renamed_store\<rparr>)
     = Inl (AppStore DatabaseError)"
proof -
  let ?E = "demo_env renamed_jj" and ?v = "demo_workspace [65] [47, 65] 5"
  have kept: "bookmarks_kept (ae_bookmarks ?E) ?v" by (rule bookmarks_always [OF demo_env_ok])
  have tables: "st_roots renamed_store = [root_values demo_root]" "st_workspaces renamed_store = [workspace_values (ae_bookmarks ?E) ?v]"
    by (simp_all add: renamed_store_def upsert_workspace_def upsert_project_root_def run_each_def store_empty_def on_table_defs upsert_def
        checked_def unique_on_def root_keys_def workspace_keys_def)
  have "env_run ?E renamed_store" unfolding renamed_store_def by (intro sr_workspace sr_root sr_empty kept)
  moreover have "list_project_roots renamed_store = Inr [demo_root]"
    by (simp add: list_project_roots_def tables order_by_def roots.read_back)
  moreover have "list_workspaces (ae_bookmarks ?E) renamed_store = Inr [?v]"
    by (simp add: list_workspaces_def tables order_by_def workspace_read kept)
  moreover obtain d where "discover_workspaces renamed_jj [1] (bytes ''/r'') [80] () = (Inr [d], ())"
      "wm_workspace_path d = [47, 65]" "length (wm_id d) = 26" using renamed_found by blast
  moreover from this(3) have "wm_id d \<noteq> [65]" by auto
  ultimately show ?thesis
    by (intro load_fails_after_rename [where r = demo_root and rs = "[]" and ws = "[?v]" and d = d and ds = "[]" and s = "()" and v = ?v])
      (simp_all add: demo_env_ok demo_root_def demo_workspace_def)
qed

end
