(* ===== verification/App_Tasks_Props.thy ===== *)
theory App_Tasks_Props
  imports App_Tasks Bootstrap_Props
begin

section \<open>Properties of the background tasks\<close>

text \<open>
  While nothing else touches the activities, what is known of a pane is what the store will have once the
  task that writes has ended; a change of a workspace's files always has a task that waits for it. Closing
  a pane and the reconciliation can interfere with a task that is half way, and then they do not agree.
\<close>

subsection \<open>Activities reach the store\<close>

definition in_flight :: "activity_app \<Rightarrow> activity_map" where
  "in_flight st = (case aa_tasks st of [PtSaving b] \<Rightarrow> b | _ \<Rightarrow> Map.empty)"

definition activity_inv :: "activity_app \<Rightarrow> bool" where
  "activity_inv st \<longleftrightarrow> (aa_active st \<longleftrightarrow> aa_tasks st \<noteq> []) \<and> length (aa_tasks st) \<le> 1
     \<and> (aa_tasks st = [] \<longrightarrow> aa_pending st = Map.empty)
     \<and> aa_known st = aa_db st ++ in_flight st ++ aa_pending st"

lemma at_task_simps [simp]:
  "aa_known (at_task xs ys r) = aa_known (fst r)" "aa_pending (at_task xs ys r) = aa_pending (fst r)"
  "aa_active (at_task xs ys r) = aa_active (fst r)" "aa_db (at_task xs ys r) = aa_db (fst r)"
  "aa_tasks (at_task xs ys r) = xs @ snd r @ ys"
  by (simp_all add: at_task_def)

lemma inv_record: "activity_inv st \<Longrightarrow> activity_inv (record_in f t w p st)"
  by (cases "aa_tasks st")
    (auto simp: activity_inv_def record_in_def schedule_pane_activity_persistence_def in_flight_def Let_def map_add_def
      split: list.splits persist_task.splits intro!: ext)

lemma one_task: "activity_inv st \<Longrightarrow> aa_tasks st = xs @ t # ys \<Longrightarrow> xs = [] \<and> ys = [] \<and> aa_tasks st = [t]"
  by (cases xs; cases ys) (auto simp: activity_inv_def)

lemma inv_persisting:
  assumes "persisting st st'" "activity_inv st"
  shows "activity_inv st' \<and> aa_known st' = aa_known st"
  using assms
proof (induction rule: persisting.induct)
  case (per_wake st xs ys)
  then show ?case using one_task [OF per_wake(2,1)]
    by (auto simp: activity_inv_def take_pending_def in_flight_def)
next
  case (per_write st xs b ys)
  then show ?case using one_task [OF per_write(2,1)]
    by (auto simp: activity_inv_def write_rows_def in_flight_def map_add_def restrict_map_def fun_eq_iff split: option.splits)
next
  case (per_done st xs ys)
  then show ?case using one_task [OF per_done(2,1)]
    by (auto simp: activity_inv_def after_save_def in_flight_def)
qed

lemma recorded_inv: "recorded_run db st \<Longrightarrow> activity_inv st"
proof (induction rule: recorded_run.induct)
  case (rr_record st st')
  then show ?case
    by (auto simp: record_pane_seen_def record_pane_activity_def record_pane_attention_def elim!: recording.cases intro: inv_record)
qed (auto simp: activity_inv_def activity_start_def in_flight_def dest: inv_persisting)

lemma stored_when_quiet: "activity_inv st \<Longrightarrow> aa_tasks st = [] \<Longrightarrow> aa_db st = aa_known st"
  by (simp add: activity_inv_def in_flight_def)

text \<open>From each point of a task, the steps that remain when nothing more is recorded.\<close>

lemma saved_ends:
  assumes "activity_inv st" "aa_tasks st = [PtSaved]" "aa_pending st = Map.empty"
  shows "\<exists>st'. persisting st st' \<and> aa_tasks st' = []"
  using per_done [of st "[]" "[]"] assms by (intro exI [of _ "at_task [] [] (after_save st)"]) (simp add: after_save_def)

lemma waiting_ends:
  assumes "activity_inv st" "aa_tasks st = [PtWaiting]"
  shows "\<exists>st'. persisting\<^sup>*\<^sup>* st st' \<and> aa_tasks st' = []"
proof (cases "aa_pending st = Map.empty")
  case True
  then show ?thesis
    using per_wake [of st "[]" "[]"] assms by (intro exI [of _ "at_task [] [] (take_pending st)"]) (auto simp: take_pending_def)
next
  case False
  let ?s1 = "at_task [] [] (take_pending st)"
  let ?s2 = "at_task [] [] (write_rows (dom (aa_pending st)) (aa_pending st) ?s1, [PtSaved])"
  have s1: "persisting st ?s1" "aa_tasks ?s1 = [PtSaving (aa_pending st)]" "aa_pending ?s1 = Map.empty"
    using per_wake [of st "[]" "[]"] assms False by (simp_all add: take_pending_def)
  have s2: "persisting ?s1 ?s2" "aa_tasks ?s2 = [PtSaved]" "aa_pending ?s2 = Map.empty"
    using per_write [of ?s1 "[]" "aa_pending st" "[]"] s1 by (simp_all add: write_rows_def)
  have "activity_inv ?s2" using inv_persisting s1(1) s2(1) assms(1) by blast
  then obtain s3 where "persisting ?s2 s3" "aa_tasks s3 = []" using saved_ends s2 by blast
  then show ?thesis using s1(1) s2(1) by (meson converse_rtranclp_into_rtranclp rtranclp.rtrancl_refl)
qed

lemma task_ends:
  assumes inv: "activity_inv st"
  shows "\<exists>st'. persisting\<^sup>*\<^sup>* st st' \<and> aa_tasks st' = []"
proof -
  have saved: "\<exists>st'. persisting\<^sup>*\<^sup>* st st' \<and> aa_tasks st' = []" if "activity_inv st" "aa_tasks st = [PtSaved]" for st
  proof (cases "aa_pending st = Map.empty")
    case True
    then show ?thesis using saved_ends that by blast
  next
    case False
    let ?s = "at_task [] [] (after_save st)"
    have s: "persisting st ?s" "aa_tasks ?s = [PtWaiting]"
      using per_done [of st "[]" "[]"] that False by (simp_all add: after_save_def)
    then show ?thesis using waiting_ends [of ?s] inv_persisting [OF s(1) that(1)] by (meson converse_rtranclp_into_rtranclp)
  qed
  consider "aa_tasks st = []" | "aa_tasks st = [PtWaiting]" | "aa_tasks st = [PtSaved]" | b where "aa_tasks st = [PtSaving b]"
    using inv unfolding activity_inv_def by (cases "aa_tasks st") (auto intro: persist_task.exhaust)
  then show ?thesis
  proof cases
    case (4 b)
    let ?s = "at_task [] [] (write_rows (dom b) b st, [PtSaved])"
    have s: "persisting st ?s" "aa_tasks ?s = [PtSaved]" using per_write [of st "[]" b "[]"] 4 by simp_all
    then show ?thesis using saved [of ?s] inv_persisting [OF s(1) inv] by (meson converse_rtranclp_into_rtranclp)
  qed (use waiting_ends saved inv in blast)+
qed

lemma persisting_keeps: "persisting\<^sup>*\<^sup>* st st' \<Longrightarrow> activity_inv st \<Longrightarrow> activity_inv st' \<and> aa_known st' = aa_known st"
  by (induction rule: rtranclp_induct) (auto dest: inv_persisting)

text \<open>C37. Nothing that is recorded is lost: while activities are recorded and written in any order, at most one task
  writes, and from every state the steps of that task end, with every activity that is known in the store.\<close>

theorem activities_reach_store:
  assumes "recorded_run db st"
  shows "length (aa_tasks st) \<le> 1 \<and> (\<exists>st'. persisting\<^sup>*\<^sup>* st st' \<and> aa_tasks st' = [] \<and> aa_db st' = aa_known st)"
proof -
  have inv: "activity_inv st" by (rule recorded_inv [OF assms])
  then obtain st' where "persisting\<^sup>*\<^sup>* st st'" "aa_tasks st' = []" using task_ends by blast
  moreover from this have "activity_inv st'" "aa_known st' = aa_known st" using persisting_keeps inv by blast+
  ultimately show ?thesis using inv stored_when_quiet unfolding activity_inv_def by metis
qed

theorem activities_reach_store_witness:
  "\<exists>st'. persisting\<^sup>*\<^sup>* (record_pane_seen [1] [2] 5 (activity_start Map.empty)) st'
    \<and> aa_db st' ([1], [2]) = Some (record_seen 5 (activity_new [1] [2] 5))"
proof -
  have "recorded_run Map.empty (record_pane_seen [1] [2] 5 (activity_start Map.empty))"
    by (rule rr_record [OF rr_start rec_seen])
  moreover have "aa_known (record_pane_seen [1] [2] 5 (activity_start Map.empty)) ([1], [2]) = Some (record_seen 5 (activity_new [1] [2] 5))"
    by (simp add: record_pane_seen_def record_in_def schedule_pane_activity_persistence_def activity_start_def Let_def)
  ultimately show ?thesis using activities_reach_store by metis
qed

subsection \<open>Interference\<close>

definition unrecorded :: "activity_app \<Rightarrow> activity_app \<Rightarrow> bool" where
  "unrecorded st st' \<longleftrightarrow> persisting st st' \<or> disturbing st st'"

text \<open>From a task that waits with one activity pending.\<close>

lemma one_saved:
  assumes "aa_tasks st = [PtWaiting]" "aa_pending st = [k \<mapsto> a]"
  shows "\<exists>st1. persisting st st1 \<and> st1 = st\<lparr>aa_pending := Map.empty, aa_tasks := [PtSaving [k \<mapsto> a]]\<rparr>"
    using per_wake [of st "[]" "[]"] assms by (auto simp: at_task_def take_pending_def)

lemma batch_written:
  assumes "aa_tasks st = [PtSaving b]" "aa_pending st = Map.empty"
  shows "\<exists>st2. persisting\<^sup>*\<^sup>* st st2 \<and> st2 = st\<lparr>aa_tasks := [], aa_active := False, aa_db := aa_db st ++ b\<rparr>"
proof -
  let ?s = "at_task [] [] (write_rows (dom b) b st, [PtSaved])"
  have b: "b |` dom b = b" by (auto simp: restrict_map_def fun_eq_iff domIff)
  have "persisting st ?s" using per_write [of st "[]" b "[]"] assms by simp
  moreover have "persisting ?s (at_task [] [] (after_save ?s))" using per_done [of ?s "[]" "[]"] by simp
  moreover have "at_task [] [] (after_save ?s) = st\<lparr>aa_tasks := [], aa_active := False, aa_db := aa_db st ++ b\<rparr>"
    using assms by (simp add: after_save_def at_task_def write_rows_def b)
  ultimately show ?thesis by (metis converse_rtranclp_into_rtranclp rtranclp.rtrancl_refl)
qed

lemma persisting_unrecorded: "persisting\<^sup>*\<^sup>* st st' \<Longrightarrow> unrecorded\<^sup>*\<^sup>* st st'"
  by (erule mono_rtranclp [rule_format, rotated]) (simp add: unrecorded_def)

text \<open>A pane that is closed while its activity is being written comes back: the row is deleted before the write.\<close>

lemma closed_pane_returns:
  "\<exists>st'. unrecorded\<^sup>*\<^sup>* (record_pane_seen w p t (activity_start Map.empty)) st' \<and> aa_tasks st' = [] \<and> aa_deletes st' = []
     \<and> aa_known st' (w, p) = None \<and> aa_db st' (w, p) \<noteq> None"
proof -
  let ?a = "record_seen t (activity_new w p t)" and ?st = "record_pane_seen w p t (activity_start Map.empty)"
  have st: "aa_tasks ?st = [PtWaiting]" "aa_pending ?st = [(w, p) \<mapsto> ?a]" "aa_db ?st = Map.empty" "aa_deletes ?st = []"
    by (simp_all add: record_pane_seen_def record_in_def schedule_pane_activity_persistence_def activity_start_def Let_def)
  obtain s1 where s1: "persisting ?st s1" "s1 = ?st\<lparr>aa_pending := Map.empty, aa_tasks := [PtSaving [(w, p) \<mapsto> ?a]]\<rparr>"
    using one_saved [OF st(1,2)] by blast
  let ?s2 = "delete_pane w p s1"
  let ?s3 = "?s2\<lparr>aa_deletes := [], aa_db := (aa_db ?s2)((w, p) := None)\<rparr>"
  have s3: "disturbing ?s2 ?s3" using dis_deleted [of ?s2 "[]" "(w, p)" "[]"] s1(2) st by (simp add: delete_pane_def Let_def)
  obtain s4 where s4: "persisting\<^sup>*\<^sup>* ?s3 s4" "s4 = ?s3\<lparr>aa_tasks := [], aa_active := False, aa_db := aa_db ?s3 ++ [(w, p) \<mapsto> ?a]\<rparr>"
    using batch_written [of ?s3 "[(w, p) \<mapsto> ?a]"] s1(2) by (auto simp: delete_pane_def Let_def)
  have "unrecorded ?st s1" "unrecorded s1 ?s2" "unrecorded ?s2 ?s3"
    using s1(1) dis_close s3 by (auto simp: unrecorded_def)
  then have "unrecorded\<^sup>*\<^sup>* ?st s4" using persisting_unrecorded [OF s4(1)] by (meson converse_rtranclp_into_rtranclp)
  then show ?thesis using s4(2) s1(2) by (intro exI [of _ s4]) (simp add: delete_pane_def Let_def)
qed

definition session_env :: "rtext \<Rightarrow> unit app_env" where
  "session_env name = (demo_env quiet_jj)\<lparr>ae_sessions := (\<lambda>s. (Some [\<lparr>si_name = name, si_pid = 1, si_cols = 80, si_rows = 24\<rparr>], s))\<rparr>"

text \<open>A workspace that is renamed while an activity of a pane is being written leaves a row under its old identifier.\<close>

lemma renamed_pane_left:
  assumes "i \<noteq> j"
  shows "\<exists>st'. unrecorded\<^sup>*\<^sup>* (record_pane_seen i p t (activity_start Map.empty)) st' \<and> aa_tasks st' = []
     \<and> (\<forall>q. aa_known st' (i, q) = None) \<and> aa_db st' (i, p) \<noteq> None"
proof -
  let ?a = "record_seen t (activity_new i p t)" and ?st = "record_pane_seen i p t (activity_start Map.empty)"
  have st: "aa_tasks ?st = [PtWaiting]" "aa_pending ?st = [(i, p) \<mapsto> ?a]" "aa_db ?st = Map.empty"
    by (simp_all add: record_pane_seen_def record_in_def schedule_pane_activity_persistence_def activity_start_def Let_def)
  obtain s1 where s1: "persisting ?st s1" "s1 = ?st\<lparr>aa_pending := Map.empty, aa_tasks := [PtSaving [(i, p) \<mapsto> ?a]]\<rparr>"
    using one_saved [OF st(1,2)] by blast
  let ?s2 = "s1\<lparr>aa_db := rekey_pane_activity_map i j (aa_db s1)\<rparr>"
  let ?s3 = "rekey_activities i j ?s2"
  have s3: "aa_tasks ?s3 = [PtSaving [(i, p) \<mapsto> ?a]]" "aa_pending ?s3 = Map.empty" "\<forall>q. aa_known ?s3 (i, q) = None"
    using assms s1(2) by (simp_all add: rekey_activities_def rekey_pane_activity_map_def fun_eq_iff)
  obtain s4 where s4: "persisting\<^sup>*\<^sup>* ?s3 s4" "s4 = ?s3\<lparr>aa_tasks := [], aa_active := False, aa_db := aa_db ?s3 ++ [(i, p) \<mapsto> ?a]\<rparr>"
    using batch_written [OF s3(1,2)] by blast
  have "unrecorded ?st s1" "unrecorded s1 ?s2" "unrecorded ?s2 ?s3"
    using s1(1) dis_renamed dis_rekeyed by (auto simp: unrecorded_def)
  then have "unrecorded\<^sup>*\<^sup>* ?st s4" using persisting_unrecorded [OF s4(1)] by (meson converse_rtranclp_into_rtranclp)
  then show ?thesis using s3(3) s4(2) by (intro exI [of _ s4]) simp
qed

text \<open>What holds of the flag and the tasks in every run, whatever interferes: there is at most one task that writes, and the
  flag says whether there is; what is pending always has a task.\<close>

definition task_inv :: "activity_app \<Rightarrow> bool" where
  "task_inv st \<longleftrightarrow> (aa_active st \<longleftrightarrow> aa_tasks st \<noteq> []) \<and> length (aa_tasks st) \<le> 1 \<and> (aa_tasks st = [] \<longrightarrow> aa_pending st = Map.empty)"

lemma task_inv_record: "task_inv st \<Longrightarrow> task_inv (record_in f t w p st)"
  by (auto simp: task_inv_def record_in_def schedule_pane_activity_persistence_def Let_def)

lemma task_inv_persisting: "persisting st st' \<Longrightarrow> task_inv st \<Longrightarrow> task_inv st'"
  by (induction rule: persisting.induct) (auto simp: task_inv_def take_pending_def after_save_def write_rows_def)

lemma rekey_empty: "rekey_pane_activity_map i j Map.empty = Map.empty"
  by (simp add: rekey_pane_activity_map_def fun_eq_iff)

lemma task_inv_disturbing: "disturbing st st' \<Longrightarrow> task_inv st \<Longrightarrow> task_inv st'"
  by (induction rule: disturbing.induct)
    (auto simp: task_inv_def delete_pane_def write_rows_def reconcile_read_def reconcile_write_def reconcile_apply_def
      reload_activities_def rekey_activities_def rekey_empty Let_def)

lemma any_run_one_task: "any_run db st \<Longrightarrow> task_inv st"
proof (induction rule: any_run.induct)
  case ar_start
  show ?case by (simp add: task_inv_def activity_start_def)
next
  case (ar_record st st')
  then show ?case
    by (auto simp: record_pane_seen_def record_pane_activity_def record_pane_attention_def elim!: recording.cases intro: task_inv_record)
qed (auto intro: task_inv_persisting task_inv_disturbing)

subsection \<open>The reconciliation\<close>

lemma activity_map_keyed: "pane_activity_map as k = Some a \<Longrightarrow> a \<in> set as \<and> k = (pa_workspace_id a, pa_pane_id a)"
  unfolding pane_activity_map_def by (auto dest!: map_of_SomeD)

lemma activity_map_dom: "a \<in> set as \<Longrightarrow> (pa_workspace_id a, pa_pane_id a) \<in> dom (pane_activity_map as)"
  by (simp add: pane_activity_map_def dom_map_of_conv_image_fst image_image)

definition keyed :: "activity_map \<Rightarrow> bool" where
  "keyed m \<longleftrightarrow> (\<forall>k a. m k = Some a \<longrightarrow> k = (pa_workspace_id a, pa_pane_id a))"

text \<open>The seen time in a row, and 0 when there is none.\<close>

definition seen_in :: "activity_map \<Rightarrow> rtext \<times> rtext \<Rightarrow> i64" where
  "seen_in m k = (case m k of Some a \<Rightarrow> pa_last_seen a | None \<Rightarrow> 0)"

lemma observation_keeps [simp]:
  "pa_last_seen (record_tmux_observation t at_s fp a) = pa_last_seen a"
  "pa_workspace_id (record_tmux_observation t at_s fp a) = pa_workspace_id a"
  "pa_pane_id (record_tmux_observation t at_s fp a) = pa_pane_id a"
  by (simp_all add: record_tmux_observation_def set_fingerprint_def Let_def split: option.splits)

lemma activity_new_simps [simp]:
  "pa_last_seen (activity_new i p t) = 0" "pa_workspace_id (activity_new i p t) = i" "pa_pane_id (activity_new i p t) = p"
  by (simp_all add: activity_new_def)

text \<open>The activities of the reconciliation have the seen times of the rows they were made from.\<close>

lemma reconciled_seen:
  "reconcile_panes E known panes w = (Inr as, w') \<Longrightarrow> keyed known \<Longrightarrow>
   \<forall>a\<in>set as. pa_last_seen a = seen_in known (pa_workspace_id a, pa_pane_id a)"
proof (induction panes arbitrary: known w as)
  case (Cons pane panes)
  obtain i p payload where pane: "pane = (i, p, payload)" by (cases pane)
  define old where "old now = (case known (i, p) of Some a \<Rightarrow> a | None \<Rightarrow> activity_new i p now)" for now
  have old: "pa_last_seen (old now) = seen_in known (i, p)" "pa_workspace_id (old now) = i" "pa_pane_id (old now) = p" for now
    using Cons.prems(2) by (auto simp: old_def seen_in_def keyed_def split: option.splits)
  let ?new = "\<lambda>now at_s. record_tmux_observation now at_s None (old now)"
  have new: "keyed (known((i, p) \<mapsto> ?new now at_s))" "seen_in (known((i, p) \<mapsto> ?new now at_s)) = seen_in known" for now at_s
    using Cons.prems(2) old by (auto simp: keyed_def seen_in_def fun_eq_iff)
  consider w1 where "reconcile_panes E known panes w1 = (Inr as, w')"
    | now at_s w1 rest where "as = ?new now at_s # rest" "reconcile_panes E (known((i, p) \<mapsto> ?new now at_s)) panes w1 = (Inr rest, w')"
    using Cons.prems(1) unfolding pane old_def
    by (auto simp: Let_def split: prod.splits sum.splits option.splits)
  then show ?case
  proof cases
    case 1
    then show ?thesis using Cons.IH Cons.prems(2) by blast
  next
    case 2
    then show ?thesis using Cons.IH [OF 2(2) new(1), unfolded new(2)] old by simp
  qed
qed simp

text \<open>Recording activities and writing them, which leave the reconciliation alone.\<close>

definition meanwhile :: "activity_app \<Rightarrow> activity_app \<Rightarrow> bool" where
  "meanwhile st st' \<longleftrightarrow> recording st st' \<or> persisting st st'"

lemma meanwhile_keeps:
  assumes "meanwhile st st'"
  shows "aa_reconcile st' = aa_reconcile st" "any_run db st \<Longrightarrow> any_run db st'"
proof -
  have "aa_reconcile (record_in f t w p st) = aa_reconcile st" for f t w p
    by (simp add: record_in_def schedule_pane_activity_persistence_def Let_def)
  moreover have "aa_reconcile (at_task xs ys r) = aa_reconcile (fst r)" for xs ys r by (simp add: at_task_def)
  ultimately show "aa_reconcile st' = aa_reconcile st"
    using assms unfolding meanwhile_def record_pane_seen_def record_pane_activity_def record_pane_attention_def
    by (auto elim!: recording.cases persisting.cases
        simp: record_pane_seen_def record_pane_activity_def record_pane_attention_def take_pending_def after_save_def write_rows_def)
  show "any_run db st \<Longrightarrow> any_run db st'" using assms unfolding meanwhile_def by (auto intro: ar_record ar_persist)
qed

lemma meanwhile_run: "meanwhile\<^sup>*\<^sup>* st st' \<Longrightarrow> aa_reconcile st' = aa_reconcile st \<and> (any_run db st \<longrightarrow> any_run db st')"
  by (induction rule: rtranclp_induct) (use meanwhile_keeps in \<open>auto\<close>)

lemma activity_map_set: "keyed (pane_activity_map as)"
  by (auto simp: keyed_def dest: activity_map_keyed)

text \<open>Whatever the rows of the store were, a key of the result has the seen time of its row.\<close>

lemma reconciled_map_seen:
  assumes "reconcile_panes E (pane_activity_map rows) panes w = (Inr as, w')" "k \<in> dom (pane_activity_map as)"
  shows "seen_in (m ++ pane_activity_map as) k = seen_in (pane_activity_map rows) k"
proof -
  obtain a where a: "pane_activity_map as k = Some a" using assms(2) by blast
  then have "a \<in> set as" "k = (pa_workspace_id a, pa_pane_id a)" using activity_map_keyed by blast+
  then show ?thesis using reconciled_seen [OF assms(1) activity_map_set] a by (simp add: seen_in_def)
qed

text \<open>C39. The reconciliation undoes what is recorded while it runs. In any run of the application it reads the rows,
  observes the sessions, writes its result to the store, and then inserts it in memory. Whatever is recorded
  and written between these steps, when it is done the panes it covers have in memory the seen times that the
  rows had when it read them; and when what was recorded had been written before the reconciliation wrote, the
  store has them as well, with no task left that would correct them: that a pane has been seen is forgotten.\<close>

theorem reconcile_forgets_seen:
  assumes run: "any_run db st" and idle: "aa_reconcile st = None" and rows: "aa_db st = pane_activity_map rows"
    and observed: "reconcile_panes (E :: unit app_env) (aa_db st) panes w = (Inr as, w')"
    and before: "meanwhile\<^sup>*\<^sup>* (reconcile_read as st) st1"
    and after: "meanwhile\<^sup>*\<^sup>* (reconcile_write (dom (pane_activity_map as)) as st1) st2"
    and k: "k \<in> dom (pane_activity_map as)"
  shows "any_run db (reconcile_apply as st2)
     \<and> seen_in (aa_known (reconcile_apply as st2)) k = seen_in (aa_db st) k
     \<and> (aa_tasks st1 = [] \<and> st2 = reconcile_write (dom (pane_activity_map as)) as st1 \<longrightarrow>
          seen_in (aa_db (reconcile_apply as st2)) k = seen_in (aa_db st) k
          \<and> aa_tasks (reconcile_apply as st2) = [] \<and> aa_pending (reconcile_apply as st2) = Map.empty)"
proof -
  let ?keys = "dom (pane_activity_map as)"
  have "any_run db (reconcile_read as st)" by (rule ar_disturb [OF run dis_reconcile [OF idle observed]])
  then have st1: "any_run db st1" "aa_reconcile st1 = Some (RcObserved as)"
    using meanwhile_run [OF before, of db] by (simp_all add: reconcile_read_def)
  then have "any_run db (reconcile_write ?keys as st1)" by (intro ar_disturb [OF _ dis_reconcile_written])
  then have st2: "any_run db st2" "aa_reconcile st2 = Some (RcWritten as)"
    using meanwhile_run [OF after, of db] by (simp_all add: reconcile_write_def)
  have seen: "seen_in (m ++ pane_activity_map as) k = seen_in (aa_db st) k" for m
    unfolding rows by (rule reconciled_map_seen [OF observed [unfolded rows] k])
  have "seen_in (aa_known (reconcile_apply as st2)) k = seen_in (aa_db st) k"
    by (simp add: reconcile_apply_def seen)
  moreover have "any_run db (reconcile_apply as st2)" by (rule ar_disturb [OF st2(1) dis_reconciled [OF st2(2)]])
  moreover have "seen_in (aa_db st2) k = seen_in (aa_db st) k \<and> aa_tasks st2 = [] \<and> aa_pending st2 = Map.empty"
    if "aa_tasks st1 = []" "st2 = reconcile_write ?keys as st1"
  proof -
    have "pane_activity_map as |` ?keys = pane_activity_map as" by (auto simp: restrict_map_def fun_eq_iff domIff)
    then show ?thesis
      using that seen any_run_one_task [OF st1(1)] by (simp add: reconcile_write_def write_rows_def task_inv_def)
  qed
  ultimately show ?thesis by (simp add: reconcile_apply_def)
qed

text \<open>A pane seen at 9 while a reconciliation waits for the sessions, and written at once: afterwards it is not seen.\<close>

definition demo_payload :: terminal_pane_payload where
  "demo_payload = \<lparr>tp_kind = KShell, tp_shell_type = [], tp_handler = NoHandler, tp_inner_session_id = None, tp_session_id = None,
     tp_session_state = Live, tp_cwd = [], tp_command = [], tp_parameters = [], tp_on_exit = CloseOnExit, tp_width_chars = 80,
     tp_exit_code = None, tp_auto_start = True, tp_restored_buffer = [], tp_embedded = None, tp_correlation_id = None,
     tp_attention = None\<rparr>"

theorem reconcile_forgets_seen_witness:
  "\<exists>st1 as. meanwhile\<^sup>*\<^sup>* (reconcile_read as (activity_start [([1], [2]) \<mapsto> activity_new [1] [2] 5])) st1
     \<and> seen_in (aa_known st1) ([1], [2]) = 9 \<and> seen_in (aa_db st1) ([1], [2]) = 9
     \<and> (let st' = reconcile_apply as (reconcile_write {([1], [2])} as st1) in
          seen_in (aa_known st') ([1], [2]) = 0 \<and> seen_in (aa_db st') ([1], [2]) = 0)"
proof -
  let ?k = "([1], [2]) :: rtext \<times> rtext" and ?a = "activity_new [1] [2] 5"
  let ?st = "activity_start [?k \<mapsto> ?a]" and ?n = "record_seen 9 (activity_new [1] [2] 5)"
  define old where "old = ?a\<lparr>pa_updated := 7\<rparr>"
  have key: "pane_activity_map [old] = [?k \<mapsto> old]" "pane_activity_map [?a] = [?k \<mapsto> ?a]"
    by (simp_all add: pane_activity_map_def old_def)
  let ?E = "session_env (stable_retach_session_name (terminal_spec_for_payload [1] [2] demo_payload 120 40))"
  let ?w = "\<lparr>wo_outside = (), wo_store = store_empty\<rparr>"
  have observed: "reconcile_panes ?E (aa_db ?st) [([1], [2], demo_payload)] ?w = (Inr [old], ?w)"
    by (simp add: session_env_def outside_def now_ms_def quiet_jj_def retach_session_activity_def old_def activity_start_def
        record_tmux_observation_def set_fingerprint_def Let_def activity_new_def)
  let ?s0 = "reconcile_read [old] ?st" and ?s1 = "record_pane_seen [1] [2] 9 (reconcile_read [old] ?st)"
  have s1: "meanwhile ?s0 ?s1" by (simp add: meanwhile_def rec_seen)
  have tasks: "aa_tasks ?s1 = [PtWaiting]" "aa_pending ?s1 = [?k \<mapsto> ?n]" "aa_known ?s1 = [?k \<mapsto> ?n]" "aa_db ?s1 = [?k \<mapsto> ?a]"
    by (simp_all add: record_pane_seen_def record_in_def schedule_pane_activity_persistence_def activity_start_def
        reconcile_read_def Let_def)
  obtain s2 where s2: "persisting ?s1 s2" "s2 = ?s1\<lparr>aa_pending := Map.empty, aa_tasks := [PtSaving [?k \<mapsto> ?n]]\<rparr>"
    using one_saved [OF tasks(1,2)] by blast
  obtain s3 where s3: "persisting\<^sup>*\<^sup>* s2 s3" "s3 = s2\<lparr>aa_tasks := [], aa_active := False, aa_db := aa_db s2 ++ [?k \<mapsto> ?n]\<rparr>"
    using batch_written [of s2 "[?k \<mapsto> ?n]"] s2(2) by auto
  have "meanwhile\<^sup>*\<^sup>* s2 s3" using s3(1) by (rule mono_rtranclp [rule_format, rotated]) (simp add: meanwhile_def)
  then have meanwhile: "meanwhile\<^sup>*\<^sup>* ?s0 s3"
    using s1 s2(1) by (meson converse_rtranclp_into_rtranclp meanwhile_def)
  have seen: "seen_in (aa_known s3) ?k = 9" "seen_in (aa_db s3) ?k = 9" "aa_tasks s3 = []"
    using tasks by (simp_all add: s3(2) s2(2) seen_in_def record_seen_def activity_new_def)
  have dom: "dom (pane_activity_map [old]) = {?k}" by (simp add: key)
  have start: "aa_reconcile ?st = None" "aa_db ?st = pane_activity_map [?a]" "seen_in (aa_db ?st) ?k = 0" "?k \<in> {?k}"
    unfolding key(2) by (simp_all add: seen_in_def activity_start_def)
  note forgets = reconcile_forgets_seen [OF ar_start start(1,2) observed meanwhile rtranclp.rtrancl_refl, unfolded dom, OF start(4),
      unfolded start(3)]
  have "let st' = reconcile_apply [old] (reconcile_write {?k} [old] s3) in seen_in (aa_known st') ?k = 0 \<and> seen_in (aa_db st') ?k = 0"
    unfolding Let_def using forgets seen(3) by blast
  then show ?thesis using meanwhile seen by blast
qed

subsection \<open>A change is not forgotten\<close>

text \<open>A task that will look at the workspace, and when.\<close>

definition waits_for :: "refresh_app \<Rightarrow> rtext \<Rightarrow> nat \<Rightarrow> bool" where
  "waits_for st w d \<longleftrightarrow> (RtTop w \<in> set (rs_tasks st) \<or> (\<exists>t. RtSleeping w t \<in> set (rs_tasks st) \<and> t \<le> max d (rs_now st)))"

definition refresh_inv :: "refresh_app \<Rightarrow> bool" where
  "refresh_inv st \<longleftrightarrow>
     (\<forall>w d. rs_due st w = Some d \<longrightarrow> d \<le> rs_now st + 180 \<and> w \<notin> rs_suspended st \<and> waits_for st w d)
     \<and> (\<forall>w\<in>rs_timer st. waits_for st w (rs_now st + 180))
     \<and> (\<forall>w t. RtSleeping w t \<in> set (rs_tasks st) \<longrightarrow> t \<le> rs_now st + 180)"

lemma waits_mono: "waits_for st w d \<Longrightarrow> d \<le> e \<Longrightarrow> waits_for st w e"
  by (fastforce simp: waits_for_def)

lemma at_refresh_simps [simp]:
  "rs_now (at_refresh xs ys r) = rs_now (fst r)" "rs_workspaces (at_refresh xs ys r) = rs_workspaces (fst r)"
  "rs_due (at_refresh xs ys r) = rs_due (fst r)" "rs_timer (at_refresh xs ys r) = rs_timer (fst r)"
  "rs_suspended (at_refresh xs ys r) = rs_suspended (fst r)" "rs_tasks (at_refresh xs ys r) = xs @ snd r @ ys"
  by (simp_all add: at_refresh_def)

text \<open>A step of a task for one workspace does not touch the tasks that wait for others.\<close>

lemma waits_other:
  assumes "waits_for st w d" "rs_tasks st = xs @ t # ys" "t \<noteq> RtTop w" "\<And>u. t \<noteq> RtSleeping w u"
    and "rs_now (fst r) = rs_now st"
  shows "waits_for (at_refresh xs ys r) w d"
  using assms by (auto simp: waits_for_def)

lemma inv_task_gone:
  assumes inv: "refresh_inv st" and tasks: "rs_tasks st = xs @ t # ys" and t: "t = RtTop w \<or> (\<exists>u. t = RtSleeping w u)"
    and r: "rs_now (fst r) = rs_now st" "rs_suspended (fst r) = rs_suspended st" "rs_due (fst r) = (rs_due st)(w := None)"
      "rs_timer (fst r) = rs_timer st - {w}" "\<And>v u. RtSleeping v u \<notin> set (snd r)"
  shows "refresh_inv (at_refresh xs ys r)"
proof -
  have others: "waits_for (at_refresh xs ys r) v d" if "waits_for st v d" "v \<noteq> w" for v d
    by (rule waits_other [OF that(1) tasks _ _ r(1)]) (use t that(2) in auto)
  show ?thesis
    using inv tasks r others unfolding refresh_inv_def
    by (auto split: if_splits)
qed

lemma inv_task_sleeps:
  assumes inv: "refresh_inv st" and tasks: "rs_tasks st = xs @ t # ys" and t: "t = RtTop w \<or> (\<exists>u. t = RtSleeping w u)"
    and due: "rs_due st w = Some d"
  shows "refresh_inv (at_refresh xs ys (st, [RtSleeping w (rs_now st + (d - rs_now st))]))"
proof -
  let ?r = "(st, [RtSleeping w (rs_now st + (d - rs_now st))])"
  have d: "d \<le> rs_now st + 180" using inv due by (simp add: refresh_inv_def)
  have self: "waits_for (at_refresh xs ys ?r) w e" if "d \<le> e" for e
    using that by (auto simp: waits_for_def intro!: exI [of _ "rs_now st + (d - rs_now st)"])
  have others: "waits_for (at_refresh xs ys ?r) v e" if "waits_for st v e" "v \<noteq> w" for v e
    by (rule waits_other [OF that(1) tasks]) (use t that(2) in auto)
  let ?s = "at_refresh xs ys ?r"
  have due': "e \<le> rs_now st + 180 \<and> v \<notin> rs_suspended st \<and> waits_for ?s v e" if "rs_due st v = Some e" for v e
    using inv that self others due by (cases "v = w") (auto simp: refresh_inv_def)
  have timer': "waits_for ?s v (rs_now st + 180)" if "v \<in> rs_timer st" for v
    using inv that self [OF d] others by (cases "v = w") (auto simp: refresh_inv_def)
  have sleep': "u \<le> rs_now st + 180" if "RtSleeping v u \<in> set (rs_tasks ?s)" for v u
    using inv that d by (auto simp: refresh_inv_def tasks)
  show ?thesis using due' timer' sleep' by (simp add: refresh_inv_def)
qed

lemma inv_later: "refresh_inv st \<Longrightarrow> refresh_inv (st\<lparr>rs_now := rs_now st + d\<rparr>)"
proof -
  assume inv: "refresh_inv st"
  have w: "waits_for (st\<lparr>rs_now := rs_now st + d\<rparr>) v e" if "waits_for st v e" for v e
    using that by (fastforce simp: waits_for_def)
  have m: "waits_for (st\<lparr>rs_now := rs_now st + d\<rparr>) v (rs_now st + d + 180)" if "waits_for st v (rs_now st + 180)" for v
    by (rule waits_mono [OF w [OF that]]) simp
  show ?thesis using inv w m by (fastforce simp: refresh_inv_def)
qed

lemma inv_reload: "refresh_inv st \<Longrightarrow> refresh_inv (st\<lparr>rs_workspaces := ws, rs_watchers := v\<rparr>)"
  by (simp add: refresh_inv_def waits_for_def)

lemma inv_suspend: "refresh_inv st \<Longrightarrow> refresh_inv (suspend_workspace_status_refresh w st)"
  by (simp add: refresh_inv_def waits_for_def suspend_workspace_status_refresh_def)

lemma inv_resume: "refresh_inv st \<Longrightarrow> refresh_inv (resume_workspace_status_refresh w st)"
  by (simp add: refresh_inv_def waits_for_def resume_workspace_status_refresh_def)

lemma inv_schedule:
  assumes inv: "refresh_inv st"
  shows "refresh_inv (schedule_workspace_status_refresh w st)"
proof -
  let ?s = "schedule_workspace_status_refresh w st"
  have w: "waits_for ?s v e" if "waits_for st v e" for v e
    using that by (auto simp: waits_for_def schedule_workspace_status_refresh_def Let_def)
  have new: "waits_for ?s w (rs_now st + 180)" if "w \<notin> rs_suspended st"
    using inv that w
    by (cases "w \<in> rs_timer st") (auto simp: refresh_inv_def, simp add: waits_for_def schedule_workspace_status_refresh_def Let_def)
  have due: "e \<le> rs_now st + 180 \<and> v \<notin> rs_suspended st \<and> waits_for ?s v e" if "rs_due ?s v = Some e" for v e
    using that inv w new
    by (auto simp: refresh_inv_def schedule_workspace_status_refresh_def WORKSPACE_STATUS_REFRESH_DEBOUNCE_def Let_def split: if_splits)
  have timer: "waits_for ?s v (rs_now st + 180)" if "v \<in> rs_timer ?s" for v
    using that inv w new by (auto simp: refresh_inv_def schedule_workspace_status_refresh_def Let_def split: if_splits)
  have sleep: "u \<le> rs_now st + 180" if "RtSleeping v u \<in> set (rs_tasks ?s)" for v u
    using that inv by (auto simp: refresh_inv_def schedule_workspace_status_refresh_def Let_def split: if_splits)
  have "rs_now ?s = rs_now st" "rs_suspended ?s = rs_suspended st"
    by (simp_all add: schedule_workspace_status_refresh_def Let_def)
  then show ?thesis unfolding refresh_inv_def using due timer sleep by metis
qed

lemma refresh_ready_simps [simp]:
  "rs_now (fst (refresh_ready w st)) = rs_now st" "rs_suspended (fst (refresh_ready w st)) = rs_suspended st"
  "rs_due (fst (refresh_ready w st)) = rs_due st" "rs_timer (fst (refresh_ready w st)) = rs_timer st - {w}"
  "RtSleeping v u \<notin> set (snd (refresh_ready w st))"
  by (auto simp: refresh_ready_def Let_def split: option.splits if_splits)

lemma inv_task_step:
  assumes "task_step st st'" "refresh_inv st"
  shows "refresh_inv st'"
  using assms
proof (induction rule: task_step.induct)
  case (ts_top st xs w ys)
  show ?case
  proof (cases "rs_due st w")
    case None
    then have "(rs_due st)(w := None) = rs_due st" by (simp add: fun_upd_idem)
    then show ?thesis using None by (intro inv_task_gone [OF ts_top(2,1), of w]) (simp_all add: refresh_top_def)
  next
    case (Some d)
    then show ?thesis using inv_task_sleeps [OF ts_top(2,1) _ Some] by (simp add: refresh_top_def)
  qed
next
  case (ts_wake st xs w t ys)
  show ?case
  proof (cases "rs_due st w")
    case None
    then have "(rs_due st)(w := None) = rs_due st" by (simp add: fun_upd_idem)
    then show ?thesis using None by (intro inv_task_gone [OF ts_wake(3,1), of w]) (simp_all add: refresh_wake_def)
  next
    case (Some d)
    show ?thesis
    proof (cases "d > rs_now st")
      case True
      then show ?thesis using inv_task_sleeps [OF ts_wake(3,1) _ Some] Some by (simp add: refresh_wake_def refresh_top_def)
    next
      case False
      then show ?thesis using Some by (intro inv_task_gone [OF ts_wake(3,1), of w]) (simp_all add: refresh_wake_def)
    qed
  qed
next
  case (ts_done st xs x ys result)
  let ?r = "refresh_done result st"
  have r: "rs_now (fst ?r) = rs_now st" "rs_due (fst ?r) = rs_due st" "rs_timer (fst ?r) = rs_timer st"
    "rs_suspended (fst ?r) = rs_suspended st" "snd ?r = []"
    by (auto simp: refresh_done_def split: option.splits)
  have w: "waits_for (at_refresh xs ys ?r) v e" if "waits_for st v e" for v e
    by (rule waits_other [OF that ts_done(1)]) (simp_all add: r)
  show ?case using ts_done(1,3) w r unfolding refresh_inv_def by auto
qed

lemma refresh_run_inv: "refresh_run ws st \<Longrightarrow> refresh_inv st"
proof (induction rule: refresh_run.induct)
  case fr_start
  show ?case by (simp add: refresh_inv_def refresh_start_def)
qed (simp_all add: inv_later inv_schedule inv_suspend inv_resume inv_reload inv_task_step)

text \<open>A task that wakes when the refresh is due starts to read.\<close>

lemma wake_reads:
  assumes "rs_tasks st = xs @ RtSleeping w t # ys" "t \<le> rs_now st" "rs_due st w = Some d" "d \<le> rs_now st" "w \<notin> rs_suspended st"
    "find (\<lambda>x. wm_id x = w) (rs_workspaces st) = Some x"
  shows "\<exists>st'. task_step st st' \<and> RtReading x \<in> set (rs_tasks st') \<and> rs_due st' w = None"
  using ts_wake [OF assms(1,2)] assms(3-)
  by (intro exI [of _ "at_refresh xs ys (refresh_wake w st)"]) (simp add: refresh_wake_def refresh_ready_def Let_def)

text \<open>C38. No change of a workspace's files is forgotten: in every run, however changes, suspensions, reloads and other tasks
  fall between, once the time for which a refresh is due has come and the workspace is still listed, at most
  two steps of a task that exists lead to one that reads its status.\<close>

theorem change_is_refreshed:
  assumes "refresh_run ws st" "rs_due st w = Some d" "d \<le> rs_now st"
    "find (\<lambda>x. wm_id x = w) (rs_workspaces st) = Some x"
  shows "\<exists>st' st''. (st' = st \<or> task_step st st') \<and> task_step st' st'' \<and> RtReading x \<in> set (rs_tasks st'') \<and> rs_due st'' w = None"
proof -
  have inv: "w \<notin> rs_suspended st" "waits_for st w d" using refresh_run_inv [OF assms(1)] assms(2) by (auto simp: refresh_inv_def)
  then consider "RtTop w \<in> set (rs_tasks st)" | t where "RtSleeping w t \<in> set (rs_tasks st)" "t \<le> rs_now st"
    using assms(3) by (auto simp: waits_for_def)
  then show ?thesis
  proof cases
    case 1
    then obtain xs ys where tasks: "rs_tasks st = xs @ RtTop w # ys" by (meson split_list)
    let ?s = "at_refresh xs ys (refresh_top w st)"
    have "rs_tasks ?s = xs @ RtSleeping w (rs_now st) # ys" using assms(2,3) by (simp add: refresh_top_def)
    then have "\<exists>st''. task_step ?s st'' \<and> RtReading x \<in> set (rs_tasks st'') \<and> rs_due st'' w = None"
      using assms inv(1) by (intro wake_reads [of ?s xs w "rs_now st" ys d]) (simp_all add: refresh_top_def)
    then show ?thesis using ts_top [OF tasks] by blast
  next
    case 2
    then show ?thesis using wake_reads assms inv(1) by (metis split_list)
  qed
qed

theorem change_is_refreshed_witness:
  "\<exists>st' st''. task_step st' st'' \<and> RtReading (demo_workspace [65] [47, 65] 5) \<in> set (rs_tasks st'')"
proof -
  let ?x = "demo_workspace [65] [47, 65] 5"
  let ?s = "schedule_workspace_status_refresh [65] (refresh_start [?x])"
  let ?t = "?s\<lparr>rs_now := rs_now ?s + 180\<rparr>"
  have run: "refresh_run [?x] ?t" by (rule fr_time [OF fr_change [OF fr_start]])
  have "rs_due ?t [65] = Some 180" "180 \<le> rs_now ?t" "find (\<lambda>x. wm_id x = [65]) (rs_workspaces ?t) = Some ?x"
    by (simp_all add: schedule_workspace_status_refresh_def refresh_start_def WORKSPACE_STATUS_REFRESH_DEBOUNCE_def Let_def demo_workspace_def)
  from change_is_refreshed [OF run this] show ?thesis by blast
qed

end
