(* ===== verification/Spec2Isabelle.thy ===== *)
theory Spec2Isabelle
  imports Screen_Props Wide Control_Props Layout_Props Runtime_Props Selection_Props Store_Schema App_Tasks_Props
begin

text \<open>
  \<^bold>\<open>octty: a terminal workspace and its session server\<close>

  octty shows workspaces of panes; a terminal pane is a session of \<open>retach\<close>, a server that keeps a
  pseudo-terminal and the screen of the program in it while clients come and go. This development models
  the logic of that program under \<open>src/crates/\<close>; Rust functions keep their names where HOL allows it.

  \<^bold>\<open>The parts and how they interact.\<close> A session's reader thread feeds the bytes of the pseudo-terminal to a
  screen emulator (parser events, performer, grid of cells, style table). The relay of an attached client
  renders the screen through a cache and sends messages in length-prefixed frames; the client writes them
  to its terminal, and sends typed input back through a filter. The registry maps names to sessions. On
  the application's side a workspace has a layout of columns of panes and an activity per pane. A live
  terminal's thread feeds the output of its program (the retach client) to a terminal of the Ghostty
  library and sends snapshots of it; the application coalesces them, presents them and paints the rows
  that changed. What workspaces there are comes from \<open>jj\<close> and from a database: the application loads both at
  the start and after each request, and its background tasks write activities and read statuses again.

  \<^bold>\<open>Theories\<close>, with the files they model (below \<open>src/crates/\<close>):
  \<^item> \<open>Prelude\<close>: machine integers as naturals with wrapping and saturating operations written out, panics
    as \<open>None\<close>, the predicate \<open>ok P m\<close> (no panic, and the result satisfies \<open>P\<close>).
  \<^item> \<open>Utf8\<close>: UTF-8 encoding and validity, slicing strings, decimal numerals.
  \<^item> \<open>Style\<close>, \<open>Style_Table\<close> (\<open>retach-octty/src/screen/style.rs\<close>): styles, the SGR writers and interpreter,
    the interning table; \<open>Sgr_Roundtrip\<close>: what is written for a style is read back as that style.
  \<^item> \<open>Cell\<close> (\<open>cell.rs\<close>), \<open>Grid\<close> (\<open>grid.rs\<close>), \<open>Performer\<close> (\<open>performer.rs\<close>, state of \<open>mod.rs\<close>), \<open>Screen\<close> (\<open>mod.rs\<close>),
    \<open>Render\<close> (\<open>render.rs\<close>): the emulator; \<open>Grid_Inv\<close>, \<open>Performer_Inv\<close>: the invariant and that every operation
    keeps it without a panic; \<open>Alt_Screen\<close> (runs that stay on the alternate screen), \<open>Render_Props\<close>, \<open>Screen_Props\<close>, \<open>Wide\<close>: the
    properties.
  \<^item> \<open>Codec\<close> (\<open>protocol/codec.rs\<close>, \<open>messages.rs\<close>): frames, and the interface \<open>framed_reader\<close> of a reader that
    may be fed in any chunks, with the proof that a loop over it sees the parsed stream.
  \<^item> \<open>Session\<close> (\<open>session.rs\<close>), \<open>Server\<close> (\<open>server/session_setup.rs\<close>, \<open>session_bridge.rs\<close>, \<open>session_relay.rs\<close>,
    \<open>client_handler.rs\<close>), \<open>Client\<close> (\<open>client/mod.rs\<close>): sessions, registry, relays; \<open>Session_Props\<close>, \<open>End_To_End\<close>.
  \<^item> \<open>Core_Types\<close>, \<open>Layout\<close> (\<open>octty-core/src/types.rs\<close>, \<open>layout.rs\<close>, \<open>shortcuts.rs\<close>): the workspace's data;
    \<open>Activity\<close>, \<open>Layout_Props\<close>: the properties of activities and of layouts.
  \<^item> \<open>Rust_Text\<close>: the text functions of the standard library. \<open>Osc_Filter\<close>, \<open>Osc_Props\<close>
    (\<open>octty-term/src/live_notifications.rs\<close>): notification sequences. \<open>Retach_Launch\<close>, \<open>Launch_Props\<close>, \<open>Control\<close>,
    \<open>Control_Props\<close> (\<open>octty-term/src/retach.rs\<close>): command lines, names, the control client and its captures.
  \<^item> \<open>Live_Snapshot\<close> (\<open>octty-term/src/live_types.rs\<close>, \<open>live_snapshot.rs\<close>), \<open>Live_Runtime\<close> (\<open>live_runtime.rs\<close>, \<open>live_input.rs\<close>):
    the snapshots of a live terminal and its thread, \<open>tick\<close> being one turn of the loop; \<open>Runtime_Props\<close>.
  \<^item> \<open>Live_Pane\<close> (\<open>octty-app/src/terminal_state.rs\<close>, \<open>app_live_terminals.rs\<close>), \<open>Terminal_Paint\<close> (\<open>terminal_render_grid.rs\<close>,
    \<open>terminal_render_paint.rs\<close>): how the application drains, presents and paints snapshots; \<open>Paint_Props\<close>, \<open>Live_View\<close>.
  \<^item> \<open>Selection\<close>, \<open>Selection_Props\<close> (\<open>octty-app/src/terminal_selection.rs\<close>, \<open>app_panes.rs\<close>): selecting and pasting.
  \<^item> \<open>Store_Codecs\<close>, \<open>Store\<close> (\<open>octty-store/src/\<close>): the values of columns, and every statement, transaction and
    listing on tables as lists of rows; \<open>Store_Props\<close>: the interface \<open>stored_table\<close> of a table that stands for
    a list of records, interpreted on each table, and the invariant of every history of operations;
    \<open>Store_Schema\<close> (\<open>migrations.rs\<close>): the migration of older databases.
  \<^item> \<open>Jj\<close>, \<open>Jj_Props\<close> (\<open>octty-jj/src/lib.rs\<close>): the commands that are run and the parsers of their output.
  \<^item> \<open>Bootstrap\<close>, \<open>Bootstrap_Props\<close> (\<open>octty-app/src/bootstrap.rs\<close>, \<open>workspace.rs\<close>): loading, and the requests that change
    workspaces, as actions on a world of the store and what is outside it.
  \<^item> \<open>App_Tasks\<close>, \<open>App_Tasks_Props\<close> (\<open>octty-app/src/app_activity.rs\<close>, \<open>app_workspace_status.rs\<close>): the background tasks as step
    relations: writing activities, the reconciliation, the refresh of statuses.

  \<^bold>\<open>How code is represented.\<close> A struct is a record, an enum a datatype. A mutable borrow is a state passed and
  returned. A panic (index, slice, \<open>unwrap\<close>) is \<open>None\<close>; an \<open>Err\<close> is \<open>Inl\<close>. A \<open>String\<close> is a list of characters
  (\<open>rtext\<close>) or its UTF-8 bytes (\<open>rstring\<close>), as the code uses it. Locks and threads are explicit orders of
  steps: what another thread does between two locks is a parameter or a step of a relation. An
  asynchronous read is an element of a list of reads; a loop that still waits at the end of the list
  returns \<open>Waiting\<close>.

  \<^bold>\<open>Parameters\<close> (code outside \<open>src/\<close>): the \<open>vte\<close> parser (\<open>adv\<close>, a state machine from bytes to events), the
  width table (\<open>wd\<close>), the row hashes (\<open>hash\<close>, \<open>row_hash\<close>), the Ghostty terminal (\<open>vt_ops\<close>, and \<open>render_frame\<close> for what it
  renders), colour conversions in \<open>f32\<close> (\<open>paint_ops\<close>), \<open>bincode\<close> (\<open>ser\<close>, \<open>de\<close>; \<open>codec_ok\<close> says that a message is read back and
  fits a frame), the pseudo-terminal (\<open>spawn_pty\<close>, the outcome of a resize) and the clock. On the side of the
  workspaces: the JSON codings (\<open>bookmark_codec\<close>, \<open>snapshot_codec\<close>; \<open>codecs_ok\<close> says that they are read back), the
  database's failures (\<open>fault\<close>: how many statements it executes before it fails), the \<open>jj\<close> program with the
  canonical paths (\<open>jj_ops\<close>), and directories, files, sessions and time (\<open>app_env\<close>).

  \<^bold>\<open>What the lemmas show.\<close> The emulator never panics on a reachable screen except for one title of more
  than 4096 bytes, and keeps its invariant and its bounds (\<open>Screen_Props\<close>); leaving the alternate screen restores
  the main one; scrolling refines a bounded queue; rendering twice sends nothing and the two renderers
  agree; styles survive garbage collection and the SGR round trip. Typed input reaches the child, and the
  screen reaches the client, for every split of the streams into reads. The presence flag of a session is
  right while guards are dropped atomically, and a race is exhibited when they are not. The rows an
  application paints from its caches are those of a painting from scratch, under the condition that row
  hashes tell rows apart and that no deferred snapshot is overwritten; \<open>deferred_damage_lost\<close> shows what
  happens otherwise. A change of a live terminal is sent within 33 ms. A launched terminal gets exactly its
  command and parameters, and a pasted path is one word of the shell. Every row the store lists is read back, whatever operations and failures came
  before; renaming is atomic, deleting can be repeated, a migration loses nothing. Loading shows what \<open>jj\<close>
  lists with what the store remembers, and fails for good when a workspace was renamed outside
  (\<open>load_fails_after_rename\<close>). Recorded activities reach the store and due refreshes are read while
  nothing interferes; the reconciliation, closing a pane and renaming can interfere (\<open>reconcile_forgets_seen\<close>,
  \<open>closed_pane_returns\<close>, \<open>renamed_pane_left\<close>).

  \<^bold>\<open>Bounds and fuel.\<close> No definition needs fuel: loops recurse on their input, and \<open>while_msgs\<close>, the only
  loop without a structural bound, is a \<open>partial_function\<close> shown to return in \<open>framed_reader\<close>.

  \<^bold>\<open>Not modelled.\<close> Windows, key events and drawing on the GPUI library, opening the database, reading codex
  sessions and shell configurations, the start of a live terminal, the watcher of files, process, socket and
  terminal set-up, parsing the command line: calls into libraries and the system. The rounding of \<open>f64\<close> in the
  layout. Errors of writing to a pseudo-terminal, and mutexes that a panic has poisoned. Where the source
  releases a lock or waits between two steps that a definition takes as one, its text says so.
\<close>

end
